(* ===== verification/Go_Prelude.thy ===== *)
theory Go_Prelude
  imports Main "HOL-Library.AList" "HOL-Library.Sublist"
begin

text \<open>
  What the Go sources use of the language and of its standard library, shared by every
  component: the named theorem collections, 64-bit integers, ASCII case folding, decimal
  printing, the \<open>strings\<close> functions and Go maps.

  A Go \<open>string\<close> is a list of bytes, here a \<^typ>\<open>string\<close>. A Go map whose iteration order the
  code does not use is an association list with distinct keys (\<^term>\<open>distinct (map fst m)\<close>);
  its order stands for the order an iteration meets the entries in.
\<close>

named_theorems go_defs \<open>definitions of library functions the component proofs unfold\<close>
named_theorems row_simps \<open>what reading a field of an updated document gives\<close>
named_theorems ledger_simps \<open>what the ledger's operations do to its reservations\<close>

section \<open>Integers of 64 bits\<close>

text \<open>
  An \<open>int64\<close> sum or product wraps around; \<^term>\<open>int64\<close> reads the low 64 bits of a
  mathematical integer as two's complement.
\<close>

definition int64 :: "int \<Rightarrow> int" where
  "int64 x = (x + 2 ^ 63) mod 2 ^ 64 - 2 ^ 63"

definition in_int64 :: "int \<Rightarrow> bool" where
  "in_int64 x \<longleftrightarrow> - (2 ^ 63) \<le> x \<and> x < 2 ^ 63"

lemma int64_id [simp]: "in_int64 x \<Longrightarrow> int64 x = x"
  by (simp add: int64_def in_int64_def mod_pos_pos_trivial)

lemma in_int64_int64 [simp]: "in_int64 (int64 x)"
  by (simp add: int64_def in_int64_def)

lemma int64_add_left [simp]: "int64 (int64 a + b) = int64 (a + b)"
  by (simp add: int64_def mod_simps algebra_simps)

lemma int64_add_right [simp]: "int64 (a + int64 b) = int64 (a + b)"
  by (metis int64_add_left add.commute)

lemma int64_diff_left [simp]: "int64 (int64 a - b) = int64 (a - b)"
  using int64_add_left [of a "- b"] by simp

lemma int64_0 [simp]: "int64 0 = 0"
  by (simp add: in_int64_def)

text \<open>A loop that adds into an \<open>int64\<close> wraps once, whatever the order of the additions.\<close>

lemma foldl_int64: "foldl (\<lambda>acc x. int64 (acc + f x)) (int64 a) xs = int64 (a + sum_list (map f xs))"
  by (induction xs arbitrary: a) (simp_all add: add.assoc)

lemma foldl_pair_int64:
  "foldl (\<lambda>(a, b) x. (int64 (a + f x), int64 (b + g x))) (int64 a, int64 b) xs
    = (int64 (a + sum_list (map f xs)), int64 (b + sum_list (map g xs)))"
  by (induction xs arbitrary: a b) (simp_all add: add.assoc)

text \<open>\<open>cmp.Or\<close> on integers: the first of the two that is not zero.\<close>

definition cmp_or :: "int \<Rightarrow> int \<Rightarrow> int" where
  "cmp_or a b = (if a \<noteq> 0 then a else b)"

text \<open>\<open>cmp.Or\<close> on strings: the first of the two that is not empty.\<close>

definition str_or :: "string \<Rightarrow> string \<Rightarrow> string" where
  "str_or a b = (if a \<noteq> [] then a else b)"

section \<open>Errors\<close>

text \<open>
  A fallible call returns \<^term>\<open>Inl e\<close> for its error or \<^term>\<open>Inr v\<close>; \<open>and_then\<close> is the
  \<open>if err != nil { return err }\<close> between two of them.
\<close>

fun and_then :: "'e + 'a \<Rightarrow> ('a \<Rightarrow> 'e + 'b) \<Rightarrow> 'e + 'b" where
  "and_then (Inl e) f = Inl e"
| "and_then (Inr a) f = f a"

lemma and_then_Inr: "and_then r f = Inr b \<longleftrightarrow> (\<exists>a. r = Inr a \<and> f a = Inr b)"
  by (cases r) auto

section \<open>Strings\<close>

text \<open>
  \<open>strings.ToLower\<close> and \<open>strings.EqualFold\<close> on the ASCII names the code compares with them
  (repository names, labels and logins).
\<close>

definition lower_char :: "char \<Rightarrow> char" where
  "lower_char c = (let n = of_char c :: nat in if 65 \<le> n \<and> n \<le> 90 then char_of (n + 32) else c)"

definition to_lower :: "string \<Rightarrow> string" where
  "to_lower s = map lower_char s"

definition equal_fold :: "string \<Rightarrow> string \<Rightarrow> bool" where
  "equal_fold a b \<longleftrightarrow> to_lower a = to_lower b"

lemma equal_fold_refl [simp]: "equal_fold a a"
  by (simp add: equal_fold_def)

lemma equal_fold_sym: "equal_fold a b \<longleftrightarrow> equal_fold b a"
  by (auto simp: equal_fold_def)

lemma equal_fold_trans: "equal_fold a b \<Longrightarrow> equal_fold b c \<Longrightarrow> equal_fold a c"
  by (simp add: equal_fold_def)

text \<open>\<open>strings.CutPrefix\<close> and \<open>strings.CutSuffix\<close>: the rest, and whether it was cut.\<close>

definition cut_prefix :: "string \<Rightarrow> string \<Rightarrow> string \<times> bool" where
  "cut_prefix s p = (if prefix p s then (drop (length p) s, True) else (s, False))"

definition cut_suffix :: "string \<Rightarrow> string \<Rightarrow> string \<times> bool" where
  "cut_suffix s q = (if suffix q s then (take (length s - length q) s, True) else (s, False))"

lemma cut_prefix_append [simp]: "cut_prefix (p @ s) p = (s, True)"
  by (simp add: cut_prefix_def)

lemma cut_suffix_append [simp]: "cut_suffix (s @ q) q = (s, True)"
  by (simp add: cut_suffix_def suffix_def)

text \<open>
  \<open>strings.Cut\<close>: the text before and after the first occurrence of the separator, and
  whether it occurs; without one, the whole text and the empty string.
\<close>

fun cut :: "string \<Rightarrow> string \<Rightarrow> string \<times> string \<times> bool" where
  "cut [] sep = (if sep = [] then ([], [], True) else ([], [], False))"
| "cut (c # cs) sep =
     (if prefix sep (c # cs) then ([], drop (length sep) (c # cs), True)
      else (case cut cs sep of (before, after, found) \<Rightarrow> (c # before, after, found)))"

lemma cut_not_found:
  assumes "x \<notin> set s"
  shows "cut s (x # sep) = (s, [], False)"
  using assms by (induction s) auto

lemma cut_found:
  assumes "x \<notin> set s"
  shows "cut (s @ (x # sep) @ t) (x # sep) = (s, t, True)"
  using assms by (induction s) auto

section \<open>Decimal printing\<close>

text \<open>\<open>strconv.Itoa\<close>.\<close>

fun itoa_nat :: "nat \<Rightarrow> string" where
  "itoa_nat n = (if n < 10 then [char_of (48 + n)] else itoa_nat (n div 10) @ [char_of (48 + n mod 10)])"

declare itoa_nat.simps [simp del]

definition itoa :: "int \<Rightarrow> string" where
  "itoa n = (if n < 0 then CHR ''-'' # itoa_nat (nat (- n)) else itoa_nat (nat n))"

definition is_digit :: "char \<Rightarrow> bool" where
  "is_digit c \<longleftrightarrow> 48 \<le> (of_char c :: nat) \<and> (of_char c :: nat) \<le> 57"

lemma itoa_nat_digits: "list_all is_digit (itoa_nat n)"
proof (induction n rule: itoa_nat.induct)
  case (1 n)
  then show ?case
    by (subst itoa_nat.simps) (auto simp: list_all_iff is_digit_def)
qed

text \<open>The value a decimal text stands for, by which printing is one-to-one.\<close>

definition digits_val :: "string \<Rightarrow> nat" where
  "digits_val s = foldl (\<lambda>v c. 10 * v + (of_char c - 48)) 0 s"

lemma digits_val_itoa_nat [simp]: "digits_val (itoa_nat n) = n"
proof (induction n rule: itoa_nat.induct)
  case (1 n)
  show ?case
  proof (cases "n < 10")
    case True
    then show ?thesis
      by (subst itoa_nat.simps) (simp add: digits_val_def of_char_of)
  next
    case False
    with 1 have "digits_val (itoa_nat (n div 10)) = n div 10" by simp
    with False show ?thesis
      by (subst itoa_nat.simps) (simp add: digits_val_def of_char_of)
  qed
qed

lemma itoa_nat_inj: "itoa_nat m = itoa_nat n \<Longrightarrow> m = n"
  by (metis digits_val_itoa_nat)

lemma itoa_not_hash: "CHR ''#'' \<notin> set (itoa n)"
  using itoa_nat_digits [of "nat n"] itoa_nat_digits [of "nat (- n)"]
  by (auto simp: itoa_def is_digit_def list_all_iff)

lemma itoa_nat_no_sign: "itoa_nat n \<noteq> CHR ''-'' # t"
proof
  assume "itoa_nat n = CHR ''-'' # t"
  with itoa_nat_digits [of n] have "is_digit (CHR ''-'')" by simp
  then show False by (simp add: is_digit_def)
qed

lemma itoa_inj: "itoa m = itoa n \<Longrightarrow> m = n"
  using itoa_nat_no_sign itoa_nat_no_sign [symmetric]
  by (auto simp: itoa_def dest!: itoa_nat_inj split: if_splits)

section \<open>Maps\<close>

text \<open>
  What the code relies on of a Go map: an assignment and a \<open>delete\<close> change one key, and an
  iteration meets every entry once, so a sum over it adds what an assignment of an absent key
  adds and loses what a deletion drops.
\<close>

locale go_map =
  fixes get :: "'m \<Rightarrow> 'k \<Rightarrow> 'v option"
    and put :: "'k \<Rightarrow> 'v \<Rightarrow> 'm \<Rightarrow> 'm"
    and del :: "'k \<Rightarrow> 'm \<Rightarrow> 'm"
    and total :: "('v \<Rightarrow> int) \<Rightarrow> 'm \<Rightarrow> int"
    and valid :: "'m \<Rightarrow> bool"
  assumes get_put: "valid m \<Longrightarrow> get (put k v m) j = (if j = k then Some v else get m j)"
    and get_del: "valid m \<Longrightarrow> get (del k m) j = (if j = k then None else get m j)"
    and valid_put: "valid m \<Longrightarrow> valid (put k v m)"
    and valid_del: "valid m \<Longrightarrow> valid (del k m)"
    and total_put_new: "valid m \<Longrightarrow> get m k = None \<Longrightarrow> total f (put k v m) = total f m + f v"
    and total_del: "valid m \<Longrightarrow> get m k = Some v \<Longrightarrow> total f (del k m) = total f m - f v"
    and del_absent: "valid m \<Longrightarrow> get m k = None \<Longrightarrow> del k m = m"
begin

lemma total_put_del:
  assumes "valid m" and "get m k = None"
  shows "total f (del k (put k v m)) = total f m"
  using assms by (simp add: get_put valid_put total_put_new total_del)

lemma get_put_del:
  assumes "valid m" and "get m k = None"
  shows "get (del k (put k v m)) j = get m j"
  using assms by (simp add: get_put get_del valid_put)

lemma total_del_le:
  assumes "valid m" and "\<And>v. 0 \<le> f v"
  shows "total f (del k m) \<le> total f m"
proof (cases "get m k")
  case None
  then show ?thesis using assms by (simp add: del_absent)
next
  case (Some v)
  then show ?thesis using assms by (simp add: total_del)
qed

end

text \<open>The association lists the components hold their maps in keep that contract.\<close>

definition keyed :: "('k \<times> 'v) list \<Rightarrow> bool" where
  "keyed m \<longleftrightarrow> distinct (map fst m)"

definition map_total :: "('v \<Rightarrow> int) \<Rightarrow> ('k \<times> 'v) list \<Rightarrow> int" where
  "map_total f m = (\<Sum>e\<leftarrow>m. f (snd e))"

lemma map_total_simps [simp]:
  "map_total f [] = 0"
  "map_total f (e # m) = f (snd e) + map_total f m"
  by (simp_all add: map_total_def)

lemma keyed_simps [simp]:
  "keyed []"
  "keyed (e # m) \<longleftrightarrow> fst e \<notin> fst ` set m \<and> keyed m"
  by (simp_all add: keyed_def)

lemma map_total_update_new:
  "map_of m k = None \<Longrightarrow> map_total f (AList.update k v m) = map_total f m + f v"
  by (induction m) auto

lemma delete_absent: "map_of m k = None \<Longrightarrow> AList.delete k m = m"
  by (induction m) auto

lemma map_total_delete:
  "keyed m \<Longrightarrow> map_of m k = Some v \<Longrightarrow> map_total f (AList.delete k m) = map_total f m - f v"
proof (induction m)
  case (Cons e m)
  then show ?case
    by (cases e) (auto simp: delete_absent map_of_eq_None_iff)
qed simp

lemma length_update_new: "map_of m k = None \<Longrightarrow> length (AList.update k v m) = Suc (length m)"
  by (induction m) auto

lemma keyed_update [simp]: "keyed m \<Longrightarrow> keyed (AList.update k v m)"
  by (simp add: keyed_def distinct_update)

lemma keyed_delete [simp]: "keyed m \<Longrightarrow> keyed (AList.delete k m)"
  by (simp add: keyed_def distinct_delete)

lemma map_of_update [simp]: "map_of (AList.update k v m) j = (if j = k then Some v else map_of m j)"
  by (simp add: update_conv')

lemma map_of_delete [simp]: "map_of (AList.delete k m) j = (if j = k then None else map_of m j)"
  by (simp add: delete_conv')

text \<open>A map filled from entries that never disagree on a key holds each of them once.\<close>

definition collect :: "('k \<times> 'v) list \<Rightarrow> ('k \<times> 'v) list \<Rightarrow> ('k \<times> 'v) list" where
  "collect m es = foldl (\<lambda>m e. AList.update (fst e) (snd e) m) m es"

lemma keyed_collect: "keyed m \<Longrightarrow> keyed (collect m es)"
  unfolding collect_def by (induction es arbitrary: m) simp_all

lemma keyed_set: "keyed m \<Longrightarrow> set m = {(k, v). map_of m k = Some v}"
  by (auto simp: keyed_def)

lemma map_of_collect:
  assumes "\<And>k v. (k, v) \<in> set es \<Longrightarrow> R k = Some v"
  shows "map_of (collect m es) k = (if k \<in> fst ` set es then R k else map_of m k)"
  using assms
proof (induction es arbitrary: m)
  case (Cons e es)
  have e: "R (fst e) = Some (snd e)" using Cons.prems [of "fst e" "snd e"] by simp
  show ?case using Cons.IH [OF Cons.prems, of "AList.update (fst e) (snd e) m"] e
    by (auto simp: collect_def)
qed (simp add: collect_def)

lemma set_collect:
  assumes "\<And>k v. (k, v) \<in> set es \<Longrightarrow> R k = Some v"
  shows "set (collect [] es) = set es"
proof -
  have "keyed (collect [] es)" by (simp add: keyed_collect)
  then have "set (collect [] es) = {(k, v). k \<in> fst ` set es \<and> R k = Some v}"
    by (subst keyed_set) (force simp: map_of_collect [OF assms] split: if_splits)+
  also have "\<dots> = set es" using assms by force
  finally show ?thesis .
qed

lemma keyed_distinct: "keyed m \<Longrightarrow> distinct m"
  by (simp add: keyed_def distinct_map)

interpretation alist: go_map map_of AList.update AList.delete map_total keyed
  by unfold_locales (auto simp: map_total_update_new map_total_delete delete_absent)

end
