(* ===== verification/Go_Time.thy ===== *)
theory Go_Time
  imports Go_Prelude
begin

text \<open>
  Go's \<open>time.Time\<close> and \<open>time.Duration\<close> as the code uses them: both an integer number of
  nanoseconds, a time counted from Go's zero time (1 January of year 1, UTC), so that
  \<open>IsZero\<close> is \<open>t = 0\<close>, \<open>Before\<close> and \<open>After\<close> are \<open><\<close> and \<open>>\<close>, \<open>Add\<close> is \<open>+\<close> and
  \<open>Truncate\<close> drops the remainder since the zero time. The civil calendar is the
  proleptic Gregorian one \<open>time.Date\<close> reads; only the start of a month is needed.
\<close>

type_synonym time = int
type_synonym duration = int

abbreviation (input) is_zero :: "time \<Rightarrow> bool" where
  "is_zero t \<equiv> t = 0"

definition minute :: duration where
  "minute = 60000000000"

definition hour :: duration where
  "hour = 60 * minute"

definition day :: duration where
  "day = 24 * hour"

text \<open>\<open>Time.Truncate\<close>: a period of at most zero leaves the time as it is.\<close>

definition truncate_time :: "time \<Rightarrow> duration \<Rightarrow> time" where
  "truncate_time t d = (if d \<le> 0 then t else t - t mod d)"

lemma truncate_time_le: "truncate_time t d \<le> t"
  by (simp add: truncate_time_def)

lemma truncate_time_within: "0 < d \<Longrightarrow> t < truncate_time t d + d"
  by (simp add: truncate_time_def)

section \<open>The civil calendar\<close>

text \<open>
  Years are counted from 0 for year 1, and month \<open>k\<close> is month \<open>k mod 12\<close> (January is 0) of
  year \<open>k div 12\<close>.
\<close>

definition leap :: "nat \<Rightarrow> bool" where
  "leap y \<longleftrightarrow> (y + 1) mod 4 = 0 \<and> ((y + 1) mod 100 \<noteq> 0 \<or> (y + 1) mod 400 = 0)"

definition days_before_year :: "nat \<Rightarrow> nat" where
  "days_before_year y = 365 * y + y div 4 + y div 400 - y div 100"

definition month_days :: "nat \<Rightarrow> nat" where
  "month_days k = (if k mod 12 = 1 then (if leap (k div 12) then 29 else 28)
     else if k mod 12 \<in> {3, 5, 8, 10} then 30 else 31)"

definition days_before_month :: "nat \<Rightarrow> nat \<Rightarrow> nat" where
  "days_before_month y m = (\<Sum>i\<leftarrow>[0..<m]. month_days (12 * y + i))"

definition month_begin :: "nat \<Rightarrow> nat" where
  "month_begin k = days_before_year (k div 12) + days_before_month (k div 12) (k mod 12)"

lemma leap_dvd: "leap y \<longleftrightarrow> 4 dvd Suc y \<and> (\<not> 100 dvd Suc y \<or> 400 dvd Suc y)"
  by (simp add: leap_def dvd_eq_mod_eq_0)

lemma year_step:
  fixes a b c y :: nat
  assumes "c \<le> a" "k \<longrightarrow> j" "j \<longrightarrow> i"
  shows "365 * Suc y + (a + (if i then 1 else 0)) + (b + (if k then 1 else 0)) - (c + (if j then 1 else 0))
    = 365 * y + a + b - c + 365 + (if i \<and> (\<not> j \<or> k) then 1 else 0)"
proof -
  from assms(1) obtain e where a: "a = c + e" by (metis le_Suc_ex)
  show ?thesis
    unfolding a using assms(2,3) by (cases i; cases j; cases k) simp_all
qed

lemma days_before_year_Suc:
  "days_before_year (Suc y) = days_before_year y + 365 + (if leap y then 1 else 0)"
proof -
  have divs: "Suc y div 4 = y div 4 + (if 4 dvd Suc y then 1 else 0)"
    "Suc y div 100 = y div 100 + (if 100 dvd Suc y then 1 else 0)"
    "Suc y div 400 = y div 400 + (if 400 dvd Suc y then 1 else 0)"
    by (simp_all add: div_Suc dvd_eq_mod_eq_0)
  have "400 dvd Suc y \<longrightarrow> 100 dvd Suc y" "100 dvd Suc y \<longrightarrow> 4 dvd Suc y"
    by (auto elim!: dvd_trans [rotated])
  moreover have "y div 100 \<le> y div 4" by (simp add: div_le_mono2)
  ultimately show ?thesis
    unfolding days_before_year_def divs leap_dvd by (intro year_step)
qed

lemma days_before_month_Suc:
  "days_before_month y (Suc m) = days_before_month y m + month_days (12 * y + m)"
  by (simp add: days_before_month_def)

lemma month_days_in_year:
  "m < 12 \<Longrightarrow> month_days (12 * y + m) = (if m = 1 then (if leap y then 29 else 28)
     else if m \<in> {3, 5, 8, 10} then 30 else 31)"
proof -
  assume "m < 12"
  then have "(12 * y + m) div 12 = y" "(12 * y + m) mod 12 = m" by simp_all
  then show ?thesis by (simp only: month_days_def)
qed

lemma days_before_month_0 [simp]: "days_before_month y 0 = 0"
  by (simp add: days_before_month_def)

lemma days_before_month_12: "days_before_month y 12 = 365 + (if leap y then 1 else 0)"
proof -
  have "[0..<12] = [0, 1, 2, 3, 4, 5, 6, 7, 8, 9, 10, 11::nat]" by (simp add: upt_rec)
  then have "days_before_month y 12 =
      (\<Sum>i\<leftarrow>[0, 1, 2, 3, 4, 5, 6, 7, 8, 9, 10, 11]. month_days (12 * y + i))"
    by (simp only: days_before_month_def)
  also have "\<dots> = 365 + (if leap y then 1 else 0)"
    using month_days_in_year [of 0 y] month_days_in_year [of 1 y]
      month_days_in_year [of 2 y] by (simp add: month_days_in_year)
  finally show ?thesis .
qed

lemma month_begin_Suc: "month_begin (Suc k) = month_begin k + month_days k"
proof (cases "k mod 12 = 11")
  case True
  then have "Suc k div 12 = Suc (k div 12)" "Suc k mod 12 = 0"
    by (simp_all add: div_Suc mod_Suc)
  moreover have "12 * (k div 12) + 11 = k"
    using True by (metis mult_div_mod_eq)
  then have "days_before_month (k div 12) 12 = days_before_month (k div 12) 11 + month_days k"
    using days_before_month_Suc [of "k div 12" 11] by simp
  ultimately show ?thesis
    using True days_before_year_Suc [of "k div 12"] days_before_month_12 [of "k div 12"]
    by (simp add: month_begin_def)
next
  case False
  then have "Suc k div 12 = k div 12" "Suc k mod 12 = Suc (k mod 12)"
    by (auto simp: div_Suc mod_Suc)
  then show ?thesis by (simp add: month_begin_def days_before_month_Suc)
qed

lemma month_days_bounds: "28 \<le> month_days k" "month_days k \<le> 31"
  by (simp_all add: month_days_def)

lemma month_begin_less: "j < k \<Longrightarrow> month_begin j < month_begin k"
proof (induction k)
  case (Suc k)
  then show ?case
    using month_days_bounds(1) [of k] by (cases "j = k") (auto simp: month_begin_Suc)
qed simp

lemma month_begin_mono: "j \<le> k \<Longrightarrow> month_begin j \<le> month_begin k"
  using month_begin_less [of j k] by (cases "j = k") auto

lemma month_begin_le_31: "month_begin k \<le> 31 * k"
proof (induction k)
  case (Suc k)
  then show ?case using month_days_bounds(2) [of k] by (simp add: month_begin_Suc)
qed (simp add: month_begin_def days_before_year_def)

lemma leap_cycle: "leap (400 + y) = leap y"
proof -
  have "d dvd Suc (400 + y) \<longleftrightarrow> d dvd Suc y" if "d dvd 400" for d
    using that dvd_add_right_iff [of d 400 "Suc y"] by simp
  from this [of 4] this [of 100] this [of 400] have
    "4 dvd Suc (400 + y) \<longleftrightarrow> 4 dvd Suc y" "100 dvd Suc (400 + y) \<longleftrightarrow> 100 dvd Suc y"
    "400 dvd Suc (400 + y) \<longleftrightarrow> 400 dvd Suc y"
    by simp_all
  then show ?thesis by (simp only: leap_dvd)
qed

lemma month_days_cycle: "month_days (4800 + k) = month_days k"
proof -
  have "(12 * 400 + k) div 12 = 400 + k div 12" "(12 * 400 + k) mod 12 = k mod 12"
    by (rule div_mult_self4, simp) (rule mod_mult_self4)
  then have "(4800 + k) div 12 = 400 + k div 12" "(4800 + k) mod 12 = k mod 12" by simp_all
  then show ?thesis by (simp add: month_days_def leap_cycle)
qed

lemma month_begin_cycle: "month_begin (4800 + k) = 146097 + month_begin k"
proof (induction k)
  case 0
  show ?case by (simp add: month_begin_def days_before_year_def)
next
  case (Suc k)
  then show ?case
    using month_begin_Suc [of "4800 + k"] by (simp add: month_begin_Suc month_days_cycle)
qed

lemma month_begin_cycles: "month_begin (4800 * n + k) = 146097 * n + month_begin k"
proof (induction n)
  case (Suc n)
  have "month_begin (4800 * Suc n + k) = month_begin (4800 + (4800 * n + k))"
    by (simp add: algebra_simps)
  also have "\<dots> = 146097 * Suc n + month_begin k"
    using Suc by (simp only: month_begin_cycle) simp
  finally show ?case .
qed simp

text \<open>The month a day falls in: a search upwards from a month that begins no later.\<close>

function month_from :: "nat \<Rightarrow> nat \<Rightarrow> nat" where
  "month_from k d = (if month_begin (Suc k) \<le> d then month_from (Suc k) d else k)"
  by pat_completeness auto
termination
proof (relation "measure (\<lambda>(k, d). Suc d - month_begin k)", goal_cases)
  case (2 k d)
  then show ?case using month_begin_less [of k "Suc k"] by simp
qed simp

declare month_from.simps [simp del]

definition month_of_day :: "nat \<Rightarrow> nat" where
  "month_of_day d = month_from (4800 * (d div 146097) + d mod 146097 div 31) d"

definition month_start :: "time \<Rightarrow> time" where
  "month_start t = day * int (month_begin (month_of_day (nat (t div day))))"

lemma month_from_spec:
  "month_begin k \<le> d \<Longrightarrow> month_begin (month_from k d) \<le> d \<and> d < month_begin (Suc (month_from k d))"
proof (induction k d rule: month_from.induct)
  case (1 k d)
  then show ?case by (subst (1 2) month_from.simps) auto
qed

lemma month_of_day_spec:
  "month_begin (month_of_day d) \<le> d" "d < month_begin (Suc (month_of_day d))"
proof -
  have "month_begin (4800 * (d div 146097) + d mod 146097 div 31)
      \<le> 146097 * (d div 146097) + 31 * (d mod 146097 div 31)"
    using month_begin_le_31 [of "d mod 146097 div 31"] by (simp add: month_begin_cycles)
  also have "\<dots> \<le> 146097 * (d div 146097) + d mod 146097"
    by (intro add_left_mono) (rule times_div_less_eq_dividend)
  also have "\<dots> = d" by (rule mult_div_mod_eq)
  finally show "month_begin (month_of_day d) \<le> d" "d < month_begin (Suc (month_of_day d))"
    using month_from_spec by (simp_all add: month_of_day_def)
qed

lemma month_of_day_mono:
  assumes "d \<le> e"
  shows "month_of_day d \<le> month_of_day e"
proof (rule ccontr)
  assume "\<not> month_of_day d \<le> month_of_day e"
  then have "month_begin (Suc (month_of_day e)) \<le> month_begin (month_of_day d)"
    by (intro month_begin_mono) simp
  with assms month_of_day_spec(1) [of d] month_of_day_spec(2) [of e] show False by simp
qed

lemma day_pos: "0 < day"
  by (simp add: day_def hour_def minute_def)

lemma month_start_le: "0 \<le> t \<Longrightarrow> month_start t \<le> t"
proof -
  assume "0 \<le> t"
  then have "0 \<le> t div day" using day_pos by (simp add: pos_imp_zdiv_nonneg_iff)
  then have "int (month_begin (month_of_day (nat (t div day)))) \<le> t div day"
    using month_of_day_spec(1) [of "nat (t div day)"] by linarith
  then have "month_start t \<le> day * (t div day)"
    unfolding month_start_def using day_pos by (intro mult_left_mono) auto
  also have "\<dots> \<le> t"
    using day_pos by (metis mult.commute pos_mod_sign add_increasing2 div_mult_mod_eq order_refl)
  finally show ?thesis .
qed

lemma month_start_mono: "t \<le> u \<Longrightarrow> month_start t \<le> month_start u"
  unfolding month_start_def using day_pos
  by (intro mult_left_mono) (auto intro!: month_begin_mono month_of_day_mono nat_mono zdiv_mono1)

end
