(* ===== verification/Budget.thy ===== *)
theory Budget
  imports Go_Time
begin

text \<open>
  The budget ceilings of \<open>internal/dispatcher/budget.go\<close> and the money they are counted in
  (\<open>internal/money/money.go\<close>): windows, the configuration a poll admits against, and
  \<open>Decide\<close>, the check that a candidate's estimate fits every ceiling.
\<close>

section \<open>Windows and the budget configuration\<close>

text \<open>\<open>money.Micros\<close>: millionths of a dollar, an \<open>int64\<close> whose arithmetic wraps.\<close>

type_synonym micros = int

definition Dollar :: micros where
  "Dollar = 1000000"

record window =
  windowName :: string
  windowPeriod :: duration
  windowCalendar :: bool
  windowLimit :: micros

definition Since :: "window \<Rightarrow> time \<Rightarrow> time" where
  "Since w now = (if windowCalendar w then month_start now else now - windowPeriod w)"

record runner_minutes =
  freeMinutes :: int
  ratePerMinute :: micros

record budget_config =
  providerWindows :: "window list"
  modelCaps :: "(string \<times> window) list"
  cash :: window
  runnerMinutesCeiling :: runner_minutes
  providerFree :: bool

record reservation =
  resProviderCost :: micros
  resRunnerMinutes :: int
  resStage :: string
  resFiles :: "string list"

record totals =
  totalProviderCost :: micros
  totalRunnerMinutes :: int

record settled =
  settledWindows :: "micros list"
  settledModelCap :: micros
  settledCashCost :: micros
  settledCashMinutes :: int

definition CeilingRunnerMinutes :: string where
  "CeilingRunnerMinutes = ''runner-minutes''"

definition CeilingCash :: string where
  "CeilingCash = ''cash''"

definition CeilingProviderHalted :: string where
  "CeilingProviderHalted = ''provider-halted''"

section \<open>Decide\<close>

text \<open>
  The first provider window the estimate breaches. The settled cost of the \<open>i\<close>-th window is
  the \<open>i\<close>-th of the settled list, zero past its end.
\<close>

fun breached_window :: "window list \<Rightarrow> micros list \<Rightarrow> micros \<Rightarrow> micros \<Rightarrow> string option" where
  "breached_window [] ss reserved estimate = None"
| "breached_window (w # ws) ss reserved estimate =
     (let spent = (case ss of [] \<Rightarrow> 0 | s # _ \<Rightarrow> s) in
      if int64 (int64 (reserved + spent) + estimate) > windowLimit w then Some (windowName w)
      else breached_window ws (tl ss) reserved estimate)"

text \<open>What runner minutes past the free quota cost, or \<open>None\<close> when nothing may be spent on them.\<close>

definition runner_cost :: "runner_minutes \<Rightarrow> int \<Rightarrow> int \<Rightarrow> int \<Rightarrow> micros option" where
  "runner_cost cfg reserved settled estimate =
     (if estimate > 0 then
        let over = int64 (int64 (int64 (reserved + settled) + estimate) - freeMinutes cfg) in
        if over > 0 then (if ratePerMinute cfg \<le> 0 then None else Some (int64 (over * ratePerMinute cfg)))
        else Some 0
      else Some 0)"

definition provider_cash :: "budget_config \<Rightarrow> totals \<Rightarrow> settled \<Rightarrow> reservation \<Rightarrow> micros" where
  "provider_cash cfg reserved s estimate =
     (if providerWindows cfg = [] \<and> \<not> providerFree cfg
      then int64 (int64 (totalProviderCost reserved + settledCashCost s) + resProviderCost estimate)
      else 0)"

definition Decide :: "budget_config \<Rightarrow> string \<Rightarrow> totals \<Rightarrow> settled \<Rightarrow> reservation \<Rightarrow> bool \<times> string" where
  "Decide cfg model reserved s estimate =
     (case breached_window (providerWindows cfg) (settledWindows s)
             (totalProviderCost reserved) (resProviderCost estimate) of
        Some name \<Rightarrow> (False, name)
      | None \<Rightarrow>
        (case (case map_of (modelCaps cfg) model of
                 Some modelCap \<Rightarrow>
                   if int64 (int64 (totalProviderCost reserved + settledModelCap s) + resProviderCost estimate)
                      > windowLimit modelCap then Some (windowName modelCap) else None
               | None \<Rightarrow> None) of
           Some name \<Rightarrow> (False, name)
         | None \<Rightarrow>
           (case runner_cost (runnerMinutesCeiling cfg) (totalRunnerMinutes reserved)
                   (settledCashMinutes s) (resRunnerMinutes estimate) of
              None \<Rightarrow> (False, CeilingRunnerMinutes)
            | Some runnerCost \<Rightarrow>
              if int64 (provider_cash cfg reserved s estimate + runnerCost) > windowLimit (cash cfg)
              then (False, CeilingCash) else (True, ''''))))"

definition isProviderCeiling :: "budget_config \<Rightarrow> string \<Rightarrow> bool" where
  "isProviderCeiling cfg binding \<longleftrightarrow>
     (\<exists>w \<in> set (providerWindows cfg). windowName w = binding)
     \<or> (\<exists>w \<in> snd ` set (modelCaps cfg). windowName w = binding)"

definition lastResort :: "budget_config \<Rightarrow> budget_config" where
  "lastResort cfg = \<lparr>providerWindows = [], modelCaps = [], cash = cash cfg,
     runnerMinutesCeiling = runnerMinutesCeiling cfg, providerFree = True\<rparr>"

definition stillBinds ::
  "budget_config \<Rightarrow> string \<Rightarrow> totals \<Rightarrow> settled \<Rightarrow> reservation \<Rightarrow> string \<Rightarrow> bool" where
  "stillBinds cfg model reserved s estimate ceiling =
     (case Decide cfg model reserved s estimate of (fits, binding) \<Rightarrow> \<not> fits \<and> binding = ceiling)"

definition ceilingStart :: "budget_config \<Rightarrow> string \<Rightarrow> time \<Rightarrow> time option" where
  "ceilingStart cfg ceiling at =
     (if ceiling = CeilingCash \<or> ceiling = CeilingRunnerMinutes then Some (Since (cash cfg) at)
      else (case filter (\<lambda>w. windowName w = ceiling) (providerWindows cfg @ map snd (modelCaps cfg)) of
              [] \<Rightarrow> None
            | w # _ \<Rightarrow> Some (if windowCalendar w then Since w at else truncate_time at (windowPeriod w))))"

section \<open>What the ceilings promise\<close>

text \<open>
  The ceilings as FR-22 states them, over mathematical integers: every provider window, the
  model's own cap, the runner-minutes quota and the cash ceiling hold what is reserved, what is
  settled and the candidate's estimate together.
\<close>

definition window_spent :: "micros list \<Rightarrow> nat \<Rightarrow> micros" where
  "window_spent ss i = (if i < length ss then ss ! i else 0)"

definition minutes_over :: "runner_minutes \<Rightarrow> int \<Rightarrow> int \<Rightarrow> int \<Rightarrow> int" where
  "minutes_over cfg reserved settled estimate =
     (if estimate > 0 then max 0 (reserved + settled + estimate - freeMinutes cfg) else 0)"

definition windows_hold :: "window list \<Rightarrow> micros list \<Rightarrow> micros \<Rightarrow> micros \<Rightarrow> bool" where
  "windows_hold ws ss reserved estimate \<longleftrightarrow>
     (\<forall>i < length ws. reserved + window_spent ss i + estimate \<le> windowLimit (ws ! i))"

definition cap_holds :: "budget_config \<Rightarrow> string \<Rightarrow> totals \<Rightarrow> settled \<Rightarrow> reservation \<Rightarrow> bool" where
  "cap_holds cfg model reserved s estimate \<longleftrightarrow>
     (case map_of (modelCaps cfg) model of None \<Rightarrow> True
      | Some w \<Rightarrow> totalProviderCost reserved + settledModelCap s + resProviderCost estimate \<le> windowLimit w)"

definition cash_holds :: "budget_config \<Rightarrow> totals \<Rightarrow> settled \<Rightarrow> reservation \<Rightarrow> bool" where
  "cash_holds cfg reserved s estimate \<longleftrightarrow>
     (let over = minutes_over (runnerMinutesCeiling cfg) (totalRunnerMinutes reserved)
                   (settledCashMinutes s) (resRunnerMinutes estimate);
          provider = (if providerWindows cfg = [] \<and> \<not> providerFree cfg
                      then totalProviderCost reserved + settledCashCost s + resProviderCost estimate else 0)
      in (over > 0 \<longrightarrow> ratePerMinute (runnerMinutesCeiling cfg) > 0)
         \<and> provider + over * ratePerMinute (runnerMinutesCeiling cfg) \<le> windowLimit (cash cfg))"

definition fits_ceilings :: "budget_config \<Rightarrow> string \<Rightarrow> totals \<Rightarrow> settled \<Rightarrow> reservation \<Rightarrow> bool" where
  "fits_ceilings cfg model reserved s estimate \<longleftrightarrow>
     windows_hold (providerWindows cfg) (settledWindows s)
       (totalProviderCost reserved) (resProviderCost estimate)
     \<and> cap_holds cfg model reserved s estimate \<and> cash_holds cfg reserved s estimate"

text \<open>
  Amounts no sum of the check wraps on: costs below \<open>2^60\<close> micro-dollars (over a trillion
  dollars), minutes below \<open>2^31\<close> and a rate below \<open>2^29\<close> micro-dollars a minute.
\<close>

definition cost_ok :: "micros \<Rightarrow> bool" where
  "cost_ok c \<longleftrightarrow> 0 \<le> c \<and> c < 2 ^ 60"

definition minutes_ok :: "int \<Rightarrow> bool" where
  "minutes_ok m \<longleftrightarrow> 0 \<le> m \<and> m < 2 ^ 31"

definition amounts_ok :: "budget_config \<Rightarrow> totals \<Rightarrow> settled \<Rightarrow> reservation \<Rightarrow> bool" where
  "amounts_ok cfg reserved s estimate \<longleftrightarrow>
     cost_ok (totalProviderCost reserved) \<and> minutes_ok (totalRunnerMinutes reserved)
     \<and> list_all cost_ok (settledWindows s) \<and> cost_ok (settledModelCap s) \<and> cost_ok (settledCashCost s)
     \<and> minutes_ok (settledCashMinutes s)
     \<and> cost_ok (resProviderCost estimate) \<and> minutes_ok (resRunnerMinutes estimate)
     \<and> minutes_ok (freeMinutes (runnerMinutesCeiling cfg))
     \<and> 0 \<le> ratePerMinute (runnerMinutesCeiling cfg) \<and> ratePerMinute (runnerMinutesCeiling cfg) < 2 ^ 29"

lemma int64_cost_sum:
  "cost_ok a \<Longrightarrow> cost_ok b \<Longrightarrow> cost_ok c \<Longrightarrow> int64 (a + b + c) = a + b + c"
  by (rule int64_id) (simp add: cost_ok_def in_int64_def)

lemma window_spent_simps [simp]:
  "window_spent [] i = 0"
  "window_spent (x # xs) 0 = x"
  "window_spent (x # xs) (Suc i) = window_spent xs i"
  by (simp_all add: window_spent_def)

lemma windows_hold_Cons:
  "windows_hold (w # ws) ss reserved estimate \<longleftrightarrow>
     reserved + (case ss of [] \<Rightarrow> 0 | x # _ \<Rightarrow> x) + estimate \<le> windowLimit w
     \<and> windows_hold ws (tl ss) reserved estimate"
  by (cases ss) (simp_all add: windows_hold_def All_less_Suc2)

lemma breached_window_None_iff:
  assumes "cost_ok reserved" and "cost_ok estimate" and "list_all cost_ok ss"
  shows "breached_window ws ss reserved estimate = None \<longleftrightarrow> windows_hold ws ss reserved estimate"
  using assms
proof (induction ws ss reserved estimate rule: breached_window.induct)
  case (2 w ws ss reserved estimate)
  then have "int64 (reserved + (case ss of [] \<Rightarrow> 0 | s # _ \<Rightarrow> s) + estimate)
      = reserved + (case ss of [] \<Rightarrow> 0 | s # _ \<Rightarrow> s) + estimate"
    by (intro int64_cost_sum) (auto simp: cost_ok_def split: list.splits)
  with 2 show ?case
    by (cases ss) (auto simp: Let_def windows_hold_Cons)
qed (simp add: windows_hold_def)

lemma breached_window_in:
  "breached_window ws ss reserved estimate = Some name \<Longrightarrow> \<exists>w \<in> set ws. windowName w = name"
  by (induction ws ss reserved estimate rule: breached_window.induct)
    (auto simp: Let_def split: if_splits)

lemma runner_cost_exact:
  assumes "minutes_ok reserved" and "minutes_ok spent" and "minutes_ok estimate"
    and "minutes_ok (freeMinutes cfg)" and "0 \<le> ratePerMinute cfg" and "ratePerMinute cfg < 2 ^ 29"
  shows "runner_cost cfg reserved spent estimate =
    (if minutes_over cfg reserved spent estimate > 0 \<and> ratePerMinute cfg = 0 then None
     else Some (minutes_over cfg reserved spent estimate * ratePerMinute cfg))"
    and "0 \<le> minutes_over cfg reserved spent estimate * ratePerMinute cfg"
    and "minutes_over cfg reserved spent estimate * ratePerMinute cfg < 2 ^ 62"
proof -
  let ?over = "minutes_over cfg reserved spent estimate"
  have sums: "int64 (reserved + spent + estimate - freeMinutes cfg)
      = reserved + spent + estimate - freeMinutes cfg"
    using assms by (intro int64_id) (simp add: minutes_ok_def in_int64_def)
  have over: "0 \<le> ?over" "?over < 2 ^ 33"
    using assms by (auto simp: minutes_over_def minutes_ok_def)
  then show "0 \<le> ?over * ratePerMinute cfg" using assms(5) by simp
  have "?over * ratePerMinute cfg \<le> 2 ^ 33 * (2 ^ 29 - 1)"
    using over assms(5,6) by (intro mult_mono) auto
  then show lim: "?over * ratePerMinute cfg < 2 ^ 62" by simp
  have "int64 (?over * ratePerMinute cfg) = ?over * ratePerMinute cfg"
    using lim \<open>0 \<le> ?over * ratePerMinute cfg\<close> by (intro int64_id) (simp add: in_int64_def)
  then show "runner_cost cfg reserved spent estimate =
      (if ?over > 0 \<and> ratePerMinute cfg = 0 then None else Some (?over * ratePerMinute cfg))"
    using assms(5) by (auto simp: runner_cost_def sums minutes_over_def Let_def max_def)
qed

lemma provider_cash_exact:
  assumes "amounts_ok cfg reserved s estimate"
  shows "provider_cash cfg reserved s estimate =
    (if providerWindows cfg = [] \<and> \<not> providerFree cfg
     then totalProviderCost reserved + settledCashCost s + resProviderCost estimate else 0)"
    and "0 \<le> provider_cash cfg reserved s estimate"
    and "provider_cash cfg reserved s estimate < 3 * 2 ^ 60"
proof -
  have ok: "cost_ok (totalProviderCost reserved)" "cost_ok (settledCashCost s)" "cost_ok (resProviderCost estimate)"
    using assms by (simp_all add: amounts_ok_def)
  note exact = int64_cost_sum [OF ok]
  from ok have "0 \<le> totalProviderCost reserved + settledCashCost s + resProviderCost estimate"
    "totalProviderCost reserved + settledCashCost s + resProviderCost estimate < 3 * 2 ^ 60"
    by (simp_all add: cost_ok_def)
  with exact show "provider_cash cfg reserved s estimate =
      (if providerWindows cfg = [] \<and> \<not> providerFree cfg
       then totalProviderCost reserved + settledCashCost s + resProviderCost estimate else 0)"
    and "0 \<le> provider_cash cfg reserved s estimate"
    and "provider_cash cfg reserved s estimate < 3 * 2 ^ 60"
    by (simp_all add: provider_cash_def)
qed

lemma cash_check_exact:
  assumes "amounts_ok cfg reserved s estimate"
  shows "(case runner_cost (runnerMinutesCeiling cfg) (totalRunnerMinutes reserved)
            (settledCashMinutes s) (resRunnerMinutes estimate) of
            None \<Rightarrow> False
          | Some runnerCost \<Rightarrow>
              int64 (provider_cash cfg reserved s estimate + runnerCost) \<le> windowLimit (cash cfg))
    \<longleftrightarrow> cash_holds cfg reserved s estimate"
proof -
  let ?rm = "runnerMinutesCeiling cfg"
  let ?over = "minutes_over ?rm (totalRunnerMinutes reserved) (settledCashMinutes s) (resRunnerMinutes estimate)"
  have mins: "minutes_ok (totalRunnerMinutes reserved)" "minutes_ok (settledCashMinutes s)"
    "minutes_ok (resRunnerMinutes estimate)" "minutes_ok (freeMinutes ?rm)"
    "0 \<le> ratePerMinute ?rm" "ratePerMinute ?rm < 2 ^ 29"
    using assms by (simp_all add: amounts_ok_def)
  note cost = runner_cost_exact [OF mins]
  note prov = provider_cash_exact [OF assms]
  have "int64 (provider_cash cfg reserved s estimate + ?over * ratePerMinute ?rm)
      = provider_cash cfg reserved s estimate + ?over * ratePerMinute ?rm"
    using prov(2,3) cost(2,3) by (intro int64_id) (simp add: in_int64_def)
  then show ?thesis
    using mins(5) by (auto simp: cost(1) cash_holds_def Let_def prov(1))
qed

text \<open>On amounts no sum wraps on, \<open>Decide\<close> admits exactly what every ceiling holds.\<close>

lemma Decide_exact:
  assumes "amounts_ok cfg reserved s estimate"
  shows "fst (Decide cfg model reserved s estimate) \<longleftrightarrow> fits_ceilings cfg model reserved s estimate"
proof -
  have ok: "cost_ok (totalProviderCost reserved)" "cost_ok (settledModelCap s)"
    "cost_ok (resProviderCost estimate)" "list_all cost_ok (settledWindows s)"
    using assms by (simp_all add: amounts_ok_def)
  note windows = breached_window_None_iff [OF ok(1,3,4)]
  note model_cap = int64_cost_sum [OF ok(1,2,3)]
  show ?thesis
    using cash_check_exact [OF assms] windows [of "providerWindows cfg"]
    by (auto simp: Decide_def fits_ceilings_def cap_holds_def model_cap not_le split: option.splits)
qed

lemma Decide_names_ceiling:
  assumes "Decide cfg model reserved s estimate = (False, binding)"
  shows "binding = CeilingCash \<or> binding = CeilingRunnerMinutes \<or> isProviderCeiling cfg binding"
  using assms
  by (auto simp: Decide_def isProviderCeiling_def
      split: option.splits if_splits dest!: breached_window_in map_of_SomeD intro: rev_bexI)

lemma Decide_fits: "Decide cfg model reserved s estimate = (True, b) \<Longrightarrow> b = []"
  by (auto simp: Decide_def split: option.splits if_splits)

section \<open>When a ceiling's period begins\<close>

lemma Since_le: "0 \<le> windowPeriod w \<Longrightarrow> 0 \<le> at \<Longrightarrow> Since w at \<le> at"
  by (simp add: Since_def month_start_le)

lemma Since_mono: "t \<le> u \<Longrightarrow> Since w t \<le> Since w u"
  by (simp add: Since_def month_start_mono)

end
