(* ===== verification/Documents.thy ===== *)
theory Documents
  imports Go_Time
begin

text \<open>
  Documents of the run store as \<open>internal/store\<close> reads and writes them: a \<open>map[string]any\<close>
  from field names to dynamically typed values, the updates a write makes, and the helpers that
  read one field (\<open>str\<close>, \<open>stringList\<close> and the \<open>, _ :=\<close> type assertions), which give the zero
  value where the field is absent or of another type.

  A field's constructor is the Go constant that names it in \<open>queue.go\<close>, \<open>decision.go\<close>,
  \<open>retry.go\<close>, \<open>sweep.go\<close>, \<open>inbox.go\<close>, \<open>holds.go\<close>, \<open>checks.go\<close>, \<open>rewrites.go\<close> and \<open>breaker.go\<close>; \<open>planBaseSHAField\<close> is the tag \<open>plan_base_sha\<close> of \<open>runner.PlanRecord\<close>.
\<close>

datatype (plugins only: size code) field =
    stateField | priorityField | repoField | claimedAtField | updatedAtField | retriedAtField
    | abandonedReasonField | abandonedAtField | attemptField | ticketStateField | queuedAtField
    | startedAtField | waitingOnField | claimConcurrencyField | blockedByField | blocksField
    | planFilesField | planSettledAtField | planSpendMicrosField | planSpendMinutesField
    | decisionModeField | decisionsField | runURLField | stopReasonField | stopDetailField
    | buildOutcomeField | transientField | transientRequeuesField | sizeField | privateField
    | modelLabelsField | verdictField | ticketIDField | outcomeField | ticketBodyField
    | sizedByField | frontEndField | planField | settledAtField | settledProviderCostField
    | settledRunnerMinutesField | priorSettledCostField | priorSettledMinutesField
    | provisionalUnpostedField | provisionalRepliedField | supersededPRField
    | supersededAttemptField | supersededByRetryField | operatorNoteField
    | operatorAssistedField | retriedByField | archivedAtField | supersededByAttemptField
    | ticketClosedAtField | waitReasonField | mergedByOwnerAtField | mergedSHAField
    | ticketTitleField | cancelledByOwnerAtField | cancelledByField | heldOnField | heldAtField
    | prHeadSHAField | checksResultField | prURLField | autoMergeField | rewriteMergedAtField
    | classField | linkField | detailField | noticeStateField | raisedAtField | postedAtField
    | runIDField | trippedAtField | rewriteAgentLinesField | rewriteOwnerLinesField | rewriteReviewFoundField
    | rewriteOwnerChangeField | rewriteUnlabelledField | rewriteUnmeasuredField | prNumberField | prTitleField
    | rewriteRevertedField | branchField | branchesField | planModelField | planBaseSHAField | stepsField

section \<open>Decisions\<close>

text \<open>\<open>runner.Decision\<close> and the \<open>decisionEntry\<close> a run row lists for each question it was parked on.\<close>

record decision_option =
  optLabel :: string
  optValue :: string
  optCost :: string

record decision =
  question :: string
  contextLines :: "string list"
  options :: "decision_option list"

record decision_entry =
  entryDecision :: decision
  entrySession :: string
  askedAt :: time
  postedAt :: time
  answer :: string
  reply :: string
  repliedAt :: time
  provisional :: bool
  confirmedAt :: time

section \<open>Values and documents\<close>

datatype goval =
    VNull
  | VStr string
  | VInt int
  | VBool bool
  | VTime time
  | VList "goval list"
  | VMap "(string \<times> goval) list"
  | VEntries "decision_entry list"

type_synonym doc = "field \<Rightarrow> goval option"

text \<open>A \<open>firestore.Update\<close> of one path: a value, or \<open>firestore.Delete\<close>.\<close>

datatype fval = Put goval | Delete

type_synonym updates = "(field \<times> fval) list"

fun updated :: "updates \<Rightarrow> field \<Rightarrow> goval option \<Rightarrow> goval option" where
  "updated [] f old = old"
| "updated ((g, Put v) # us) f old = updated us f (if g = f then Some v else old)"
| "updated ((g, Delete) # us) f old = updated us f (if g = f then None else old)"

definition apply_updates :: "updates \<Rightarrow> doc \<Rightarrow> doc" where
  "apply_updates us d f = updated us f (d f)"

section \<open>Reading a field\<close>

definition str :: "doc \<Rightarrow> field \<Rightarrow> string" where
  "str row f = (case row f of Some (VStr s) \<Rightarrow> s | _ \<Rightarrow> [])"

definition int_of :: "doc \<Rightarrow> field \<Rightarrow> int" where
  "int_of row f = (case row f of Some (VInt n) \<Rightarrow> n | _ \<Rightarrow> 0)"

definition bool_of :: "doc \<Rightarrow> field \<Rightarrow> bool" where
  "bool_of row f = (case row f of Some (VBool b) \<Rightarrow> b | _ \<Rightarrow> False)"

definition time_of :: "doc \<Rightarrow> field \<Rightarrow> time" where
  "time_of row f = (case row f of Some (VTime t) \<Rightarrow> t | _ \<Rightarrow> 0)"

definition list_of :: "doc \<Rightarrow> field \<Rightarrow> goval list" where
  "list_of row f = (case row f of Some (VList vs) \<Rightarrow> vs | _ \<Rightarrow> [])"

definition entries_of :: "doc \<Rightarrow> field \<Rightarrow> decision_entry list" where
  "entries_of row f = (case row f of Some (VEntries es) \<Rightarrow> es | _ \<Rightarrow> [])"

definition map_field :: "doc \<Rightarrow> field \<Rightarrow> (string \<times> goval) list" where
  "map_field row f = (case row f of Some (VMap m) \<Rightarrow> m | _ \<Rightarrow> [])"

fun strings_in :: "goval list \<Rightarrow> string list" where
  "strings_in [] = []"
| "strings_in (VStr s # vs) = s # strings_in vs"
| "strings_in (_ # vs) = strings_in vs"

definition stringList :: "doc \<Rightarrow> field \<Rightarrow> string list" where
  "stringList row f = strings_in (list_of row f)"

abbreviation string_list :: "string list \<Rightarrow> goval" where
  "string_list ss \<equiv> VList (map VStr ss)"

lemma strings_in_map_VStr [simp]: "strings_in (map VStr ss) = ss"
  by (induction ss) simp_all

lemma strings_in_append [simp]: "strings_in (vs @ ws) = strings_in vs @ strings_in ws"
  by (induction vs rule: strings_in.induct) simp_all

section \<open>Reading an updated document\<close>

definition touches :: "updates \<Rightarrow> field set" where
  "touches us = fst ` set us"

lemma touches_simps [simp]:
  "touches [] = {}"
  "touches (u # us) = insert (fst u) (touches us)"
  "touches (us @ vs) = touches us \<union> touches vs"
  by (auto simp: touches_def)

lemma updated_untouched: "f \<notin> touches us \<Longrightarrow> updated us f old = old"
proof (induction us arbitrary: old)
  case (Cons u us)
  then show ?case by (cases u; cases "snd u") auto
qed simp

lemma updated_append [simp]: "updated (us @ vs) f old = updated vs f (updated us f old)"
proof (induction us arbitrary: old)
  case (Cons u us)
  then show ?case by (cases u; cases "snd u") auto
qed simp

lemma apply_updates_append: "apply_updates (us @ vs) d = apply_updates vs (apply_updates us d)"
  by (rule ext) (simp add: apply_updates_def)

lemma apply_updates_untouched: "f \<notin> touches us \<Longrightarrow> apply_updates us d f = d f"
  by (simp add: apply_updates_def updated_untouched)

lemmas field_readers = str_def int_of_def bool_of_def time_of_def list_of_def entries_of_def
  map_field_def stringList_def

text \<open>A reader of a field no update names reads the old document.\<close>

lemma untouched_read:
  assumes "f \<notin> touches us"
  shows "str (apply_updates us d) f = str d f"
    and "int_of (apply_updates us d) f = int_of d f"
    and "bool_of (apply_updates us d) f = bool_of d f"
    and "time_of (apply_updates us d) f = time_of d f"
    and "stringList (apply_updates us d) f = stringList d f"
    and "list_of (apply_updates us d) f = list_of d f"
    and "entries_of (apply_updates us d) f = entries_of d f"
  using assms by (simp_all add: field_readers apply_updates_untouched)

lemmas [row_simps] = field_readers apply_updates_def

end
