(* ===== verification/Settlement.thy ===== *)
theory Settlement
  imports Budget Documents
begin

text \<open>
  The settled spend the ceilings are summed from: the poll's snapshot of the settled run history
  (\<open>internal/dispatcher/settled.go\<close>, read by \<open>Queue.SettledHistory\<close>) and the scan a claim
  without a snapshot makes in its own transaction (\<open>settled\<close>, \<open>windowSpend\<close>,
  \<open>settledSince\<close> and \<open>planSince\<close> of \<open>internal/store/queue.go\<close>).

  A Firestore query is a parameter: \<open>query f since\<close> is what
  \<open>Where(f, ">=", since)\<close> over the runs collection returns.
\<close>

section \<open>Models and their plans\<close>

definition Provider :: "string \<Rightarrow> string" where
  "Provider model = takeWhile (\<lambda>c. c \<noteq> CHR ''/'') model"

definition DefaultModel :: string where
  "DefaultModel = ''command-code/deepseek/deepseek-v4.1-flash''"

section \<open>The poll's snapshot\<close>

record settlement =
  SettledAt :: time
  PlanSettledAt :: time
  settlementPlan :: string
  settlementCost :: micros
  settlementMinutes :: int
  settlementPlanCost :: micros
  settlementPlanMinutes :: int

definition Settlement_onPlan :: "settlement \<Rightarrow> string \<Rightarrow> bool" where
  "Settlement_onPlan s plan =
     (if plan = [] then True
      else if settlementPlan s \<noteq> [] then settlementPlan s = plan
      else plan = Provider DefaultModel)"

definition History_settledSince :: "settlement list \<Rightarrow> time \<Rightarrow> string \<Rightarrow> micros \<times> int" where
  "History_settledSince h since plan =
     foldl (\<lambda>(cost, minutes) s.
        if is_zero (SettledAt s) \<or> SettledAt s < since \<or> \<not> Settlement_onPlan s plan then (cost, minutes)
        else (int64 (cost + settlementCost s), int64 (minutes + settlementMinutes s))) (0, 0) h"

definition History_planSince :: "settlement list \<Rightarrow> time \<Rightarrow> string \<Rightarrow> micros \<times> int" where
  "History_planSince h since plan =
     foldl (\<lambda>(cost, minutes) s.
        if is_zero (PlanSettledAt s) \<or> PlanSettledAt s < since \<or> \<not> Settlement_onPlan s plan then (cost, minutes)
        else (int64 (cost + settlementPlanCost s), int64 (minutes + settlementPlanMinutes s))) (0, 0) h"

definition History_windowSpend :: "settlement list \<Rightarrow> window \<Rightarrow> string \<Rightarrow> time \<Rightarrow> micros" where
  "History_windowSpend h w plan at =
     int64 (fst (History_settledSince h (Since w at) plan) + fst (History_planSince h (Since w at) plan))"

definition Sums :: "settlement list \<Rightarrow> budget_config \<Rightarrow> string \<Rightarrow> time \<Rightarrow> settled" where
  "Sums h cfg model at =
     (let plan = Provider model; cashSince = Since (cash cfg) at;
          (cashCost, cashMinutes) = History_settledSince h cashSince [];
          (planCost, planMinutes) = History_planSince h cashSince []
      in \<lparr>settledWindows = map (\<lambda>w. History_windowSpend h w plan at) (providerWindows cfg),
          settledModelCap = (case map_of (modelCaps cfg) model of
             Some modelCap \<Rightarrow> History_windowSpend h modelCap plan at | None \<Rightarrow> 0),
          settledCashCost = int64 (cashCost + planCost),
          settledCashMinutes = int64 (cashMinutes + planMinutes)\<rparr>)"

text \<open>The parts of \<open>Config\<close> the snapshot's reach is taken from: the poll's budget and every paid plan's.\<close>

record paid_plan =
  planName :: string
  planBuildModel :: string
  planBudget :: budget_config

definition config_budgets :: "budget_config \<Rightarrow> paid_plan list \<Rightarrow> budget_config list" where
  "config_budgets budget planBudgets = budget # map planBudget planBudgets @ [lastResort budget]"

definition budget_windows :: "budget_config \<Rightarrow> window list" where
  "budget_windows b = providerWindows b @ map snd (modelCaps b) @ [cash b]"

definition historySince :: "budget_config \<Rightarrow> paid_plan list \<Rightarrow> time \<Rightarrow> time" where
  "historySince budget planBudgets at =
     foldl (\<lambda>since b. foldl (\<lambda>since w. if Since w at < since then Since w at else since) since (budget_windows b))
       at (config_budgets budget planBudgets)"

section \<open>Reading the history\<close>

definition settlement_of :: "doc \<Rightarrow> settlement" where
  "settlement_of row = \<lparr>
     SettledAt = time_of row settledAtField, PlanSettledAt = time_of row planSettledAtField,
     settlementPlan = str row planField,
     settlementCost = int_of row settledProviderCostField,
     settlementMinutes = int_of row settledRunnerMinutesField,
     settlementPlanCost = int_of row planSpendMicrosField,
     settlementPlanMinutes = int_of row planSpendMinutesField\<rparr>"

definition settledRows ::
  "(field \<Rightarrow> time \<Rightarrow> 'e + (string \<times> doc) list) \<Rightarrow> field \<Rightarrow> time \<Rightarrow>
   (string \<times> settlement) list \<Rightarrow> 'e + (string \<times> settlement) list" where
  "settledRows query f since rows =
     and_then (query f since) (\<lambda>snaps. Inr (collect rows (map (\<lambda>(id, row). (id, settlement_of row)) snaps)))"

definition SettledHistory ::
  "(field \<Rightarrow> time \<Rightarrow> 'e + (string \<times> doc) list) \<Rightarrow> time \<Rightarrow> 'e + settlement list" where
  "SettledHistory query since =
     and_then (settledRows query settledAtField since []) (\<lambda>rows.
     and_then (settledRows query planSettledAtField since rows) (\<lambda>rows. Inr (map snd rows)))"

section \<open>The scan of one transaction\<close>

definition onPlan :: "doc \<Rightarrow> string \<Rightarrow> bool" where
  "onPlan row plan =
     (if plan = [] then True
      else if str row planField \<noteq> [] then str row planField = plan
      else plan = Provider DefaultModel)"

definition settledSince ::
  "(field \<Rightarrow> time \<Rightarrow> 'e + (string \<times> doc) list) \<Rightarrow> time \<Rightarrow> string \<Rightarrow> 'e + (micros \<times> int)" where
  "settledSince query since plan =
     and_then (query settledAtField since) (\<lambda>snaps.
       Inr (foldl (\<lambda>(cost, minutes) snap.
         if \<not> onPlan (snd snap) plan then (cost, minutes)
         else (int64 (cost + int_of (snd snap) settledProviderCostField),
               int64 (minutes + int_of (snd snap) settledRunnerMinutesField))) (0, 0) snaps))"

definition planSince ::
  "(field \<Rightarrow> time \<Rightarrow> 'e + (string \<times> doc) list) \<Rightarrow> time \<Rightarrow> string \<Rightarrow> 'e + (micros \<times> int)" where
  "planSince query since plan =
     and_then (query planSettledAtField since) (\<lambda>snaps.
       Inr (foldl (\<lambda>(cost, minutes) snap.
         if \<not> onPlan (snd snap) plan then (cost, minutes)
         else (int64 (cost + int_of (snd snap) planSpendMicrosField),
               int64 (minutes + int_of (snd snap) planSpendMinutesField))) (0, 0) snaps))"

definition windowSpend ::
  "(field \<Rightarrow> time \<Rightarrow> 'e + (string \<times> doc) list) \<Rightarrow> window \<Rightarrow> string \<Rightarrow> time \<Rightarrow> 'e + micros" where
  "windowSpend query w plan at =
     and_then (settledSince query (Since w at) plan) (\<lambda>(sum, _).
     and_then (planSince query (Since w at) plan) (\<lambda>(planCost, _). Inr (int64 (sum + planCost))))"

fun windowSpends ::
  "(field \<Rightarrow> time \<Rightarrow> 'e + (string \<times> doc) list) \<Rightarrow> window list \<Rightarrow> string \<Rightarrow> time \<Rightarrow> 'e + micros list" where
  "windowSpends query [] plan at = Inr []"
| "windowSpends query (w # ws) plan at =
     and_then (windowSpend query w plan at) (\<lambda>spent.
     and_then (windowSpends query ws plan at) (\<lambda>rest. Inr (spent # rest)))"

definition settled_scan ::
  "(field \<Rightarrow> time \<Rightarrow> 'e + (string \<times> doc) list) \<Rightarrow> budget_config \<Rightarrow> string \<Rightarrow> time \<Rightarrow> 'e + settled" where
  "settled_scan query cfg model at =
     and_then (windowSpends query (providerWindows cfg) (Provider model) at) (\<lambda>windows.
     and_then (case map_of (modelCaps cfg) model of
                 Some modelCap \<Rightarrow> windowSpend query modelCap (Provider model) at | None \<Rightarrow> Inr 0) (\<lambda>capSpent.
     and_then (settledSince query (Since (cash cfg) at) []) (\<lambda>(cashCost, cashMinutes).
     and_then (planSince query (Since (cash cfg) at) []) (\<lambda>(planCost, planMinutes).
       Inr \<lparr>settledWindows = windows, settledModelCap = capSpent,
            settledCashCost = int64 (cashCost + planCost),
            settledCashMinutes = int64 (cashMinutes + planMinutes)\<rparr>))))"

definition settledFor ::
  "(field \<Rightarrow> time \<Rightarrow> 'e + (string \<times> doc) list) \<Rightarrow> budget_config \<Rightarrow> string \<Rightarrow> time \<Rightarrow>
   ('e + settlement list) option \<Rightarrow> 'e + settled" where
  "settledFor query cfg model at history =
     (case history of None \<Rightarrow> settled_scan query cfg model at
      | Some loaded \<Rightarrow> and_then loaded (\<lambda>rows. Inr (Sums rows cfg model at)))"

section \<open>The snapshot sums what the scan sums\<close>

text \<open>
  What the queries are relied on for: \<open>Where(f, ">=", since)\<close> returns, once each, the runs whose
  field holds a time at or after \<open>since\<close>.
\<close>

definition rows_ge :: "(string \<Rightarrow> doc option) \<Rightarrow> field \<Rightarrow> time \<Rightarrow> (string \<times> doc) set" where
  "rows_ge runs f since = {(id, row). runs id = Some row \<and> (\<exists>t. row f = Some (VTime t) \<and> since \<le> t)}"

definition answers_queries ::
  "(string \<Rightarrow> doc option) \<Rightarrow> (field \<Rightarrow> time \<Rightarrow> 'e + (string \<times> doc) list) \<Rightarrow> bool" where
  "answers_queries runs query \<longleftrightarrow>
     (\<forall>f since. \<exists>snaps. query f since = Inr snaps \<and> distinct snaps \<and> set snaps = rows_ge runs f since)"

lemma answers_queriesE:
  assumes "answers_queries runs query"
  obtains snaps where "query f since = Inr snaps" "distinct snaps" "set snaps = rows_ge runs f since"
  using assms unfolding answers_queries_def by blast

lemma settlement_of_sel [simp]:
  "SettledAt (settlement_of row) = time_of row settledAtField"
  "PlanSettledAt (settlement_of row) = time_of row planSettledAtField"
  "settlementCost (settlement_of row) = int_of row settledProviderCostField"
  "settlementMinutes (settlement_of row) = int_of row settledRunnerMinutesField"
  "settlementPlanCost (settlement_of row) = int_of row planSpendMicrosField"
  "settlementPlanMinutes (settlement_of row) = int_of row planSpendMinutesField"
  by (simp_all add: settlement_of_def)

lemma onPlan_settlement_of [simp]: "Settlement_onPlan (settlement_of row) plan = onPlan row plan"
  by (simp add: Settlement_onPlan_def onPlan_def settlement_of_def)

lemma foldl_pair_if:
  "foldl (\<lambda>(a, b) x. if skip x then (a, b) else (int64 (a + f x), int64 (b + g x))) (0, 0) xs
    = (int64 (\<Sum>x\<leftarrow>xs. if skip x then 0 else f x), int64 (\<Sum>x\<leftarrow>xs. if skip x then 0 else g x))"
proof -
  have "foldl (\<lambda>(a, b) x. if skip x then (a, b) else (int64 (a + f x), int64 (b + g x))) (int64 c, int64 d) xs
    = (int64 (c + (\<Sum>x\<leftarrow>xs. if skip x then 0 else f x)), int64 (d + (\<Sum>x\<leftarrow>xs. if skip x then 0 else g x)))" for c d
    by (induction xs arbitrary: c d) (simp_all add: add.assoc)
  from this [of 0 0] show ?thesis by simp
qed

text \<open>The snapshot's rows: every run settled, or planned, in its reach, once each.\<close>

lemma SettledHistory_rows:
  assumes "answers_queries runs query"
  obtains rows where "SettledHistory query since = Inr (map (settlement_of \<circ> snd) rows)"
    and "distinct rows" and "set rows = rows_ge runs settledAtField since \<union> rows_ge runs planSettledAtField since"
proof -
  obtain s1 where s1: "query settledAtField since = Inr s1" "set s1 = rows_ge runs settledAtField since"
    using answers_queriesE [OF assms] by metis
  obtain s2 where s2: "query planSettledAtField since = Inr s2" "set s2 = rows_ge runs planSettledAtField since"
    using answers_queriesE [OF assms] by metis
  define rows where "rows = collect [] (s1 @ s2)"
  have "set rows = set (s1 @ s2)"
    unfolding rows_def by (rule set_collect [where R = runs]) (auto simp: s1 s2 rows_ge_def)
  moreover have "distinct rows" by (simp add: rows_def keyed_collect keyed_distinct)
  moreover have "SettledHistory query since = Inr (map (settlement_of \<circ> snd) rows)"
  proof -
    have upd: "AList.update k (g v) (map (\<lambda>(k, v). (k, g v)) m) = map (\<lambda>(k, v). (k, g v)) (AList.update k v m)"
      for k v m and g :: "doc \<Rightarrow> settlement"
      by (induction m) auto
    have "collect (map (\<lambda>(k, v). (k, settlement_of v)) m) (map (\<lambda>(k, v). (k, settlement_of v)) es)
        = map (\<lambda>(k, v). (k, settlement_of v)) (collect m es)" for m es
      unfolding collect_def by (induction es arbitrary: m) (auto simp: upd)
    from this [of "[]" s1] this [of "collect [] s1" s2] show ?thesis
      using s1 s2 by (simp add: SettledHistory_def settledRows_def rows_def collect_def case_prod_beta comp_def)
  qed
  ultimately show ?thesis using that s1 s2 by simp
qed

text \<open>
  One sum of the snapshot: over any rows that hold every run the query returns, skipping the
  others, it is the sum of the scan.
\<close>

lemma snapshot_sum:
  assumes rows: "distinct rows" "set rows \<supseteq> rows_ge runs f since" "\<And>id row. (id, row) \<in> set rows \<Longrightarrow> runs id = Some row"
    and snaps: "distinct snaps" "set snaps = rows_ge runs f since" and "0 < since"
  shows "(\<Sum>e\<leftarrow>rows. if is_zero (time_of (snd e) f) \<or> time_of (snd e) f < since \<or> skip (snd e) then 0 else c (snd e))
    = (\<Sum>e\<leftarrow>snaps. if skip (snd e) then 0 else c (snd e) :: int)"
proof -
  let ?g = "\<lambda>e. if is_zero (time_of (snd e) f) \<or> time_of (snd e) f < since \<or> skip (snd e) then 0 else c (snd e)"
  have outside: "?g e = 0" if "e \<in> set rows - rows_ge runs f since" for e
  proof -
    obtain id row where e: "e = (id, row)" by (cases e)
    with that rows(3) have "runs id = Some row" by simp
    with that e \<open>0 < since\<close> have "is_zero (time_of row f) \<or> time_of row f < since"
      by (auto simp: rows_ge_def time_of_def split: option.splits goval.splits)
    with e show ?thesis by auto
  qed
  have inside: "?g e = (if skip (snd e) then 0 else c (snd e))" if "e \<in> rows_ge runs f since" for e
    using that \<open>0 < since\<close> by (auto simp: rows_ge_def time_of_def)
  have "(\<Sum>e\<leftarrow>rows. ?g e) = sum ?g (set rows)"
    using rows(1) by (simp add: sum_list_distinct_conv_sum_set)
  also have "\<dots> = sum ?g (rows_ge runs f since)"
    using rows(2) outside by (intro sum.mono_neutral_right) auto
  also have "\<dots> = (\<Sum>e\<in>set snaps. if skip (snd e) then 0 else c (snd e))"
    using inside snaps(2) by (intro sum.cong) auto
  also have "\<dots> = (\<Sum>e\<leftarrow>snaps. if skip (snd e) then 0 else c (snd e))"
    using snaps(1) by (simp add: sum_list_distinct_conv_sum_set)
  finally show ?thesis .
qed

lemma rows_ge_mono: "since \<le> t \<Longrightarrow> rows_ge runs f t \<subseteq> rows_ge runs f since"
  by (auto simp: rows_ge_def)

lemma snapshot_since:
  assumes query: "answers_queries runs query"
    and h: "SettledHistory query reach = Inr h" and "reach \<le> since" "0 < since"
  shows "settledSince query since plan = Inr (History_settledSince h since plan)"
    and "planSince query since plan = Inr (History_planSince h since plan)"
proof -
  obtain rows where h_rows: "h = map (settlement_of \<circ> snd) rows" and rows: "distinct rows"
    "set rows = rows_ge runs settledAtField reach \<union> rows_ge runs planSettledAtField reach"
    using SettledHistory_rows [OF query, of reach] h by auto
  have runs: "runs id = Some row" if "(id, row) \<in> set rows" for id row
    using that rows(2) by (auto simp: rows_ge_def)
  have sub: "rows_ge runs settledAtField since \<subseteq> set rows" "rows_ge runs planSettledAtField since \<subseteq> set rows"
    using rows_ge_mono [OF \<open>reach \<le> since\<close>] rows(2) by blast+
  obtain s1 where s1: "query settledAtField since = Inr s1" "distinct s1" "set s1 = rows_ge runs settledAtField since"
    using answers_queriesE [OF query] by metis
  obtain s2 where s2: "query planSettledAtField since = Inr s2" "distinct s2" "set s2 = rows_ge runs planSettledAtField since"
    using answers_queriesE [OF query] by metis
  note sum1 = snapshot_sum [OF rows(1) sub(1) runs s1(2,3) \<open>0 < since\<close>]
  note sum2 = snapshot_sum [OF rows(1) sub(2) runs s2(2,3) \<open>0 < since\<close>]
  show "settledSince query since plan = Inr (History_settledSince h since plan)"
    using s1(1) sum1 [of "\<lambda>row. \<not> onPlan row plan" "\<lambda>row. int_of row settledProviderCostField"]
      sum1 [of "\<lambda>row. \<not> onPlan row plan" "\<lambda>row. int_of row settledRunnerMinutesField"]
    by (simp add: settledSince_def History_settledSince_def h_rows foldl_pair_if comp_def cong: if_cong)
  show "planSince query since plan = Inr (History_planSince h since plan)"
    using s2(1) sum2 [of "\<lambda>row. \<not> onPlan row plan" "\<lambda>row. int_of row planSpendMicrosField"]
      sum2 [of "\<lambda>row. \<not> onPlan row plan" "\<lambda>row. int_of row planSpendMinutesField"]
    by (simp add: planSince_def History_planSince_def h_rows foldl_pair_if comp_def cong: if_cong)
qed

lemma snapshot_windows:
  assumes "answers_queries runs query" and "SettledHistory query reach = Inr h"
    and "\<forall>w \<in> set ws. reach \<le> Since w at \<and> 0 < Since w at"
  shows "windowSpends query ws plan at = Inr (map (\<lambda>w. History_windowSpend h w plan at) ws)"
  using assms(3)
proof (induction ws)
  case (Cons w ws)
  then show ?case
    using snapshot_since [OF assms(1,2), of "Since w at" plan]
    by (simp add: windowSpend_def History_windowSpend_def case_prod_beta)
qed simp

lemma snapshot_Sums:
  assumes "answers_queries runs query" and "SettledHistory query reach = Inr h"
    and "\<forall>w \<in> set (budget_windows cfg). reach \<le> Since w at \<and> 0 < Since w at"
  shows "settled_scan query cfg model at = Inr (Sums h cfg model at)"
proof -
  have windows: "windowSpends query (providerWindows cfg) plan at =
      Inr (map (\<lambda>w. History_windowSpend h w plan at) (providerWindows cfg))" for plan
    using assms by (intro snapshot_windows) (auto simp: budget_windows_def)
  have model_cap: "windowSpend query w plan at = Inr (History_windowSpend h w plan at)"
    if "map_of (modelCaps cfg) model = Some w" for w plan
    using that assms(3) snapshot_since [OF assms(1,2), of "Since w at" plan]
    by (force simp: windowSpend_def History_windowSpend_def budget_windows_def case_prod_beta dest: map_of_SomeD)
  have cash: "settledSince query (Since (cash cfg) at) plan = Inr (History_settledSince h (Since (cash cfg) at) plan)"
    "planSince query (Since (cash cfg) at) plan = Inr (History_planSince h (Since (cash cfg) at) plan)" for plan
    using assms by (auto intro!: snapshot_since simp: budget_windows_def)
  show ?thesis
    by (auto simp: settled_scan_def Sums_def Let_def windows model_cap cash case_prod_beta split: option.splits)
qed

text \<open>The snapshot reaches back over every window of every budget a poll admits against.\<close>

lemma foldl_earliest:
  "foldl (\<lambda>since w. if Since w at < since then Since w at else since) since ws \<le> since"
  "w \<in> set ws \<Longrightarrow> foldl (\<lambda>since w. if Since w at < since then Since w at else since) since ws \<le> Since w at"
proof -
  show le: "foldl (\<lambda>since w. if Since w at < since then Since w at else since) since ws \<le> since" for since ws
  proof (induction ws arbitrary: since)
    case (Cons v ws)
    from Cons [of "Since v at"] Cons [of since] show ?case by simp
  qed simp
  show "w \<in> set ws \<Longrightarrow> foldl (\<lambda>since w. if Since w at < since then Since w at else since) since ws \<le> Since w at"
  proof (induction ws arbitrary: since)
    case (Cons v ws)
    then show ?case using le [of "min (Since v at) since" ws] by (auto simp: min_def split: if_splits)
  qed simp
qed

lemma historySince_foldl:
  "historySince budget plans at =
    foldl (\<lambda>since w. if Since w at < since then Since w at else since) at
      (concat (map budget_windows (config_budgets budget plans)))"
proof -
  have "foldl (\<lambda>s b. foldl f s (budget_windows b)) s bs = foldl f s (concat (map budget_windows bs))"
    for f :: "time \<Rightarrow> window \<Rightarrow> time" and s bs
    by (induction bs arbitrary: s) simp_all
  then show ?thesis by (simp add: historySince_def)
qed

lemma historySince_covers:
  assumes "b \<in> set (config_budgets budget plans)" and "w \<in> set (budget_windows b)"
  shows "historySince budget plans at \<le> Since w at"
  unfolding historySince_foldl using assms by (intro foldl_earliest(2)) auto

end
