(* ===== verification/Go_Float.thy ===== *)
theory Go_Float
  imports Complex_Main
begin

text \<open>
  Go's \<open>float64\<close> arithmetic as the code uses it, on the rationals the doubles stand for, and the order
  it keeps: rounding is monotone and leaves a double alone.
\<close>

section \<open>Double precision\<close>

text \<open>
  A \<open>float64\<close> is the rational it stands for. \<^term>\<open>float64\<close> rounds a rational to 53 significant
  bits, half to even, as a conversion from \<open>int64\<close> and a division do; the magnitudes the rule
  meets (durations and their ratios) are far inside the exponent range.
\<close>

fun bit_length :: "nat \<Rightarrow> nat" where
  "bit_length n = (if n = 0 then 0 else Suc (bit_length (n div 2)))"

declare bit_length.simps [simp del]

definition round_half_even :: "rat \<Rightarrow> int" where
  "round_half_even r =
     (let f = \<lfloor>r\<rfloor>; d = r - of_int f in
      if d < 1 / 2 then f else if d > 1 / 2 then f + 1 else if even f then f else f + 1)"

definition exponent :: "rat \<Rightarrow> int" where
  "exponent x =
     (case quotient_of x of (p, q) \<Rightarrow>
        let k = int (bit_length (nat p)) - int (bit_length (nat q)) in
        if 2 powi k \<le> x then k else k - 1)"

definition float64 :: "rat \<Rightarrow> rat" where
  "float64 x =
     (if x = 0 then 0
      else let e = exponent \<bar>x\<bar> - 52; m = round_half_even (\<bar>x\<bar> / 2 powi e) in
           sgn x * of_int m * 2 powi e)"


section \<open>The exponent\<close>

lemma bit_length_bounds: "0 < n \<Longrightarrow> 2 ^ (bit_length n - 1) \<le> n \<and> n < 2 ^ bit_length n"
proof (induction n rule: bit_length.induct)
  case (1 n)
  show ?case
  proof (cases "n div 2 = 0")
    case True
    then show ?thesis using 1(2) by (subst (1 2) bit_length.simps) (simp add: bit_length.simps)
  next
    case False
    then have IH: "2 ^ (bit_length (n div 2) - 1) \<le> n div 2" "n div 2 < 2 ^ bit_length (n div 2)" using 1 by auto
    have step: "bit_length n = Suc (bit_length (n div 2))" using 1(2) by (subst bit_length.simps) simp
    have "0 < bit_length (n div 2)" using False by (subst bit_length.simps) simp
    then obtain k where k: "bit_length (n div 2) = Suc k" using gr0_implies_Suc by blast
    have "n \<le> 2 * (n div 2) + 1" "2 * (n div 2) \<le> n" by simp_all
    with IH show ?thesis unfolding step k by simp
  qed
qed

lemma bit_length_pos: "0 < n \<Longrightarrow> 0 < bit_length n"
  by (subst bit_length.simps) simp

lemma pow_le_powi: "0 < n \<Longrightarrow> (2::rat) powi (int (bit_length n) - 1) \<le> of_nat n \<and> of_nat n < (2::rat) powi int (bit_length n)"
proof -
  assume n: "0 < n"
  obtain k where k: "bit_length n = Suc k" using bit_length_pos [OF n] gr0_implies_Suc by blast
  have "(2::rat) ^ k \<le> of_nat n" "of_nat n < (2::rat) ^ Suc k"
    using bit_length_bounds [OF n] k by (metis diff_Suc_1 of_nat_le_iff of_nat_numeral of_nat_power,
      metis of_nat_less_iff of_nat_numeral of_nat_power)
  then show ?thesis by (simp only: k power_int_of_nat of_nat_Suc add_diff_cancel_left' diff_add_eq) (simp add: power_int_add)
qed

lemma exponent_bounds:
  assumes "0 < x"
  shows "2 powi exponent x \<le> x" and "x < 2 powi (exponent x + 1)"
proof -
  obtain p q where pq: "quotient_of x = (p, q)" by (cases "quotient_of x")
  have q: "0 < q" using quotient_of_denom_pos [OF pq] .
  have x: "x = of_int p / of_int q" using quotient_of_div [OF pq] .
  have p: "0 < p" using assms q by (simp add: x zero_less_divide_iff)
  let ?a = "int (bit_length (nat p))" and ?b = "int (bit_length (nat q))"
  have P: "(2::rat) powi (?a - 1) \<le> of_int p" "of_int p < (2::rat) powi ?a"
    using pow_le_powi [of "nat p"] p by auto
  have Q: "(2::rat) powi (?b - 1) \<le> of_int q" "of_int q < (2::rat) powi ?b"
    using pow_le_powi [of "nat q"] q by auto
  have "x < 2 powi ?a / 2 powi (?b - 1)"
    unfolding x using P Q p q by (intro frac_less) simp_all
  also have "\<dots> = 2 powi (?a - ?b + 1)" by (simp add: power_int_diff power_int_add)
  finally have up: "x < 2 powi (?a - ?b + 1)" .
  have "2 powi (?a - ?b - 1) = (2 powi (?a - 1) / 2 powi ?b :: rat)" by (simp add: power_int_diff)
  also have "\<dots> < x" unfolding x using P Q p q by (intro frac_less2) simp_all
  finally have low: "2 powi (?a - ?b - 1) < x" .
  show "2 powi exponent x \<le> x" "x < 2 powi (exponent x + 1)"
    using up low by (auto simp: exponent_def pq Let_def)
qed

lemma powi_less_iff: "(2::rat) powi a < 2 powi b \<longleftrightarrow> a < b"
  by (meson less_le_not_le linorder_not_le one_less_numeral_iff power_int_increasing power_int_strict_increasing
      semiring_norm(76) order_less_imp_le)

lemma exponent_unique: "2 powi e \<le> x \<Longrightarrow> x < 2 powi (e + 1) \<Longrightarrow> exponent x = e"
proof -
  assume e: "2 powi e \<le> x" "x < 2 powi (e + 1)"
  have "(0::rat) < 2 powi e" by simp
  with e(1) have "0 < x" by linarith
  then have "2 powi exponent x \<le> x" "x < 2 powi (exponent x + 1)" by (rule exponent_bounds)+
  then have "2 powi e < (2::rat) powi (exponent x + 1)" "2 powi exponent x < (2::rat) powi (e + 1)" using e by linarith+
  then show ?thesis by (simp add: powi_less_iff)
qed

lemma exponent_mono: "0 < x \<Longrightarrow> x \<le> y \<Longrightarrow> exponent x \<le> exponent y"
proof -
  assume "0 < x" "x \<le> y"
  then have "2 powi exponent x < (2::rat) powi (exponent y + 1)"
    using exponent_bounds [of x] exponent_bounds [of y] by simp
  then show ?thesis by (simp add: powi_less_iff)
qed

section \<open>Rounding\<close>

lemma round_half_even_bounds: "of_int (round_half_even r) - 1 / 2 \<le> r \<and> r \<le> of_int (round_half_even r) + 1 / 2"
  by (simp add: round_half_even_def Let_def) linarith

lemma round_half_even_of_int [simp]: "round_half_even (of_int n) = n"
  by (simp add: round_half_even_def)

lemma round_half_even_mono: "r \<le> s \<Longrightarrow> round_half_even r \<le> round_half_even s"
proof (cases "\<lfloor>r\<rfloor> = \<lfloor>s\<rfloor>")
  case True
  assume "r \<le> s"
  with True show ?thesis by (auto simp: round_half_even_def Let_def)
next
  case False
  assume "r \<le> s"
  with False have "\<lfloor>r\<rfloor> + 1 \<le> \<lfloor>s\<rfloor>" using floor_mono [of r s] by linarith
  moreover have "round_half_even r \<le> \<lfloor>r\<rfloor> + 1" "\<lfloor>s\<rfloor> \<le> round_half_even s"
    by (simp_all add: round_half_even_def Let_def)
  ultimately show ?thesis by linarith
qed

section \<open>Doubles\<close>


lemma float64_pos: "0 < x \<Longrightarrow> float64 x = of_int (round_half_even (x / 2 powi (exponent x - 52))) * 2 powi (exponent x - 52)"
  by (simp add: float64_def Let_def)

text \<open>A positive double lies between the powers of two around it.\<close>

lemma float64_between:
  assumes "0 < x"
  shows "2 powi exponent x \<le> float64 x" and "float64 x \<le> 2 powi (exponent x + 1)"
proof -
  let ?e = "exponent x - 52"
  have pos: "(0::rat) < 2 powi ?e" by simp
  have split: "(2::rat) powi exponent x = 2 ^ 52 * 2 powi ?e" "(2::rat) powi (exponent x + 1) = 2 ^ 53 * 2 powi ?e"
    by (simp_all add: power_int_add power_int_diff)
  have "of_int (2 ^ 52) \<le> x / 2 powi ?e"
    using exponent_bounds(1) [OF assms] split(1) pos by (simp add: le_divide_eq)
  from round_half_even_mono [OF this] have "2 ^ 52 \<le> round_half_even (x / 2 powi ?e)"
    by (simp only: round_half_even_of_int)
  then have "(2 ^ 52 :: rat) \<le> of_int (round_half_even (x / 2 powi ?e))"
    by (metis of_int_le_iff of_int_numeral of_int_power)
  then show "2 powi exponent x \<le> float64 x"
    unfolding float64_pos [OF assms] split(1) using pos by (intro mult_right_mono) simp_all
  have "x / 2 powi ?e \<le> of_int (2 ^ 53)"
    using exponent_bounds(2) [OF assms] split(2) pos by (simp add: divide_le_eq)
  from round_half_even_mono [OF this] have "round_half_even (x / 2 powi ?e) \<le> 2 ^ 53"
    by (simp only: round_half_even_of_int)
  then have "of_int (round_half_even (x / 2 powi ?e)) \<le> (2 ^ 53 :: rat)"
    by (metis of_int_le_iff of_int_numeral of_int_power)
  then show "float64 x \<le> 2 powi (exponent x + 1)"
    unfolding float64_pos [OF assms] split(2) using pos by (intro mult_right_mono) simp_all
qed

lemma float64_mono_pos: "0 < x \<Longrightarrow> x \<le> y \<Longrightarrow> float64 x \<le> float64 y"
proof -
  assume x: "0 < x" and le: "x \<le> y"
  then have y: "0 < y" by simp
  show ?thesis
  proof (cases "exponent x = exponent y")
    case True
    have "x / 2 powi (exponent y - 52) \<le> y / 2 powi (exponent y - 52)" using le by (simp add: divide_right_mono)
    from round_half_even_mono [OF this] show ?thesis
      by (simp add: float64_pos [OF x] float64_pos [OF y] True mult_right_mono)
  next
    case False
    then have "exponent x + 1 \<le> exponent y" using exponent_mono [OF x le] by simp
    then have "(2::rat) powi (exponent x + 1) \<le> 2 powi exponent y" by (intro power_int_increasing) simp_all
    then show ?thesis using float64_between [OF x] float64_between [OF y] by linarith
  qed
qed

lemma float64_0 [simp]: "float64 0 = 0"
  by (simp add: float64_def)

lemma float64_nonneg: "0 \<le> x \<Longrightarrow> 0 \<le> float64 x"
  using float64_between(1) [of x] by (cases "x = 0") (auto intro: order.trans [rotated])

lemma float64_mono: "0 \<le> x \<Longrightarrow> x \<le> y \<Longrightarrow> float64 x \<le> float64 y"
  using float64_mono_pos [of x y] float64_nonneg [of y] by (cases "x = 0") auto

text \<open>What 53 bits hold exactly is left alone.\<close>

lemma float64_exact:
  assumes "x = of_int m * 2 powi e" and "0 < m" and "m \<le> 2 ^ 53"
  shows "float64 x = x"
proof -
  have pos: "0 < x" using assms by simp
  let ?k = "exponent x - 52"
  have "x \<le> of_int (2 ^ 53) * 2 powi e" unfolding assms(1) using assms(3) by (intro mult_right_mono) (simp_all flip: of_int_le_iff)
  also have "\<dots> = 2 powi (e + 53)" by (simp add: power_int_add)
  finally have up: "x \<le> 2 powi (e + 53)" .
  show ?thesis
  proof (cases "x = 2 powi (e + 53)")
    case True
    then have "exponent x = e + 53" by (intro exponent_unique) (simp_all add: powi_less_iff)
    then have "x / 2 powi ?k = of_int (2 ^ 52)" by (simp add: True power_int_add power_int_diff)
    then show ?thesis unfolding float64_pos [OF pos] by (simp only: round_half_even_of_int) (simp add: nonzero_divide_eq_eq)
  next
    case False
    then have "2 powi exponent x < (2::rat) powi (e + 53)" using up exponent_bounds(1) [OF pos] by linarith
    then have le: "?k \<le> e" by (simp add: powi_less_iff)
    have "x / 2 powi ?k = of_int m * 2 powi (e - ?k)" unfolding assms(1) by (simp add: power_int_diff)
    also have "\<dots> = of_int (m * 2 ^ nat (e - ?k))" using le by (simp add: power_int_def)
    finally have eq: "x / 2 powi ?k = of_int (m * 2 ^ nat (e - ?k))" .
    then have "round_half_even (x / 2 powi ?k) = m * 2 ^ nat (e - ?k)" by (simp only: round_half_even_of_int)
    then have "float64 x = x / 2 powi ?k * 2 powi ?k" unfolding float64_pos [OF pos] eq by simp
    then show ?thesis by simp
  qed
qed

lemma float64_of_int: "0 \<le> n \<Longrightarrow> n \<le> 2 ^ 53 \<Longrightarrow> float64 (of_int n) = of_int n"
  using float64_exact [of "of_int n" n 0] by (cases "n = 0") auto

end
