(* ===== verification/Concurrency.thy ===== *)
theory Concurrency
  imports Go_Time Go_Float
begin

text \<open>
  The concurrency rule of \<open>internal/dispatcher/concurrency.go\<close>: \<open>NextConcurrency\<close>, which halves,
  holds or raises the number \<open>N\<close> of runs in flight at once on what a settled run showed, and
  \<open>Recommend\<close>, which applies it beside the owner's own \<open>N\<close>; and the median the observations
  of \<open>internal/store/concurrency.go\<close> are taken from.
\<close>

section \<open>The rule\<close>

record tuning =
  StableRuns :: int
  RiseWithin :: rat
  HalveBeyond :: rat

definition DefaultTuning :: tuning where
  "DefaultTuning = \<lparr>StableRuns = 5, RiseWithin = 5 / 4, HalveBeyond = 3 / 2\<rparr>"

definition Tuning_OrDefault :: "tuning \<Rightarrow> tuning" where
  "Tuning_OrDefault t = \<lparr>
     StableRuns = cmp_or (StableRuns t) (StableRuns DefaultTuning),
     RiseWithin = (if RiseWithin t \<noteq> 0 then RiseWithin t else RiseWithin DefaultTuning),
     HalveBeyond = (if HalveBeyond t \<noteq> 0 then HalveBeyond t else HalveBeyond DefaultTuning)\<rparr>"

definition MinRunsAtOnce :: int where "MinRunsAtOnce = 1"
definition MaxRunsAtOnce :: int where "MaxRunsAtOnce = 15"
definition DefaultRunsAtOnce :: int where "DefaultRunsAtOnce = 2"

definition RunsAtOnceMax :: "int \<Rightarrow> int" where
  "RunsAtOnceMax platformCap = min MaxRunsAtOnce platformCap"

record concurrency =
  concN :: int
  concStable :: int

record observation =
  Solo :: duration
  Loaded :: duration
  RateLimited :: bool

text \<open>
  Go's integer division truncates; it is applied to \<^term>\<open>N / 2\<close>, where \<^term>\<open>quot2\<close> rounds
  towards zero.
\<close>

definition quot2 :: "int \<Rightarrow> int" where
  "quot2 n = sgn n * (\<bar>n\<bar> div 2)"

definition NextConcurrency :: "concurrency \<Rightarrow> observation \<Rightarrow> tuning \<Rightarrow> int \<Rightarrow> concurrency" where
  "NextConcurrency cur obs t platformCap =
     (let top = RunsAtOnceMax platformCap;
          nextN = min (max (concN cur) 1) top;
          halved = \<lparr>concN = max (quot2 nextN) 1, concStable = 0\<rparr>;
          next = \<lparr>concN = nextN, concStable = concStable cur\<rparr>
      in if RateLimited obs then halved
         else if Solo obs \<le> 0 \<or> Loaded obs \<le> 0 then next
         else let ratio = float64 (float64 (of_int (Loaded obs)) / float64 (of_int (Solo obs))) in
           if ratio > HalveBeyond t then halved
           else if ratio \<le> RiseWithin t then
             (let stable = int64 (concStable cur + 1) in
              if stable \<ge> StableRuns t then \<lparr>concN = min (nextN + 1) top, concStable = 0\<rparr>
              else next \<lparr>concStable := stable\<rparr>)
           else next \<lparr>concStable := 0\<rparr>)"

definition BasisNone :: string where "BasisNone = ''''"
definition BasisSteady :: string where "BasisSteady = ''steady''"
definition BasisRise :: string where "BasisRise = ''rise''"
definition BasisSlow :: string where "BasisSlow = ''slow''"
definition BasisRateLimited :: string where "BasisRateLimited = ''rate-limited''"

record recommendation =
  recN :: int
  recStable :: int
  recBasis :: string

definition Recommend ::
  "recommendation \<Rightarrow> int \<Rightarrow> observation \<Rightarrow> tuning \<Rightarrow> int \<Rightarrow> recommendation" where
  "Recommend prev n obs t platformCap =
     (if \<not> RateLimited obs \<and> (Solo obs \<le> 0 \<or> Loaded obs \<le> 0) then prev
      else let next = NextConcurrency \<lparr>concN = n, concStable = recStable prev\<rparr> obs t platformCap in
        if concN next < n \<and> RateLimited obs then
          \<lparr>recN = concN next, recStable = 0, recBasis = BasisRateLimited\<rparr>
        else if concN next < n then \<lparr>recN = concN next, recStable = 0, recBasis = BasisSlow\<rparr>
        else if concN next > n then \<lparr>recN = concN next, recStable = StableRuns t, recBasis = BasisRise\<rparr>
        else \<lparr>recN = n, recStable = concStable next, recBasis = BasisSteady\<rparr>)"

text \<open>\<open>medianDuration\<close>: the middle of the sorted durations, the lower of two.\<close>

definition medianDuration :: "duration list \<Rightarrow> duration" where
  "medianDuration ds = (if ds = [] then 0 else sort ds ! ((length ds - 1) div 2))"

section \<open>What the rule keeps\<close>

text \<open>An observation the rule counts as stable, and one it halves on.\<close>

definition load_ratio :: "observation \<Rightarrow> rat" where
  "load_ratio obs = float64 (float64 (of_int (Loaded obs)) / float64 (of_int (Solo obs)))"

definition measured :: "observation \<Rightarrow> bool" where
  "measured obs \<longleftrightarrow> 0 < Solo obs \<and> 0 < Loaded obs"

definition halves :: "tuning \<Rightarrow> observation \<Rightarrow> bool" where
  "halves t obs \<longleftrightarrow> RateLimited obs \<or> (measured obs \<and> load_ratio obs > HalveBeyond t)"

definition stable_obs :: "tuning \<Rightarrow> observation \<Rightarrow> bool" where
  "stable_obs t obs \<longleftrightarrow> \<not> halves t obs \<and> measured obs \<and> load_ratio obs \<le> RiseWithin t"

lemma NextConcurrency_bounds:
  assumes "1 \<le> platformCap"
  shows "1 \<le> concN (NextConcurrency cur obs t platformCap)"
    and "concN (NextConcurrency cur obs t platformCap) \<le> RunsAtOnceMax platformCap"
proof -
  have top: "1 \<le> RunsAtOnceMax platformCap"
    using assms by (simp add: RunsAtOnceMax_def MaxRunsAtOnce_def)
  define n where "n = min (max (concN cur) 1) (RunsAtOnceMax platformCap)"
  have n: "1 \<le> n" "n \<le> RunsAtOnceMax platformCap" using top by (simp_all add: n_def)
  have "quot2 n \<le> n" using n by (simp add: quot2_def)
  then have half: "max (quot2 n) 1 \<le> RunsAtOnceMax platformCap" using n by simp
  show "1 \<le> concN (NextConcurrency cur obs t platformCap)"
    using n top by (simp add: NextConcurrency_def Let_def flip: n_def)
  show "concN (NextConcurrency cur obs t platformCap) \<le> RunsAtOnceMax platformCap"
    using n half by (simp add: NextConcurrency_def Let_def flip: n_def)
qed

lemma clamped: "1 \<le> n \<Longrightarrow> n \<le> m \<Longrightarrow> min (max n 1) m = (n::int)"
  by simp

lemma unmeasured: "Solo obs \<le> 0 \<or> Loaded obs \<le> 0 \<longleftrightarrow> \<not> measured obs"
  by (auto simp: measured_def)

text \<open>The rule on an \<open>N\<close> in range, by what the observation says.\<close>

lemma NextConcurrency_cases:
  assumes "1 \<le> concN cur" and "concN cur \<le> RunsAtOnceMax platformCap"
  shows "NextConcurrency cur obs t platformCap =
    (if halves t obs then \<lparr>concN = max (concN cur div 2) 1, concStable = 0\<rparr>
     else if \<not> measured obs then \<lparr>concN = concN cur, concStable = concStable cur\<rparr>
     else if \<not> stable_obs t obs then \<lparr>concN = concN cur, concStable = 0\<rparr>
     else if int64 (concStable cur + 1) \<ge> StableRuns t
     then \<lparr>concN = min (concN cur + 1) (RunsAtOnceMax platformCap), concStable = 0\<rparr>
     else \<lparr>concN = concN cur, concStable = int64 (concStable cur + 1)\<rparr>)"
proof -
  have "quot2 (concN cur) = concN cur div 2" using assms(1) by (simp add: quot2_def)
  then show ?thesis
    unfolding NextConcurrency_def Let_def unmeasured load_ratio_def [symmetric] clamped [OF assms]
    by (cases "RateLimited obs"; cases "measured obs"; cases "load_ratio obs > HalveBeyond t";
        cases "load_ratio obs \<le> RiseWithin t") (simp_all add: halves_def stable_obs_def)
qed

text \<open>A run of observations, each applied to what the one before left.\<close>

definition apply_rule :: "tuning \<Rightarrow> int \<Rightarrow> concurrency \<Rightarrow> observation list \<Rightarrow> concurrency" where
  "apply_rule t platformCap cur obss = foldl (\<lambda>c obs. NextConcurrency c obs t platformCap) cur obss"

lemma apply_rule_snoc:
  "apply_rule t cap cur (obss @ [obs]) = NextConcurrency (apply_rule t cap cur obss) obs t cap"
  by (simp add: apply_rule_def)

lemma apply_rule_counts:
  assumes "list_all (stable_obs t) obss" and "int (length obss) < StableRuns t" and "in_int64 (StableRuns t)"
    and "1 \<le> n" and "n \<le> RunsAtOnceMax cap"
  shows "apply_rule t cap \<lparr>concN = n, concStable = 0\<rparr> obss = \<lparr>concN = n, concStable = int (length obss)\<rparr>"
  using assms(1,2)
proof (induction obss rule: rev_induct)
  case (snoc obs obss)
  then show ?case
    using assms(3,4,5) NextConcurrency_cases [of "\<lparr>concN = n, concStable = int (length obss)\<rparr>" cap obs t]
    by (simp add: apply_rule_snoc in_int64_def stable_obs_def)
qed (simp add: apply_rule_def)

text \<open>The median is a member at least half the members reach from each side.\<close>

lemma medianDuration_mem: "ds \<noteq> [] \<Longrightarrow> medianDuration ds \<in> set ds"
proof -
  assume "ds \<noteq> []"
  then have "(length ds - 1) div 2 < length (sort ds)" by (cases ds) auto
  then have "sort ds ! ((length ds - 1) div 2) \<in> set (sort ds)" by (rule nth_mem)
  with \<open>ds \<noteq> []\<close> show ?thesis by (simp add: medianDuration_def)
qed

end
