(* ===== verification/Admission.thy ===== *)
theory Admission
  imports Settlement Concurrency
begin

text \<open>
  Admission (\<open>internal/dispatcher/admit.go\<close>): the limits, what is known of the runs in flight and
  of the candidate, \<open>HeldBeforeBudget\<close>, the conditions checked before the budget, and \<open>Admit\<close>.
\<close>

section \<open>The conditions\<close>

definition ConditionPlatformCap :: string where "ConditionPlatformCap = ''platform-cap''"
definition ConditionConcurrency :: string where "ConditionConcurrency = ''concurrency-limit''"
definition ConditionLargeCap :: string where "ConditionLargeCap = ''large-cap''"
definition ConditionRepoCap :: string where "ConditionRepoCap = ''repo-cap''"
definition ConditionRepoOverlap :: string where "ConditionRepoOverlap = ''repo-overlap''"
definition ConditionBlocked :: string where "ConditionBlocked = ''blocked''"
definition ConditionReviewWIP :: string where "ConditionReviewWIP = ''review-wip''"
definition ConditionEstimateFailed :: string where "ConditionEstimateFailed = ''estimate-failed''"
definition ConditionCircuitBreaker :: string where "ConditionCircuitBreaker = ''circuit-breaker''"
definition ConditionOwnerPaused :: string where "ConditionOwnerPaused = ''owner-paused''"
definition ConditionPeakHours :: string where "ConditionPeakHours = ''peak-hours''"
definition ConditionPrivateOptIn :: string where "ConditionPrivateOptIn = ''private-opt-in''"
definition ConditionModelsUnchecked :: string where "ConditionModelsUnchecked = ''models-unchecked''"

lemmas condition_defs = ConditionPlatformCap_def ConditionConcurrency_def ConditionLargeCap_def
  ConditionRepoCap_def ConditionRepoOverlap_def ConditionBlocked_def ConditionReviewWIP_def
  ConditionCircuitBreaker_def ConditionOwnerPaused_def ConditionPeakHours_def
  ConditionEstimateFailed_def ConditionPrivateOptIn_def ConditionModelsUnchecked_def
  CeilingProviderHalted_def CeilingCash_def CeilingRunnerMinutes_def

definition largeSize :: string where "largeSize = ''L''"
definition StagePlan :: string where "StagePlan = ''plan''"
definition StageBuild :: string where "StageBuild = ''build''"

lemma stages_distinct [simp]: "StagePlan \<noteq> StageBuild" "StageBuild \<noteq> StagePlan" "StagePlan \<noteq> []" "StageBuild \<noteq> []"
  by (simp_all add: StagePlan_def StageBuild_def)

definition DefaultRunsPerRepo :: int where "DefaultRunsPerRepo = 5"

section \<open>What admission decides from\<close>

record limits =
  PlatformCap :: int
  LargeCap :: int
  ReviewWIP :: int
  RepoCap :: int

definition DefaultLimits :: limits where
  "DefaultLimits = \<lparr>PlatformCap = 20, LargeCap = 1, ReviewWIP = 3, RepoCap = DefaultRunsPerRepo\<rparr>"

definition Limits_OrDefault :: "limits \<Rightarrow> limits" where
  "Limits_OrDefault l = \<lparr>
     PlatformCap = cmp_or (PlatformCap l) (PlatformCap DefaultLimits),
     LargeCap = cmp_or (LargeCap l) (LargeCap DefaultLimits),
     ReviewWIP = cmp_or (ReviewWIP l) (ReviewWIP DefaultLimits),
     RepoCap = cmp_or (RepoCap l) (RepoCap DefaultLimits)\<rparr>"

record in_flight =
  flightTicket :: string
  flightRepo :: string
  flightSize :: string
  flightFiles :: "string list"
  flightStage :: string

record subject =
  subjTicket :: string
  subjRepo :: string
  subjSize :: string
  subjBlockedBy :: "string list"
  subjBlocks :: "string list"
  subjBlockedByOpen :: "string list"
  subjFiles :: "string list"
  subjStage :: string

record relations =
  relKnown :: bool
  relBlockedBy :: "string list"
  relBlocks :: "string list"
  relBlockedByOpen :: "string list"

text \<open>
  \<open>Facts.History\<close> is the loader's answer, which the poll reads once: \<^term>\<open>None\<close> is a nil
  loader, \<^term>\<open>Some (Inl e)\<close> a loader whose read failed.
\<close>

record 'e facts =
  factLimits :: limits
  factTuning :: tuning
  factRelations :: relations
  factProviderHalted :: bool
  factBreakerTripped :: bool
  factOwnerPaused :: bool
  factPeakHeld :: bool
  factModel :: string
  factOpenPRs :: int
  factOpenPRsKnown :: bool
  factDecisionMode :: string
  factHistory :: "('e + settlement list) option"

record 'e admit_input =
  inFacts :: "'e facts"
  inN :: int
  inInFlight :: "in_flight list"
  inCandidate :: subject
  inBudget :: budget_config
  inReserved :: totals
  inSettled :: settled
  inReservation :: reservation

section \<open>The checks\<close>

definition countSize :: "in_flight list \<Rightarrow> string \<Rightarrow> int" where
  "countSize runs sz = foldl (\<lambda>n r. if flightSize r = sz then n + 1 else n) 0 runs"

definition inFlightInRepo :: "in_flight list \<Rightarrow> string \<Rightarrow> int" where
  "inFlightInRepo runs repo = foldl (\<lambda>n r. if equal_fold (flightRepo r) repo then n + 1 else n) 0 runs"

definition writeSetsOverlap :: "in_flight \<Rightarrow> subject \<Rightarrow> bool" where
  "writeSetsOverlap f c =
     (if flightStage f = StagePlan \<or> subjStage c = StagePlan then False
      else list_ex (\<lambda>name. name \<in> set (subjFiles c)) (flightFiles f))"

definition blocked :: "subject \<Rightarrow> in_flight list \<Rightarrow> bool" where
  "blocked c runs =
     (if subjBlockedByOpen c \<noteq> [] then True
      else list_ex (\<lambda>r. flightTicket r \<in> set (subjBlockedBy c) \<or> flightTicket r \<in> set (subjBlocks c)) runs)"

definition HeldBeforeBudget :: "'e admit_input \<Rightarrow> string" where
  "HeldBeforeBudget inp =
     (let n = max (inN inp) 1;
          running = int (length (inInFlight inp));
          f = inFacts inp; l = factLimits (inFacts inp); c = inCandidate inp
      in if factBreakerTripped f then ConditionCircuitBreaker
         else if factOwnerPaused f then ConditionOwnerPaused
         else if factProviderHalted f then CeilingProviderHalted
         else if factPeakHeld f then ConditionPeakHours
         else if running \<ge> PlatformCap l then ConditionPlatformCap
         else if running \<ge> n then ConditionConcurrency
         else if subjSize c = largeSize \<and> countSize (inInFlight inp) largeSize \<ge> LargeCap l
         then ConditionLargeCap
         else if inFlightInRepo (inInFlight inp) (subjRepo c) \<ge> RepoCap l then ConditionRepoCap
         else if list_ex (\<lambda>r. equal_fold (flightRepo r) (subjRepo c) \<and> writeSetsOverlap r c) (inInFlight inp)
         then ConditionRepoOverlap
         else if blocked c (inInFlight inp) then ConditionBlocked
         else if factOpenPRsKnown f \<and> factOpenPRs f \<ge> ReviewWIP l \<or> \<not> factOpenPRsKnown f \<and> running > 0
         then ConditionReviewWIP
         else [])"

definition Admit :: "'e admit_input \<Rightarrow> bool \<times> string" where
  "Admit inp =
     (if HeldBeforeBudget inp \<noteq> [] then (False, HeldBeforeBudget inp)
      else case Decide (inBudget inp) (factModel (inFacts inp)) (inReserved inp) (inSettled inp) (inReservation inp) of
             (fits, why) \<Rightarrow> if \<not> fits then (False, why) else (True, []))"

section \<open>What an admitted candidate is promised\<close>

lemma foldl_count: "foldl (\<lambda>n r. if P r then n + 1 else n) a xs = a + int (length (filter P xs))"
  by (induction xs arbitrary: a) auto

lemma countSize_filter: "countSize runs sz = int (length (filter (\<lambda>r. flightSize r = sz) runs))"
  by (simp add: countSize_def foldl_count)

lemma inFlightInRepo_filter:
  "inFlightInRepo runs repo = int (length (filter (\<lambda>r. equal_fold (flightRepo r) repo) runs))"
  by (simp add: inFlightInRepo_def foldl_count)

text \<open>
  The limits as the documentation states them, one conjunct a condition, with no order among
  them: what must hold of a candidate before its budget is looked at.
\<close>

definition no_hold :: "'e facts \<Rightarrow> bool" where
  "no_hold f \<longleftrightarrow> \<not> factBreakerTripped f \<and> \<not> factOwnerPaused f \<and> \<not> factProviderHalted f \<and> \<not> factPeakHeld f"

definition caps_leave_room :: "limits \<Rightarrow> int \<Rightarrow> in_flight list \<Rightarrow> subject \<Rightarrow> bool" where
  "caps_leave_room l n runs c \<longleftrightarrow>
     int (length runs) < PlatformCap l \<and> int (length runs) < max n 1
     \<and> (subjSize c = largeSize \<longrightarrow> int (length (filter (\<lambda>r. flightSize r = largeSize) runs)) < LargeCap l)
     \<and> int (length (filter (\<lambda>r. equal_fold (flightRepo r) (subjRepo c)) runs)) < RepoCap l"

definition no_conflict :: "in_flight list \<Rightarrow> subject \<Rightarrow> bool" where
  "no_conflict runs c \<longleftrightarrow>
     subjBlockedByOpen c = []
     \<and> (\<forall>r \<in> set runs. flightTicket r \<notin> set (subjBlockedBy c) \<and> flightTicket r \<notin> set (subjBlocks c))
     \<and> (\<forall>r \<in> set runs. equal_fold (flightRepo r) (subjRepo c) \<and> flightStage r \<noteq> StagePlan \<and> subjStage c \<noteq> StagePlan
           \<longrightarrow> set (flightFiles r) \<inter> set (subjFiles c) = {})"

definition review_room :: "'e facts \<Rightarrow> in_flight list \<Rightarrow> bool" where
  "review_room f runs \<longleftrightarrow> (if factOpenPRsKnown f then factOpenPRs f < ReviewWIP (factLimits f) else runs = [])"

lemma no_conflict_checks:
  "no_conflict runs c \<longleftrightarrow>
     \<not> list_ex (\<lambda>r. equal_fold (flightRepo r) (subjRepo c) \<and> writeSetsOverlap r c) runs \<and> \<not> blocked c runs"
proof -
  have "writeSetsOverlap r c \<longleftrightarrow> flightStage r \<noteq> StagePlan \<and> subjStage c \<noteq> StagePlan
      \<and> set (flightFiles r) \<inter> set (subjFiles c) \<noteq> {}" for r
    by (auto simp: writeSetsOverlap_def list_ex_iff)
  then show ?thesis by (auto simp: no_conflict_def blocked_def list_ex_iff)
qed

lemma review_room_checks:
  "review_room f runs \<longleftrightarrow>
     \<not> (factOpenPRsKnown f \<and> factOpenPRs f \<ge> ReviewWIP (factLimits f) \<or> \<not> factOpenPRsKnown f \<and> int (length runs) > 0)"
  by (auto simp: review_room_def)

lemma conditions_nonempty [simp]:
  "ConditionPlatformCap \<noteq> []" "ConditionConcurrency \<noteq> []" "ConditionLargeCap \<noteq> []" "ConditionRepoCap \<noteq> []"
  "ConditionRepoOverlap \<noteq> []" "ConditionBlocked \<noteq> []" "ConditionReviewWIP \<noteq> []" "ConditionCircuitBreaker \<noteq> []"
  "ConditionOwnerPaused \<noteq> []" "ConditionPeakHours \<noteq> []" "CeilingProviderHalted \<noteq> []"
  by (simp_all add: condition_defs)

lemma if_held: "c \<noteq> [] \<Longrightarrow> (if P then c else x) = [] \<longleftrightarrow> \<not> P \<and> x = []"
  by simp

lemma HeldBeforeBudget_none:
  "HeldBeforeBudget inp = [] \<longleftrightarrow>
     no_hold (inFacts inp)
     \<and> caps_leave_room (factLimits (inFacts inp)) (inN inp) (inInFlight inp) (inCandidate inp)
     \<and> no_conflict (inInFlight inp) (inCandidate inp) \<and> review_room (inFacts inp) (inInFlight inp)"
  unfolding HeldBeforeBudget_def Let_def no_conflict_checks review_room_checks no_hold_def
    caps_leave_room_def countSize_filter inFlightInRepo_filter
  by (simp add: if_held not_le less_max_iff_disj conj_assoc split del: if_split)

lemma Admit_iff:
  "fst (Admit inp) \<longleftrightarrow> HeldBeforeBudget inp = [] \<and>
     fst (Decide (inBudget inp) (factModel (inFacts inp)) (inReserved inp) (inSettled inp) (inReservation inp))"
  by (simp add: Admit_def split: prod.splits)

lemma Admit_binding: "Admit inp = (False, why) \<Longrightarrow> HeldBeforeBudget inp = [] \<Longrightarrow>
    Decide (inBudget inp) (factModel (inFacts inp)) (inReserved inp) (inSettled inp) (inReservation inp) = (False, why)"
  by (auto simp: Admit_def split: prod.splits if_splits)

lemma Admit_cases: "(\<exists>why. Admit inp = (False, why)) \<or> Admit inp = (True, [])"
  by (auto simp: Admit_def split: prod.splits)

text \<open>
  The settled history matters to \<open>Admit\<close> only past \<open>HeldBeforeBudget\<close>: a candidate one of those
  conditions withholds is withheld for the same reason whatever was settled.
\<close>

lemma HeldBeforeBudget_settled [simp]:
  "HeldBeforeBudget (inp\<lparr>inSettled := s\<rparr>) = HeldBeforeBudget inp"
  by (simp add: HeldBeforeBudget_def Let_def split del: if_split cong: if_cong)

lemma Limits_OrDefault_positive:
  assumes "0 \<le> PlatformCap l" "0 \<le> LargeCap l" "0 \<le> ReviewWIP l" "0 \<le> RepoCap l"
  shows "0 < PlatformCap (Limits_OrDefault l)" "0 < LargeCap (Limits_OrDefault l)"
    "0 < ReviewWIP (Limits_OrDefault l)" "0 < RepoCap (Limits_OrDefault l)"
  using assms by (auto simp: Limits_OrDefault_def cmp_or_def DefaultLimits_def DefaultRunsPerRepo_def)

end
