(* ===== verification/Ledger.thy ===== *)
theory Ledger
  imports Admission
begin

text \<open>
  The ledger document of \<open>internal/store/queue.go\<close>: the reservation every claimed run holds,
  keyed by run, attempt and stage; what admission reads of it (\<open>inFlight\<close>, \<open>reservedTotals\<close>);
  and the keys a run's reservation is found under (\<open>reservationKey\<close>, \<open>reservedKeys\<close>,
  \<open>reservation\<close>).
\<close>

section \<open>The document\<close>

record reservation_entry =
  ProviderCostMicros :: micros
  entryRunnerMinutes :: int
  entryTicketID :: string
  entryRepo :: string
  entrySize :: string
  ClaimedAt :: time
  entryAttempt :: int
  entryStage :: string
  entryFiles :: "string list"

record ledger_doc =
  Reservations :: "(string \<times> reservation_entry) list"
  ledgerN :: int
  ledgerStableRuns :: int
  Recommended :: int
  RecommendBasis :: string
  ledgerPlatformCap :: int
  ChangedAfter :: time
  TuneStableRuns :: int
  TuneRiseWithin :: rat
  TuneHalveBeyond :: rat

definition empty_ledger :: ledger_doc where
  "empty_ledger = \<lparr>Reservations = [], ledgerN = 0, ledgerStableRuns = 0, Recommended = 0,
     RecommendBasis = [], ledgerPlatformCap = 0, ChangedAfter = 0, TuneStableRuns = 0,
     TuneRiseWithin = 0, TuneHalveBeyond = 0\<rparr>"

definition inFlight :: "ledger_doc \<Rightarrow> in_flight list" where
  "inFlight doc = map (\<lambda>(_, r). \<lparr>flightTicket = entryTicketID r, flightRepo = entryRepo r,
     flightSize = entrySize r, flightFiles = entryFiles r, flightStage = entryStage r\<rparr>) (Reservations doc)"

definition inFlightByRepo :: "ledger_doc \<Rightarrow> (string \<times> int) list" where
  "inFlightByRepo doc = foldl (\<lambda>counts run.
     let repo = to_lower (flightRepo run) in
     AList.update repo ((case map_of counts repo of Some n \<Rightarrow> n | None \<Rightarrow> 0) + 1) counts) [] (inFlight doc)"

definition ledger_tuning :: "ledger_doc \<Rightarrow> tuning" where
  "ledger_tuning d = Tuning_OrDefault \<lparr>StableRuns = TuneStableRuns d, RiseWithin = TuneRiseWithin d,
     HalveBeyond = TuneHalveBeyond d\<rparr>"

definition ledger_concurrency :: "ledger_doc \<Rightarrow> concurrency" where
  "ledger_concurrency d = \<lparr>concN = max (ledgerN d) 1, concStable = ledgerStableRuns d\<rparr>"

definition ledger_recommendation :: "ledger_doc \<Rightarrow> recommendation" where
  "ledger_recommendation d = \<lparr>recN = Recommended d, recStable = ledgerStableRuns d, recBasis = RecommendBasis d\<rparr>"

definition latestClaim :: "ledger_doc \<Rightarrow> time \<Rightarrow> time" where
  "latestClaim d after = foldl (\<lambda>after e. if ClaimedAt (snd e) > after then ClaimedAt (snd e) else after) after (Reservations d)"

definition reservedTotals :: "ledger_doc \<Rightarrow> totals" where
  "reservedTotals doc =
     (case foldl (\<lambda>(cost, minutes) e. (int64 (cost + ProviderCostMicros (snd e)), int64 (minutes + entryRunnerMinutes (snd e))))
             (0, 0) (Reservations doc) of
        (cost, minutes) \<Rightarrow> \<lparr>totalProviderCost = cost, totalRunnerMinutes = minutes\<rparr>)"

section \<open>Reservation keys\<close>

definition planKeySuffix :: string where "planKeySuffix = ''#plan''"
definition attemptKeyMarker :: string where "attemptKeyMarker = ''#a''"

definition stageKey :: "string \<Rightarrow> string \<Rightarrow> string" where
  "stageKey base stage = (if stage = StagePlan then base @ planKeySuffix else base)"

definition reservationKey :: "string \<Rightarrow> int \<Rightarrow> string \<Rightarrow> string" where
  "reservationKey runID attempt stage = stageKey (runID @ attemptKeyMarker @ itoa attempt) stage"

definition legacyReservationKey :: "string \<Rightarrow> string \<Rightarrow> string" where
  "legacyReservationKey runID stage = stageKey runID stage"

definition reservationRunID :: "string \<Rightarrow> string" where
  "reservationRunID key = fst (cut (fst (cut_suffix key planKeySuffix)) attemptKeyMarker)"

definition held_keys :: "ledger_doc \<Rightarrow> string list \<Rightarrow> string list" where
  "held_keys d keys = filter (\<lambda>k. map_of (Reservations d) k \<noteq> None) keys"

definition reservedKeys :: "ledger_doc \<Rightarrow> string \<Rightarrow> int \<Rightarrow> string list" where
  "reservedKeys d runID attempt =
     (let keys = held_keys d [reservationKey runID attempt StageBuild, reservationKey runID attempt StagePlan] in
      if keys \<noteq> [] then keys
      else held_keys d [legacyReservationKey runID StageBuild, legacyReservationKey runID StagePlan])"

definition ledger_reservation :: "ledger_doc \<Rightarrow> string \<Rightarrow> int \<Rightarrow> (string \<times> reservation_entry) option" where
  "ledger_reservation d runID attempt =
     (case reservedKeys d runID attempt of
        [] \<Rightarrow> None
      | key # _ \<Rightarrow> (case map_of (Reservations d) key of Some entry \<Rightarrow> Some (key, entry) | None \<Rightarrow> None))"

text \<open>A write that deletes one key of the reservations map, and one that deletes several.\<close>

definition drop_key :: "string \<Rightarrow> ledger_doc \<Rightarrow> ledger_doc" where
  "drop_key key d = d\<lparr>Reservations := AList.delete key (Reservations d)\<rparr>"

definition drop_keys :: "string list \<Rightarrow> ledger_doc \<Rightarrow> ledger_doc" where
  "drop_keys keys d = foldl (\<lambda>d key. drop_key key d) d keys"

section \<open>A key names its run, attempt and stage\<close>

text \<open>A run id is a ticket identifier, which holds no \<open>#\<close>.\<close>

definition run_id_ok :: "string \<Rightarrow> bool" where
  "run_id_ok runID \<longleftrightarrow> CHR ''#'' \<notin> set runID"

lemma itoa_nonempty: "itoa n \<noteq> []"
proof -
  have "itoa_nat k \<noteq> []" for k by (subst itoa_nat.simps) auto
  then show ?thesis by (simp add: itoa_def)
qed

lemma itoa_no_plan_suffix: "\<not> suffix planKeySuffix (x @ itoa n)"
proof
  assume "suffix planKeySuffix (x @ itoa n)"
  then obtain zs where "x @ itoa n = zs @ planKeySuffix" by (auto simp: suffix_def)
  then have "last (x @ itoa n) = last (zs @ planKeySuffix)" by (rule arg_cong)
  then have "last (itoa n) = CHR ''n''" by (simp add: itoa_nonempty planKeySuffix_def)
  moreover have "last (itoa n) \<in> set (itoa n)" by (simp add: itoa_nonempty)
  ultimately have "CHR ''n'' \<in> set (itoa n)" by simp
  then show False
    using itoa_nat_digits [of "nat n"] itoa_nat_digits [of "nat (- n)"]
    by (auto simp: itoa_def is_digit_def list_all_iff split: if_splits)
qed

lemma cut_run_id: "run_id_ok r \<Longrightarrow> cut (r @ attemptKeyMarker @ t) attemptKeyMarker = (r, t, True)"
  unfolding run_id_ok_def attemptKeyMarker_def by (rule cut_found)

lemma cut_run_id_alone: "run_id_ok r \<Longrightarrow> cut r attemptKeyMarker = (r, [], False)"
  unfolding run_id_ok_def attemptKeyMarker_def by (rule cut_not_found)

lemma reservationRunID_key: "run_id_ok r \<Longrightarrow> reservationRunID (reservationKey r a st) = r"
proof -
  assume ok: "run_id_ok r"
  have "cut_suffix (r @ attemptKeyMarker @ itoa a) planKeySuffix = (r @ attemptKeyMarker @ itoa a, False)"
    using itoa_no_plan_suffix [of "r @ attemptKeyMarker" a] by (simp add: cut_suffix_def)
  moreover have "cut_suffix ((r @ attemptKeyMarker @ itoa a) @ planKeySuffix) planKeySuffix
      = (r @ attemptKeyMarker @ itoa a, True)"
    by (rule cut_suffix_append)
  ultimately show ?thesis
    using ok by (auto simp: reservationRunID_def reservationKey_def stageKey_def cut_run_id)
qed

lemma suffix_hash: "suffix planKeySuffix r \<Longrightarrow> CHR ''#'' \<in> set r"
  by (auto simp: suffix_def planKeySuffix_def)

lemma reservationRunID_legacy: "run_id_ok r \<Longrightarrow> reservationRunID (legacyReservationKey r st) = r"
proof -
  assume ok: "run_id_ok r"
  have "\<not> suffix planKeySuffix r" using ok suffix_hash by (auto simp: run_id_ok_def)
  then have "cut_suffix r planKeySuffix = (r, False)" by (simp add: cut_suffix_def)
  then show ?thesis
    using ok by (simp add: reservationRunID_def legacyReservationKey_def stageKey_def cut_run_id_alone)
qed

lemma append_marker_inj:
  assumes "CHR ''#'' \<notin> set xs" "CHR ''#'' \<notin> set ys" "xs @ CHR ''#'' # us = ys @ CHR ''#'' # vs"
  shows "xs = ys \<and> us = vs"
  using assms
proof (induction xs arbitrary: ys)
  case Nil
  then show ?case by (cases ys) auto
next
  case (Cons x xs)
  then show ?case by (cases ys) auto
qed

lemma stageKey_inj:
  assumes "stageKey (x @ itoa m) s = stageKey (y @ itoa n) t"
  shows "x @ itoa m = y @ itoa n \<and> (s = StagePlan \<longleftrightarrow> t = StagePlan)"
  using assms itoa_no_plan_suffix [of x m] itoa_no_plan_suffix [of y n]
  by (auto simp: stageKey_def suffix_def split: if_splits) (metis append_assoc)+

lemma reservationKey_inj:
  assumes "run_id_ok r" "run_id_ok r'" "reservationKey r a s = reservationKey r' a' s'"
  shows "r = r' \<and> a = a' \<and> (s = StagePlan \<longleftrightarrow> s' = StagePlan)"
proof -
  from assms(3) have "stageKey ((r @ attemptKeyMarker) @ itoa a) s = stageKey ((r' @ attemptKeyMarker) @ itoa a') s'"
    by (simp add: reservationKey_def)
  from stageKey_inj [OF this] have *: "r @ attemptKeyMarker @ itoa a = r' @ attemptKeyMarker @ itoa a'"
    "s = StagePlan \<longleftrightarrow> s' = StagePlan" by simp_all
  moreover from *(1) have "r = r' \<and> CHR ''a'' # itoa a = CHR ''a'' # itoa a'"
    using assms(1,2) unfolding run_id_ok_def attemptKeyMarker_def by (intro append_marker_inj) simp_all
  ultimately show ?thesis using itoa_inj [of a a'] by simp
qed

lemma reservationKey_other_run:
  "run_id_ok r \<Longrightarrow> run_id_ok r' \<Longrightarrow> r \<noteq> r' \<Longrightarrow> reservationKey r a s \<noteq> reservationKey r' a' s'"
  using reservationKey_inj by blast

lemma reservationKey_not_legacy:
  assumes "run_id_ok r" "run_id_ok r'"
  shows "reservationKey r a s \<noteq> legacyReservationKey r' s'"
proof
  assume eq: "reservationKey r a s = legacyReservationKey r' s'"
  have count: "length (filter (\<lambda>c. c = CHR ''#'') (itoa a)) = 0"
    using itoa_not_hash [of a] by (auto simp: filter_empty_conv)
  have none: "filter (\<lambda>c. c = CHR ''#'') r = []" "filter (\<lambda>c. c = CHR ''#'') r' = []"
    using assms by (auto simp: run_id_ok_def filter_empty_conv)
  from eq have hashes: "length (filter (\<lambda>c. c = CHR ''#'') (reservationKey r a s))
      = length (filter (\<lambda>c. c = CHR ''#'') (legacyReservationKey r' s'))" by simp
  then have "s \<noteq> StagePlan \<and> s' = StagePlan"
    using none count by (auto simp: reservationKey_def legacyReservationKey_def stageKey_def
        attemptKeyMarker_def planKeySuffix_def split: if_splits)
  with eq have "(r @ attemptKeyMarker) @ itoa a = r' @ planKeySuffix"
    by (simp add: reservationKey_def legacyReservationKey_def stageKey_def)
  then have "suffix planKeySuffix ((r @ attemptKeyMarker) @ itoa a)" by (metis suffixI)
  with itoa_no_plan_suffix show False by blast
qed

section \<open>Reading and dropping reservations\<close>

lemma ledger_reservation_Some:
  "ledger_reservation d r a = Some (key, entry) \<Longrightarrow>
     map_of (Reservations d) key = Some entry \<and> key \<in> set (reservedKeys d r a)"
  by (auto simp: ledger_reservation_def split: list.splits option.splits)

lemma reservedKeys_held: "key \<in> set (reservedKeys d r a) \<Longrightarrow> map_of (Reservations d) key \<noteq> None"
  by (auto simp: reservedKeys_def held_keys_def Let_def split: if_splits)

lemma reservedKeys_run: "run_id_ok r \<Longrightarrow> key \<in> set (reservedKeys d r a) \<Longrightarrow> reservationRunID key = r"
  by (auto simp: reservedKeys_def held_keys_def Let_def reservationRunID_key reservationRunID_legacy split: if_splits)

lemma ledger_reservation_None: "ledger_reservation d r a = None \<longleftrightarrow> reservedKeys d r a = []"
proof (cases "reservedKeys d r a")
  case (Cons key keys)
  then have "map_of (Reservations d) key \<noteq> None" using reservedKeys_held [of key d r a] by simp
  with Cons show ?thesis by (auto simp: ledger_reservation_def)
qed (simp add: ledger_reservation_def)

lemma drop_key_simps [simp]:
  "Reservations (drop_key k d) = AList.delete k (Reservations d)"
  "ledgerN (drop_key k d) = ledgerN d"
  by (simp_all add: drop_key_def)

lemma drop_keys_simps [simp]:
  "map_of (Reservations (drop_keys ks d)) j = (if j \<in> set ks then None else map_of (Reservations d) j)"
  "ledgerN (drop_keys ks d) = ledgerN d"
proof -
  show "map_of (Reservations (drop_keys ks d)) j = (if j \<in> set ks then None else map_of (Reservations d) j)"
    unfolding drop_keys_def by (induction ks arbitrary: d) auto
  show "ledgerN (drop_keys ks d) = ledgerN d"
    unfolding drop_keys_def by (induction ks arbitrary: d) simp_all
qed

lemma keyed_drop_keys: "keyed (Reservations d) \<Longrightarrow> keyed (Reservations (drop_keys ks d))"
  unfolding drop_keys_def by (induction ks arbitrary: d) simp_all

text \<open>The totals admission reads are the sums over the reservations, wrapped once.\<close>

lemma reservedTotals_sums:
  "totalProviderCost (reservedTotals d) = int64 (map_total ProviderCostMicros (Reservations d))"
  "totalRunnerMinutes (reservedTotals d) = int64 (map_total entryRunnerMinutes (Reservations d))"
  using foldl_pair_int64 [of "\<lambda>e. ProviderCostMicros (snd e)" "\<lambda>e. entryRunnerMinutes (snd e)" 0 0 "Reservations d"]
  by (simp_all add: reservedTotals_def map_total_def)

lemma length_inFlight [simp]: "length (inFlight d) = length (Reservations d)"
  by (simp add: inFlight_def)

lemma latestClaim_ge:
  "after \<le> latestClaim d after"
  "(k, e) \<in> set (Reservations d) \<Longrightarrow> ClaimedAt e \<le> latestClaim d after"
proof -
  have le: "(after::time) \<le> foldl (\<lambda>after e. if ClaimedAt (snd e) > after then ClaimedAt (snd e) else after) after xs"
    for after and xs :: "(string \<times> reservation_entry) list"
  proof (induction xs arbitrary: after)
    case (Cons x xs)
    from Cons [of after] Cons [of "ClaimedAt (snd x)"] show ?case by simp
  qed simp
  show "after \<le> latestClaim d after" unfolding latestClaim_def by (rule le)
  have "ClaimedAt e \<le> foldl (\<lambda>after e. if ClaimedAt (snd e) > after then ClaimedAt (snd e) else after) after xs"
    if "(k, e) \<in> set xs" for after xs
    using that
  proof (induction xs arbitrary: after)
    case (Cons x xs)
    from Cons le [of "max after (ClaimedAt (snd x))" xs] show ?case
      by (auto simp: max_def split: if_splits)
  qed simp
  then show "(k, e) \<in> set (Reservations d) \<Longrightarrow> ClaimedAt e \<le> latestClaim d after"
    unfolding latestClaim_def by blast
qed

end
