(* ===== verification/Run_Store.thy ===== *)
theory Run_Store
  imports Ledger
begin

text \<open>
  The state the store's operations share: the run rows, the ledger, the refused tickets, the
  archived attempts, the notices, the breaker and the pull requests no run row names, as the Firestore documents of \<open>internal/store\<close> hold them; and what a
  transaction does to it.

  \<open>RunTransaction\<close> is Firestore's: its body reads and writes one consistent state and commits
  all of its writes or none. A transaction that cannot be carried out is the argument
  \<open>fault = Some e\<close>; it returns the error and changes nothing. An error wrapped by
  \<open>fmt.Errorf("...%w")\<close> is the error it wraps, as \<open>errors.Is\<close> reads it.
\<close>

section \<open>Run states\<close>

definition stateQueued :: string where "stateQueued = ''queued''"
definition statePlanned :: string where "statePlanned = ''planned''"
definition stateClaimed :: string where "stateClaimed = ''claimed''"
definition stateWaiting :: string where "stateWaiting = ''waiting''"
definition stateStopped :: string where "stateStopped = ''stopped''"
definition stateAbandoned :: string where "stateAbandoned = ''abandoned''"

lemmas state_defs = stateQueued_def statePlanned_def stateClaimed_def stateWaiting_def stateStopped_def
  stateAbandoned_def

lemma states_distinct [simp]:
  "distinct [stateQueued, statePlanned, stateClaimed, stateWaiting, stateStopped, stateAbandoned]"
  by (simp add: state_defs)

lemma states_neq [simp]:
  "stateQueued \<noteq> statePlanned" "stateQueued \<noteq> stateClaimed" "stateQueued \<noteq> stateWaiting"
  "stateQueued \<noteq> stateStopped" "stateQueued \<noteq> stateAbandoned" "statePlanned \<noteq> stateQueued"
  "statePlanned \<noteq> stateClaimed" "statePlanned \<noteq> stateWaiting" "statePlanned \<noteq> stateStopped"
  "statePlanned \<noteq> stateAbandoned" "stateClaimed \<noteq> stateQueued" "stateClaimed \<noteq> statePlanned"
  "stateClaimed \<noteq> stateWaiting" "stateClaimed \<noteq> stateStopped" "stateClaimed \<noteq> stateAbandoned"
  "stateWaiting \<noteq> stateQueued" "stateWaiting \<noteq> statePlanned" "stateWaiting \<noteq> stateClaimed"
  "stateWaiting \<noteq> stateStopped" "stateWaiting \<noteq> stateAbandoned" "stateStopped \<noteq> stateQueued"
  "stateStopped \<noteq> statePlanned" "stateStopped \<noteq> stateClaimed" "stateStopped \<noteq> stateWaiting"
  "stateStopped \<noteq> stateAbandoned" "stateAbandoned \<noteq> stateQueued" "stateAbandoned \<noteq> statePlanned"
  "stateAbandoned \<noteq> stateClaimed" "stateAbandoned \<noteq> stateWaiting" "stateAbandoned \<noteq> stateStopped"
  by (simp_all add: state_defs)

definition candidateStates :: "string list" where
  "candidateStates = [stateQueued, statePlanned]"

section \<open>Outcomes and stop reasons\<close>

definition OutcomeStopped :: string where "OutcomeStopped = ''stopped''"
definition OutcomePROpened :: string where "OutcomePROpened = ''pr-opened''"
definition OutcomeNoChanges :: string where "OutcomeNoChanges = ''no-changes''"
definition OutcomeInfraFailure :: string where "OutcomeInfraFailure = ''infra-failure''"
definition StopModelUnavailable :: string where "StopModelUnavailable = ''model-unavailable''"
definition StopWaitingOnOwner :: string where "StopWaitingOnOwner = ''waiting-on-owner''"
definition StopModelRefused :: string where "StopModelRefused = ''model-refused''"

lemma outcomes_nonempty [simp]: "OutcomeStopped \<noteq> []" "StopWaitingOnOwner \<noteq> []" "StopModelRefused \<noteq> []"
  by (simp_all add: OutcomeStopped_def StopWaitingOnOwner_def StopModelRefused_def)

section \<open>Errors\<close>

text \<open>
  \<open>ErrRunNotEnded e\<close> and \<open>ErrReplyUnusable e\<close> wrap the refusal \<open>e\<close> they report; \<open>Refused\<close> is an
  error the code builds from text alone.
\<close>

datatype store_err =
    Firestore string
  | NotFound
  | ErrAlreadyQueued
  | ErrRecordNotFound
  | ErrRunDispatchable
  | ErrRunWaiting
  | ErrRunInFlight
  | ErrRunAbandoned
  | ErrRetriesExhausted
  | ErrRunMerged
  | ErrRunCancelled
  | ErrRunNotWaiting
  | ErrRunNoChanges
  | ErrNoteInvalid
  | ErrActorMissing
  | ErrAttemptMoved
  | ErrRetryApplied
  | ErrStaleReply
  | ErrRunNotEnded store_err
  | ErrReplyUnusable store_err
  | Refused string

section \<open>The documents\<close>

record rejection =
  rejReason :: string
  rejDetail :: string
  rejAt :: time

record db =
  runs :: "string \<Rightarrow> doc option"
  dbLedger :: "ledger_doc option"
  rejected :: "string \<Rightarrow> rejection option"
  attempts :: "string \<times> int \<Rightarrow> doc option"
  notices :: "string \<Rightarrow> doc option"
  breaker :: "doc option"
  unfound :: "string \<Rightarrow> time option"

definition empty_db :: db where
  "empty_db = \<lparr>runs = (\<lambda>_. None), dbLedger = None, rejected = (\<lambda>_. None), attempts = (\<lambda>_. None),
     notices = (\<lambda>_. None), breaker = None, unfound = (\<lambda>_. None)\<rparr>"

definition readLedger :: "db \<Rightarrow> ledger_doc" where
  "readLedger d = (case dbLedger d of None \<Rightarrow> empty_ledger | Some l \<Rightarrow> l)"

text \<open>\<open>tx.Get\<close> of a run, \<open>tx.Update\<close> of a run and of the ledger: an absent document is \<open>NotFound\<close>.\<close>

definition get_row :: "db \<Rightarrow> string \<Rightarrow> store_err + doc" where
  "get_row d runID = (case runs d runID of None \<Rightarrow> Inl NotFound | Some row \<Rightarrow> Inr row)"

definition put_row :: "string \<Rightarrow> doc \<Rightarrow> db \<Rightarrow> db" where
  "put_row runID row d = d\<lparr>runs := (\<lambda>r. if r = runID then Some row else runs d r)\<rparr>"

definition update_row :: "string \<Rightarrow> updates \<Rightarrow> db \<Rightarrow> store_err + db" where
  "update_row runID us d = and_then (get_row d runID) (\<lambda>row. Inr (put_row runID (apply_updates us row) d))"

definition update_ledger :: "(ledger_doc \<Rightarrow> ledger_doc) \<Rightarrow> db \<Rightarrow> store_err + db" where
  "update_ledger f d = (case dbLedger d of None \<Rightarrow> Inl NotFound | Some l \<Rightarrow> Inr (d\<lparr>dbLedger := Some (f l)\<rparr>))"

definition set_ledger :: "ledger_doc \<Rightarrow> db \<Rightarrow> db" where
  "set_ledger l d = d\<lparr>dbLedger := Some l\<rparr>"

section \<open>Transactions\<close>

definition run_transaction ::
  "store_err option \<Rightarrow> (db \<Rightarrow> store_err + 'a \<times> db) \<Rightarrow> db \<Rightarrow> (store_err + 'a) \<times> db" where
  "run_transaction fault body d =
     (case fault of
        Some e \<Rightarrow> (Inl e, d)
      | None \<Rightarrow> (case body d of Inl e \<Rightarrow> (Inl e, d) | Inr (a, d') \<Rightarrow> (Inr a, d')))"

lemma run_transaction_error: "fst (run_transaction fault body d) = Inl e \<Longrightarrow> snd (run_transaction fault body d) = d"
  by (auto simp: run_transaction_def split: option.splits sum.splits)

lemma run_transaction_cases:
  "snd (run_transaction fault body d) = d \<or>
    (\<exists>a. fault = None \<and> body d = Inr (a, snd (run_transaction fault body d))
       \<and> fst (run_transaction fault body d) = Inr a)"
  by (auto simp: run_transaction_def split: option.splits sum.splits)

lemma run_transaction_ok:
  "run_transaction fault body d = (Inr a, d') \<longleftrightarrow> fault = None \<and> body d = Inr (a, d')"
  by (auto simp: run_transaction_def split: option.splits sum.splits)

text \<open>What every body keeps, its transaction keeps.\<close>

lemma run_transaction_keeps:
  assumes "P d" and "\<And>a d'. body d = Inr (a, d') \<Longrightarrow> P d'"
  shows "P (snd (run_transaction fault body d))"
  using run_transaction_cases [of fault body d] assms by metis

section \<open>Reading and writing rows\<close>

lemma db_simps [simp]:
  "runs (put_row r row d) q = (if q = r then Some row else runs d q)"
  "dbLedger (put_row r row d) = dbLedger d"
  "rejected (put_row r row d) = rejected d"
  "attempts (put_row r row d) = attempts d"
  "notices (put_row r row d) = notices d"
  "breaker (put_row r row d) = breaker d"
  "readLedger (put_row r row d) = readLedger d"
  "runs (set_ledger l d) = runs d"
  "dbLedger (set_ledger l d) = Some l"
  "rejected (set_ledger l d) = rejected d"
  "attempts (set_ledger l d) = attempts d"
  "notices (set_ledger l d) = notices d"
  "breaker (set_ledger l d) = breaker d"
  "readLedger (set_ledger l d) = l"
  by (simp_all add: put_row_def set_ledger_def readLedger_def)

lemma update_row_Inr:
  "update_row r us d = Inr d' \<longleftrightarrow> (\<exists>row. runs d r = Some row \<and> d' = put_row r (apply_updates us row) d)"
  by (auto simp: update_row_def get_row_def split: option.splits)

lemma update_row_present [simp]:
  "runs d r = Some row \<Longrightarrow> update_row r us d = Inr (put_row r (apply_updates us row) d)"
  by (simp add: update_row_def get_row_def)

lemma update_ledger_Inr:
  "update_ledger f d = Inr d' \<longleftrightarrow> (\<exists>l. dbLedger d = Some l \<and> d' = set_ledger (f l) d)"
  by (auto simp: update_ledger_def set_ledger_def split: option.splits)

text \<open>The ledger document exists once anything is reserved in it.\<close>

lemma held_ledger:
  "map_of (Reservations (readLedger d)) k \<noteq> None \<Longrightarrow> dbLedger d = Some (readLedger d)"
  by (auto simp: readLedger_def empty_ledger_def split: option.splits)

lemma update_ledger_held:
  "map_of (Reservations (readLedger d)) k = Some e \<Longrightarrow> update_ledger f d = Inr (set_ledger (f (readLedger d)) d)"
  using held_ledger [of d k] by (simp add: update_ledger_def set_ledger_def)

section \<open>What a row records\<close>

definition rowAttempt :: "doc \<Rightarrow> int" where
  "rowAttempt row = int_of row attemptField"

definition hasEnded :: "doc \<Rightarrow> bool" where
  "hasEnded row \<longleftrightarrow> str row outcomeField \<noteq> [] \<or> str row stopReasonField \<noteq> []"

definition planStamped :: "doc \<Rightarrow> bool" where
  "planStamped row \<longleftrightarrow> (case row planSettledAtField of Some (VTime t) \<Rightarrow> \<not> is_zero t | _ \<Rightarrow> False)"

definition settled_row :: "doc \<Rightarrow> bool" where
  "settled_row row \<longleftrightarrow> (case row settledAtField of Some (VTime t) \<Rightarrow> \<not> is_zero t | _ \<Rightarrow> False)"

definition row_subject :: "doc \<Rightarrow> subject" where
  "row_subject row = \<lparr>subjTicket = str row ticketIDField, subjRepo = str row repoField, subjSize = str row sizeField,
     subjBlockedBy = stringList row blockedByField, subjBlocks = stringList row blocksField,
     subjBlockedByOpen = [], subjFiles = stringList row planFilesField, subjStage = []\<rparr>"

text \<open>The model labels a row holds, a map of its own.\<close>

record model_labels =
  labelBuild :: string
  labelReview :: string
  labelPlan :: "string list"

definition label_str :: "(string \<times> goval) list \<Rightarrow> string \<Rightarrow> string" where
  "label_str labels name = (case map_of labels name of Some (VStr s) \<Rightarrow> s | _ \<Rightarrow> [])"

definition label_list :: "(string \<times> goval) list \<Rightarrow> string \<Rightarrow> string list" where
  "label_list labels name = (case map_of labels name of Some (VList vs) \<Rightarrow> strings_in vs | _ \<Rightarrow> [])"

definition modelLabelsOf :: "doc \<Rightarrow> model_labels" where
  "modelLabelsOf row = (let labels = map_field row modelLabelsField in
     \<lparr>labelBuild = label_str labels ''build'', labelReview = label_str labels ''review'',
      labelPlan = label_list labels ''plan''\<rparr>)"

definition buildModel :: "doc \<Rightarrow> string" where
  "buildModel row = label_str (map_field row modelLabelsField) ''build''"

definition labels_val :: "model_labels \<Rightarrow> goval" where
  "labels_val m = VMap [(''build'', VStr (labelBuild m)), (''review'', VStr (labelReview m)),
     (''plan'', string_list (labelPlan m))]"

lemma modelLabelsOf_labels_val:
  "row modelLabelsField = Some (labels_val m) \<Longrightarrow> modelLabelsOf row = m"
  by (simp add: modelLabelsOf_def labels_val_def map_field_def label_str_def label_list_def)

end
