(* ===== verification/Consistency.thy ===== *)
theory Consistency
  imports Run_Store
begin

text \<open>
  What ties the ledger to the run rows: a reservation belongs to the current attempt of a run that
  is claimed (or was stopped while it was), and no run holds two. The locale \<open>keeps_ledger\<close> is the
  contract of an operation of the store that keeps it so; the theories that define the operations
  interpret it.
\<close>

definition rowState :: "doc \<Rightarrow> string" where
  "rowState row = str row stateField"

definition held :: "db \<Rightarrow> string \<Rightarrow> reservation_entry option" where
  "held d key = map_of (Reservations (readLedger d)) key"

text \<open>The entry \<open>e\<close> under \<open>key\<close> is the reservation of a run's current attempt.\<close>

definition booked :: "db \<Rightarrow> string \<Rightarrow> reservation_entry \<Rightarrow> string \<Rightarrow> bool" where
  "booked d key e r \<longleftrightarrow>
     (\<exists>row. runs d r = Some row \<and> key = reservationKey r (rowAttempt row) (entryStage e)
        \<and> entryAttempt e = rowAttempt row \<and> rowState row \<in> {stateClaimed, stateStopped})"

definition ledger_inv :: "db \<Rightarrow> bool" where
  "ledger_inv d \<longleftrightarrow>
     keyed (Reservations (readLedger d))
     \<and> (\<forall>r. runs d r \<noteq> None \<longrightarrow> run_id_ok r)
     \<and> (\<forall>key e. held d key = Some e \<longrightarrow> booked d key e (reservationRunID key))
     \<and> (\<forall>k j. held d k \<noteq> None \<and> held d j \<noteq> None \<and> reservationRunID k = reservationRunID j \<longrightarrow> k = j)"

definition holds_none :: "db \<Rightarrow> string \<Rightarrow> bool" where
  "holds_none d r \<longleftrightarrow> (\<forall>key. held d key \<noteq> None \<longrightarrow> reservationRunID key \<noteq> r)"

lemma ledger_invD:
  assumes "ledger_inv d"
  shows "keyed (Reservations (readLedger d))"
    and "runs d r = Some row \<Longrightarrow> run_id_ok r"
    and "held d key = Some e \<Longrightarrow> booked d key e (reservationRunID key)"
    and "held d k = Some e \<Longrightarrow> held d j = Some e' \<Longrightarrow> reservationRunID k = reservationRunID j \<Longrightarrow> k = j"
  using assms unfolding ledger_inv_def by blast+

lemma ledger_invI:
  assumes "keyed (Reservations (readLedger d))"
    and "\<And>r row. runs d r = Some row \<Longrightarrow> run_id_ok r"
    and "\<And>key e. held d key = Some e \<Longrightarrow> booked d key e (reservationRunID key)"
    and "\<And>k j e e'. held d k = Some e \<Longrightarrow> held d j = Some e' \<Longrightarrow> reservationRunID k = reservationRunID j \<Longrightarrow> k = j"
  shows "ledger_inv d"
  using assms unfolding ledger_inv_def by blast

text \<open>Only the run rows and the reservations matter to it.\<close>

lemma ledger_inv_cong:
  assumes "runs d = runs d'" and "Reservations (readLedger d) = Reservations (readLedger d')"
  shows "ledger_inv d \<longleftrightarrow> ledger_inv d'"
  using assms by (simp add: ledger_inv_def held_def booked_def)

lemma holds_none_cong:
  "Reservations (readLedger d) = Reservations (readLedger d') \<Longrightarrow> holds_none d r \<longleftrightarrow> holds_none d' r"
  by (simp add: holds_none_def held_def)

lemma held_simps [simp]:
  "held (put_row r row d) = held d"
  "held (set_ledger l d) k = map_of (Reservations l) k"
  by (auto simp: held_def fun_eq_iff)

lemma ledger_inv_empty: "ledger_inv empty_db"
  by (simp add: ledger_inv_def held_def readLedger_def empty_db_def empty_ledger_def)

text \<open>A run waiting to be claimed, parked or abandoned holds no reservation.\<close>

lemma idle_holds_none:
  assumes "ledger_inv d" and "runs d r = Some row" and "rowState row \<notin> {stateClaimed, stateStopped}"
  shows "holds_none d r"
  unfolding holds_none_def
proof (intro allI impI notI)
  fix key assume "held d key \<noteq> None" and r: "reservationRunID key = r"
  then obtain e where "held d key = Some e" by blast
  from ledger_invD(3) [OF assms(1) this] r assms(2,3) show False by (auto simp: booked_def)
qed

lemma absent_holds_none: "ledger_inv d \<Longrightarrow> runs d r = None \<Longrightarrow> holds_none d r"
  by (force simp: holds_none_def booked_def dest: ledger_invD(3))

text \<open>Where a run holds its reservation: under the key \<open>reservedKeys\<close> finds for its attempt, alone.\<close>

lemma held_iff_reserved:
  assumes "ledger_inv d" and "runs d r = Some row"
  shows "set (reservedKeys (readLedger d) r (rowAttempt row)) = {key. held d key \<noteq> None \<and> reservationRunID key = r}"
proof -
  have ok: "run_id_ok r" using ledger_invD(2) [OF assms] .
  have attempt_key: "key \<in> {reservationKey r (rowAttempt row) StageBuild, reservationKey r (rowAttempt row) StagePlan}"
    if "held d key = Some e" "reservationRunID key = r" for key e
  proof -
    have "key = reservationKey r (rowAttempt row) (entryStage e)"
      using ledger_invD(3) [OF assms(1) that(1)] that(2) assms(2) by (auto simp: booked_def)
    then show ?thesis by (cases "entryStage e = StagePlan") (auto simp: reservationKey_def stageKey_def)
  qed
  have no_legacy: "map_of (Reservations (readLedger d)) (legacyReservationKey r st) = None" for st
  proof (rule ccontr)
    assume "map_of (Reservations (readLedger d)) (legacyReservationKey r st) \<noteq> None"
    then obtain e where "held d (legacyReservationKey r st) = Some e" by (auto simp: held_def)
    from attempt_key [OF this reservationRunID_legacy [OF ok]]
    show False using reservationKey_not_legacy [OF ok ok, symmetric] by auto
  qed
  show ?thesis
  proof (intro set_eqI iffI)
    fix key assume "key \<in> set (reservedKeys (readLedger d) r (rowAttempt row))"
    then show "key \<in> {key. held d key \<noteq> None \<and> reservationRunID key = r}"
      using reservedKeys_held reservedKeys_run [OF ok] by (auto simp: held_def)
  next
    fix key assume "key \<in> {key. held d key \<noteq> None \<and> reservationRunID key = r}"
    then obtain e where e: "held d key = Some e" "reservationRunID key = r" by auto
    from attempt_key [OF e] e(1) show "key \<in> set (reservedKeys (readLedger d) r (rowAttempt row))"
      by (auto simp: reservedKeys_def held_keys_def held_def Let_def)
  qed
qed

lemma reservation_None_holds_none:
  assumes "ledger_inv d" and "runs d r = Some row"
  shows "ledger_reservation (readLedger d) r (rowAttempt row) = None \<longleftrightarrow> holds_none d r"
proof -
  have "reservedKeys (readLedger d) r (rowAttempt row) = [] \<longleftrightarrow> {key. held d key \<noteq> None \<and> reservationRunID key = r} = {}"
    unfolding held_iff_reserved [OF assms, symmetric] by simp
  also have "\<dots> \<longleftrightarrow> holds_none d r" unfolding holds_none_def by blast
  finally show ?thesis by (simp add: ledger_reservation_None)
qed

lemma reservation_Some_only:
  assumes "ledger_inv d" and "runs d r = Some row"
    and "ledger_reservation (readLedger d) r (rowAttempt row) = Some (key, entry)"
  shows "held d key = Some entry" and "reservationRunID key = r"
    and "held d j \<noteq> None \<Longrightarrow> reservationRunID j = r \<Longrightarrow> j = key"
proof -
  from ledger_reservation_Some [OF assms(3)] show h: "held d key = Some entry"
    and run: "reservationRunID key = r"
    using reservedKeys_run [OF ledger_invD(2) [OF assms(1,2)]] by (auto simp: held_def)
  show "held d j \<noteq> None \<Longrightarrow> reservationRunID j = r \<Longrightarrow> j = key"
    using h run ledger_invD(4) [OF assms(1)] by blast
qed

section \<open>Steps that keep it\<close>

text \<open>A row written while its run holds no reservation.\<close>

lemma put_row_unreserved:
  assumes "ledger_inv d" and "holds_none d r" and "run_id_ok r"
  shows "ledger_inv (put_row r row d)"
proof (rule ledger_invI)
  show "run_id_ok q" if "runs (put_row r row d) q = Some row'" for q row'
    using that assms(3) ledger_invD(2) [OF assms(1)] by (auto split: if_splits)
  show "booked (put_row r row d) key e (reservationRunID key)" if "held (put_row r row d) key = Some e" for key e
    using that assms(2) ledger_invD(3) [OF assms(1), of key e] by (auto simp: booked_def holds_none_def)
qed (use ledger_invD(1,4) [OF assms(1)] in simp_all)

text \<open>A row whose attempt is kept and whose state still may hold a reservation.\<close>

lemma put_row_same_attempt:
  assumes "ledger_inv d" and "runs d r = Some row" and "rowAttempt row' = rowAttempt row"
    and "rowState row' \<in> {stateClaimed, stateStopped} \<or> rowState row' = rowState row"
  shows "ledger_inv (put_row r row' d)"
proof (rule ledger_invI)
  show "run_id_ok q" if "runs (put_row r row' d) q = Some row''" for q row''
    using that assms(2) ledger_invD(2) [OF assms(1)] by (auto split: if_splits)
  show "booked (put_row r row' d) key e (reservationRunID key)" if "held (put_row r row' d) key = Some e" for key e
    using that assms(2-4) ledger_invD(3) [OF assms(1), of key e] by (auto simp: booked_def)
qed (use ledger_invD(1,4) [OF assms(1)] in simp_all)

text \<open>A ledger with fewer reservations.\<close>

lemma drop_keeps:
  assumes "ledger_inv d" and "keyed (Reservations l)"
    and "\<And>k e. map_of (Reservations l) k = Some e \<Longrightarrow> held d k = Some e"
  shows "ledger_inv (set_ledger l d)"
proof (rule ledger_invI)
  show "booked (set_ledger l d) key e (reservationRunID key)" if "held (set_ledger l d) key = Some e" for key e
    using ledger_invD(3) [OF assms(1) assms(3)] that by (simp add: booked_def)
  show "k = j" if "held (set_ledger l d) k = Some e" "held (set_ledger l d) j = Some e'" "reservationRunID k = reservationRunID j" for k j e e'
    using that assms(3) ledger_invD(4) [OF assms(1)] by (metis held_simps(2))
qed (use assms(2) ledger_invD(2) [OF assms(1)] in simp_all)

text \<open>A new reservation of a run that held none and is claimed by the same write.\<close>

lemma book_keeps:
  assumes inv: "ledger_inv d" and "runs d r = Some row" and none: "holds_none d r"
    and R: "Reservations l = AList.update (reservationKey r (rowAttempt row) (entryStage e)) e (Reservations (readLedger d))"
    and e: "entryAttempt e = rowAttempt row" and "rowAttempt row' = rowAttempt row" and "rowState row' = stateClaimed"
  shows "ledger_inv (put_row r row' (set_ledger l d))"
proof -
  let ?key = "reservationKey r (rowAttempt row) (entryStage e)"
  have ok: "run_id_ok r" using ledger_invD(2) [OF assms(1,2)] .
  have run: "reservationRunID ?key = r" using ok by (rule reservationRunID_key)
  have held': "held (put_row r row' (set_ledger l d)) k = (if k = ?key then Some e else held d k)" for k
    by (simp add: R held_def)
  have other: "reservationRunID k \<noteq> r" if "held d k = Some e'" for k e'
    using none that by (auto simp: holds_none_def)
  show ?thesis
  proof (rule ledger_invI, unfold held')
    show "keyed (Reservations (readLedger (put_row r row' (set_ledger l d))))"
      using ledger_invD(1) [OF inv] by (simp add: R)
    show "run_id_ok q" if "runs (put_row r row' (set_ledger l d)) q = Some row''" for q row''
      using that ok ledger_invD(2) [OF inv] by (auto split: if_splits)
    show "booked (put_row r row' (set_ledger l d)) k e' (reservationRunID k)"
      if "(if k = ?key then Some e else held d k) = Some e'" for k e'
    proof (cases "k = ?key")
      case True
      then show ?thesis using that run e assms(6,7) by (simp add: booked_def)
    next
      case False
      then show ?thesis
        using that other [of k e'] ledger_invD(3) [OF inv, of k e'] by (simp add: booked_def)
    qed
    show "k = j" if "(if k = ?key then Some e else held d k) = Some e1"
        "(if j = ?key then Some e else held d j) = Some e2" "reservationRunID k = reservationRunID j" for k j e1 e2
      using that run other [of k e1] other [of j e2] ledger_invD(4) [OF inv, of k e1 j e2]
      by (cases "k = ?key"; cases "j = ?key") simp_all
  qed
qed

text \<open>Dropping the reservation a run's attempt holds leaves it none, and its row free to change.\<close>

lemma drop_reserved:
  assumes "ledger_inv d" and "runs d r = Some row"
  shows "ledger_inv (set_ledger (drop_keys (reservedKeys (readLedger d) r (rowAttempt row)) (readLedger d)) d)"
    and "holds_none (set_ledger (drop_keys (reservedKeys (readLedger d) r (rowAttempt row)) (readLedger d)) d) r"
proof -
  show "ledger_inv (set_ledger (drop_keys (reservedKeys (readLedger d) r (rowAttempt row)) (readLedger d)) d)"
    using assms ledger_invD(1) [OF assms(1)]
    by (intro drop_keeps) (auto simp: keyed_drop_keys held_def split: if_splits)
  show "holds_none (set_ledger (drop_keys (reservedKeys (readLedger d) r (rowAttempt row)) (readLedger d)) d) r"
    using held_iff_reserved [OF assms] by (auto simp: holds_none_def held_def)
qed

lemma drop_reservation:
  assumes "ledger_inv d" and "runs d r = Some row"
    and "ledger_reservation (readLedger d) r (rowAttempt row) = Some (key, entry)"
  shows "ledger_inv (set_ledger (drop_key key (readLedger d)) d)"
    and "holds_none (set_ledger (drop_key key (readLedger d)) d) r"
proof -
  show "ledger_inv (set_ledger (drop_key key (readLedger d)) d)"
    using assms(1) ledger_invD(1) [OF assms(1)]
    by (intro drop_keeps) (auto simp: held_def split: if_splits)
  show "holds_none (set_ledger (drop_key key (readLedger d)) d) r"
    using reservation_Some_only(3) [OF assms] by (auto simp: holds_none_def held_def)
qed

lemma transaction_keeps:
  assumes "ledger_inv d" and "\<And>a d'. body d = Inr (a, d') \<Longrightarrow> ledger_inv d'"
  shows "ledger_inv (snd (run_transaction fault body d))"
  using assms by (rule run_transaction_keeps)

section \<open>The contract\<close>

locale keeps_ledger =
  fixes op :: "db \<Rightarrow> 'r \<times> db"
  assumes keeps: "ledger_inv d \<Longrightarrow> ledger_inv (snd (op d))"
begin

text \<open>So a run holds at most one reservation after it, and none while it is not running.\<close>

lemma one_reservation:
  assumes "ledger_inv d" and "held (snd (op d)) k \<noteq> None" and "held (snd (op d)) j \<noteq> None"
    and "reservationRunID k = reservationRunID j"
  shows "k = j"
  using keeps [OF assms(1)] assms(2-4) unfolding ledger_inv_def by blast

lemma idle_unreserved:
  assumes "ledger_inv d" and "runs (snd (op d)) r = Some row" and "rowState row \<notin> {stateClaimed, stateStopped}"
  shows "holds_none (snd (op d)) r"
  using idle_holds_none [OF keeps [OF assms(1)] assms(2,3)] .

end

end
