(* ===== verification/Row_Ops.thy ===== *)
theory Row_Ops
  imports Consistency
begin

text \<open>
  The transaction most operations of \<open>internal/store\<close> are: read one run row, decide from it what
  to write, and write it, leaving the ledger alone. The locale \<open>row_change\<close> states what such an
  operation promises of the row's state and attempt, under which the ledger stays consistent.
\<close>

text \<open>
  \<open>on_row runID missing f\<close> answers \<open>missing\<close> for an absent run, and for a row the answer \<open>f\<close>
  computes with the updates it writes; no updates write nothing.
\<close>

definition on_row ::
  "string \<Rightarrow> store_err + 'a \<Rightarrow> (doc \<Rightarrow> store_err + 'a \<times> updates) \<Rightarrow> db \<Rightarrow> store_err + 'a \<times> db" where
  "on_row runID missing f d =
     (case runs d runID of
        None \<Rightarrow> and_then missing (\<lambda>a. Inr (a, d))
      | Some row \<Rightarrow> and_then (f row) (\<lambda>(a, us).
          if us = [] then Inr (a, d) else and_then (update_row runID us d) (\<lambda>d'. Inr (a, d'))))"

lemma put_row_same: "runs d r = Some row \<Longrightarrow> put_row r row d = d"
  by (cases d) (auto simp: put_row_def fun_eq_iff)

lemma apply_no_updates [simp]: "apply_updates [] row = row"
  by (simp add: apply_updates_def fun_eq_iff)

lemma on_row_Inr:
  "on_row r missing f d = Inr (a, d') \<longleftrightarrow>
     (runs d r = None \<and> missing = Inr a \<and> d' = d
      \<or> (\<exists>row us. runs d r = Some row \<and> f row = Inr (a, us) \<and> d' = put_row r (apply_updates us row) d))"
proof (cases "runs d r")
  case None
  then show ?thesis by (auto simp: on_row_def and_then_Inr)
next
  case (Some row)
  have "on_row r missing f d = Inr (a, d') \<longleftrightarrow> (\<exists>us. f row = Inr (a, us) \<and> d' = put_row r (apply_updates us row) d)"
  proof (cases "f row")
    case (Inr p)
    then show ?thesis
      using Some put_row_same [OF Some] by (cases p; cases "snd p = []") (auto simp: on_row_def)
  qed (simp add: on_row_def Some)
  then show ?thesis using Some by auto
qed

text \<open>An update that leaves the attempt alone, and the state it leaves.\<close>

lemma same_attempt: "attemptField \<notin> touches us \<Longrightarrow> rowAttempt (apply_updates us row) = rowAttempt row"
  by (simp add: rowAttempt_def untouched_read)

lemma same_state: "stateField \<notin> touches us \<Longrightarrow> rowState (apply_updates us row) = rowState row"
  by (simp add: rowState_def untouched_read)

locale row_change =
  fixes f :: "doc \<Rightarrow> store_err + 'a \<times> updates"
  assumes keeps_attempt: "f row = Inr (a, us) \<Longrightarrow> attemptField \<notin> touches us"
    and moves: "f row = Inr (a, us) \<Longrightarrow> stateField \<in> touches us \<Longrightarrow>
      rowState row \<notin> {stateClaimed, stateStopped} \<or> rowState (apply_updates us row) \<in> {stateClaimed, stateStopped}"
begin

lemma on_row_keeps: "ledger_inv d \<Longrightarrow> ledger_inv (snd (run_transaction fault (on_row r missing f) d))"
proof (rule transaction_keeps)
  fix a d' assume inv: "ledger_inv d" and "on_row r missing f d = Inr (a, d')"
  then consider "d' = d" | row us where "runs d r = Some row" "f row = Inr (a, us)" "d' = put_row r (apply_updates us row) d"
    by (auto simp: on_row_Inr)
  then show "ledger_inv d'"
  proof cases
    case (2 row us)
    show ?thesis
    proof (cases "rowState row \<in> {stateClaimed, stateStopped}")
      case True
      then have "rowState (apply_updates us row) \<in> {stateClaimed, stateStopped} \<or> rowState (apply_updates us row) = rowState row"
        using moves [OF 2(2)] same_state [of us row] by blast
      then show ?thesis
        unfolding 2(3) using keeps_attempt [OF 2(2)] by (intro put_row_same_attempt [OF inv 2(1)] same_attempt)
    next
      case False
      then show ?thesis
        unfolding 2(3) using idle_holds_none [OF inv 2(1)] ledger_invD(2) [OF inv 2(1)]
        by (intro put_row_unreserved [OF inv]) auto
    qed
  qed (use inv in simp)
qed

text \<open>An operation that writes no state leaves every run where it was.\<close>

lemma on_row_ledger: "readLedger (snd (run_transaction fault (on_row r missing f) d)) = readLedger d"
  using run_transaction_cases [of fault "on_row r missing f" d] by (auto simp: on_row_Inr)

end

end
