(* ===== verification/Claims.thy ===== *)
theory Claims
  imports Row_Ops
begin

text \<open>
  Claims of \<open>internal/store/queue.go\<close>: \<open>TryClaim\<close> books a run's reservation, \<open>Release\<close> gives it
  back, \<open>Stop\<close> ends a run whose plan stage failed, \<open>Settle\<close> and \<open>SettlePlan\<close> drop the
  reservation once the run's cost is known, and \<open>AdoptRunsAtOnce\<close>
  (\<open>internal/store/runs_at_once.go\<close>) takes over the owner's \<open>N\<close>; with \<open>observe\<close> of
  \<open>internal/store/concurrency.go\<close>, what a settled run says about running at \<open>N\<close>.
\<close>

section \<open>TryClaim\<close>

definition claim_candidate :: "doc \<Rightarrow> store_err facts \<Rightarrow> reservation \<Rightarrow> subject" where
  "claim_candidate row facts res =
     (let cand = (row_subject row)\<lparr>subjStage := resStage res\<rparr>; rel = factRelations facts in
      if relKnown rel
      then cand\<lparr>subjBlockedBy := relBlockedBy rel, subjBlocks := relBlocks rel, subjBlockedByOpen := relBlockedByOpen rel\<rparr>
      else cand)"

definition no_settled :: settled where
  "no_settled = \<lparr>settledWindows = [], settledModelCap = 0, settledCashCost = 0, settledCashMinutes = 0\<rparr>"

definition claim_input ::
  "ledger_doc \<Rightarrow> doc \<Rightarrow> budget_config \<Rightarrow> store_err facts \<Rightarrow> reservation \<Rightarrow> store_err admit_input" where
  "claim_input ledger row cfg facts res = \<lparr>inFacts = facts, inN = concN (ledger_concurrency ledger),
     inInFlight = inFlight ledger, inCandidate = claim_candidate row facts res, inBudget = cfg,
     inReserved = reservedTotals ledger, inSettled = no_settled, inReservation = res\<rparr>"

definition claim_entry :: "doc \<Rightarrow> store_err facts \<Rightarrow> reservation \<Rightarrow> time \<Rightarrow> reservation_entry" where
  "claim_entry row facts res now =
     (let cand = claim_candidate row facts res in
      \<lparr>ProviderCostMicros = resProviderCost res, entryRunnerMinutes = resRunnerMinutes res,
       entryTicketID = subjTicket cand, entryRepo = subjRepo cand, entrySize = subjSize cand,
       ClaimedAt = now, entryAttempt = rowAttempt row, entryStage = resStage res, entryFiles = resFiles res\<rparr>)"

definition claim_ledger ::
  "ledger_doc \<Rightarrow> string \<Rightarrow> doc \<Rightarrow> store_err facts \<Rightarrow> reservation \<Rightarrow> time \<Rightarrow> ledger_doc" where
  "claim_ledger ledger runID row facts res now = ledger\<lparr>
     Reservations := AList.update (reservationKey runID (rowAttempt row) (resStage res))
       (claim_entry row facts res now) (Reservations ledger),
     ledgerN := concN (ledger_concurrency ledger),
     ledgerPlatformCap := PlatformCap (factLimits facts),
     TuneStableRuns := StableRuns (factTuning facts),
     TuneRiseWithin := RiseWithin (factTuning facts),
     TuneHalveBeyond := HalveBeyond (factTuning facts)\<rparr>"

definition claim_updates :: "ledger_doc \<Rightarrow> doc \<Rightarrow> store_err facts \<Rightarrow> reservation \<Rightarrow> time \<Rightarrow> updates" where
  "claim_updates ledger row facts res now =
     [(stateField, Put (VStr stateClaimed)),
      (claimedAtField, Put (VTime now)),
      (updatedAtField, Put (VTime now)),
      (claimConcurrencyField, Put (VInt (int (length (inFlight ledger)) + 1))),
      (waitingOnField, Delete)]
     @ (if row decisionModeField = None then [(decisionModeField, Put (VStr (factDecisionMode facts)))] else [])
     @ (if resStage res \<noteq> StageBuild then [(planField, Put (VStr (Provider (factModel facts))))] else [])"

definition ended_updates :: "time \<Rightarrow> updates" where
  "ended_updates now =
     [(stateField, Put (VStr stateClaimed)), (updatedAtField, Put (VTime now)), (waitingOnField, Delete)]"

definition withhold :: "string \<Rightarrow> string \<Rightarrow> db \<Rightarrow> store_err + (bool \<times> string) \<times> db" where
  "withhold runID why d =
     and_then (update_row runID [(waitingOnField, Put (VStr why))] d) (\<lambda>d'. Inr ((False, why), d'))"

type_synonym run_query = "field \<Rightarrow> time \<Rightarrow> store_err + (string \<times> doc) list"

definition TryClaim_body ::
  "run_query \<Rightarrow> string \<Rightarrow> time \<Rightarrow> budget_config \<Rightarrow> store_err facts \<Rightarrow> reservation \<Rightarrow>
   db \<Rightarrow> store_err + (bool \<times> string) \<times> db" where
  "TryClaim_body query runID now cfg facts res d =
     (case runs d runID of
        None \<Rightarrow> Inr ((False, []), d)
      | Some row \<Rightarrow>
        if str row stateField \<noteq> stateQueued \<and> str row stateField \<noteq> statePlanned then Inr ((False, []), d)
        else if hasEnded row then and_then (update_row runID (ended_updates now) d) (\<lambda>d'. Inr ((False, []), d'))
        else
          (let ledger = readLedger d; inp = claim_input ledger row cfg facts res; why = HeldBeforeBudget inp in
           if why \<noteq> [] then withhold runID why d
           else and_then (settledFor query cfg (factModel facts) now (factHistory facts)) (\<lambda>s.
             case Admit (inp\<lparr>inSettled := s\<rparr>) of
               (ok, why) \<Rightarrow>
                 if \<not> ok then withhold runID why d
                 else and_then (update_row runID (claim_updates ledger row facts res now)
                          (set_ledger (claim_ledger ledger runID row facts res now) d))
                        (\<lambda>d'. Inr ((True, []), d')))))"

definition TryClaim ::
  "store_err option \<Rightarrow> run_query \<Rightarrow> string \<Rightarrow> time \<Rightarrow> budget_config \<Rightarrow> store_err facts \<Rightarrow> reservation \<Rightarrow>
   db \<Rightarrow> (store_err + bool \<times> string) \<times> db" where
  "TryClaim fault query runID now cfg facts res d =
     run_transaction fault (TryClaim_body query runID now cfg facts res) d"

definition Spend ::
  "store_err option \<Rightarrow> run_query \<Rightarrow> budget_config \<Rightarrow> string \<Rightarrow> time \<Rightarrow> (store_err + settlement list) option \<Rightarrow>
   db \<Rightarrow> store_err + totals \<times> settled" where
  "Spend fault query cfg model now history d =
     (case fault of Some e \<Rightarrow> Inl e
      | None \<Rightarrow> and_then (settledFor query cfg model now history) (\<lambda>s. Inr (reservedTotals (readLedger d), s)))"

section \<open>Release and Stop\<close>

definition release_updates :: "string \<Rightarrow> time \<Rightarrow> updates" where
  "release_updates state now =
     [(stateField, Put (VStr state)), (updatedAtField, Put (VTime now)), (claimedAtField, Delete)]"

text \<open>
  What \<open>Release\<close>, \<open>Stop\<close> and \<open>settleDecision\<close> share: the row is read, then written with one set of updates when its
  attempt holds no reservation, and otherwise with another while the ledger drops its key.
\<close>

definition end_claim ::
  "string \<Rightarrow> (doc \<Rightarrow> updates) \<Rightarrow> (doc \<Rightarrow> reservation_entry \<Rightarrow> updates) \<Rightarrow> db \<Rightarrow> store_err + unit \<times> db" where
  "end_claim runID unreserved reserved d =
     and_then (get_row d runID) (\<lambda>row.
       case ledger_reservation (readLedger d) runID (rowAttempt row) of
         None \<Rightarrow> and_then (update_row runID (unreserved row) d) (\<lambda>d'. Inr ((), d'))
       | Some (key, entry) \<Rightarrow>
           and_then (update_row runID (reserved row entry) d) (\<lambda>d'.
           and_then (update_ledger (drop_key key) d') (\<lambda>d''. Inr ((), d''))))"

definition Release :: "store_err option \<Rightarrow> string \<Rightarrow> time \<Rightarrow> db \<Rightarrow> (store_err + unit) \<times> db" where
  "Release fault runID now d = run_transaction fault
     (end_claim runID (\<lambda>_. release_updates stateQueued now)
        (\<lambda>_ entry. release_updates (if entryStage entry = StageBuild then statePlanned else stateQueued) now)) d"

text \<open>\<open>planSettle\<close>: what a settled plan stage adds to its row's plan spend. The ledger half drops the key.\<close>

definition planSettle :: "reservation_entry \<Rightarrow> doc \<Rightarrow> updates" where
  "planSettle entry row =
     [(planSpendMicrosField, Put (VInt (int64 (int_of row planSpendMicrosField + ProviderCostMicros entry)))),
      (planSpendMinutesField, Put (VInt (int64 (int_of row planSpendMinutesField + entryRunnerMinutes entry))))]"

definition stop_updates :: "string \<Rightarrow> string \<Rightarrow> time \<Rightarrow> updates" where
  "stop_updates reason detail now =
     [(stateField, Put (VStr stateStopped)), (outcomeField, Put (VStr OutcomeStopped)),
      (buildOutcomeField, Put (VStr OutcomeStopped)), (stopReasonField, Put (VStr reason)),
      (stopDetailField, Put (VStr detail)), (updatedAtField, Put (VTime now))]"

definition Stop :: "store_err option \<Rightarrow> string \<Rightarrow> string \<Rightarrow> string \<Rightarrow> time \<Rightarrow> db \<Rightarrow> (store_err + unit) \<times> db" where
  "Stop fault runID reason detail now d = run_transaction fault
     (end_claim runID (\<lambda>_. stop_updates reason detail now)
        (\<lambda>row entry. stop_updates reason detail now @ planSettle entry row @ [(planSettledAtField, Put (VTime now))])) d"

section \<open>Settling\<close>

text \<open>
  \<open>recentDurations\<close>: \<open>recent sz n limit\<close> is what its query returns, the latest \<open>limit\<close> settled runs of
  the size claimed at concurrency \<open>n\<close>, each the settlement time and the phase times in milliseconds
  its record decodes to.
\<close>

type_synonym recent_query = "string \<Rightarrow> int \<Rightarrow> int \<Rightarrow> store_err + (time \<times> (string \<times> int) list) list"

definition recentDurations :: "recent_query \<Rightarrow> string \<Rightarrow> int \<Rightarrow> int \<Rightarrow> store_err + duration list" where
  "recentDurations recent sz n limit =
     and_then (recent sz n limit) (\<lambda>recs.
       Inr (map (\<lambda>(_, ms). int64 (foldl (\<lambda>acc e. int64 (acc + snd e)) 0 ms * 1000000))
             (filter (\<lambda>(settledAt, _). \<not> is_zero settledAt) recs)))"

definition no_observation :: observation where
  "no_observation = \<lparr>Solo = 0, Loaded = 0, RateLimited = False\<rparr>"

definition observe :: "recent_query \<Rightarrow> string \<Rightarrow> ledger_doc \<Rightarrow> db \<Rightarrow> store_err + observation" where
  "observe recent runID ledger d =
     (case runs d runID of
        None \<Rightarrow> Inr no_observation
      | Some row \<Rightarrow>
        let n = concN (ledger_concurrency ledger); need = StableRuns (ledger_tuning ledger) in
        if int_of row claimConcurrencyField < n \<or> \<not> time_of row claimedAtField > ChangedAfter ledger
        then Inr no_observation
        else
          let obs = no_observation\<lparr>RateLimited := str row outcomeField = OutcomeInfraFailure
                      \<and> str row stopReasonField = StopModelUnavailable\<rparr> in
          if \<not> (str row outcomeField = OutcomePROpened \<or> str row outcomeField = OutcomeNoChanges) then Inr obs
          else
            and_then (recentDurations recent (str row sizeField) 1 need) (\<lambda>solo.
            and_then (if n > 1 then recentDurations recent (str row sizeField) n need else Inr solo) (\<lambda>loaded.
              Inr (if int (length solo) \<ge> need \<and> int (length loaded) \<ge> need
                   then obs\<lparr>Solo := medianDuration solo, Loaded := medianDuration loaded\<rparr> else obs))))"

definition settle_key :: "string \<Rightarrow> int option \<Rightarrow> string \<Rightarrow> string" where
  "settle_key runID attempt stage =
     (case attempt of None \<Rightarrow> legacyReservationKey runID stage | Some a \<Rightarrow> reservationKey runID a stage)"

definition settle_ledger :: "string \<Rightarrow> recommendation \<Rightarrow> ledger_doc \<Rightarrow> ledger_doc" where
  "settle_ledger key rec l = (drop_key key l)\<lparr>ledgerStableRuns := recStable rec, Recommended := recN rec,
     RecommendBasis := recBasis rec\<rparr>"

definition settle_body :: "recent_query \<Rightarrow> string \<Rightarrow> int option \<Rightarrow> string \<Rightarrow> db \<Rightarrow> store_err + unit \<times> db" where
  "settle_body recent runID attempt stage d =
     (let ledger = readLedger d; key = settle_key runID attempt stage in
      case map_of (Reservations ledger) key of
        None \<Rightarrow> Inr ((), d)
      | Some entry \<Rightarrow>
        if entryStage entry = StagePlan then
          and_then (get_row d runID) (\<lambda>row.
          and_then (update_row runID (planSettle entry row @ [(stateField, Put (VStr statePlanned))]) d) (\<lambda>d'.
          and_then (update_ledger (drop_key key) d') (\<lambda>d''. Inr ((), d''))))
        else
          and_then (observe recent runID ledger d) (\<lambda>obs.
            let platformCap = cmp_or (ledgerPlatformCap ledger) (PlatformCap DefaultLimits);
                rec = Recommend (ledger_recommendation ledger) (concN (ledger_concurrency ledger)) obs
                        (ledger_tuning ledger) platformCap in
            and_then (update_ledger (settle_ledger key rec) d) (\<lambda>d'. Inr ((), d'))))"

definition Settle :: "store_err option \<Rightarrow> recent_query \<Rightarrow> string \<Rightarrow> int option \<Rightarrow> db \<Rightarrow> (store_err + unit) \<times> db" where
  "Settle fault recent runID attempt d = run_transaction fault (settle_body recent runID attempt StageBuild) d"

definition SettlePlan :: "store_err option \<Rightarrow> recent_query \<Rightarrow> string \<Rightarrow> int option \<Rightarrow> db \<Rightarrow> (store_err + unit) \<times> db" where
  "SettlePlan fault recent runID attempt d = run_transaction fault (settle_body recent runID attempt StagePlan) d"

section \<open>The owner's N\<close>

definition adopt_ledger :: "int \<Rightarrow> ledger_doc \<Rightarrow> ledger_doc" where
  "adopt_ledger n ledger = ledger\<lparr>ledgerN := n, ledgerStableRuns := 0, Recommended := 0,
     RecommendBasis := BasisNone, ChangedAfter := latestClaim ledger (ChangedAfter ledger)\<rparr>"

definition AdoptRunsAtOnce :: "store_err option \<Rightarrow> int \<Rightarrow> db \<Rightarrow> (store_err + unit) \<times> db" where
  "AdoptRunsAtOnce fault n d = run_transaction fault (\<lambda>d.
     let ledger = readLedger d in
     if ledgerN ledger = n then Inr ((), d) else Inr ((), set_ledger (adopt_ledger n ledger) d)) d"

section \<open>What a claim does\<close>

definition claimable :: "db \<Rightarrow> string \<Rightarrow> doc \<Rightarrow> bool" where
  "claimable d runID row \<longleftrightarrow>
     runs d runID = Some row \<and> str row stateField \<in> {stateQueued, statePlanned} \<and> \<not> hasEnded row"

definition claimed_db ::
  "string \<Rightarrow> doc \<Rightarrow> store_err facts \<Rightarrow> reservation \<Rightarrow> time \<Rightarrow> db \<Rightarrow> db" where
  "claimed_db runID row facts res now d =
     put_row runID (apply_updates (claim_updates (readLedger d) row facts res now) row)
       (set_ledger (claim_ledger (readLedger d) runID row facts res now) d)"

text \<open>
  The only ways a claim attempt ends without an error: claimed; withheld, with the reason on the row
  and nothing else changed; an ended row moved to claimed; or nothing at all.
\<close>

definition ended_db :: "string \<Rightarrow> doc \<Rightarrow> time \<Rightarrow> db \<Rightarrow> db" where
  "ended_db runID row now d = put_row runID (apply_updates (ended_updates now) row) d"

definition withheld_db :: "string \<Rightarrow> doc \<Rightarrow> string \<Rightarrow> db \<Rightarrow> db" where
  "withheld_db runID row why d = put_row runID (apply_updates [(waitingOnField, Put (VStr why))] row) d"

lemma withhold_present: "runs d r = Some row \<Longrightarrow> withhold r why d = Inr ((False, why), withheld_db r row why d)"
  by (simp add: withhold_def withheld_db_def)

lemma TryClaim_body_cases:
  assumes "TryClaim_body query runID now cfg facts res d = Inr ((ok, why), d')"
  obtains (skipped) "\<not> ok" "why = []" "d' = d"
    | (ended) row where "\<not> ok" "why = []" "runs d runID = Some row"
        "str row stateField \<in> {stateQueued, statePlanned}" "hasEnded row" "d' = ended_db runID row now d"
    | (withheld) row where "\<not> ok" "claimable d runID row" "d' = withheld_db runID row why d"
    | (claimed) row s where "ok" "why = []" "claimable d runID row"
        "settledFor query cfg (factModel facts) now (factHistory facts) = Inr s"
        "Admit ((claim_input (readLedger d) row cfg facts res)\<lparr>inSettled := s\<rparr>) = (True, [])"
        "d' = claimed_db runID row facts res now d"
proof (cases "runs d runID")
  case None
  then show ?thesis using assms skipped by (simp add: TryClaim_body_def)
next
  case (Some row)
  note body = assms [unfolded TryClaim_body_def Some option.case Let_def]
  consider (state) "str row stateField \<noteq> stateQueued" "str row stateField \<noteq> statePlanned"
    | (over) "str row stateField \<in> {stateQueued, statePlanned}" "hasEnded row"
    | (ready) "claimable d runID row"
    using Some by (auto simp: claimable_def)
  then show ?thesis
  proof cases
    case state
    then show ?thesis using body skipped by simp
  next
    case over
    then show ?thesis using body Some ended [of row] by (auto simp: ended_db_def)
  next
    case ready
    let ?inp = "claim_input (readLedger d) row cfg facts res"
    have upd: "and_then (update_row runID (claim_updates (readLedger d) row facts res now)
          (set_ledger (claim_ledger (readLedger d) runID row facts res now) d)) (\<lambda>d'. Inr ((True, []), d'))
        = Inr ((True, []), claimed_db runID row facts res now d)"
      using Some by (simp add: claimed_db_def)
    have body: "(if HeldBeforeBudget ?inp \<noteq> [] then withhold runID (HeldBeforeBudget ?inp) d
        else and_then (settledFor query cfg (factModel facts) now (factHistory facts)) (\<lambda>s.
          case Admit (?inp\<lparr>inSettled := s\<rparr>) of (ok, why) \<Rightarrow>
            if \<not> ok then withhold runID why d else Inr ((True, []), claimed_db runID row facts res now d)))
        = Inr ((ok, why), d')"
      using body ready unfolding upd by (auto simp: claimable_def)
    show ?thesis
    proof (cases "HeldBeforeBudget ?inp = []")
      case False
      then show ?thesis using body Some withheld [OF _ ready] by (auto simp: withhold_present)
    next
      case True
      then obtain s where s: "settledFor query cfg (factModel facts) now (factHistory facts) = Inr s"
        using body by (auto simp: and_then_Inr)
      show ?thesis
      proof (cases "Admit (?inp\<lparr>inSettled := s\<rparr>)")
        case (Pair fits reason)
        show ?thesis
        proof (cases fits)
          case True
          with Pair Admit_cases [of "?inp\<lparr>inSettled := s\<rparr>"] have "reason = []" by auto
          with True Pair s body \<open>HeldBeforeBudget ?inp = []\<close> claimed [OF _ _ ready s] show ?thesis by simp
        next
          case False
          with Pair s body \<open>HeldBeforeBudget ?inp = []\<close> Some withheld [OF _ ready] show ?thesis
            by (auto simp: withhold_present)
        qed
      qed
    qed
  qed
qed

lemma TryClaim_ok:
  "TryClaim fault query runID now cfg facts res d = (Inr (ok, why), d') \<Longrightarrow>
     TryClaim_body query runID now cfg facts res d = Inr ((ok, why), d')"
  by (simp add: TryClaim_def run_transaction_ok)

lemma TryClaim_claimed:
  assumes "TryClaim fault query runID now cfg facts res d = (Inr (True, why), d')"
  obtains row s where "claimable d runID row"
    "settledFor query cfg (factModel facts) now (factHistory facts) = Inr s"
    "Admit ((claim_input (readLedger d) row cfg facts res)\<lparr>inSettled := s\<rparr>) = (True, [])"
    "d' = claimed_db runID row facts res now d"
  using TryClaim_ok [OF assms] by (rule TryClaim_body_cases) auto

lemma claim_updates_row [simp]:
  "rowAttempt (apply_updates (claim_updates l row facts res now) row') = rowAttempt row'"
  "rowState (apply_updates (claim_updates l row facts res now) row') = stateClaimed"
  by (simp_all add: claim_updates_def rowAttempt_def rowState_def row_simps)

lemma ended_updates_row [simp]:
  "rowAttempt (apply_updates (ended_updates now) row) = rowAttempt row"
  "rowState (apply_updates (ended_updates now) row) = stateClaimed"
  by (simp_all add: ended_updates_def rowAttempt_def rowState_def row_simps)

lemma claim_entry_simps [simp]:
  "entryAttempt (claim_entry row facts res now) = rowAttempt row"
  "entryStage (claim_entry row facts res now) = resStage res"
  "ProviderCostMicros (claim_entry row facts res now) = resProviderCost res"
  "entryRunnerMinutes (claim_entry row facts res now) = resRunnerMinutes res"
  by (simp_all add: claim_entry_def Let_def)

lemma claim_ledger_simps [simp]:
  "Reservations (claim_ledger l runID row facts res now) =
     AList.update (reservationKey runID (rowAttempt row) (resStage res)) (claim_entry row facts res now) (Reservations l)"
  "ledgerN (claim_ledger l runID row facts res now) = max (ledgerN l) 1"
  by (simp_all add: claim_ledger_def ledger_concurrency_def)

lemma TryClaim_keeps:
  assumes inv: "ledger_inv d"
  shows "ledger_inv (snd (TryClaim fault query runID now cfg facts res d))"
  unfolding TryClaim_def
proof (rule transaction_keeps)
  fix a d' assume "TryClaim_body query runID now cfg facts res d = Inr (a, d')"
  then have body: "TryClaim_body query runID now cfg facts res d = Inr ((fst a, snd a), d')" by simp
  then show "ledger_inv d'"
  proof (cases rule: TryClaim_body_cases)
    case skipped
    then show ?thesis using inv by simp
  next
    case (ended row)
    then show ?thesis
      using put_row_same_attempt [OF inv ended(3)] by (simp add: ended_db_def)
  next
    case (withheld row)
    then show ?thesis
      using put_row_same_attempt [OF inv, of runID row] by (simp add: withheld_db_def claimable_def same_attempt same_state)
  next
    case (claimed row s)
    then have row: "runs d runID = Some row" "rowState row \<notin> {stateClaimed, stateStopped}"
      by (auto simp: claimable_def rowState_def)
    show ?thesis
      unfolding claimed(6) claimed_db_def
      by (rule book_keeps [OF inv row(1) idle_holds_none [OF inv row], where e = "claim_entry row facts res now"]) simp_all
  qed
qed (rule inv)

interpretation try_claim: keeps_ledger "TryClaim fault query runID now cfg facts res"
  for fault query runID now cfg facts res
  by unfold_locales (rule TryClaim_keeps)

section \<open>A claim fits the limits it was admitted under\<close>

lemma update_new: "map_of m k = None \<Longrightarrow> AList.update k v m = m @ [(k, v)]"
  by (induction m) auto

lemma claim_key_new:
  assumes "ledger_inv d" and "claimable d runID row"
  shows "held d (reservationKey runID (rowAttempt row) st) = None"
proof (rule ccontr)
  assume "held d (reservationKey runID (rowAttempt row) st) \<noteq> None"
  moreover have "runs d runID = Some row" "rowState row \<notin> {stateClaimed, stateStopped}"
    using assms(2) by (auto simp: claimable_def rowState_def)
  moreover from this have "holds_none d runID" using idle_holds_none [OF assms(1)] by blast
  ultimately show False
    using reservationRunID_key [OF ledger_invD(2) [OF assms(1)]] by (auto simp: holds_none_def)
qed

text \<open>The claim's own run in flight, last of the list.\<close>

definition claim_flight :: "doc \<Rightarrow> store_err facts \<Rightarrow> reservation \<Rightarrow> in_flight" where
  "claim_flight row facts res = \<lparr>flightTicket = str row ticketIDField, flightRepo = str row repoField,
     flightSize = str row sizeField, flightFiles = resFiles res, flightStage = resStage res\<rparr>"

lemma claim_candidate_simps [simp]:
  "subjTicket (claim_candidate row facts res) = str row ticketIDField"
  "subjRepo (claim_candidate row facts res) = str row repoField"
  "subjSize (claim_candidate row facts res) = str row sizeField"
  "subjStage (claim_candidate row facts res) = resStage res"
  "subjFiles (claim_candidate row facts res) = stringList row planFilesField"
  by (simp_all add: claim_candidate_def row_subject_def Let_def)

lemma claimed_ledger:
  assumes "ledger_inv d" and "claimable d runID row"
  shows "readLedger (claimed_db runID row facts res now d) = claim_ledger (readLedger d) runID row facts res now"
    and "Reservations (readLedger (claimed_db runID row facts res now d)) = Reservations (readLedger d) @
      [(reservationKey runID (rowAttempt row) (resStage res), claim_entry row facts res now)]"
    and "inFlight (readLedger (claimed_db runID row facts res now d)) = inFlight (readLedger d) @ [claim_flight row facts res]"
  using claim_key_new [OF assms, of "resStage res"]
  by (simp_all add: claimed_db_def update_new held_def inFlight_def claim_entry_def Let_def claim_flight_def)

lemma int64_shift: "in_int64 (int64 a + b) \<Longrightarrow> int64 (a + b) = int64 a + b"
  by (metis int64_add_left int64_id)

lemma claimed_totals:
  assumes "ledger_inv d" and "claimable d runID row"
    and "cost_ok (totalProviderCost (reservedTotals (readLedger d)))" "cost_ok (resProviderCost res)"
    and "minutes_ok (totalRunnerMinutes (reservedTotals (readLedger d)))" "minutes_ok (resRunnerMinutes res)"
  shows "totalProviderCost (reservedTotals (readLedger (claimed_db runID row facts res now d)))
      = totalProviderCost (reservedTotals (readLedger d)) + resProviderCost res"
    and "totalRunnerMinutes (reservedTotals (readLedger (claimed_db runID row facts res now d)))
      = totalRunnerMinutes (reservedTotals (readLedger d)) + resRunnerMinutes res"
proof -
  let ?c = "map_total ProviderCostMicros (Reservations (readLedger d))"
  let ?m = "map_total entryRunnerMinutes (Reservations (readLedger d))"
  have "in_int64 (int64 ?c + resProviderCost res)"
    using assms(3,4) by (simp add: reservedTotals_sums cost_ok_def in_int64_def)
  then show "totalProviderCost (reservedTotals (readLedger (claimed_db runID row facts res now d)))
      = totalProviderCost (reservedTotals (readLedger d)) + resProviderCost res"
    using int64_shift [of ?c "resProviderCost res"]
    by (simp add: reservedTotals_sums claimed_ledger(2) [OF assms(1,2)] map_total_def)
  have "in_int64 (int64 ?m + resRunnerMinutes res)"
    using assms(5,6) by (simp add: reservedTotals_sums minutes_ok_def in_int64_def)
  then show "totalRunnerMinutes (reservedTotals (readLedger (claimed_db runID row facts res now d)))
      = totalRunnerMinutes (reservedTotals (readLedger d)) + resRunnerMinutes res"
    using int64_shift [of ?m "resRunnerMinutes res"]
    by (simp add: reservedTotals_sums claimed_ledger(2) [OF assms(1,2)] map_total_def)
qed

lemma claim_input_simps [simp]:
  "inFacts (claim_input l row cfg facts res) = facts"
  "inN (claim_input l row cfg facts res) = max (ledgerN l) 1"
  "inInFlight (claim_input l row cfg facts res) = inFlight l"
  "inCandidate (claim_input l row cfg facts res) = claim_candidate row facts res"
  "inBudget (claim_input l row cfg facts res) = cfg"
  "inReserved (claim_input l row cfg facts res) = reservedTotals l"
  "inReservation (claim_input l row cfg facts res) = res"
  by (simp_all add: claim_input_def ledger_concurrency_def)

lemma claim_admitted:
  assumes "Admit ((claim_input l row cfg facts res)\<lparr>inSettled := s\<rparr>) = (True, [])"
  shows "HeldBeforeBudget (claim_input l row cfg facts res) = []"
    and "fst (Decide cfg (factModel facts) (reservedTotals l) s res)"
proof -
  have "fst (Admit ((claim_input l row cfg facts res)\<lparr>inSettled := s\<rparr>))" using assms by simp
  then show "HeldBeforeBudget (claim_input l row cfg facts res) = []"
    and "fst (Decide cfg (factModel facts) (reservedTotals l) s res)"
    by (simp_all add: Admit_iff)
qed

section \<open>The other operations keep the ledger consistent\<close>

lemma set_ledger_put_row: "set_ledger l (put_row r row d) = put_row r row (set_ledger l d)"
  by (simp add: set_ledger_def put_row_def fun_eq_iff cong: if_cong)

text \<open>A row update and the drop of the reservation it stands for, in one transaction.\<close>

lemma row_and_drop:
  assumes "runs d r = Some row" and "held d key = Some e"
  shows "and_then (update_row r us d) (\<lambda>d'. and_then (update_ledger (drop_key key) d') (\<lambda>d''. Inr ((), d'')))
    = Inr ((), put_row r (apply_updates us row) (set_ledger (drop_key key (readLedger d)) d))"
proof -
  have "update_ledger (drop_key key) (put_row r (apply_updates us row) d)
      = Inr (set_ledger (drop_key key (readLedger d)) (put_row r (apply_updates us row) d))"
    using assms(2) update_ledger_held [of "put_row r (apply_updates us row) d" key e] by (simp add: held_def)
  then show ?thesis using assms(1) by (simp add: set_ledger_put_row)
qed

lemma dropped_row_keeps:
  assumes "ledger_inv d" and "runs d r = Some row"
    and "ledger_reservation (readLedger d) r (rowAttempt row) = Some (key, entry)"
  shows "ledger_inv (put_row r row' (set_ledger (drop_key key (readLedger d)) d))"
  using put_row_unreserved [OF drop_reservation [OF assms] ledger_invD(2) [OF assms(1,2)]] .

lemma unreserved_row_keeps:
  assumes "ledger_inv d" and "runs d r = Some row"
    and "ledger_reservation (readLedger d) r (rowAttempt row) = None"
  shows "ledger_inv (put_row r row' d)"
  using assms put_row_unreserved reservation_None_holds_none [OF assms(1,2)] ledger_invD(2) [OF assms(1,2)] by blast

text \<open>The two ways \<open>end_claim\<close> succeeds.\<close>

lemma end_claim_cases:
  assumes "ledger_inv d" and "end_claim runID us f d = Inr (u, d')"
  obtains (free) row where "runs d runID = Some row" "holds_none d runID"
      "d' = put_row runID (apply_updates (us row) row) d"
    | (dropped) row key entry where "runs d runID = Some row"
      "ledger_reservation (readLedger d) runID (rowAttempt row) = Some (key, entry)"
      "d' = put_row runID (apply_updates (f row entry) row) (set_ledger (drop_key key (readLedger d)) d)"
proof -
  from assms(2) obtain row where row: "runs d runID = Some row"
    by (auto simp: end_claim_def get_row_def split: option.splits)
  show ?thesis
  proof (cases "ledger_reservation (readLedger d) runID (rowAttempt row)")
    case None
    then show ?thesis
      using assms(2) row free [OF row] reservation_None_holds_none [OF assms(1) row]
      by (auto simp: end_claim_def get_row_def)
  next
    case (Some p)
    then obtain key entry where p: "ledger_reservation (readLedger d) runID (rowAttempt row) = Some (key, entry)"
      by (cases p) simp
    show ?thesis
      using assms(2) p row row_and_drop [OF row reservation_Some_only(1) [OF assms(1) row p]] dropped [OF row p]
      by (auto simp: end_claim_def get_row_def)
  qed
qed

lemma end_claim_keeps:
  assumes inv: "ledger_inv d"
  shows "ledger_inv (snd (run_transaction fault (end_claim runID us f) d))"
proof (rule transaction_keeps [OF inv])
  fix u d' assume "end_claim runID us f d = Inr (u, d')"
  with inv show "ledger_inv d'"
  proof (cases rule: end_claim_cases)
    case (free row)
    then show ?thesis using put_row_unreserved [OF inv] ledger_invD(2) [OF inv] by blast
  next
    case (dropped row key entry)
    then show ?thesis using dropped_row_keeps [OF inv] by blast
  qed
qed

interpretation release: keeps_ledger "Release fault runID now" for fault runID now
  by unfold_locales (simp add: Release_def end_claim_keeps)

interpretation stop: keeps_ledger "Stop fault runID reason detail now" for fault runID reason detail now
  by unfold_locales (simp add: Stop_def end_claim_keeps)

lemma settle_key_run: "run_id_ok r \<Longrightarrow> reservationRunID (settle_key r attempt stage) = r"
  by (simp add: settle_key_def reservationRunID_key reservationRunID_legacy split: option.splits)

lemma settle_ledger_simps [simp]:
  "Reservations (settle_ledger key rec l) = AList.delete key (Reservations l)"
  "ledgerN (settle_ledger key rec l) = ledgerN l"
  by (simp_all add: settle_ledger_def)

text \<open>The three ways \<open>settle\<close> succeeds.\<close>

lemma settle_body_cases:
  assumes "settle_body recent runID attempt stage d = Inr (u, d')"
  obtains (none) "held d (settle_key runID attempt stage) = None" "d' = d"
    | (plan) row entry where "held d (settle_key runID attempt stage) = Some entry" "entryStage entry = StagePlan"
        "runs d runID = Some row"
        "d' = put_row runID (apply_updates (planSettle entry row @ [(stateField, Put (VStr statePlanned))]) row)
                (set_ledger (drop_key (settle_key runID attempt stage) (readLedger d)) d)"
    | (build) entry rec where "held d (settle_key runID attempt stage) = Some entry" "entryStage entry \<noteq> StagePlan"
        "d' = set_ledger (settle_ledger (settle_key runID attempt stage) rec (readLedger d)) d"
proof (cases "held d (settle_key runID attempt stage)")
  case None
  moreover have "map_of (Reservations (readLedger d)) (settle_key runID attempt stage) = None"
    using None by (simp add: held_def)
  with assms have "d' = d" by (simp add: settle_body_def Let_def)
  ultimately show ?thesis by (rule none)
next
  case (Some entry)
  then have mp: "map_of (Reservations (readLedger d)) (settle_key runID attempt stage) = Some entry" by (simp add: held_def)
  show ?thesis
  proof (cases "entryStage entry = StagePlan")
    case True
    with assms mp obtain row where row: "runs d runID = Some row"
      by (auto simp: settle_body_def Let_def get_row_def split: option.splits)
    then show ?thesis
      using assms True mp row_and_drop [OF row Some] plan [OF Some True row]
      by (auto simp: settle_body_def Let_def get_row_def)
  next
    case False
    then show ?thesis
      using assms mp build [OF Some False]
      by (auto simp: settle_body_def Let_def and_then_Inr update_ledger_held)
  qed
qed

lemma settle_keeps:
  assumes inv: "ledger_inv d"
  shows "ledger_inv (snd (run_transaction fault (settle_body recent runID attempt stage) d))"
proof (rule transaction_keeps [OF inv])
  let ?key = "settle_key runID attempt stage"
  have drop: "ledger_inv (set_ledger l d)" if "Reservations l = AList.delete ?key (Reservations (readLedger d))" for l
    using inv ledger_invD(1) [OF inv] that by (intro drop_keeps) (auto simp: held_def split: if_splits)
  fix u d' assume "settle_body recent runID attempt stage d = Inr (u, d')"
  then show "ledger_inv d'"
  proof (cases rule: settle_body_cases)
    case none
    then show ?thesis using inv by simp
  next
    case (plan row entry)
    have ok: "run_id_ok runID" using ledger_invD(2) [OF inv plan(3)] .
    have "holds_none (set_ledger (drop_key ?key (readLedger d)) d) runID"
      using ledger_invD(4) [OF inv plan(1)] settle_key_run [OF ok] by (auto simp: holds_none_def held_def)
    then show ?thesis unfolding plan(4) using drop ok by (intro put_row_unreserved) simp_all
  next
    case (build entry rec)
    then show ?thesis using drop by simp
  qed
qed

interpretation settle: keeps_ledger "Settle fault recent runID attempt" for fault recent runID attempt
  by unfold_locales (simp add: Settle_def settle_keeps)

interpretation settle_plan: keeps_ledger "SettlePlan fault recent runID attempt" for fault recent runID attempt
  by unfold_locales (simp add: SettlePlan_def settle_keeps)

lemma adopt_ledger_simps [simp]:
  "Reservations (adopt_ledger n l) = Reservations l"
  "ledgerN (adopt_ledger n l) = n"
  by (simp_all add: adopt_ledger_def)

interpretation adopt: keeps_ledger "AdoptRunsAtOnce fault n" for fault n
proof unfold_locales
  fix d assume inv: "ledger_inv d"
  then have "ledger_inv (set_ledger (adopt_ledger n (readLedger d)) d)"
    using ledger_invD(1) [OF inv] by (intro drop_keeps) (auto simp: held_def)
  with inv show "ledger_inv (snd (AdoptRunsAtOnce fault n d))"
    unfolding AdoptRunsAtOnce_def by (intro transaction_keeps) (simp_all add: Let_def split: if_splits)
qed

end
