(* ===== verification/Go_Text.thy ===== *)
theory Go_Text
  imports Go_Prelude
begin

text \<open>
  Text as \<open>strings.TrimSpace\<close>, \<open>strings.Contains\<close> and \<open>utf8.ValidString\<close> read it: a Go string is
  its UTF-8 bytes.
\<close>

section \<open>White space\<close>

text \<open>The encodings of the characters Unicode calls white space.\<close>

definition space_runes :: "string list" where
  "space_runes =
     [[CHR 0x09], [CHR 0x0A], [CHR 0x0B], [CHR 0x0C], [CHR 0x0D], [CHR 0x20],
      [CHR 0xC2, CHR 0x85], [CHR 0xC2, CHR 0xA0], [CHR 0xE1, CHR 0x9A, CHR 0x80],
      [CHR 0xE2, CHR 0x80, CHR 0x80], [CHR 0xE2, CHR 0x80, CHR 0x81], [CHR 0xE2, CHR 0x80, CHR 0x82],
      [CHR 0xE2, CHR 0x80, CHR 0x83], [CHR 0xE2, CHR 0x80, CHR 0x84], [CHR 0xE2, CHR 0x80, CHR 0x85],
      [CHR 0xE2, CHR 0x80, CHR 0x86], [CHR 0xE2, CHR 0x80, CHR 0x87], [CHR 0xE2, CHR 0x80, CHR 0x88],
      [CHR 0xE2, CHR 0x80, CHR 0x89], [CHR 0xE2, CHR 0x80, CHR 0x8A], [CHR 0xE2, CHR 0x80, CHR 0xA8],
      [CHR 0xE2, CHR 0x80, CHR 0xA9], [CHR 0xE2, CHR 0x80, CHR 0xAF], [CHR 0xE2, CHR 0x81, CHR 0x9F],
      [CHR 0xE3, CHR 0x80, CHR 0x80]]"

function strip :: "string list \<Rightarrow> string \<Rightarrow> string" where
  "strip runes s =
     (case find (\<lambda>p. p \<noteq> [] \<and> prefix p s) runes of None \<Rightarrow> s | Some p \<Rightarrow> strip runes (drop (length p) s))"
  by pat_completeness auto
termination
proof (relation "measure (\<lambda>(_, s). length s)", goal_cases)
  case (2 runes s p)
  then have "p \<noteq> []" "prefix p s" by (auto simp: find_Some_iff)
  then show ?case by (auto simp: prefix_def)
qed simp

declare strip.simps [simp del]

definition trim_space :: "string \<Rightarrow> string" where
  "trim_space s = rev (strip (map rev space_runes) (rev (strip space_runes s)))"

definition blank :: "string \<Rightarrow> bool" where
  "blank s \<longleftrightarrow> trim_space s = []"

lemma strip_Nil [simp]: "strip runes [] = []"
proof -
  have "find (\<lambda>p. p \<noteq> [] \<and> prefix p []) runes = None" by (simp add: find_None_iff)
  then show ?thesis by (subst strip.simps) simp
qed

lemma blank_Nil [simp]: "blank []"
  by (simp add: blank_def trim_space_def)

text \<open>\<open>strings.Contains\<close>.\<close>

definition contains :: "string \<Rightarrow> string \<Rightarrow> bool" where
  "contains s sub \<longleftrightarrow> list_ex (\<lambda>t. prefix sub t) (suffixes s)"

section \<open>UTF-8\<close>

definition cont_byte :: "nat \<Rightarrow> bool" where
  "cont_byte b \<longleftrightarrow> 0x80 \<le> b \<and> b \<le> 0xBF"

text \<open>The length of the encoding the bytes begin with, \<open>None\<close> for none.\<close>

fun rune_len :: "nat list \<Rightarrow> nat option" where
  "rune_len [] = None"
| "rune_len (a # bs) =
     (if a < 0x80 then Some 1
      else if 0xC2 \<le> a \<and> a \<le> 0xDF then
        (case bs of b # _ \<Rightarrow> if cont_byte b then Some 2 else None | _ \<Rightarrow> None)
      else if 0xE0 \<le> a \<and> a \<le> 0xEF then
        (case bs of b # c # _ \<Rightarrow>
           if cont_byte b \<and> cont_byte c \<and> (a = 0xE0 \<longrightarrow> 0xA0 \<le> b) \<and> (a = 0xED \<longrightarrow> b \<le> 0x9F) then Some 3 else None
         | _ \<Rightarrow> None)
      else if 0xF0 \<le> a \<and> a \<le> 0xF4 then
        (case bs of b # c # e # _ \<Rightarrow>
           if cont_byte b \<and> cont_byte c \<and> cont_byte e \<and> (a = 0xF0 \<longrightarrow> 0x90 \<le> b) \<and> (a = 0xF4 \<longrightarrow> b \<le> 0x8F)
           then Some 4 else None
         | _ \<Rightarrow> None)
      else None)"

lemma rune_len_pos: "rune_len bs = Some n \<Longrightarrow> 0 < n \<and> bs \<noteq> []"
  by (cases bs) (auto split: if_splits list.splits)

function utf8_bytes :: "nat list \<Rightarrow> bool" where
  "utf8_bytes bs =
     (if bs = [] then True else case rune_len bs of None \<Rightarrow> False | Some n \<Rightarrow> utf8_bytes (drop n bs))"
  by pat_completeness auto
termination
proof (relation "measure length", goal_cases)
  case (2 bs n)
  then show ?case using rune_len_pos [of bs n] by simp
qed simp

declare utf8_bytes.simps [simp del]

definition utf8_valid :: "string \<Rightarrow> bool" where
  "utf8_valid s \<longleftrightarrow> utf8_bytes (map of_char s)"

section \<open>Reading a decimal\<close>

text \<open>\<open>strconv.Atoi\<close>: a sign, then digits, in range; \<open>None\<close> is its error.\<close>

definition atoi :: "string \<Rightarrow> int option" where
  "atoi s =
     (let neg = (s \<noteq> [] \<and> hd s = CHR ''-''); signed = (s \<noteq> [] \<and> (hd s = CHR ''-'' \<or> hd s = CHR ''+''));
          ds = (if signed then tl s else s);
          n = (if neg then - int (digits_val ds) else int (digits_val ds))
      in if ds \<noteq> [] \<and> list_all is_digit ds \<and> in_int64 n then Some n else None)"

lemma atoi_itoa: "in_int64 n \<Longrightarrow> atoi (itoa n) = Some n"
proof -
  assume n: "in_int64 n"
  have nonempty: "itoa_nat k \<noteq> []" for k by (subst itoa_nat.simps) auto
  have first: "is_digit (hd (itoa_nat k))" for k
    using itoa_nat_digits [of k] nonempty [of k] by (cases "itoa_nat k") auto
  have "hd (itoa_nat k) \<noteq> CHR ''-''" "hd (itoa_nat k) \<noteq> CHR ''+''" for k
    using first [of k] by (auto simp: is_digit_def)
  with n show ?thesis
    by (auto simp: atoi_def itoa_def Let_def nonempty itoa_nat_digits)
qed

end
