(* ===== verification/Requeue.thy ===== *)
theory Requeue
  imports Claims Go_Text
begin

text \<open>
  Returning an ended run to the queue: \<open>requeue\<close> of \<open>internal/store/queue.go\<close>, the one transaction
  behind \<open>Requeue\<close>, \<open>RequeueAfterConflict\<close>, \<open>RequeueTransient\<close>, \<open>RetryWithNote\<close>
  (\<open>internal/store/retry.go\<close>) and \<open>Supersede\<close> (\<open>internal/store/decision.go\<close>). Each passes a
  \<open>decide\<close> function that names the state the run returns to or refuses; the locale
  \<open>requeue_decision\<close> states what the transaction relies on of it.
\<close>

section \<open>Whether a run may be requeued\<close>

definition requeueState :: "doc \<Rightarrow> store_err + string" where
  "requeueState row =
     (let state = str row stateField;
          back = (if stringList row planFilesField \<noteq> [] \<and> planStamped row then statePlanned else stateQueued) in
      if state = stateQueued \<or> state = statePlanned then
        (if \<not> hasEnded row then Inl ErrRunDispatchable else Inr back)
      else if state = stateWaiting then Inl ErrRunWaiting
      else if state = stateClaimed then (if \<not> hasEnded row then Inl ErrRunInFlight else Inr back)
      else if state = stateStopped \<or> state = stateAbandoned then Inr back
      else Inl (Refused state))"

section \<open>The shared transaction\<close>

record requeue_options =
  keepNote :: bool
  archive :: bool

record requeue_result =
  resState :: string
  resAttempt :: int
  resTicketState :: string

definition clearNote :: updates where
  "clearNote = [(operatorNoteField, Delete), (operatorAssistedField, Delete), (retriedByField, Delete)]"

definition archivedAttempt :: "doc \<Rightarrow> int \<Rightarrow> time \<Rightarrow> doc" where
  "archivedAttempt row next now = apply_updates
     [(supersededByAttemptField, Put (VInt next)), (archivedAtField, Put (VTime now))] row"

definition requeue_updates :: "string \<Rightarrow> int \<Rightarrow> time \<Rightarrow> updates" where
  "requeue_updates state attempt now =
     [(stateField, Put (VStr state)),
      (updatedAtField, Put (VTime now)),
      (claimedAtField, Delete),
      (waitingOnField, Delete),
      (outcomeField, Delete),
      (buildOutcomeField, Delete),
      (stopReasonField, Delete),
      (stopDetailField, Delete),
      (transientField, Delete),
      (cancelledByOwnerAtField, Delete),
      (cancelledByField, Delete),
      (ticketClosedAtField, Delete),
      (retriedAtField, Put (VTime now)),
      (abandonedReasonField, Delete),
      (abandonedAtField, Delete),
      (ticketStateField, Delete),
      (queuedAtField, Put (VTime now)),
      (attemptField, Put (VInt attempt)),
      (decisionModeField, Delete),
      (prHeadSHAField, Delete),
      (checksResultField, Delete)]"

definition archive_attempt :: "string \<Rightarrow> doc \<Rightarrow> int \<Rightarrow> time \<Rightarrow> db \<Rightarrow> db" where
  "archive_attempt runID row next now d = d\<lparr>attempts :=
     (\<lambda>p. if p = (runID, rowAttempt row) then Some (archivedAttempt row next now) else attempts d p)\<rparr>"

definition dropReservations :: "ledger_doc \<Rightarrow> string \<Rightarrow> int \<Rightarrow> db \<Rightarrow> store_err + db" where
  "dropReservations ledger runID attempt d =
     (let keys = reservedKeys ledger runID attempt in
      if keys = [] then Inr d else update_ledger (drop_keys keys) d)"

type_synonym decider = "doc \<Rightarrow> int \<Rightarrow> store_err + string \<times> updates"

definition requeue_body ::
  "requeue_options \<Rightarrow> decider \<Rightarrow> string \<Rightarrow> time \<Rightarrow> db \<Rightarrow> store_err + requeue_result \<times> db" where
  "requeue_body opts decide runID now d =
     (case runs d runID of
        None \<Rightarrow> Inl ErrRecordNotFound
      | Some row \<Rightarrow>
        let attempt = rowAttempt row + 1 in
        and_then (decide row attempt) (\<lambda>(state, extra).
          let updates = requeue_updates state attempt now @ (if keepNote opts then [] else clearNote) @ extra;
              d1 = (if archive opts then archive_attempt runID row attempt now d else d) in
          and_then (update_row runID updates d1) (\<lambda>d2.
          and_then (dropReservations (readLedger d) runID (attempt - 1) d2) (\<lambda>d3.
            Inr (\<lparr>resState = state, resAttempt = attempt, resTicketState = str row ticketStateField\<rparr>, d3)))))"

definition requeue ::
  "store_err option \<Rightarrow> requeue_options \<Rightarrow> decider \<Rightarrow> string \<Rightarrow> time \<Rightarrow> db \<Rightarrow> (store_err + requeue_result) \<times> db" where
  "requeue fault opts decide runID now d = run_transaction fault (requeue_body opts decide runID now) d"

section \<open>The five requeues\<close>

definition Requeue_decide :: decider where
  "Requeue_decide row attempt = and_then (requeueState row) (\<lambda>state. Inr (state, []))"

definition Requeue :: "store_err option \<Rightarrow> string \<Rightarrow> time \<Rightarrow> db \<Rightarrow> (store_err + requeue_result) \<times> db" where
  "Requeue fault runID now d = requeue fault \<lparr>keepNote = False, archive = False\<rparr> Requeue_decide runID now d"

definition RequeueAfterConflict_decide :: "int \<Rightarrow> decider" where
  "RequeueAfterConflict_decide maxAttempts row attempt =
     (if str row stateField = stateAbandoned then Inl ErrRunAbandoned
      else and_then (requeueState row) (\<lambda>_.
        if attempt > maxAttempts then Inl ErrRetriesExhausted
        else Inr (stateQueued,
          [(priorSettledCostField, Put (VInt (int_of row settledProviderCostField))),
           (priorSettledMinutesField, Put (VInt (int_of row settledRunnerMinutesField)))])))"

definition RequeueAfterConflict ::
  "store_err option \<Rightarrow> string \<Rightarrow> time \<Rightarrow> int \<Rightarrow> db \<Rightarrow> (store_err + requeue_result) \<times> db" where
  "RequeueAfterConflict fault runID now maxAttempts d =
     requeue fault \<lparr>keepNote = True, archive = False\<rparr> (RequeueAfterConflict_decide maxAttempts) runID now d"

definition transientRequeues :: "doc \<Rightarrow> goval list" where
  "transientRequeues row = list_of row transientRequeuesField"

definition RequeueTransient_decide :: "string \<Rightarrow> int \<Rightarrow> time \<Rightarrow> decider" where
  "RequeueTransient_decide cls limit now row attempt =
     and_then (requeueState row) (\<lambda>state.
       let history = transientRequeues row in
       if int (length history) \<ge> limit then Inl ErrRetriesExhausted
       else Inr (state, [(transientRequeuesField,
              Put (VList (history @ [VMap [(''class'', VStr cls), (''at'', VTime now)]])))]))"

definition RequeueTransient ::
  "store_err option \<Rightarrow> string \<Rightarrow> time \<Rightarrow> string \<Rightarrow> int \<Rightarrow> db \<Rightarrow> (store_err + requeue_result) \<times> db" where
  "RequeueTransient fault runID now cls limit d =
     requeue fault \<lparr>keepNote = True, archive = False\<rparr> (RequeueTransient_decide cls limit now) runID now d"

definition supersedeUpdates :: "doc \<Rightarrow> int \<Rightarrow> int \<Rightarrow> bool \<Rightarrow> updates" where
  "supersedeUpdates row attempt pr byRetry =
     [(supersededAttemptField, Put (VInt (attempt - 1))),
      (supersededPRField, if pr > 0 then Put (VInt pr) else Delete),
      (supersededByRetryField, if pr > 0 \<and> byRetry then Put (VBool True) else Delete),
      (priorSettledCostField, Put (VInt (int_of row settledProviderCostField))),
      (priorSettledMinutesField, Put (VInt (int_of row settledRunnerMinutesField)))]"

definition mergedRow :: "doc \<Rightarrow> bool" where
  "mergedRow row \<longleftrightarrow> (case row rewriteMergedAtField of Some (VTime _) \<Rightarrow> True
     | _ \<Rightarrow> \<not> is_zero (time_of row mergedByOwnerAtField))"

definition cancelledRow :: "doc \<Rightarrow> bool" where
  "cancelledRow row \<longleftrightarrow> \<not> is_zero (time_of row cancelledByOwnerAtField)"

record retry_request =
  Note :: string
  Actor :: string
  ExpectedAttempt :: int
  SupersedePR :: int

record retry_result =
  retryAttempt :: int
  Already :: bool

definition MaxNoteBytes :: nat where "MaxNoteBytes = 4096"

definition ValidNote :: "string \<Rightarrow> bool" where
  "ValidNote note \<longleftrightarrow> length note \<le> MaxNoteBytes \<and> utf8_valid note \<and> CHR 0x00 \<notin> set note"

definition RetryWithNote_decide :: "retry_request \<Rightarrow> decider" where
  "RetryWithNote_decide req row attempt =
     (if rowAttempt row = ExpectedAttempt req + 1 \<and> str row operatorNoteField = Note req
         \<and> str row retriedByField = Actor req then Inl ErrRetryApplied
      else if rowAttempt row \<noteq> ExpectedAttempt req then Inl ErrAttemptMoved
      else if mergedRow row then Inl ErrRunMerged
      else if cancelledRow row then Inl ErrRunCancelled
      else if str row outcomeField = OutcomeNoChanges then Inl ErrRunNoChanges
      else if str row stateField = stateAbandoned then Inl ErrRunAbandoned
      else and_then (requeueState row) (\<lambda>_.
        Inr (stateQueued,
          [(operatorNoteField, Put (VStr (Note req))), (operatorAssistedField, Put (VBool True)),
           (retriedByField, Put (VStr (Actor req)))]
          @ supersedeUpdates row attempt (SupersedePR req) True)))"

definition RetryWithNote ::
  "store_err option \<Rightarrow> string \<Rightarrow> retry_request \<Rightarrow> time \<Rightarrow> db \<Rightarrow> (store_err + retry_result) \<times> db" where
  "RetryWithNote fault runID req now d =
     (if blank (Note req) \<or> \<not> ValidNote (Note req) then (Inl ErrNoteInvalid, d)
      else if blank (Actor req) then (Inl ErrActorMissing, d)
      else case requeue fault \<lparr>keepNote = True, archive = True\<rparr> (RetryWithNote_decide req) runID now d of
             (Inl e, d') \<Rightarrow>
               (if e = ErrRetryApplied then Inr \<lparr>retryAttempt = ExpectedAttempt req + 1, Already = True\<rparr> else Inl e, d')
           | (Inr res, d') \<Rightarrow> (Inr \<lparr>retryAttempt = resAttempt res, Already = False\<rparr>, d'))"

definition pullNumber :: "string \<Rightarrow> int" where
  "pullNumber url =
     (case cut url ''/pull/'' of (_, num, found) \<Rightarrow>
        if \<not> found then 0
        else (case atoi num of None \<Rightarrow> 0 | Some n \<Rightarrow> if n < 0 then 0 else n))"

definition holdsUnhandledReply :: "decision_entry list \<Rightarrow> bool" where
  "holdsUnhandledReply decisions =
     list_ex (\<lambda>e. provisional e \<and> is_zero (confirmedAt e) \<and> \<not> is_zero (repliedAt e)) decisions"

definition Supersede_decide :: "int \<Rightarrow> time \<Rightarrow> string \<Rightarrow> decider" where
  "Supersede_decide index replied ans row attempt =
     (if str row stateField = stateAbandoned then Inl (ErrReplyUnusable ErrRunAbandoned)
      else (case requeueState row of
        Inl ErrRunInFlight \<Rightarrow> Inl (ErrRunNotEnded ErrRunInFlight)
      | Inl ErrRunDispatchable \<Rightarrow> Inl (ErrRunNotEnded ErrRunDispatchable)
      | Inl ErrRunWaiting \<Rightarrow> Inl (ErrReplyUnusable ErrRunWaiting)
      | Inl e \<Rightarrow> Inl e
      | Inr _ \<Rightarrow>
        let list = entries_of row decisionsField; i = nat (index - 1) in
        if index - 1 < 0 \<or> index - 1 \<ge> int (length list)
        then Inl (ErrReplyUnusable (Refused ''run has no such decision''))
        else if \<not> provisional (list ! i) then Inl (ErrReplyUnusable (Refused ''decision is not provisional''))
        else if repliedAt (list ! i) \<noteq> replied then Inl ErrStaleReply
        else
          let decisions = list[i := (list ! i)\<lparr>answer := ans, provisional := False\<rparr>] in
          Inr (stateQueued,
            [(decisionsField, Put (VEntries decisions))]
            @ supersedeUpdates row attempt (pullNumber (str row prURLField)) False
            @ (if \<not> holdsUnhandledReply decisions then [(provisionalRepliedField, Delete)] else []))))"

definition Supersede ::
  "store_err option \<Rightarrow> string \<Rightarrow> int \<Rightarrow> time \<Rightarrow> string \<Rightarrow> time \<Rightarrow> db \<Rightarrow> (store_err + unit) \<times> db" where
  "Supersede fault runID index replied ans now d =
     (case requeue fault \<lparr>keepNote = False, archive = False\<rparr> (Supersede_decide index replied ans) runID now d of
        (Inl e, d') \<Rightarrow> (if e = ErrStaleReply then Inr () else Inl e, d')
      | (Inr _, d') \<Rightarrow> (Inr (), d'))"

section \<open>What every requeue does\<close>

definition ended_for_good :: "doc \<Rightarrow> bool" where
  "ended_for_good row \<longleftrightarrow>
     rowState row \<in> {stateStopped, stateAbandoned}
     \<or> rowState row \<in> {stateQueued, statePlanned, stateClaimed} \<and> hasEnded row"

lemma requeueState_Inr:
  "requeueState row = Inr state \<Longrightarrow> ended_for_good row \<and> state \<in> {stateQueued, statePlanned}"
  by (auto simp: requeueState_def ended_for_good_def rowState_def Let_def split: if_splits)

lemma requeueState_iff: "(\<exists>state. requeueState row = Inr state) \<longleftrightarrow> ended_for_good row"
  by (auto simp: requeueState_def ended_for_good_def rowState_def Let_def)

text \<open>The fields a requeue's own updates write, which a decider may not.\<close>

definition requeue_owned :: "field set" where
  "requeue_owned = {stateField, attemptField, outcomeField, stopReasonField, queuedAtField, claimedAtField,
     abandonedAtField, cancelledByOwnerAtField, ticketClosedAtField, transientField, waitingOnField}"

text \<open>
  The state of the runs and of the ledger after a requeue of \<open>row\<close>; the archive apart.
\<close>

definition requeued_row :: "requeue_options \<Rightarrow> string \<Rightarrow> updates \<Rightarrow> doc \<Rightarrow> time \<Rightarrow> doc" where
  "requeued_row opts state extra row now =
     apply_updates (requeue_updates state (rowAttempt row + 1) now @ (if keepNote opts then [] else clearNote) @ extra) row"

lemma dropReservations_eq:
  "dropReservations (readLedger d) r a (put_row r row d') =
     (if reservedKeys (readLedger d) r a = [] then Inr (put_row r row d')
      else Inr (put_row r row (set_ledger (drop_keys (reservedKeys (readLedger d) r a) (readLedger d)) d')))"
  if "dbLedger d' = dbLedger d"
proof (cases "reservedKeys (readLedger d) r a")
  case (Cons key keys)
  then have "map_of (Reservations (readLedger d)) key \<noteq> None"
    using reservedKeys_held [of key "readLedger d" r a] by simp
  then have "dbLedger (put_row r row d') = Some (readLedger d)"
    using that held_ledger by simp
  then show ?thesis
    by (simp add: dropReservations_def Let_def update_ledger_def set_ledger_def put_row_def fun_eq_iff cong: if_cong)
qed (simp add: dropReservations_def)

locale requeue_decision =
  fixes decide :: decider
  assumes ended: "decide row attempt = Inr (state, extra) \<Longrightarrow> ended_for_good row"
    and returns: "decide row attempt = Inr (state, extra) \<Longrightarrow> state \<in> {stateQueued, statePlanned}"
    and extra_fields: "decide row attempt = Inr (state, extra) \<Longrightarrow> touches extra \<inter> requeue_owned = {}"
begin

lemma requeued_row_reads:
  assumes "decide row attempt = Inr (state, extra)"
  shows "rowState (requeued_row opts state extra row now) = state"
    and "rowAttempt (requeued_row opts state extra row now) = rowAttempt row + 1"
    and "\<not> hasEnded (requeued_row opts state extra row now)"
    and "time_of (requeued_row opts state extra row now) queuedAtField = now"
    and "requeued_row opts state extra row now claimedAtField = None"
    and "\<not> cancelledRow (requeued_row opts state extra row now)"
proof -
  let ?base = "requeue_updates state (rowAttempt row + 1) now @ (if keepNote opts then [] else clearNote)"
  have reads: "requeued_row opts state extra row now f = apply_updates ?base row f" if "f \<in> requeue_owned" for f
    using that extra_fields [OF assms] apply_updates_untouched [of f extra]
    by (auto simp: requeued_row_def apply_updates_append)
  show "rowState (requeued_row opts state extra row now) = state"
    "rowAttempt (requeued_row opts state extra row now) = rowAttempt row + 1"
    "\<not> hasEnded (requeued_row opts state extra row now)"
    "time_of (requeued_row opts state extra row now) queuedAtField = now"
    "requeued_row opts state extra row now claimedAtField = None"
    "\<not> cancelledRow (requeued_row opts state extra row now)"
    by (simp_all add: rowState_def rowAttempt_def hasEnded_def cancelledRow_def field_readers reads requeue_owned_def
        requeue_updates_def clearNote_def apply_updates_def)
qed

text \<open>A requeue that succeeds: the run had ended, and goes back as its next attempt, holding nothing.\<close>

lemma requeue_ok:
  assumes "requeue_body opts decide runID now d = Inr (res, d')"
  obtains row state extra where "runs d runID = Some row" "decide row (rowAttempt row + 1) = Inr (state, extra)"
    "res = \<lparr>resState = state, resAttempt = rowAttempt row + 1, resTicketState = str row ticketStateField\<rparr>"
    "runs d' = runs (put_row runID (requeued_row opts state extra row now) d)"
    "Reservations (readLedger d') = Reservations (drop_keys (reservedKeys (readLedger d) runID (rowAttempt row)) (readLedger d))"
    "rejected d' = rejected d" "notices d' = notices d"
    "attempts d' = (if archive opts
       then attempts (archive_attempt runID row (rowAttempt row + 1) now d) else attempts d)"
proof -
  from assms obtain row where row: "runs d runID = Some row"
    by (auto simp: requeue_body_def split: option.splits)
  from assms row obtain state extra where dec: "decide row (rowAttempt row + 1) = Inr (state, extra)"
    by (auto simp: requeue_body_def Let_def and_then_Inr)
  let ?d1 = "if archive opts then archive_attempt runID row (rowAttempt row + 1) now d else d"
  have d1: "runs ?d1 = runs d" "dbLedger ?d1 = dbLedger d" "rejected ?d1 = rejected d" "notices ?d1 = notices d"
    by (simp_all add: archive_attempt_def)
  have drop: "dropReservations (readLedger d) runID (rowAttempt row) (put_row runID (requeued_row opts state extra row now) ?d1)
      = Inr d'"
    and res: "res = \<lparr>resState = state, resAttempt = rowAttempt row + 1, resTicketState = str row ticketStateField\<rparr>"
    using assms row dec d1(1) by (auto simp: requeue_body_def Let_def and_then_Inr requeued_row_def update_row_Inr)
  have nil: "drop_keys [] l = l" for l by (simp add: drop_keys_def)
  have led: "readLedger ?d1 = readLedger d" using d1(2) by (simp add: readLedger_def)
  show ?thesis
  proof (rule that [OF row dec res])
    show "runs d' = runs (put_row runID (requeued_row opts state extra row now) d)"
      using drop d1(1) unfolding dropReservations_eq [OF d1(2)] by (auto simp: fun_eq_iff split: if_splits)
    show "Reservations (readLedger d') = Reservations (drop_keys (reservedKeys (readLedger d) runID (rowAttempt row)) (readLedger d))"
      using drop led unfolding dropReservations_eq [OF d1(2)] by (auto simp: nil split: if_splits)
    show "rejected d' = rejected d" "notices d' = notices d"
      using drop d1 unfolding dropReservations_eq [OF d1(2)] by (auto split: if_splits)
    show "attempts d' = (if archive opts then attempts (archive_attempt runID row (rowAttempt row + 1) now d) else attempts d)"
      using drop unfolding dropReservations_eq [OF d1(2)] by (auto split: if_splits)
  qed
qed

lemma requeue_leaves:
  assumes inv: "ledger_inv d" and "requeue_body opts decide runID now d = Inr (res, d')"
  shows "ledger_inv d'" and "holds_none d' runID"
proof -
  from assms(2) obtain row state extra where row: "runs d runID = Some row"
    and d': "runs d' = runs (put_row runID (requeued_row opts state extra row now) d)"
      "Reservations (readLedger d') = Reservations (drop_keys (reservedKeys (readLedger d) runID (rowAttempt row)) (readLedger d))"
    by (rule requeue_ok)
  let ?e = "set_ledger (drop_keys (reservedKeys (readLedger d) runID (rowAttempt row)) (readLedger d)) d"
  have "ledger_inv (put_row runID (requeued_row opts state extra row now) ?e)"
    using put_row_unreserved [OF drop_reserved [OF inv row] ledger_invD(2) [OF inv row]] .
  moreover have "runs d' = runs (put_row runID (requeued_row opts state extra row now) ?e)"
    using d'(1) by (simp add: fun_eq_iff)
  moreover have "Reservations (readLedger d') = Reservations (readLedger (put_row runID (requeued_row opts state extra row now) ?e))"
    using d'(2) by simp
  ultimately show "ledger_inv d'" using ledger_inv_cong by blast
  show "holds_none d' runID"
    using drop_reserved(2) [OF inv row] d'(2) holds_none_cong [of d' ?e] by simp
qed

lemma requeue_keeps: "ledger_inv d \<Longrightarrow> ledger_inv (snd (requeue fault opts decide runID now d))"
  unfolding requeue_def by (rule transaction_keeps) (blast intro: requeue_leaves(1))+

lemma requeue_refuses_live:
  assumes "runs d runID = Some row" and "\<not> ended_for_good row"
  shows "\<exists>e. requeue fault opts decide runID now d = (Inl e, d)"
proof (cases "requeue_body opts decide runID now d")
  case (Inr p)
  then have "requeue_body opts decide runID now d = Inr (fst p, snd p)" by simp
  then obtain row' state extra where "runs d runID = Some row'" "decide row' (rowAttempt row' + 1) = Inr (state, extra)"
    by (rule requeue_ok)
  with assms ended show ?thesis by auto
next
  case (Inl e)
  then show ?thesis by (cases fault) (auto simp: requeue_def run_transaction_def)
qed

end

section \<open>The five deciders\<close>

interpretation plain: requeue_decision Requeue_decide
  by unfold_locales
    (auto simp: Requeue_decide_def and_then_Inr dest!: requeueState_Inr)

lemma supersedeUpdates_touches: "touches (supersedeUpdates row attempt pr byRetry) \<inter> requeue_owned = {}"
  by (simp add: supersedeUpdates_def requeue_owned_def)

interpretation conflict: requeue_decision "RequeueAfterConflict_decide maxAttempts" for maxAttempts
  by unfold_locales
    (auto simp: RequeueAfterConflict_decide_def and_then_Inr requeue_owned_def split: if_splits dest!: requeueState_Inr)

interpretation transient: requeue_decision "RequeueTransient_decide cls limit now" for cls limit now
  by unfold_locales
    (auto simp: RequeueTransient_decide_def and_then_Inr requeue_owned_def Let_def split: if_splits dest!: requeueState_Inr)

lemma RetryWithNote_decide_Inr:
  assumes "RetryWithNote_decide req row attempt = Inr (state, extra)"
  shows "rowAttempt row = ExpectedAttempt req" "\<not> mergedRow row" "\<not> cancelledRow row"
    "str row outcomeField \<noteq> OutcomeNoChanges" "rowState row \<noteq> stateAbandoned" "ended_for_good row" "state = stateQueued"
    "extra = [(operatorNoteField, Put (VStr (Note req))), (operatorAssistedField, Put (VBool True)),
       (retriedByField, Put (VStr (Actor req)))] @ supersedeUpdates row attempt (SupersedePR req) True"
  using assms
  by (auto simp: RetryWithNote_decide_def and_then_Inr rowState_def split: if_splits dest!: requeueState_Inr)

interpretation retry: requeue_decision "RetryWithNote_decide req" for req
proof unfold_locales
  fix row attempt state extra assume dec: "RetryWithNote_decide req row attempt = Inr (state, extra)"
  note ok = RetryWithNote_decide_Inr [OF dec]
  show "ended_for_good row" "state \<in> {stateQueued, statePlanned}" using ok by simp_all
  show "touches extra \<inter> requeue_owned = {}"
    unfolding ok(8) using supersedeUpdates_touches by (simp add: Int_Un_distrib2) (simp add: requeue_owned_def)
qed

lemma Supersede_decide_Inr:
  assumes "Supersede_decide index replied ans row attempt = Inr (state, extra)"
  shows "ended_for_good row" "rowState row \<noteq> stateAbandoned" "state = stateQueued"
    "touches extra \<inter> requeue_owned = {}"
proof -
  from assms have st: "str row stateField \<noteq> stateAbandoned"
    by (auto simp: Supersede_decide_def)
  then show "rowState row \<noteq> stateAbandoned" by (simp add: rowState_def)
  from assms st obtain st' where ended: "requeueState row = Inr st'"
    by (cases "requeueState row") (auto simp: Supersede_decide_def split: store_err.splits)
  then show "ended_for_good row" using requeueState_Inr by blast
  show "state = stateQueued"
    using assms st ended by (auto simp: Supersede_decide_def Let_def split: if_splits)
  show "touches extra \<inter> requeue_owned = {}"
    using assms st ended by (auto simp: Supersede_decide_def Let_def supersedeUpdates_def requeue_owned_def split: if_splits)
qed

interpretation supersede: requeue_decision "Supersede_decide index replied ans" for index replied ans
  by unfold_locales (auto dest: Supersede_decide_Inr(1,3,4))

section \<open>The requeues keep the ledger consistent\<close>

interpretation requeue_op: keeps_ledger "Requeue fault runID now" for fault runID now
  by unfold_locales (simp add: Requeue_def plain.requeue_keeps)

interpretation requeue_conflict: keeps_ledger "RequeueAfterConflict fault runID now maxAttempts"
  for fault runID now maxAttempts
  by unfold_locales (simp add: RequeueAfterConflict_def conflict.requeue_keeps)

interpretation requeue_transient: keeps_ledger "RequeueTransient fault runID now cls limit"
  for fault runID now cls limit
  by unfold_locales (simp add: RequeueTransient_def transient.requeue_keeps)

lemma RetryWithNote_db:
  "snd (RetryWithNote fault runID req now d) = d \<or>
   snd (RetryWithNote fault runID req now d) =
     snd (requeue fault \<lparr>keepNote = True, archive = True\<rparr> (RetryWithNote_decide req) runID now d)"
  by (auto simp: RetryWithNote_def split: prod.splits sum.splits)

interpretation retry_op: keeps_ledger "RetryWithNote fault runID req now" for fault runID req now
proof unfold_locales
  fix d assume "ledger_inv d"
  then show "ledger_inv (snd (RetryWithNote fault runID req now d))"
    using RetryWithNote_db [of fault runID req now d] retry.requeue_keeps [of d fault] by metis
qed

lemma Supersede_db:
  "snd (Supersede fault runID index replied ans now d) =
     snd (requeue fault \<lparr>keepNote = False, archive = False\<rparr> (Supersede_decide index replied ans) runID now d)"
  by (auto simp: Supersede_def split: prod.splits sum.splits)

interpretation supersede_op: keeps_ledger "Supersede fault runID index replied ans now"
  for fault runID index replied ans now
  by unfold_locales (simp add: Supersede_db supersede.requeue_keeps)

end
