(* ===== verification/Run_Rows.thy ===== *)
theory Run_Rows
  imports Requeue
begin

text \<open>
  What the store reads off one run row: whether it finished, stopped for the owner or will be
  requeued by itself, and the entries its listings build (\<open>internal/store/stuck.go\<close>,
  \<open>inbox.go\<close>, \<open>history.go\<close>, \<open>checks.go\<close>, \<open>holds.go\<close>, \<open>ticket_closed.go\<close> and the listings of
  \<open>queue.go\<close>), with the transient classes of \<open>internal/runner/transient.go\<close>. A Firestore query
  is a parameter: the rows it returns, in its order.
\<close>

section \<open>Transient faults\<close>

definition TransientModuleProxy :: string where "TransientModuleProxy = ''module-proxy''"
definition TransientNetwork :: string where "TransientNetwork = ''network-timeout''"
definition TransientLostRunner :: string where "TransientLostRunner = ''lost-runner''"

definition transientSignatures :: "(string \<times> string list) list" where
  "transientSignatures = [
     (TransientModuleProxy, [''proxy.golang.org'', ''sum.golang.org'']),
     (TransientNetwork, [''i/o timeout'', ''connection timed out'', ''tls handshake timeout'',
        ''connection reset by peer'', ''temporary failure in name resolution'', ''could not resolve host'',
        ''no such host'', ''network is unreachable'', ''unexpected eof'']),
     (TransientLostRunner, [''the runner has received a shutdown signal'', ''lost communication with the server''])]"

text \<open>\<open>ClassifyTransient\<close>: the first class in the list one of whose markers the lower-cased log holds.\<close>

fun classify_in :: "(string \<times> string list) list \<Rightarrow> string \<Rightarrow> string" where
  "classify_in [] words = []"
| "classify_in ((cls, markers) # sigs) words =
     (if list_ex (\<lambda>m. contains words m) markers then cls else classify_in sigs words)"

definition ClassifyTransient :: "string \<Rightarrow> string" where
  "ClassifyTransient stepLog = classify_in transientSignatures (to_lower stepLog)"

definition Listed :: "string \<Rightarrow> bool" where
  "Listed c \<longleftrightarrow> list_ex (\<lambda>sig. fst sig = c) transientSignatures"

definition TransientClasses :: "string list" where
  "TransientClasses = map fst transientSignatures"

definition DefaultTransientRequeues :: int where "DefaultTransientRequeues = 2"

section \<open>How a run ended\<close>

definition OutcomeBuilt :: string where "OutcomeBuilt = ''built''"
definition OutcomeAgentFailed :: string where "OutcomeAgentFailed = ''agent-failed''"
definition OutcomeBudgetStop :: string where "OutcomeBudgetStop = ''budget-stop''"

definition noPROutcomes :: "string list" where
  "noPROutcomes = [OutcomeBuilt, OutcomeNoChanges, OutcomeStopped, OutcomeAgentFailed, OutcomeInfraFailure, OutcomeBudgetStop]"

definition finishedClaim :: "doc \<Rightarrow> (string \<times> time) option" where
  "finishedClaim row =
     (if str row stateField \<noteq> stateClaimed \<or> str row prURLField \<noteq> [] \<or> str row outcomeField \<notin> set noPROutcomes
      then None
      else if time_of row claimedAtField > time_of row settledAtField then None
      else Some (if str row stopReasonField = [] then str row outcomeField else str row stopReasonField,
                 time_of row settledAtField))"

definition requeueDue :: "doc \<Rightarrow> bool" where
  "requeueDue row \<longleftrightarrow> Listed (str row transientField) \<and> int (length (transientRequeues row)) < DefaultTransientRequeues"

definition stoppedRun :: "doc \<Rightarrow> bool" where
  "stoppedRun row \<longleftrightarrow>
     (if finishedClaim row = None \<and> str row stateField \<noteq> stateStopped then False
      else str row outcomeField \<noteq> OutcomeNoChanges \<and> \<not> mergedRow row \<and> \<not> requeueDue row)"

definition ticketClosedRow :: "doc \<Rightarrow> bool" where
  "ticketClosedRow row \<longleftrightarrow> \<not> is_zero (time_of row ticketClosedAtField)"

definition settledMerged :: "doc \<Rightarrow> bool" where
  "settledMerged row \<longleftrightarrow>
     (case row rewriteMergedAtField of Some (VTime _) \<Rightarrow> True | _ \<Rightarrow> False) \<or> \<not> is_zero (time_of row mergedByOwnerAtField)"

definition retriedAwaitingClaim :: "doc \<Rightarrow> bool" where
  "retriedAwaitingClaim row \<longleftrightarrow> str row retriedByField \<noteq> [] \<and> str row stateField \<in> set candidateStates"

section \<open>Entries of the listings\<close>

definition heldOn :: "doc \<Rightarrow> (string \<times> string list) list" where
  "heldOn row = filter (\<lambda>(_, reasons). reasons \<noteq> [])
     (map (\<lambda>(day, v). (day, case v of VList vs \<Rightarrow> strings_in vs | _ \<Rightarrow> [])) (map_field row heldOnField))"

record run_candidate =
  candRunID :: string
  candRepo :: string
  candSize :: string
  candPrivate :: bool
  candPriority :: int
  candModel :: string
  candReviewModel :: string
  candPlanModels :: "string list"
  candModelsNamed :: bool
  candStage :: string
  candPlanFiles :: "string list"
  candPlan :: string
  candAttempt :: int
  candHeld :: "(string \<times> string list) list"
  candSupersededPR :: int

definition candidate_of :: "string \<Rightarrow> doc \<Rightarrow> run_candidate" where
  "candidate_of runID row =
     (let named = modelLabelsOf row; n = int_of row supersededPRField in
      \<lparr>candRunID = runID, candRepo = str row repoField, candSize = str row sizeField,
       candPrivate = (case row privateField of None \<Rightarrow> True | Some _ \<Rightarrow> bool_of row privateField),
       candPriority = int_of row priorityField, candModel = buildModel row,
       candReviewModel = labelReview named, candPlanModels = labelPlan named,
       candModelsNamed = (labelBuild named \<noteq> [] \<or> labelReview named \<noteq> [] \<or> labelPlan named \<noteq> []),
       candStage = (if str row stateField = statePlanned then StageBuild else []),
       candPlanFiles = stringList row planFilesField, candPlan = str row planField,
       candAttempt = rowAttempt row, candHeld = heldOn row, candSupersededPR = (if n > 0 then n else 0)\<rparr>)"

definition Candidates :: "store_err + (string \<times> doc) list \<Rightarrow> store_err + run_candidate list" where
  "Candidates listed = and_then listed (\<lambda>snaps. Inr (map (\<lambda>(runID, row). candidate_of runID row) snaps))"

definition Planned :: "store_err + (string \<times> doc) list \<Rightarrow> store_err + in_flight list" where
  "Planned listed = and_then listed (\<lambda>snaps. Inr (map (\<lambda>(_, row).
       \<lparr>flightTicket = str row ticketIDField, flightRepo = str row repoField, flightSize = str row sizeField,
        flightFiles = stringList row planFilesField, flightStage = []\<rparr>)
     (filter (\<lambda>(_, row). stringList row planFilesField \<noteq> [] \<and> \<not> settled_row row) snaps)))"

record running =
  runningTicket :: string
  runningRepo :: string
  runningRunID :: string
  runningAttempt :: int
  runningStage :: string
  runningClaimedAt :: time
  runningTitle :: string

definition Running :: "db \<Rightarrow> running list" where
  "Running d = map (\<lambda>(key, r).
     \<lparr>runningTicket = entryTicketID r, runningRepo = entryRepo r, runningRunID = reservationRunID key,
      runningAttempt = entryAttempt r, runningStage = entryStage r, runningClaimedAt = ClaimedAt r,
      runningTitle = (case runs d (reservationRunID key) of None \<Rightarrow> [] | Some row \<Rightarrow> str row ticketTitleField)\<rparr>)
     (Reservations (readLedger d))"

text \<open>\<open>RepoLoads\<close> over the queued rows its query returns: per lower-cased repository, in flight and held.\<close>

definition add_held :: "(string \<times> int \<times> int) list \<Rightarrow> string \<Rightarrow> (string \<times> int \<times> int) list" where
  "add_held loads repo =
     (case (case map_of loads repo of None \<Rightarrow> (0, 0) | Some l \<Rightarrow> l) of
        (inflight, waiting) \<Rightarrow> AList.update repo (inflight, waiting + 1) loads)"

definition RepoLoads :: "store_err + (string \<times> doc) list \<Rightarrow> db \<Rightarrow> store_err + (string \<times> int \<times> int) list" where
  "RepoLoads queued d = and_then queued (\<lambda>snaps.
     Inr (foldl (\<lambda>loads snap. add_held loads (to_lower (str (snd snap) repoField)))
       (map (\<lambda>(repo, n). (repo, n, 0)) (inFlightByRepo (readLedger d))) snaps))"

record ticket_run =
  runEnded :: bool
  runQueued :: bool
  runStage :: string

definition PhaseStagePlanning :: string where "PhaseStagePlanning = ''planning''"
definition PhaseStageBuilding :: string where "PhaseStageBuilding = ''building''"

definition PhaseStage :: "string \<Rightarrow> string" where
  "PhaseStage stage = (if stage = StagePlan then PhaseStagePlanning else PhaseStageBuilding)"

definition ticket_run_of :: "(string \<times> string) list \<Rightarrow> string \<Rightarrow> doc \<Rightarrow> ticket_run" where
  "ticket_run_of stages runID row =
     (let over = (case requeueState row of Inl _ \<Rightarrow> False | Inr _ \<Rightarrow> True) in
      \<lparr>runEnded = over, runQueued = (\<not> over \<and> str row stateField \<in> set candidateStates),
       runStage = (case map_of stages runID of None \<Rightarrow> [] | Some s \<Rightarrow> s)\<rparr>)"

definition TicketRuns :: "string list \<Rightarrow> db \<Rightarrow> (string \<times> ticket_run) list" where
  "TicketRuns tickets d =
     (let stages = foldl (\<lambda>m run. AList.update (flightTicket run) (PhaseStage (flightStage run)) m) [] (inFlight (readLedger d)) in
      foldl (\<lambda>out t. case runs d t of None \<Rightarrow> out | Some row \<Rightarrow> AList.update t (ticket_run_of stages t row) out) [] tickets)"

record transient_stop =
  tsRunID :: string
  tsTicket :: string
  tsRepo :: string
  tsClass :: string
  tsAttempts :: int

text \<open>\<open>TransientStops\<close>: \<open>listing cls\<close> is the query of one class.\<close>

definition TransientStops :: "(string \<Rightarrow> store_err + (string \<times> doc) list) \<Rightarrow> store_err + transient_stop list" where
  "TransientStops listing = foldl (\<lambda>acc cls.
     and_then acc (\<lambda>out. and_then (listing cls) (\<lambda>snaps. Inr (out @
       map (\<lambda>(runID, row). \<lparr>tsRunID = runID, tsTicket = str row ticketIDField, tsRepo = str row repoField,
                          tsClass = cls, tsAttempts = int (length (transientRequeues row))\<rparr>)
         (filter (\<lambda>(_, row). \<not> cancelledRow row) snaps))))) (Inr []) TransientClasses"

record inbox_run =
  inboxRunID :: string
  inboxTicket :: string
  inboxRepo :: string
  inboxSize :: string
  inboxPRURL :: string
  inboxWaitReason :: string
  inboxAttempt :: int
  inboxOutcome :: string
  inboxStopReason :: string
  inboxStopped :: bool
  inboxTitle :: string
  inboxStopDetail :: string
  inboxUpdatedAt :: time

definition inboxRun :: "string \<Rightarrow> doc \<Rightarrow> inbox_run \<times> bool" where
  "inboxRun runID row =
     (let run = \<lparr>inboxRunID = runID, inboxTicket = str row ticketIDField, inboxRepo = str row repoField,
            inboxSize = str row sizeField, inboxPRURL = str row prURLField, inboxWaitReason = str row waitReasonField,
            inboxAttempt = rowAttempt row, inboxOutcome = str row outcomeField, inboxStopReason = str row stopReasonField,
            inboxStopped = False, inboxTitle = [], inboxStopDetail = [], inboxUpdatedAt = time_of row updatedAtField\<rparr>
      in if cancelledRow row \<or> ticketClosedRow row then (run, False)
         else if stoppedRun row
         then (run\<lparr>inboxStopped := True, inboxTitle := str row ticketTitleField, inboxStopDetail := str row stopDetailField\<rparr>, True)
         else (run, str row prURLField \<noteq> [] \<and> str row outcomeField = OutcomePROpened \<and> \<not> mergedRow row
                    \<and> (str row waitReasonField \<noteq> [] \<or> \<not> bool_of row autoMergeField)))"

text \<open>\<open>Inbox\<close>: the rows are read, newest first, until the limit is met.\<close>

fun inbox_of :: "(string \<times> doc) list \<Rightarrow> nat \<Rightarrow> inbox_run list" where
  "inbox_of [] limit = []"
| "inbox_of ((runID, row) # snaps) limit =
     (if limit = 0 then []
      else case inboxRun runID row of
             (run, True) \<Rightarrow> run # inbox_of snaps (limit - 1)
           | (_, False) \<Rightarrow> inbox_of snaps limit)"

record settled_run =
  srRun :: string
  srTicket :: string
  srRepo :: string
  srOutcome :: string
  srStopReason :: string
  srWaitReason :: string
  srMerged :: bool
  srCancelled :: bool
  srSettledAt :: time

definition historyRun :: "string \<Rightarrow> doc \<Rightarrow> settled_run" where
  "historyRun runID row = \<lparr>srRun = runID, srTicket = str row ticketIDField, srRepo = str row repoField,
     srOutcome = str row outcomeField, srStopReason = str row stopReasonField, srWaitReason = str row waitReasonField,
     srMerged = settledMerged row, srCancelled = (\<not> is_zero (time_of row cancelledByOwnerAtField)),
     srSettledAt = time_of row settledAtField\<rparr>"

section \<open>Stuck runs\<close>

record stuck =
  stuckRunID :: string
  stuckTicket :: string
  stuckState :: string
  stuckReason :: string

definition StuckQueued :: string where "StuckQueued = ''queued''"
definition StuckPlanned :: string where "StuckPlanned = ''planned''"
definition StuckStopped :: string where "StuckStopped = ''stopped''"
definition StuckAbandoned :: string where "StuckAbandoned = ''abandoned''"

definition stuck_waiting :: "time \<Rightarrow> string \<times> doc \<Rightarrow> stuck list" where
  "stuck_waiting before snap = (case snap of (runID, row) \<Rightarrow>
     if is_zero (time_of row queuedAtField) \<or> \<not> time_of row queuedAtField < before then []
     else [\<lparr>stuckRunID = runID, stuckTicket = str row ticketIDField,
            stuckState = (if str row stateField = statePlanned then StuckPlanned else StuckQueued),
            stuckReason = str row waitingOnField\<rparr>])"

definition stuck_ended_at :: "time \<Rightarrow> time \<Rightarrow> string \<Rightarrow> doc \<Rightarrow> string \<Rightarrow> string \<Rightarrow> time \<Rightarrow> stuck list" where
  "stuck_ended_at before since runID row state reason now =
     (if \<not> is_zero now \<and> \<not> now < since \<and> now < before
      then [\<lparr>stuckRunID = runID, stuckTicket = str row ticketIDField, stuckState = state, stuckReason = reason\<rparr>] else [])"

definition stuck_finished :: "time \<Rightarrow> time \<Rightarrow> string \<times> doc \<Rightarrow> stuck list" where
  "stuck_finished before since snap = (case snap of (runID, row) \<Rightarrow>
     (case finishedClaim row of
        None \<Rightarrow> []
      | Some (reason, settledAt) \<Rightarrow>
        if cancelledRow row then [] else stuck_ended_at before since runID row StuckStopped reason settledAt))"

definition first_time :: "doc \<Rightarrow> field list \<Rightarrow> time" where
  "first_time row fs = (case find (\<lambda>t. \<not> is_zero t) (map (time_of row) fs) of None \<Rightarrow> 0 | Some t \<Rightarrow> t)"

definition stuck_ended :: "time \<Rightarrow> time \<Rightarrow> string \<times> doc \<Rightarrow> stuck list" where
  "stuck_ended before since snap = (case snap of (runID, row) \<Rightarrow>
     if cancelledRow row then []
     else (case (if str row stateField = stateAbandoned then (StuckAbandoned, str row abandonedReasonField)
                 else (StuckStopped, str row stopReasonField)) of
             (state, reason) \<Rightarrow> stuck_ended_at before since runID row state reason
               (first_time row [abandonedAtField, settledAtField, updatedAtField])))"

definition StuckRuns ::
  "store_err + (string \<times> doc) list \<Rightarrow> store_err + (string \<times> doc) list \<Rightarrow> store_err + (string \<times> doc) list \<Rightarrow>
   time \<Rightarrow> time \<Rightarrow> store_err + stuck list" where
  "StuckRuns waiting finished ended before since =
     and_then waiting (\<lambda>ws. and_then finished (\<lambda>fs. and_then ended (\<lambda>es.
       Inr (concat (map (stuck_waiting before) ws) @ concat (map (stuck_finished before since) fs)
            @ concat (map (stuck_ended before since) es)))))"

section \<open>Concurrency statistics\<close>

definition count_reasons :: "(string \<times> int) list \<Rightarrow> string list \<Rightarrow> (string \<times> int) list" where
  "count_reasons counts reasons = foldl (\<lambda>m r. AList.update r ((case map_of m r of None \<Rightarrow> 0 | Some n \<Rightarrow> n) + 1) m) counts reasons"

text \<open>
  \<open>ConcurrencyStats\<close> over the two listings of the window: the peak of the claims, and the holds of
  each reason on the days from \<open>first\<close> on. Days are \<open>YYYY-MM-DD\<close> strings, compared as Go compares
  strings; the comparison is a parameter.
\<close>

definition stats_peak :: "(string \<times> doc) list \<Rightarrow> int" where
  "stats_peak claimed = foldl (\<lambda>peak snap. let n = int_of (snd snap) claimConcurrencyField in if n > peak then n else peak) 0 claimed"

definition stats_held :: "(string \<Rightarrow> bool) \<Rightarrow> (string \<times> doc) list \<Rightarrow> (string \<times> int) list" where
  "stats_held before_first hold_rows = foldl (\<lambda>counts snap.
     foldl (\<lambda>counts day. if before_first (fst day) then counts else count_reasons counts (snd day)) counts (heldOn (snd snap)))
     [] hold_rows"

section \<open>What the readers agree on\<close>

lemma settledMerged_mergedRow: "settledMerged row = mergedRow row"
  by (auto simp: settledMerged_def mergedRow_def split: option.splits goval.splits)

text \<open>A run the inbox lists as stopped can be requeued; the fault classes are the listed ones.\<close>

lemma noPR_nonempty: "r \<in> set noPROutcomes \<Longrightarrow> r \<noteq> []"
  by (auto simp: noPROutcomes_def OutcomeBuilt_def OutcomeNoChanges_def OutcomeStopped_def OutcomeAgentFailed_def
      OutcomeInfraFailure_def OutcomeBudgetStop_def)

lemma stoppedRun_ended: "stoppedRun row \<Longrightarrow> ended_for_good row"
  using noPR_nonempty by (auto simp: stoppedRun_def finishedClaim_def ended_for_good_def rowState_def hasEnded_def split: if_splits)

lemma inbox_length: "length (inbox_of snaps limit) \<le> limit"
proof (induction snaps arbitrary: limit)
  case (Cons s snaps)
  show ?case
    using Cons [of limit] Cons [of "limit - 1"] by (cases s; cases limit) (auto split: prod.splits bool.splits)
qed simp

lemma classify_in_cases: "classify_in sigs words = [] \<or>
    (\<exists>markers m. (classify_in sigs words, markers) \<in> set sigs \<and> m \<in> set markers \<and> contains words m)"
  by (induction sigs words rule: classify_in.induct) (auto simp: list_ex_iff)

lemma ClassifyTransient_listed: "ClassifyTransient words \<noteq> [] \<Longrightarrow> Listed (ClassifyTransient words)"
  using classify_in_cases [of transientSignatures "to_lower words"]
  by (auto simp: ClassifyTransient_def Listed_def list_ex_iff intro: rev_bexI)

end
