(* ===== verification/Queue_Admin.thy ===== *)
theory Queue_Admin
  imports Run_Rows "HOL-Library.List_Lexorder" "HOL-Library.Char_ord" "HOL-Library.Multiset"
begin

text \<open>
  The writes to one run row beside its claim: enqueuing a ticket and keeping its queued row in step
  with Linear (\<open>internal/store/queue.go\<close>), the updates of a retry awaiting its claim
  (\<open>retry.go\<close>), the record's own writes (\<open>firestore.go\<close>), checks (\<open>checks.go\<close>), holds
  (\<open>holds.go\<close>) and closed tickets (\<open>ticket_closed.go\<close>). A row's document names here the fields the
  store reads; the rest of \<open>runner.Record\<close> (steps, tokens, cache and the like) is carried but never
  consulted by it.
\<close>

section \<open>Tickets and records\<close>

record ticket =
  tkID :: string
  tkTitle :: string
  tkBody :: string
  tkSize :: string
  tkSizedBy :: string
  tkFrontEnd :: bool

record queued =
  qRunID :: string
  qTicket :: ticket
  qRepo :: string
  qPrivate :: bool
  qPriority :: int
  qBlockedBy :: "string list"
  qBlocks :: "string list"
  qModels :: model_labels
  qAt :: time

record run_record =
  recRunID :: string
  recTicket :: ticket
  recPrivate :: bool
  recVerdict :: string
  recModels :: model_labels
  recPlan :: string
  recSettledAt :: time
  recSettledCost :: int
  recSettledMinutes :: int
  recBuildOutcome :: string
  recOutcome :: string
  recStopReason :: string
  recStopDetail :: string
  recTransient :: string
  recPriorCost :: int
  recPriorMinutes :: int
  recAutoMerge :: bool
  recWaitReason :: string
  recMergedByOwnerAt :: time
  recMergedSHA :: string
  recCancelledAt :: time
  recCancelledBy :: string
  recDecisionMode :: string
  recPRURL :: string
  recStartedAt :: time
  recUpdatedAt :: time
  recRunURL :: string
  recSteps :: "(string \<times> goval) list list"
  recBranch :: string
  recBranches :: "string list"

definition no_labels :: model_labels where
  "no_labels = \<lparr>labelBuild = [], labelReview = [], labelPlan = []\<rparr>"

definition NewRecord :: "string \<Rightarrow> ticket \<Rightarrow> time \<Rightarrow> run_record" where
  "NewRecord runID t now = \<lparr>recRunID = runID, recTicket = t, recPrivate = False, recVerdict = [], recModels = no_labels,
     recPlan = [], recSettledAt = 0, recSettledCost = 0, recSettledMinutes = 0, recBuildOutcome = [], recOutcome = [],
     recStopReason = [], recStopDetail = [], recTransient = [], recPriorCost = 0, recPriorMinutes = 0,
     recAutoMerge = False, recWaitReason = [], recMergedByOwnerAt = 0, recMergedSHA = [], recCancelledAt = 0,
     recCancelledBy = [], recDecisionMode = [], recPRURL = [], recStartedAt = now, recUpdatedAt = 0, recRunURL = [],
     recSteps = [], recBranch = [], recBranches = []\<rparr>"

text \<open>
  \<open>fields\<close> of a record, for the fields the store's code reads or queries; each step is the map Firestore
  keeps of it, and a nil slice is written as null.
\<close>

definition slice :: "goval list \<Rightarrow> goval" where
  "slice vs = (if vs = [] then VNull else VList vs)"

definition record_fields :: "run_record \<Rightarrow> (field \<times> goval) list" where
  "record_fields r = [
     (runIDField, VStr (recRunID r)), (ticketIDField, VStr (tkID (recTicket r))),
     (ticketTitleField, VStr (tkTitle (recTicket r))), (ticketBodyField, VStr (tkBody (recTicket r))),
     (sizeField, VStr (tkSize (recTicket r))), (sizedByField, VStr (tkSizedBy (recTicket r))),
     (frontEndField, VBool (tkFrontEnd (recTicket r))), (privateField, VBool (recPrivate r)),
     (verdictField, VStr (recVerdict r)), (modelLabelsField, labels_val (recModels r)), (planField, VStr (recPlan r)),
     (settledAtField, VTime (recSettledAt r)), (settledProviderCostField, VInt (recSettledCost r)),
     (settledRunnerMinutesField, VInt (recSettledMinutes r)), (buildOutcomeField, VStr (recBuildOutcome r)),
     (outcomeField, VStr (recOutcome r)), (stopReasonField, VStr (recStopReason r)),
     (stopDetailField, VStr (recStopDetail r)), (transientField, VStr (recTransient r)),
     (priorSettledCostField, VInt (recPriorCost r)), (priorSettledMinutesField, VInt (recPriorMinutes r)),
     (autoMergeField, VBool (recAutoMerge r)), (waitReasonField, VStr (recWaitReason r)),
     (mergedByOwnerAtField, VTime (recMergedByOwnerAt r)), (mergedSHAField, VStr (recMergedSHA r)),
     (cancelledByOwnerAtField, VTime (recCancelledAt r)), (cancelledByField, VStr (recCancelledBy r)),
     (decisionModeField, VStr (recDecisionMode r)), (prURLField, VStr (recPRURL r)),
     (startedAtField, VTime (recStartedAt r)), (updatedAtField, VTime (recUpdatedAt r)), (runURLField, VStr (recRunURL r)),
     (stepsField, slice (map VMap (recSteps r))), (branchField, VStr (recBranch r)),
     (branchesField, slice (map VStr (recBranches r)))]"

definition put_fields :: "(field \<times> goval) list \<Rightarrow> updates" where
  "put_fields fs = map (\<lambda>(f, v). (f, Put v)) fs"

definition no_doc :: doc where
  "no_doc = (\<lambda>_. None)"

section \<open>Enqueuing\<close>

definition Exists :: "db \<Rightarrow> string \<Rightarrow> bool" where
  "Exists d runID \<longleftrightarrow> runs d runID \<noteq> None"

definition enqueue_data :: "queued \<Rightarrow> updates" where
  "enqueue_data run =
     (let rec = (NewRecord (qRunID run) (qTicket run) (qAt run))
            \<lparr>recPrivate := qPrivate run, recModels := qModels run, recUpdatedAt := qAt run\<rparr>
      in put_fields (record_fields rec)
         @ [(decisionModeField, Delete), (stateField, Put (VStr stateQueued)), (priorityField, Put (VInt (qPriority run))),
            (queuedAtField, Put (VTime (qAt run))), (repoField, Put (VStr (qRepo run)))]
         @ (if qBlockedBy run \<noteq> [] then [(blockedByField, Put (string_list (qBlockedBy run)))] else [])
         @ (if qBlocks run \<noteq> [] then [(blocksField, Put (string_list (qBlocks run)))] else []))"

definition Enqueue :: "store_err option \<Rightarrow> queued \<Rightarrow> db \<Rightarrow> (store_err + unit) \<times> db" where
  "Enqueue fault run d = run_transaction fault (\<lambda>d.
     case runs d (qRunID run) of
       Some _ \<Rightarrow> Inl ErrAlreadyQueued
     | None \<Rightarrow> Inr ((), (put_row (qRunID run) (apply_updates (enqueue_data run) no_doc) d)
         \<lparr>rejected := (\<lambda>t. if t = qRunID run then None else rejected d t)\<rparr>)) d"

definition Reject :: "store_err option \<Rightarrow> string \<Rightarrow> rejection \<Rightarrow> db \<Rightarrow> (store_err + unit) \<times> db" where
  "Reject fault ticketID r d = run_transaction fault (\<lambda>d.
     Inr ((), d\<lparr>rejected := (\<lambda>t. if t = ticketID then Some r else rejected d t)\<rparr>)) d"

section \<open>A queued row kept in step with its ticket\<close>

definition UpdateQueuedPriority_row :: "int \<Rightarrow> doc \<Rightarrow> store_err + bool \<times> updates" where
  "UpdateQueuedPriority_row rank row =
     (if str row stateField \<notin> set candidateStates then Inr (False, [])
      else if row priorityField = Some (VInt rank) then Inr (True, [])
      else Inr (True, [(priorityField, Put (VInt rank))]))"

definition UpdateQueuedPriority :: "store_err option \<Rightarrow> string \<Rightarrow> int \<Rightarrow> db \<Rightarrow> (store_err + bool) \<times> db" where
  "UpdateQueuedPriority fault runID rank d =
     run_transaction fault (on_row runID (Inr False) (UpdateQueuedPriority_row rank)) d"

definition sameMembers :: "string list \<Rightarrow> string list \<Rightarrow> bool" where
  "sameMembers a b \<longleftrightarrow> sort a = sort b"

definition set_field :: "field \<Rightarrow> bool \<Rightarrow> fval \<Rightarrow> updates" where
  "set_field f same v = (if \<not> same then [(f, v)] else [])"

definition set_list :: "doc \<Rightarrow> field \<Rightarrow> string list \<Rightarrow> updates" where
  "set_list row f want =
     set_field f (sameMembers (stringList row f) want) (if want = [] then Delete else Put (string_list want))"

definition refresh_updates :: "queued \<Rightarrow> doc \<Rightarrow> updates" where
  "refresh_updates run row =
     (let t = qTicket run in
      set_field ticketTitleField (str row ticketTitleField = tkTitle t) (Put (VStr (tkTitle t)))
      @ set_field ticketBodyField (str row ticketBodyField = tkBody t) (Put (VStr (tkBody t)))
      @ set_field sizeField (str row sizeField = tkSize t) (Put (VStr (tkSize t)))
      @ set_field sizedByField (str row sizedByField = tkSizedBy t) (Put (VStr (tkSizedBy t)))
      @ set_field frontEndField (bool_of row frontEndField = tkFrontEnd t) (Put (VBool (tkFrontEnd t)))
      @ set_list row blockedByField (qBlockedBy run)
      @ set_list row blocksField (qBlocks run))"

definition RefreshQueuedTicket_row :: "queued \<Rightarrow> doc \<Rightarrow> store_err + field list \<times> updates" where
  "RefreshQueuedTicket_row run row =
     (if str row stateField \<noteq> stateQueued \<or> stringList row planFilesField \<noteq> [] then Inr ([], [])
      else Inr (map fst (refresh_updates run row), refresh_updates run row))"

definition RefreshQueuedTicket :: "store_err option \<Rightarrow> queued \<Rightarrow> db \<Rightarrow> (store_err + field list) \<times> db" where
  "RefreshQueuedTicket fault run d =
     run_transaction fault (on_row (qRunID run) (Inr []) (RefreshQueuedTicket_row run)) d"

section \<open>Stamping rows written before \<open>queued_at\<close> existed\<close>

definition queuedAtSource :: "doc \<Rightarrow> time option" where
  "queuedAtSource row = find (\<lambda>t. \<not> is_zero t) (map (time_of row) [startedAtField, updatedAtField])"

definition stampQueuedAt_row :: "bool \<Rightarrow> doc \<Rightarrow> store_err + bool \<times> updates" where
  "stampQueuedAt_row dryRun row =
     (case queuedAtSource row of
        None \<Rightarrow> Inr (False, [])
      | Some t \<Rightarrow>
        if row queuedAtField \<noteq> None \<or> str row stateField \<notin> set candidateStates then Inr (False, [])
        else if dryRun then Inr (True, [])
        else Inr (True, [(queuedAtField, Put (VTime t))]))"

definition stampQueuedAt :: "store_err option \<Rightarrow> string \<Rightarrow> bool \<Rightarrow> db \<Rightarrow> (store_err + bool) \<times> db" where
  "stampQueuedAt fault runID dryRun d =
     run_transaction fault (on_row runID (Inr False) (stampQueuedAt_row dryRun)) d"

record backfill_result =
  Stamped :: nat
  Skipped :: nat

fun stamp_each ::
  "(string \<Rightarrow> store_err option) \<Rightarrow> bool \<Rightarrow> string list \<Rightarrow> backfill_result \<Rightarrow> db \<Rightarrow>
   (backfill_result \<times> store_err option) \<times> db" where
  "stamp_each faults dryRun [] res d = ((res, None), d)"
| "stamp_each faults dryRun (r # rs) res d =
     (case stampQueuedAt (faults r) r dryRun d of
        (Inl e, d') \<Rightarrow> ((res, Some e), d')
      | (Inr stamped, d') \<Rightarrow> stamp_each faults dryRun rs
          (if stamped then res\<lparr>Stamped := Stamped res + 1\<rparr> else res\<lparr>Skipped := Skipped res + 1\<rparr>) d')"

text \<open>\<open>listing\<close> is the query of the queued and planned rows.\<close>

definition unstampedRefs :: "(db \<Rightarrow> store_err + (string \<times> doc) list) \<Rightarrow> db \<Rightarrow> store_err + string list" where
  "unstampedRefs listing d =
     and_then (listing d) (\<lambda>snaps. Inr (map fst (filter (\<lambda>(_, row). row queuedAtField = None) snaps)))"

definition BackfillQueuedAt ::
  "(string \<Rightarrow> store_err option) \<Rightarrow> (db \<Rightarrow> store_err + (string \<times> doc) list) \<Rightarrow> bool \<Rightarrow> db \<Rightarrow>
   (backfill_result \<times> store_err option) \<times> db" where
  "BackfillQueuedAt faults listing dryRun d =
     (case unstampedRefs listing d of
        Inl e \<Rightarrow> ((\<lparr>Stamped = 0, Skipped = 0\<rparr>, Some e), d)
      | Inr rs \<Rightarrow> stamp_each faults dryRun rs \<lparr>Stamped = 0, Skipped = 0\<rparr> d)"

section \<open>Retries awaiting their claim\<close>

definition updateRetried_row :: "(doc \<Rightarrow> updates) \<Rightarrow> doc \<Rightarrow> store_err + bool \<times> updates" where
  "updateRetried_row decide row =
     (if \<not> retriedAwaitingClaim row then Inr (False, []) else Inr (decide row \<noteq> [], decide row))"

definition updateRetried :: "store_err option \<Rightarrow> string \<Rightarrow> (doc \<Rightarrow> updates) \<Rightarrow> db \<Rightarrow> (store_err + bool) \<times> db" where
  "updateRetried fault runID decide d =
     run_transaction fault (on_row runID (Inr False) (updateRetried_row decide)) d"

definition sameModels :: "model_labels \<Rightarrow> model_labels \<Rightarrow> bool" where
  "sameModels a b \<longleftrightarrow> labelBuild a = labelBuild b \<and> labelReview a = labelReview b \<and> labelPlan a = labelPlan b"

definition RefreshRetriedModels_row :: "model_labels \<Rightarrow> doc \<Rightarrow> updates" where
  "RefreshRetriedModels_row m row =
     (if sameModels (modelLabelsOf row) m then [] else [(modelLabelsField, Put (labels_val m))])"

definition RefreshRetriedModels :: "store_err option \<Rightarrow> string \<Rightarrow> model_labels \<Rightarrow> db \<Rightarrow> (store_err + bool) \<times> db" where
  "RefreshRetriedModels fault runID m d = updateRetried fault runID (RefreshRetriedModels_row m) d"

definition StopRetried :: "store_err option \<Rightarrow> string \<Rightarrow> string \<Rightarrow> string \<Rightarrow> time \<Rightarrow> db \<Rightarrow> (store_err + bool) \<times> db" where
  "StopRetried fault runID reason detail now d = updateRetried fault runID (\<lambda>_. stop_updates reason detail now) d"

section \<open>Single writes\<close>

text \<open>A plain \<open>Update\<close> of a row: an absent run is an error.\<close>

definition write_row :: "store_err option \<Rightarrow> string \<Rightarrow> updates \<Rightarrow> db \<Rightarrow> (store_err + unit) \<times> db" where
  "write_row fault runID us d = run_transaction fault (on_row runID (Inl NotFound) (\<lambda>_. Inr ((), us))) d"

definition RecordTicketState :: "store_err option \<Rightarrow> string \<Rightarrow> string \<Rightarrow> db \<Rightarrow> (store_err + unit) \<times> db" where
  "RecordTicketState fault runID stateID = write_row fault runID [(ticketStateField, Put (VStr stateID))]"

definition RecordVerdict :: "store_err option \<Rightarrow> string \<Rightarrow> string \<Rightarrow> db \<Rightarrow> (store_err + unit) \<times> db" where
  "RecordVerdict fault runID verdict = write_row fault runID [(verdictField, Put (VStr verdict))]"

definition SetWaitReason :: "store_err option \<Rightarrow> string \<Rightarrow> string \<Rightarrow> db \<Rightarrow> (store_err + unit) \<times> db" where
  "SetWaitReason fault runID reason = write_row fault runID [(waitReasonField, Put (VStr reason))]"

definition RecordMerge :: "store_err option \<Rightarrow> string \<Rightarrow> string \<Rightarrow> time \<Rightarrow> db \<Rightarrow> (store_err + unit) \<times> db" where
  "RecordMerge fault runID sha now =
     write_row fault runID [(mergedByOwnerAtField, Put (VTime now)), (mergedSHAField, Put (VStr sha))]"

definition array_union :: "goval list \<Rightarrow> goval \<Rightarrow> goval list" where
  "array_union vs v = (if v \<in> set vs then vs else vs @ [v])"

definition RecordHold_row :: "string \<Rightarrow> string \<Rightarrow> time \<Rightarrow> doc \<Rightarrow> store_err + unit \<times> updates" where
  "RecordHold_row reason holdDay now row =
     (let days = map_field row heldOnField;
          old = (case map_of days holdDay of Some (VList vs) \<Rightarrow> vs | _ \<Rightarrow> [])
      in Inr ((), [(heldOnField, Put (VMap (AList.update holdDay (VList (array_union old (VStr reason))) days))),
                   (heldAtField, Put (VTime now))]))"

definition RecordHold :: "store_err option \<Rightarrow> string \<Rightarrow> string \<Rightarrow> string \<Rightarrow> time \<Rightarrow> db \<Rightarrow> (store_err + unit) \<times> db" where
  "RecordHold fault runID reason holdDay now d =
     run_transaction fault (on_row runID (Inl NotFound) (RecordHold_row reason holdDay now)) d"

definition RecordCancel_row :: "string \<Rightarrow> time \<Rightarrow> doc \<Rightarrow> store_err + unit \<times> updates" where
  "RecordCancel_row by' now row =
     (if settledMerged row then Inl ErrRunMerged
      else if cancelledRow row then Inl ErrRunCancelled
      else if str row outcomeField \<noteq> OutcomePROpened \<and> \<not> stoppedRun row then Inl ErrRunNotWaiting
      else Inr ((), [(cancelledByOwnerAtField, Put (VTime now)), (cancelledByField, Put (VStr by'))]))"

definition RecordCancel :: "store_err option \<Rightarrow> string \<Rightarrow> string \<Rightarrow> time \<Rightarrow> db \<Rightarrow> (store_err + unit) \<times> db" where
  "RecordCancel fault runID by' now d =
     run_transaction fault (on_row runID (Inl ErrRecordNotFound) (RecordCancel_row by' now)) d"

definition RecordChecks_row :: "string \<Rightarrow> string \<Rightarrow> string \<Rightarrow> doc \<Rightarrow> store_err + bool \<times> updates" where
  "RecordChecks_row prURL sha result row =
     (if str row checksResultField \<noteq> [] \<or> str row prURLField \<noteq> prURL \<or> str row outcomeField \<noteq> OutcomePROpened
      then Inr (False, [])
      else Inr (True, [(checksResultField, Put (VStr result))]
                      @ (if sha \<noteq> [] then [(prHeadSHAField, Put (VStr sha))] else [])))"

definition RecordChecks :: "store_err option \<Rightarrow> string \<Rightarrow> string \<Rightarrow> string \<Rightarrow> string \<Rightarrow> db \<Rightarrow> (store_err + bool) \<times> db" where
  "RecordChecks fault runID prURL sha result d =
     run_transaction fault (on_row runID (Inl ErrRecordNotFound) (RecordChecks_row prURL sha result)) d"

text \<open>\<open>merge\<close>: the fields named are replaced whole, the rest kept, an absent document created.\<close>

definition merge_row :: "store_err option \<Rightarrow> string \<Rightarrow> (field \<times> goval) list \<Rightarrow> db \<Rightarrow> (store_err + unit) \<times> db" where
  "merge_row fault runID fs d = run_transaction fault (\<lambda>d.
     Inr ((), put_row runID (apply_updates (put_fields fs) (case runs d runID of None \<Rightarrow> no_doc | Some row \<Rightarrow> row)) d)) d"

definition PutRecord :: "store_err option \<Rightarrow> string \<Rightarrow> run_record \<Rightarrow> db \<Rightarrow> (store_err + unit) \<times> db" where
  "PutRecord fault runID rec = merge_row fault runID (record_fields rec)"

text \<open>\<open>WritePlan\<close>: the plan stage's own fields, which no record names.\<close>

record plan_record =
  plrFiles :: "string list"
  plrBaseSHA :: string
  plrModel :: string
  plrSettledAt :: time

definition plan_fields :: "plan_record \<Rightarrow> (field \<times> goval) list" where
  "plan_fields p = [(planFilesField, slice (map VStr (plrFiles p))), (planBaseSHAField, VStr (plrBaseSHA p)),
     (planModelField, VStr (plrModel p)), (planSettledAtField, VTime (plrSettledAt p))]"

definition WritePlan :: "store_err option \<Rightarrow> string \<Rightarrow> plan_record \<Rightarrow> db \<Rightarrow> (store_err + unit) \<times> db" where
  "WritePlan fault runID p = merge_row fault runID (plan_fields p)"

text \<open>
  \<open>RecordTicketsClosed\<close> over the rows its query of the inbox window returns. \<open>moved r\<close> is whether
  run \<open>r\<close> was written since it was read, which fails the write's precondition.
\<close>

fun close_each ::
  "(string \<Rightarrow> store_err option) \<Rightarrow> (string \<Rightarrow> bool) \<Rightarrow> string list \<Rightarrow> time \<Rightarrow> (string \<times> doc) list \<Rightarrow> nat \<Rightarrow> db \<Rightarrow>
   (nat \<times> store_err option) \<times> db" where
  "close_each faults moved tickets now [] marked d = ((marked, None), d)"
| "close_each faults moved tickets now ((r, row) # snaps) marked d =
     (if str row ticketIDField \<notin> set tickets \<or> cancelledRow row \<or> ticketClosedRow row \<or> \<not> stoppedRun row \<or> moved r
      then close_each faults moved tickets now snaps marked d
      else case write_row (faults r) r [(ticketClosedAtField, Put (VTime now))] d of
             (Inl e, d') \<Rightarrow> ((marked, Some e), d')
           | (Inr _, d') \<Rightarrow> close_each faults moved tickets now snaps (marked + 1) d')"

definition RecordTicketsClosed ::
  "(string \<Rightarrow> store_err option) \<Rightarrow> (string \<Rightarrow> bool) \<Rightarrow> (db \<Rightarrow> store_err + (string \<times> doc) list) \<Rightarrow> string list \<Rightarrow> time \<Rightarrow> db \<Rightarrow>
   (nat \<times> store_err option) \<times> db" where
  "RecordTicketsClosed faults moved listing tickets now d =
     (case listing d of Inl e \<Rightarrow> ((0, Some e), d) | Inr snaps \<Rightarrow> close_each faults moved tickets now snaps 0 d)"

section \<open>The writes keep the ledger consistent\<close>

interpretation priority_change: row_change "UpdateQueuedPriority_row rank" for rank
  by unfold_locales (auto simp: UpdateQueuedPriority_row_def split: if_splits)

lemma refresh_touches:
  "touches (refresh_updates run row) \<subseteq>
     {ticketTitleField, ticketBodyField, sizeField, sizedByField, frontEndField, blockedByField, blocksField}"
  by (simp add: refresh_updates_def set_field_def set_list_def Let_def)

interpretation refresh_change: row_change "RefreshQueuedTicket_row run" for run
  using refresh_touches [of run]
  by unfold_locales (fastforce simp: RefreshQueuedTicket_row_def split: if_splits)+

interpretation stamp_change: row_change "stampQueuedAt_row dryRun" for dryRun
  by unfold_locales (auto simp: stampQueuedAt_row_def split: if_splits option.splits)

interpretation models_change: row_change "updateRetried_row (RefreshRetriedModels_row m)" for m
  by unfold_locales (auto simp: updateRetried_row_def RefreshRetriedModels_row_def split: if_splits)

interpretation stop_retried_change: row_change "updateRetried_row (\<lambda>_. stop_updates reason detail now)" for reason detail now
  by unfold_locales (auto simp: updateRetried_row_def stop_updates_def rowState_def row_simps split: if_splits)

interpretation hold_change: row_change "RecordHold_row reason holdDay now" for reason holdDay now
  by unfold_locales (auto simp: RecordHold_row_def Let_def)

interpretation cancel_change: row_change "RecordCancel_row by' now" for by' now
  by unfold_locales (auto simp: RecordCancel_row_def split: if_splits)

interpretation checks_change: row_change "RecordChecks_row prURL sha result" for prURL sha result
  by unfold_locales (auto simp: RecordChecks_row_def split: if_splits)

interpretation update_priority: keeps_ledger "UpdateQueuedPriority fault runID rank" for fault runID rank
  by unfold_locales (simp add: UpdateQueuedPriority_def priority_change.on_row_keeps)

interpretation refresh_ticket: keeps_ledger "RefreshQueuedTicket fault run" for fault run
  by unfold_locales (simp add: RefreshQueuedTicket_def refresh_change.on_row_keeps)

interpretation stamp: keeps_ledger "stampQueuedAt fault runID dryRun" for fault runID dryRun
  by unfold_locales (simp add: stampQueuedAt_def stamp_change.on_row_keeps)

interpretation refresh_models: keeps_ledger "RefreshRetriedModels fault runID m" for fault runID m
  by unfold_locales (simp add: RefreshRetriedModels_def updateRetried_def models_change.on_row_keeps)

interpretation stop_retried: keeps_ledger "StopRetried fault runID reason detail now" for fault runID reason detail now
  by unfold_locales (simp add: StopRetried_def updateRetried_def stop_retried_change.on_row_keeps)

interpretation record_hold: keeps_ledger "RecordHold fault runID reason holdDay now" for fault runID reason holdDay now
  by unfold_locales (simp add: RecordHold_def hold_change.on_row_keeps)

interpretation record_cancel: keeps_ledger "RecordCancel fault runID by' now" for fault runID by' now
  by unfold_locales (simp add: RecordCancel_def cancel_change.on_row_keeps)

interpretation record_checks: keeps_ledger "RecordChecks fault runID prURL sha result" for fault runID prURL sha result
  by unfold_locales (simp add: RecordChecks_def checks_change.on_row_keeps)

text \<open>A write that names neither the state nor the attempt.\<close>

lemma write_row_keeps:
  assumes "attemptField \<notin> touches us" and "stateField \<notin> touches us" and "ledger_inv d"
  shows "ledger_inv (snd (write_row fault runID us d))"
proof -
  have "row_change (\<lambda>_. Inr ((), us) :: store_err + unit \<times> updates)" using assms(1,2) by unfold_locales auto
  from row_change.on_row_keeps [OF this assms(3)] show ?thesis by (simp add: write_row_def)
qed

interpretation ticket_state: keeps_ledger "RecordTicketState fault runID stateID" for fault runID stateID
  by unfold_locales (simp add: RecordTicketState_def write_row_keeps)

interpretation record_verdict: keeps_ledger "RecordVerdict fault runID verdict" for fault runID verdict
  by unfold_locales (simp add: RecordVerdict_def write_row_keeps)

interpretation wait_reason: keeps_ledger "SetWaitReason fault runID reason" for fault runID reason
  by unfold_locales (simp add: SetWaitReason_def write_row_keeps)

interpretation record_merge: keeps_ledger "RecordMerge fault runID sha now" for fault runID sha now
  by unfold_locales (simp add: RecordMerge_def write_row_keeps)

interpretation reject: keeps_ledger "Reject fault ticketID r" for fault ticketID r
proof unfold_locales
  fix d assume inv: "ledger_inv d"
  let ?d = "d\<lparr>rejected := (\<lambda>t. if t = ticketID then Some r else rejected d t)\<rparr>"
  have "ledger_inv ?d" using inv ledger_inv_cong [of ?d d] by (simp add: readLedger_def)
  with inv show "ledger_inv (snd (Reject fault ticketID r d))"
    unfolding Reject_def by (intro transaction_keeps) auto
qed

lemma stamp_each_keeps: "ledger_inv d \<Longrightarrow> ledger_inv (snd (stamp_each faults dryRun rs res d))"
proof (induction rs arbitrary: res d)
  case (Cons r rs)
  show ?case
    using stamp.keeps [OF Cons.prems, of "faults r" r dryRun] Cons.IH
    by (cases "stampQueuedAt (faults r) r dryRun d") (auto split: sum.splits)
qed simp

interpretation backfill: keeps_ledger "BackfillQueuedAt faults listing dryRun" for faults listing dryRun
  by unfold_locales (simp add: BackfillQueuedAt_def stamp_each_keeps split: sum.splits)

lemma close_each_keeps: "ledger_inv d \<Longrightarrow> ledger_inv (snd (close_each faults moved tickets now snaps marked d))"
proof (induction snaps arbitrary: marked d)
  case (Cons snap snaps)
  obtain r row where snap: "snap = (r, row)" by (cases snap)
  have "ledger_inv (snd (write_row (faults r) r [(ticketClosedAtField, Put (VTime now))] d))"
    by (rule write_row_keeps) (use Cons.prems in simp_all)
  then show ?case
    using Cons.IH Cons.prems
    by (cases "write_row (faults r) r [(ticketClosedAtField, Put (VTime now))] d") (auto simp: snap split: sum.splits)
qed simp

interpretation tickets_closed: keeps_ledger "RecordTicketsClosed faults moved listing tickets now"
  for faults moved listing tickets now
  by unfold_locales (simp add: RecordTicketsClosed_def close_each_keeps split: sum.splits)

text \<open>The two operations that create a row need an id that a reservation key can hold.\<close>

lemma merge_row_keeps:
  assumes "attemptField \<notin> fst ` set fs" and "stateField \<notin> fst ` set fs" and "run_id_ok runID" and inv: "ledger_inv d"
  shows "ledger_inv (snd (merge_row fault runID fs d))"
  unfolding merge_row_def
proof (rule transaction_keeps [OF inv])
  fix u d'
  assume "Inr ((), put_row runID (apply_updates (put_fields fs) (case runs d runID of None \<Rightarrow> no_doc | Some row \<Rightarrow> row)) d) = Inr (u, d')"
  then have d': "d' = put_row runID (apply_updates (put_fields fs) (case runs d runID of None \<Rightarrow> no_doc | Some row \<Rightarrow> row)) d" by simp
  have untouched: "attemptField \<notin> touches (put_fields fs)" "stateField \<notin> touches (put_fields fs)"
    using assms(1,2) by (auto simp: put_fields_def touches_def image_iff)
  show "ledger_inv d'"
  proof (cases "runs d runID")
    case None
    then show ?thesis unfolding d' by (intro put_row_unreserved [OF inv absent_holds_none [OF inv None] assms(3)])
  next
    case (Some row)
    then show ?thesis
      unfolding d' using untouched by (intro put_row_same_attempt [OF inv Some]) (simp_all add: same_attempt same_state)
  qed
qed

lemma PutRecord_keeps: "run_id_ok runID \<Longrightarrow> ledger_inv d \<Longrightarrow> ledger_inv (snd (PutRecord fault runID rec d))"
  unfolding PutRecord_def by (rule merge_row_keeps) (simp_all add: record_fields_def)

lemma WritePlan_keeps: "run_id_ok runID \<Longrightarrow> ledger_inv d \<Longrightarrow> ledger_inv (snd (WritePlan fault runID p d))"
  unfolding WritePlan_def by (rule merge_row_keeps) (simp_all add: plan_fields_def)

lemma Enqueue_ok:
  "Enqueue fault run d = (Inr (), d') \<longleftrightarrow>
     fault = None \<and> runs d (qRunID run) = None
     \<and> d' = (put_row (qRunID run) (apply_updates (enqueue_data run) no_doc) d)
          \<lparr>rejected := (\<lambda>t. if t = qRunID run then None else rejected d t)\<rparr>"
  by (auto simp: Enqueue_def run_transaction_ok split: option.splits)

lemma Enqueue_keeps:
  assumes "run_id_ok (qRunID run)" and inv: "ledger_inv d"
  shows "ledger_inv (snd (Enqueue fault run d))"
proof (cases "Enqueue fault run d")
  case (Pair res d')
  show ?thesis
  proof (cases res)
    case (Inl e)
    then have "fst (Enqueue fault run d) = Inl e" using Pair by simp
    then have "snd (Enqueue fault run d) = d" unfolding Enqueue_def by (rule run_transaction_error)
    then have "d' = d" using Pair by simp
    then show ?thesis using Pair inv by simp
  next
    case (Inr u)
    then have ok: "runs d (qRunID run) = None"
      "d' = (put_row (qRunID run) (apply_updates (enqueue_data run) no_doc) d)
          \<lparr>rejected := (\<lambda>t. if t = qRunID run then None else rejected d t)\<rparr>"
      using Pair Enqueue_ok [of fault run d d'] by simp_all
    let ?d = "put_row (qRunID run) (apply_updates (enqueue_data run) no_doc) d"
    have "ledger_inv ?d" using put_row_unreserved [OF inv absent_holds_none [OF inv ok(1)] assms(1)] .
    moreover have "runs d' = runs ?d" "Reservations (readLedger d') = Reservations (readLedger ?d)"
      by (simp_all add: ok(2) readLedger_def)
    ultimately show ?thesis using Pair ledger_inv_cong [of d' ?d] by simp
  qed
qed

section \<open>What the writes achieve\<close>

text \<open>An enqueued ticket's row: queued at its first attempt, not ended, and the ticket's relations on it.\<close>

lemma enqueue_row:
  "rowState (apply_updates (enqueue_data run) no_doc) = stateQueued"
  "rowAttempt (apply_updates (enqueue_data run) no_doc) = 0"
  "\<not> hasEnded (apply_updates (enqueue_data run) no_doc)"
  "apply_updates (enqueue_data run) no_doc decisionModeField = None"
  "stringList (apply_updates (enqueue_data run) no_doc) blockedByField = qBlockedBy run"
  "stringList (apply_updates (enqueue_data run) no_doc) blocksField = qBlocks run"
  "time_of (apply_updates (enqueue_data run) no_doc) queuedAtField = qAt run"
  "int_of (apply_updates (enqueue_data run) no_doc) priorityField = qPriority run"
  "modelLabelsOf (apply_updates (enqueue_data run) no_doc) = qModels run"
proof -
  let ?row = "apply_updates (enqueue_data run) no_doc"
  have lists: "updated (if b then [(g, Put v)] else []) f old = (if g = f \<and> b then Some v else old)"
    for b g v f and old :: "goval option" by simp
  have cells: "?row stateField = Some (VStr stateQueued)" "?row attemptField = None" "?row outcomeField = Some (VStr [])"
    "?row stopReasonField = Some (VStr [])" "?row decisionModeField = None" "?row queuedAtField = Some (VTime (qAt run))"
    "?row priorityField = Some (VInt (qPriority run))" "?row modelLabelsField = Some (labels_val (qModels run))"
    "?row blockedByField = (if qBlockedBy run \<noteq> [] then Some (string_list (qBlockedBy run)) else None)"
    "?row blocksField = (if qBlocks run \<noteq> [] then Some (string_list (qBlocks run)) else None)"
    by (simp_all add: apply_updates_def enqueue_data_def Let_def lists no_doc_def put_fields_def record_fields_def NewRecord_def split del: if_split)
  show "rowState ?row = stateQueued" "rowAttempt ?row = 0" "\<not> hasEnded ?row" "?row decisionModeField = None"
    "stringList ?row blockedByField = qBlockedBy run" "stringList ?row blocksField = qBlocks run"
    "time_of ?row queuedAtField = qAt run" "int_of ?row priorityField = qPriority run" "modelLabelsOf ?row = qModels run"
    by (simp_all add: rowState_def rowAttempt_def hasEnded_def field_readers cells modelLabelsOf_labels_val)
qed

lemma sameMembers_mset: "sameMembers a b \<longleftrightarrow> mset a = mset b"
  unfolding sameMembers_def
proof
  show "sort a = sort b \<Longrightarrow> mset a = mset b" by (metis mset_sort)
  show "mset a = mset b \<Longrightarrow> sort a = sort b" by (metis properties_for_sort sorted_sort mset_sort)
qed

text \<open>A refreshed row names its ticket as it is now, and refreshing it again writes nothing.\<close>

definition in_step :: "queued \<Rightarrow> doc \<Rightarrow> bool" where
  "in_step run row \<longleftrightarrow>
     str row ticketTitleField = tkTitle (qTicket run) \<and> str row ticketBodyField = tkBody (qTicket run)
     \<and> str row sizeField = tkSize (qTicket run) \<and> str row sizedByField = tkSizedBy (qTicket run)
     \<and> bool_of row frontEndField = tkFrontEnd (qTicket run)
     \<and> mset (stringList row blockedByField) = mset (qBlockedBy run) \<and> mset (stringList row blocksField) = mset (qBlocks run)"

lemma refresh_none: "refresh_updates run row = [] \<longleftrightarrow> in_step run row"
  by (auto simp: refresh_updates_def set_field_def set_list_def in_step_def sameMembers_mset Let_def)

lemma set_field_read:
  "updated (set_field f same v) g old = (if g = f \<and> \<not> same then (case v of Put x \<Rightarrow> Some x | Delete \<Rightarrow> None) else old)"
  by (auto simp: set_field_def split: fval.splits)

lemma set_list_read:
  "updated (set_list row f want) g old = (if g = f \<and> mset (stringList row f) \<noteq> mset want
     then (if want = [] then None else Some (string_list want)) else old)"
  by (simp add: set_list_def set_field_read sameMembers_mset)

lemma refresh_reads:
  "in_step run (apply_updates (refresh_updates run row) row)"
  unfolding in_step_def refresh_updates_def Let_def
  by (simp add: field_readers apply_updates_def set_field_read set_list_read cong: if_cong)

text \<open>Recording a hold twice on a day counts once.\<close>

lemma array_union_idem: "array_union (array_union vs v) v = array_union vs v"
  by (simp add: array_union_def)

text \<open>The record job's write keeps what the store alone owns.\<close>

lemma PutRecord_store_fields:
  assumes "runs d runID = Some row"
    and "f \<in> {stateField, attemptField, queuedAtField, claimedAtField, repoField, priorityField, decisionsField,
      planFilesField, planSettledAtField, planSpendMicrosField, planSpendMinutesField, transientRequeuesField,
      operatorNoteField, retriedByField, heldOnField, checksResultField}"
  shows "\<exists>row'. runs (snd (PutRecord None runID rec d)) runID = Some row' \<and> row' f = row f"
proof -
  have "f \<notin> touches (put_fields (record_fields rec))"
    using assms(2) by (auto simp: record_fields_def put_fields_def)
  then show ?thesis
    using assms(1) by (simp add: PutRecord_def merge_row_def run_transaction_def apply_updates_untouched)
qed

end
