(* ===== verification/Decisions.thy ===== *)
theory Decisions
  imports Claims Requeue
begin

text \<open>
  Owner decisions: the store's half (\<open>internal/store/decision.go\<close>), which parks a run on a question
  and resumes it on an answer, and the poll's half (\<open>internal/dispatcher/decision.go\<close>), which asks,
  matches replies and stops a run whose owner stays silent.
\<close>

section \<open>Matching a reply\<close>

text \<open>
  \<open>Decision.Match\<close> of \<open>internal/runner/decision.go\<close>. The collator that folds case, width and
  diacritics is a library's: \<open>same a b\<close> is \<open>CompareString(a, b) == 0\<close>.
\<close>

definition Match :: "(string \<Rightarrow> string \<Rightarrow> bool) \<Rightarrow> decision \<Rightarrow> string \<Rightarrow> decision_option option" where
  "Match same d said =
     (let want = trim_space said in
      if want = [] then None
      else find (\<lambda>p. same want (trim_space (optValue p)) \<or> same want (trim_space (optLabel p))) (options d))"

definition DecisionGuided :: string where "DecisionGuided = ''guided''"
definition DecisionAutopilot :: string where "DecisionAutopilot = ''autopilot''"
definition DefaultMaxAutopilotDecisions :: int where "DefaultMaxAutopilotDecisions = 3"

definition TakesRecommendation :: "string \<Rightarrow> int \<Rightarrow> bool" where
  "TakesRecommendation m answered \<longleftrightarrow> m = DecisionAutopilot \<and> answered < DefaultMaxAutopilotDecisions"

section \<open>The decisions on a row\<close>

text \<open>An index the code reports as \<open>-1\<close> is \<open>None\<close>.\<close>

definition last_index :: "('a \<Rightarrow> bool) \<Rightarrow> 'a list \<Rightarrow> nat option" where
  "last_index P xs = find (\<lambda>i. P (xs ! i)) (rev [0..<length xs])"

definition first_index :: "('a \<Rightarrow> bool) \<Rightarrow> 'a list \<Rightarrow> nat option" where
  "first_index P xs = find (\<lambda>i. P (xs ! i)) [0..<length xs]"

definition lastUnanswered :: "decision_entry list \<Rightarrow> nat option" where
  "lastUnanswered es = last_index (\<lambda>e. answer e = []) es"

definition unconfirmedPosted :: "decision_entry list \<Rightarrow> nat option" where
  "unconfirmedPosted es =
     (case last_index (\<lambda>e. \<not> is_zero (postedAt e)) es of
        None \<Rightarrow> None
      | Some i \<Rightarrow> if \<not> provisional (es ! i) \<or> \<not> is_zero (confirmedAt (es ! i)) then None else Some i)"

definition firstUnpostedProvisional :: "decision_entry list \<Rightarrow> nat option" where
  "firstUnpostedProvisional es = first_index (\<lambda>e. provisional e \<and> is_zero (postedAt e)) es"

definition repliedProvisional :: "decision_entry list \<Rightarrow> nat option" where
  "repliedProvisional es = last_index (\<lambda>e. provisional e \<and> is_zero (confirmedAt e) \<and> \<not> is_zero (repliedAt e)) es"

definition new_entry :: "decision \<Rightarrow> time \<Rightarrow> decision_entry" where
  "new_entry dec now = \<lparr>entryDecision = dec, entrySession = [], askedAt = now, postedAt = 0, answer = [],
     reply = [], repliedAt = 0, provisional = False, confirmedAt = 0\<rparr>"

section \<open>Parking a run\<close>

text \<open>
  \<open>settleDecision\<close>: \<open>apply\<close> answers the decisions the row is left with and where the row moves; the
  claim, the wait and the plan's reservation go, its spend settled.
\<close>

definition settleDecision ::
  "string \<Rightarrow> string \<Rightarrow> time \<Rightarrow> (decision_entry list \<Rightarrow> decision_entry list \<times> updates) \<Rightarrow> db \<Rightarrow> store_err + unit \<times> db" where
  "settleDecision runID runURL now apply =
     (let base = (\<lambda>row. case apply (entries_of row decisionsField) of (decisions, moved) \<Rightarrow>
            moved @ [(decisionsField, Put (VEntries decisions)), (runURLField, Put (VStr runURL)),
                     (updatedAtField, Put (VTime now)), (claimedAtField, Delete), (waitingOnField, Delete)]) in
      end_claim runID base (\<lambda>row entry. base row @ planSettle entry row @ [(planSettledAtField, Put (VTime now))]))"

definition Suspend ::
  "store_err option \<Rightarrow> string \<Rightarrow> decision \<Rightarrow> string \<Rightarrow> time \<Rightarrow> db \<Rightarrow> (store_err + unit) \<times> db" where
  "Suspend fault runID dec runURL now d = run_transaction fault
     (settleDecision runID runURL now (\<lambda>es.
        (es @ [new_entry dec now], [(stateField, Put (VStr stateWaiting))]))) d"

definition TakeRecommendation ::
  "store_err option \<Rightarrow> string \<Rightarrow> decision \<Rightarrow> string \<Rightarrow> time \<Rightarrow> db \<Rightarrow> (store_err + unit) \<times> db" where
  "TakeRecommendation fault runID dec runURL now d =
     (if options dec = [] then (Inl (Refused ''the decision has no options''), d)
      else run_transaction fault
        (settleDecision runID runURL now (\<lambda>es.
          (es @ [(new_entry dec now)\<lparr>answer := optLabel (hd (options dec)), provisional := True\<rparr>],
           [(stateField, Put (VStr stateQueued)), (provisionalUnpostedField, Put (VBool True))]))) d)"

section \<open>Replies and answers\<close>

definition Reply_row :: "string \<Rightarrow> string \<Rightarrow> time \<Rightarrow> doc \<Rightarrow> store_err + bool \<times> updates" where
  "Reply_row sessionID said now row =
     (let es = entries_of row decisionsField;
          prov = (str row stateField \<noteq> stateWaiting);
          i = (if prov then unconfirmedPosted es
               else if str row outcomeField \<noteq> [] then None else lastUnanswered es) in
      case i of
        None \<Rightarrow> Inr (False, [])
      | Some i \<Rightarrow>
        if entrySession (es ! i) \<noteq> sessionID then Inr (False, [])
        else Inr (True, [(decisionsField, Put (VEntries (es[i := (es ! i)\<lparr>reply := said, repliedAt := now\<rparr>])))]
                        @ (if prov then [(provisionalRepliedField, Put (VBool True))] else [])))"

definition Reply ::
  "store_err option \<Rightarrow> string \<Rightarrow> string \<Rightarrow> string \<Rightarrow> time \<Rightarrow> db \<Rightarrow> (store_err + bool) \<times> db" where
  "Reply fault runID sessionID said now d =
     (if blank said then (Inr False, d)
      else run_transaction fault (on_row runID (Inr False) (Reply_row sessionID said now)) d)"

definition Answer_row :: "string \<Rightarrow> time \<Rightarrow> doc \<Rightarrow> store_err + unit \<times> updates" where
  "Answer_row ans now row =
     (let es = entries_of row decisionsField in
      case lastUnanswered es of
        None \<Rightarrow> Inr ((), [])
      | Some i \<Rightarrow>
        if str row stateField \<noteq> stateWaiting \<or> str row outcomeField \<noteq> [] then Inr ((), [])
        else Inr ((), [(decisionsField, Put (VEntries (es[i := (es ! i)\<lparr>answer := ans\<rparr>]))),
                       (stateField, Put (VStr stateQueued)), (updatedAtField, Put (VTime now)),
                       (claimedAtField, Delete), (waitingOnField, Delete)]))"

definition Answer :: "store_err option \<Rightarrow> string \<Rightarrow> string \<Rightarrow> time \<Rightarrow> db \<Rightarrow> (store_err + unit) \<times> db" where
  "Answer fault runID ans now d = run_transaction fault (on_row runID (Inr ()) (Answer_row ans now)) d"

definition Posted_row :: "string \<Rightarrow> time \<Rightarrow> doc \<Rightarrow> store_err + unit \<times> updates" where
  "Posted_row sessionID now row =
     (let es = entries_of row decisionsField in
      case lastUnanswered es of
        None \<Rightarrow> Inr ((), [])
      | Some i \<Rightarrow> Inr ((), [(decisionsField,
          Put (VEntries (es[i := (es ! i)\<lparr>entrySession := sessionID, postedAt := now\<rparr>])))]))"

definition Posted :: "store_err option \<Rightarrow> string \<Rightarrow> string \<Rightarrow> time \<Rightarrow> db \<Rightarrow> (store_err + unit) \<times> db" where
  "Posted fault runID sessionID now d = run_transaction fault (on_row runID (Inr ()) (Posted_row sessionID now)) d"

text \<open>\<open>StopWaiting\<close> is one update of the row, whatever the row holds.\<close>

definition StopWaiting :: "store_err option \<Rightarrow> string \<Rightarrow> decision \<Rightarrow> time \<Rightarrow> db \<Rightarrow> (store_err + unit) \<times> db" where
  "StopWaiting fault runID dec now d = run_transaction fault
     (on_row runID (Inl NotFound) (\<lambda>_. Inr ((), stop_updates StopWaitingOnOwner (question dec) now))) d"

section \<open>Decisions auto-pilot took\<close>

definition PostedProvisional_row :: "string \<Rightarrow> time \<Rightarrow> doc \<Rightarrow> store_err + unit \<times> updates" where
  "PostedProvisional_row sessionID now row =
     (let es = entries_of row decisionsField in
      case firstUnpostedProvisional es of
        None \<Rightarrow> Inr ((), [])
      | Some i \<Rightarrow>
        let es' = es[i := (es ! i)\<lparr>entrySession := sessionID, postedAt := now\<rparr>] in
        Inr ((), [(decisionsField, Put (VEntries es'))]
                 @ (if firstUnpostedProvisional es' = None then [(provisionalUnpostedField, Delete)] else [])))"

definition PostedProvisional ::
  "store_err option \<Rightarrow> string \<Rightarrow> string \<Rightarrow> time \<Rightarrow> db \<Rightarrow> (store_err + unit) \<times> db" where
  "PostedProvisional fault runID sessionID now d =
     run_transaction fault (on_row runID (Inr ()) (PostedProvisional_row sessionID now)) d"

definition ConfirmProvisional_row :: "int \<Rightarrow> time \<Rightarrow> time \<Rightarrow> doc \<Rightarrow> store_err + unit \<times> updates" where
  "ConfirmProvisional_row index replied now row =
     (let es = entries_of row decisionsField; i = nat (index - 1) in
      if index - 1 < 0 \<or> index - 1 \<ge> int (length es) then Inr ((), [])
      else if \<not> provisional (es ! i) \<or> \<not> is_zero (confirmedAt (es ! i)) \<or> repliedAt (es ! i) \<noteq> replied
      then Inr ((), [])
      else let es' = es[i := (es ! i)\<lparr>confirmedAt := now\<rparr>] in
        Inr ((), [(decisionsField, Put (VEntries es'))]
                 @ (if repliedProvisional es' = None then [(provisionalRepliedField, Delete)] else [])))"

definition ConfirmProvisional ::
  "store_err option \<Rightarrow> string \<Rightarrow> int \<Rightarrow> time \<Rightarrow> time \<Rightarrow> db \<Rightarrow> (store_err + unit) \<times> db" where
  "ConfirmProvisional fault runID index replied now d =
     run_transaction fault (on_row runID (Inr ()) (ConfirmProvisional_row index replied now)) d"

definition ClearProvisionalReply_row :: "time \<Rightarrow> doc \<Rightarrow> store_err + unit \<times> updates" where
  "ClearProvisionalReply_row replied row =
     (let es = entries_of row decisionsField in
      case repliedProvisional es of
        None \<Rightarrow> Inr ((), [])
      | Some i \<Rightarrow> if repliedAt (es ! i) \<noteq> replied then Inr ((), []) else Inr ((), [(provisionalRepliedField, Delete)]))"

definition ClearProvisionalReply :: "store_err option \<Rightarrow> string \<Rightarrow> time \<Rightarrow> db \<Rightarrow> (store_err + unit) \<times> db" where
  "ClearProvisionalReply fault runID replied d =
     run_transaction fault (on_row runID (Inr ()) (ClearProvisionalReply_row replied)) d"

section \<open>What a poll reads\<close>

record waiting_run =
  waitRunID :: string
  waitDecision :: decision
  waitSession :: string
  waitAskedAt :: time
  waitPostedAt :: time
  waitReply :: string
  waitRepliedAt :: time
  waitRunURL :: string
  waitIndex :: nat

text \<open>\<open>Waiting\<close> on the rows its query returns, those in state waiting, up to its limit.\<close>

definition waiting_of :: "string \<times> doc \<Rightarrow> waiting_run option" where
  "waiting_of snap =
     (case snap of (runID, row) \<Rightarrow>
        let es = entries_of row decisionsField in
        if str row outcomeField \<noteq> [] then None
        else (case lastUnanswered es of None \<Rightarrow> None
              | Some i \<Rightarrow> let e = es ! i in Some \<lparr>waitRunID = runID, waitDecision = entryDecision e,
                  waitSession = entrySession e, waitAskedAt = askedAt e, waitPostedAt = postedAt e,
                  waitReply = reply e, waitRepliedAt = repliedAt e, waitRunURL = str row runURLField,
                  waitIndex = i + 1\<rparr>))"

definition Waiting :: "store_err + (string \<times> doc) list \<Rightarrow> store_err + waiting_run list" where
  "Waiting listed = and_then listed (\<lambda>snaps. Inr (List.map_filter waiting_of snaps))"

definition Decisions_answered :: "doc \<Rightarrow> (string \<times> string) list" where
  "Decisions_answered row = map (\<lambda>e. (question (entryDecision e), answer e))
     (filter (\<lambda>e. answer e \<noteq> []) (entries_of row decisionsField))"

section \<open>The poll\<close>

definition defaultDecisionTimeout :: duration where
  "defaultDecisionTimeout = 24 * hour"

definition decisionTimeout :: "duration \<Rightarrow> duration" where
  "decisionTimeout configured = (if configured \<le> 0 then defaultDecisionTimeout else configured)"

definition deadline :: "waiting_run \<Rightarrow> duration \<Rightarrow> time" where
  "deadline w timeout =
     (let from1 = waitAskedAt w;
          from2 = (if waitPostedAt w > from1 then waitPostedAt w else from1);
          from3 = (if waitRepliedAt w > from2 then waitRepliedAt w else from2) in
      from3 + timeout)"

text \<open>
  What \<open>decide\<close> does with a waiting run: answer it, ask (again), stop it, or leave it. The calls it
  makes for each are the store's \<open>Answer\<close>, the session's \<open>Elicit\<close> and \<open>Posted\<close>, and
  \<open>StopWaiting\<close> after its notice.
\<close>

datatype decision_step = AnswerWith decision_option | Ask | StopUnanswered | Leave

definition decide :: "(string \<Rightarrow> string \<Rightarrow> bool) \<Rightarrow> duration \<Rightarrow> waiting_run \<Rightarrow> time \<Rightarrow> decision_step" where
  "decide same timeout w now =
     (if waitRepliedAt w > waitPostedAt w then
        (case Match same (waitDecision w) (waitReply w) of None \<Rightarrow> Ask | Some opt \<Rightarrow> AnswerWith opt)
      else if now > deadline w (decisionTimeout timeout) then StopUnanswered
      else if is_zero (waitPostedAt w) then Ask
      else Leave)"

section \<open>Indexes\<close>

lemma find_rev_last:
  "last_index P xs = Some i \<longleftrightarrow> i < length xs \<and> P (xs ! i) \<and> (\<forall>j < length xs. i < j \<longrightarrow> \<not> P (xs ! j))"
proof -
  have "find Q (rev [0..<n]) = Some i \<longleftrightarrow> i < n \<and> Q i \<and> (\<forall>j < n. i < j \<longrightarrow> \<not> Q j)" for Q n
  proof (induction n)
    case (Suc n)
    then show ?case by (auto simp: less_Suc_eq)
  qed simp
  then show ?thesis by (simp add: last_index_def)
qed

lemma last_index_None: "last_index P xs = None \<longleftrightarrow> (\<forall>x \<in> set xs. \<not> P x)"
proof -
  have "last_index P xs = None \<longleftrightarrow> (\<forall>i < length xs. \<not> P (xs ! i))"
    by (auto simp: last_index_def find_None_iff)
  then show ?thesis by (simp add: all_set_conv_all_nth)
qed

lemma first_index_Some: "first_index P xs = Some i \<Longrightarrow> i < length xs \<and> P (xs ! i)"
  by (auto simp: first_index_def find_Some_iff)

lemma first_index_None: "first_index P xs = None \<longleftrightarrow> (\<forall>x \<in> set xs. \<not> P x)"
proof -
  have "first_index P xs = None \<longleftrightarrow> (\<forall>i < length xs. \<not> P (xs ! i))"
    by (auto simp: first_index_def find_None_iff)
  then show ?thesis by (simp add: all_set_conv_all_nth)
qed

lemma lastUnanswered_Some:
  "lastUnanswered es = Some i \<longleftrightarrow>
     i < length es \<and> answer (es ! i) = [] \<and> (\<forall>j < length es. i < j \<longrightarrow> answer (es ! j) \<noteq> [])"
  by (simp add: lastUnanswered_def find_rev_last)

section \<open>The operations keep the ledger consistent\<close>

lemma settleDecision_keeps:
  "ledger_inv d \<Longrightarrow> ledger_inv (snd (run_transaction fault (settleDecision runID runURL now f) d))"
  by (simp add: settleDecision_def Let_def end_claim_keeps)

interpretation suspend: keeps_ledger "Suspend fault runID dec runURL now" for fault runID dec runURL now
  by unfold_locales (simp add: Suspend_def settleDecision_keeps)

interpretation take_recommendation: keeps_ledger "TakeRecommendation fault runID dec runURL now"
  for fault runID dec runURL now
  by unfold_locales (simp add: TakeRecommendation_def settleDecision_keeps)

interpretation reply_change: row_change "Reply_row sessionID said now" for sessionID said now
  by unfold_locales (auto simp: Reply_row_def Let_def split: option.splits if_splits)

interpretation answer_change: row_change "Answer_row ans now" for ans now
  by unfold_locales (auto simp: Answer_row_def Let_def rowState_def split: option.splits if_splits)

interpretation posted_change: row_change "Posted_row sessionID now" for sessionID now
  by unfold_locales (auto simp: Posted_row_def Let_def split: option.splits if_splits)

interpretation stop_waiting_change: row_change "\<lambda>_. Inr ((), stop_updates StopWaitingOnOwner (question dec) now)" for dec now
  by unfold_locales (auto simp: stop_updates_def rowState_def row_simps)

interpretation posted_provisional_change: row_change "PostedProvisional_row sessionID now" for sessionID now
  by unfold_locales (auto simp: PostedProvisional_row_def Let_def split: option.splits if_splits)

interpretation confirm_change: row_change "ConfirmProvisional_row index replied now" for index replied now
  by unfold_locales (auto simp: ConfirmProvisional_row_def Let_def split: option.splits if_splits)

interpretation clear_change: row_change "ClearProvisionalReply_row replied" for replied
  by unfold_locales (auto simp: ClearProvisionalReply_row_def Let_def split: option.splits if_splits)

interpretation reply_op: keeps_ledger "Reply fault runID sessionID said now" for fault runID sessionID said now
  by unfold_locales (simp add: Reply_def reply_change.on_row_keeps)

interpretation answer_op: keeps_ledger "Answer fault runID ans now" for fault runID ans now
  by unfold_locales (simp add: Answer_def answer_change.on_row_keeps)

interpretation posted_op: keeps_ledger "Posted fault runID sessionID now" for fault runID sessionID now
  by unfold_locales (simp add: Posted_def posted_change.on_row_keeps)

interpretation stop_waiting_op: keeps_ledger "StopWaiting fault runID dec now" for fault runID dec now
  by unfold_locales (simp add: StopWaiting_def stop_waiting_change.on_row_keeps)

interpretation posted_provisional_op: keeps_ledger "PostedProvisional fault runID sessionID now" for fault runID sessionID now
  by unfold_locales (simp add: PostedProvisional_def posted_provisional_change.on_row_keeps)

interpretation confirm_op: keeps_ledger "ConfirmProvisional fault runID index replied now" for fault runID index replied now
  by unfold_locales (simp add: ConfirmProvisional_def confirm_change.on_row_keeps)

interpretation clear_op: keeps_ledger "ClearProvisionalReply fault runID replied" for fault runID replied
  by unfold_locales (simp add: ClearProvisionalReply_def clear_change.on_row_keeps)

section \<open>A question, its answer and the run between them\<close>

text \<open>A run parked on a question waits on it, holding no reservation; its answer queues the run with it.\<close>

lemma entries_of_updated:
  "entries_of (apply_updates us row) f =
     (case updated us f (row f) of Some (VEntries es) \<Rightarrow> es | _ \<Rightarrow> [])"
  by (simp add: entries_of_def apply_updates_def)

lemma Suspend_parks:
  assumes inv: "ledger_inv d" and ok: "Suspend fault runID dec runURL now d = (Inr (), d')"
  obtains row row' where "runs d runID = Some row" "runs d' runID = Some row'" "rowState row' = stateWaiting"
    "entries_of row' decisionsField = entries_of row decisionsField @ [new_entry dec now]"
    "holds_none d' runID" "str row' outcomeField = str row outcomeField" "str row' stopReasonField = str row stopReasonField"
proof -
  define base :: "doc \<Rightarrow> updates" where "base = (\<lambda>row. [(stateField, Put (VStr stateWaiting)),
    (decisionsField, Put (VEntries (entries_of row decisionsField @ [new_entry dec now]))), (runURLField, Put (VStr runURL)),
    (updatedAtField, Put (VTime now)), (claimedAtField, Delete), (waitingOnField, Delete)])"
  have reads: "rowState (apply_updates us row) = stateWaiting"
      "entries_of (apply_updates us row) decisionsField = entries_of row decisionsField @ [new_entry dec now]"
      "str (apply_updates us row) outcomeField = str row outcomeField"
      "str (apply_updates us row) stopReasonField = str row stopReasonField"
    if "us = base row \<or> (\<exists>entry. us = base row @ planSettle entry row @ [(planSettledAtField, Put (VTime now))])" for us row
    using that by (auto simp: base_def rowState_def row_simps planSettle_def)
  have "end_claim runID base (\<lambda>row entry. base row @ planSettle entry row @ [(planSettledAtField, Put (VTime now))]) d = Inr ((), d')"
    using ok by (simp add: Suspend_def run_transaction_ok settleDecision_def base_def)
  with inv show ?thesis
  proof (cases rule: end_claim_cases)
    case (free row)
    show ?thesis
      by (rule that [of row "apply_updates (base row) row"])
        (use free reads [of "base row" row] in \<open>auto simp: holds_none_def\<close>)
  next
    case (dropped row key entry)
    let ?us = "base row @ planSettle entry row @ [(planSettledAtField, Put (VTime now))]"
    have "holds_none d' runID"
      using drop_reservation(2) [OF inv dropped(1,2)] dropped(3) by (simp add: holds_none_def)
    then show ?thesis
      using dropped reads [of ?us row] by (intro that [of row "apply_updates ?us row"]) auto
  qed
qed

lemma lastUnanswered_snoc: "answer e = [] \<Longrightarrow> lastUnanswered (es @ [e]) = Some (length es)"
  by (simp add: lastUnanswered_Some)

lemma Answer_queues:
  assumes "runs d runID = Some row" "rowState row = stateWaiting" "str row outcomeField = []"
    "lastUnanswered (entries_of row decisionsField) = Some i"
  shows "\<exists>row'. Answer None runID ans now d = (Inr (), put_row runID row' d) \<and> rowState row' = stateQueued
    \<and> entries_of row' decisionsField = (entries_of row decisionsField)[i := (entries_of row decisionsField ! i)\<lparr>answer := ans\<rparr>]
    \<and> \<not> hasEnded row' = (str row stopReasonField = [])"
proof -
  let ?es = "entries_of row decisionsField"
  let ?us = "[(decisionsField, Put (VEntries (?es[i := (?es ! i)\<lparr>answer := ans\<rparr>]))), (stateField, Put (VStr stateQueued)),
    (updatedAtField, Put (VTime now)), (claimedAtField, Delete), (waitingOnField, Delete)]"
  have "Answer_row ans now row = Inr ((), ?us)"
    using assms(2-4) by (simp add: Answer_row_def rowState_def Let_def)
  then have "Answer None runID ans now d = (Inr (), put_row runID (apply_updates ?us row) d)"
    using assms(1) by (simp add: Answer_def run_transaction_def on_row_def)
  moreover have "rowState (apply_updates ?us row) = stateQueued"
    "entries_of (apply_updates ?us row) decisionsField = ?es[i := (?es ! i)\<lparr>answer := ans\<rparr>]"
    "str (apply_updates ?us row) outcomeField = str row outcomeField"
    "str (apply_updates ?us row) stopReasonField = str row stopReasonField"
    by (simp_all add: rowState_def row_simps)
  ultimately show ?thesis using assms(3) by (intro exI [of _ "apply_updates ?us row"]) (simp add: hasEnded_def)
qed

section \<open>The deadline\<close>

lemma deadline_last_word:
  "deadline w timeout = max (waitAskedAt w) (max (waitPostedAt w) (waitRepliedAt w)) + timeout"
  by (simp add: deadline_def Let_def max_def)

lemma Match_option:
  "Match same d said = Some p \<Longrightarrow> p \<in> set (options d)
     \<and> (same (trim_space said) (trim_space (optValue p)) \<or> same (trim_space said) (trim_space (optLabel p)))"
  by (auto simp: Match_def Let_def find_Some_iff split: if_splits)

end
