(* ===== verification/Go_Regexp.thy ===== *)
theory Go_Regexp
  imports Go_Text
begin

text \<open>
  The patterns the Go sources compile with \<open>regexp.MustCompile\<close>, and the three searches they make
  with them: \<open>MatchString\<close>, \<open>FindStringSubmatch\<close> and the count of \<open>FindAllStringIndex\<close>.

  A match is leftmost-first, as in Go: among the matches that begin leftmost it is the one a
  backtracking search meets first. \<open>ends r p\<close> lists what \<open>r\<close> may consume from the position
  \<open>p\<close> in that order of preference. A text is its UTF-8 bytes; a class that names ASCII characters
  alone, or their complement under a repetition, matches the same texts byte by byte as it does
  rune by rune.
\<close>

section \<open>Patterns\<close>

datatype re =
    Empty
  | Byte "char \<Rightarrow> bool"
  | Cat re re
  | Alt re re
  | Star re
  | Group nat re
  | TextStart
  | TextEnd
  | LineStart
  | LineEnd
  | WordEdge

fun cats :: "re list \<Rightarrow> re" where
  "cats [] = Empty"
| "cats [r] = r"
| "cats (r # rs) = Cat r (cats rs)"

fun alts :: "re list \<Rightarrow> re" where
  "alts [] = Byte (\<lambda>_. False)"
| "alts [r] = r"
| "alts (r # rs) = Alt r (alts rs)"

definition opt :: "re \<Rightarrow> re" where "opt r = Alt r Empty"

definition plus :: "re \<Rightarrow> re" where "plus r = Cat r (Star r)"

definition one_of :: "string \<Rightarrow> re" where "one_of cs = Byte (\<lambda>c. c \<in> set cs)"

definition none_of :: "string \<Rightarrow> re" where "none_of cs = Byte (\<lambda>c. c \<notin> set cs)"

definition lit :: "string \<Rightarrow> re" where "lit s = cats (map (\<lambda>c. one_of [c]) s)"

definition is_upper :: "char \<Rightarrow> bool" where
  "is_upper c \<longleftrightarrow> 65 \<le> (of_char c :: nat) \<and> (of_char c :: nat) \<le> 90"

definition is_lower :: "char \<Rightarrow> bool" where
  "is_lower c \<longleftrightarrow> 97 \<le> (of_char c :: nat) \<and> (of_char c :: nat) \<le> 122"

definition is_alnum :: "char \<Rightarrow> bool" where
  "is_alnum c \<longleftrightarrow> is_upper c \<or> is_lower c \<or> is_digit c"

definition is_word :: "char \<Rightarrow> bool" where
  "is_word c \<longleftrightarrow> is_alnum c \<or> c = CHR ''_''"

text \<open>\<open>[[:space:]]\<close>; \<open>\s\<close> is the same without the vertical tab.\<close>

definition space_class :: string where
  "space_class = [CHR 0x09, CHR 0x0A, CHR 0x0B, CHR 0x0C, CHR 0x0D, CHR 0x20]"

definition perl_space :: string where
  "perl_space = [CHR 0x09, CHR 0x0A, CHR 0x0C, CHR 0x0D, CHR 0x20]"

text \<open>
  Under \<open>(?i)\<close> a letter matches either case, and by Unicode's simple folding \<open>s\<close> matches the long s
  (U+017F) and \<open>k\<close> the Kelvin sign (U+212A) too.
\<close>

definition long_s :: re where "long_s = lit [CHR 0xC5, CHR 0xBF]"

definition kelvin :: re where "kelvin = lit [CHR 0xE2, CHR 0x84, CHR 0xAA]"

definition fold_char :: "char \<Rightarrow> re" where
  "fold_char c =
     (if c = CHR ''s'' then Alt (one_of ''sS'') long_s
      else if c = CHR ''k'' then Alt (one_of ''kK'') kelvin
      else Byte (\<lambda>d. lower_char d = c))"

definition fold_lit :: "string \<Rightarrow> re" where "fold_lit s = cats (map fold_char s)"

definition fold_word :: re where "fold_word = alts [Byte is_word, long_s, kelvin]"

section \<open>Searching\<close>

text \<open>
  A position of a search: the bytes read, last first, those to come, and what the groups closed so
  far matched.
\<close>

type_synonym place = "string \<times> string \<times> (nat \<times> string) list"

definition to_come :: "place \<Rightarrow> string" where "to_come p = fst (snd p)"

text \<open>The places a repetition reaches, longest first; a pass that consumes nothing is not repeated.\<close>

fun repeat_ends :: "(place \<Rightarrow> place list) \<Rightarrow> nat \<Rightarrow> place \<Rightarrow> place list" where
  "repeat_ends f 0 p = [p]"
| "repeat_ends f (Suc n) p =
     concat (map (\<lambda>q. if length (to_come q) < length (to_come p) then repeat_ends f n q else []) (f p)) @ [p]"

definition word_edge :: "place \<Rightarrow> bool" where
  "word_edge p = (case p of (seen, after, _) \<Rightarrow>
     (seen \<noteq> [] \<and> is_word (hd seen)) \<noteq> (after \<noteq> [] \<and> is_word (hd after)))"

primrec ends :: "re \<Rightarrow> place \<Rightarrow> place list" where
  "ends Empty p = [p]"
| "ends (Byte P) p =
     (case p of (seen, c # after, g) \<Rightarrow> if P c then [(c # seen, after, g)] else [] | _ \<Rightarrow> [])"
| "ends (Cat r q) p = concat (map (ends q) (ends r p))"
| "ends (Alt r q) p = ends r p @ ends q p"
| "ends (Star r) p = repeat_ends (ends r) (length (to_come p)) p"
| "ends (Group n r) p =
     map (\<lambda>(seen, after, g). (seen, after, (n, take (length (to_come p) - length after) (to_come p)) # g)) (ends r p)"
| "ends TextStart p = (if fst p = [] then [p] else [])"
| "ends TextEnd p = (if to_come p = [] then [p] else [])"
| "ends LineStart p = (if fst p = [] \<or> hd (fst p) = CHR 0x0A then [p] else [])"
| "ends LineEnd p = (if to_come p = [] \<or> hd (to_come p) = CHR 0x0A then [p] else [])"
| "ends WordEdge p = (if word_edge p then [p] else [])"

text \<open>The leftmost match: the text it matched, the groups, and where it ends.\<close>

record re_match =
  matchText :: string
  matchGroups :: "(nat \<times> string) list"
  matchEnd :: "string \<times> string"

fun search :: "re \<Rightarrow> string \<Rightarrow> string \<Rightarrow> re_match option" where
  "search r seen after =
     (case ends r (seen, after, []) of
        (b, a, g) # _ \<Rightarrow> Some \<lparr>matchText = take (length after - length a) after, matchGroups = g, matchEnd = (b, a)\<rparr>
      | [] \<Rightarrow> (case after of [] \<Rightarrow> None | c # cs \<Rightarrow> search r (c # seen) cs))"

declare search.simps [simp del]

definition FindSubmatch :: "re \<Rightarrow> string \<Rightarrow> re_match option" where
  "FindSubmatch r s = search r [] s"

definition MatchString :: "re \<Rightarrow> string \<Rightarrow> bool" where
  "MatchString r s \<longleftrightarrow> FindSubmatch r s \<noteq> None"

text \<open>A group that took no part in the match is the empty string.\<close>

definition group :: "re_match \<Rightarrow> nat \<Rightarrow> string" where
  "group m n = (case map_of (matchGroups m) n of None \<Rightarrow> [] | Some s \<Rightarrow> s)"

text \<open>
  How many matches \<open>FindAllStringIndex\<close> finds, each search going on where the one before it ended.
  The patterns counted match at least one byte; an empty match would end the count.
\<close>

function count_from :: "re \<Rightarrow> string \<Rightarrow> string \<Rightarrow> nat" where
  "count_from r seen after =
     (case search r seen after of
        None \<Rightarrow> 0
      | Some m \<Rightarrow> if length (snd (matchEnd m)) < length after
                  then Suc (count_from r (fst (matchEnd m)) (snd (matchEnd m))) else 1)"
  by pat_completeness auto
termination by (relation "measure (\<lambda>(_, _, after). length after)") (auto split: prod.splits)

declare count_from.simps [simp del]

definition FindAllCount :: "re \<Rightarrow> string \<Rightarrow> nat" where
  "FindAllCount r s = count_from r [] s"

text \<open>\<open>ReplaceAllLiteralString\<close>, of a pattern that matches at least one byte.\<close>

function replace_from :: "re \<Rightarrow> string \<Rightarrow> string \<Rightarrow> string \<Rightarrow> string" where
  "replace_from r rep seen after =
     (case search r seen after of
        None \<Rightarrow> after
      | Some m \<Rightarrow>
        let rest = snd (matchEnd m); skipped = take (length after - length rest - length (matchText m)) after in
        if length rest < length after then skipped @ rep @ replace_from r rep (fst (matchEnd m)) rest else after)"
  by pat_completeness auto
termination by (relation "measure (\<lambda>(_, _, _, after). length after)") (auto split: prod.splits)

declare replace_from.simps [simp del]

definition ReplaceAll :: "re \<Rightarrow> string \<Rightarrow> string \<Rightarrow> string" where
  "ReplaceAll r s rep = replace_from r rep [] s"

section \<open>What a pattern matches\<close>

text \<open>The texts a pattern without assertions consumes, and that the search finds just those.\<close>

primrec consumes :: "re \<Rightarrow> bool" where
  "consumes Empty = True"
| "consumes (Byte P) = True"
| "consumes (Cat r q) = (consumes r \<and> consumes q)"
| "consumes (Alt r q) = (consumes r \<and> consumes q)"
| "consumes (Star r) = consumes r"
| "consumes (Group n r) = consumes r"
| "consumes TextStart = False"
| "consumes TextEnd = False"
| "consumes LineStart = False"
| "consumes LineEnd = False"
| "consumes WordEdge = False"

inductive repeated :: "string set \<Rightarrow> string \<Rightarrow> bool" for L where
  none: "repeated L []"
| more: "v \<in> L \<Longrightarrow> v \<noteq> [] \<Longrightarrow> repeated L w \<Longrightarrow> repeated L (v @ w)"

primrec lang :: "re \<Rightarrow> string set" where
  "lang Empty = {[]}"
| "lang (Byte P) = {[c] | c. P c}"
| "lang (Cat r q) = {v @ w | v w. v \<in> lang r \<and> w \<in> lang q}"
| "lang (Alt r q) = lang r \<union> lang q"
| "lang (Star r) = {w. repeated (lang r) w}"
| "lang (Group n r) = lang r"
| "lang TextStart = {}"
| "lang TextEnd = {}"
| "lang LineStart = {}"
| "lang LineEnd = {}"
| "lang WordEdge = {}"

definition finds :: "(place \<Rightarrow> place list) \<Rightarrow> string set \<Rightarrow> bool" where
  "finds f L \<longleftrightarrow> (\<forall>b a g b' a'. (\<exists>g'. (b', a', g') \<in> set (f (b, a, g))) \<longleftrightarrow> (\<exists>w\<in>L. a = w @ a' \<and> b' = rev w @ b))"

lemma findsI:
  assumes "\<And>b a g b' a' g'. (b', a', g') \<in> set (f (b, a, g)) \<Longrightarrow> \<exists>w\<in>L. a = w @ a' \<and> b' = rev w @ b"
    and "\<And>b g w a'. w \<in> L \<Longrightarrow> \<exists>g'. (rev w @ b, a', g') \<in> set (f (b, w @ a', g))"
  shows "finds f L"
  unfolding finds_def using assms by blast

lemma findsD: "finds f L \<Longrightarrow> (b', a', g') \<in> set (f (b, a, g)) \<Longrightarrow> \<exists>w\<in>L. a = w @ a' \<and> b' = rev w @ b"
  unfolding finds_def by blast

lemma findsE: "finds f L \<Longrightarrow> w \<in> L \<Longrightarrow> \<exists>g'. (rev w @ b, a', g') \<in> set (f (b, w @ a', g))"
  by (auto simp: finds_def)

lemma to_come_simps [simp]: "to_come (b, a, g) = a"
  by (simp add: to_come_def)

lemma repeat_finds:
  assumes f: "finds f L"
  shows "(b', a', g') \<in> set (repeat_ends f n (b, a, g)) \<Longrightarrow> \<exists>w. repeated L w \<and> a = w @ a' \<and> b' = rev w @ b"
    and "repeated L w \<Longrightarrow> length w \<le> n \<Longrightarrow> \<exists>g'. (rev w @ b, a', g') \<in> set (repeat_ends f n (b, w @ a', g))"
proof (induction n arbitrary: b a g b' a' g' w)
  case 0
  { case 1 then show ?case using repeated.none [of L] by auto }
  { case 2 then show ?case by auto }
next
  case (Suc n)
  { case 1
    show ?case
    proof (cases "(b', a', g') = (b, a, g)")
      case True
      then show ?thesis using repeated.none [of L] by auto
    next
      case False
      with 1 obtain b1 a1 g1 where step: "(b1, a1, g1) \<in> set (f (b, a, g))" "length a1 < length a"
        and rest: "(b', a', g') \<in> set (repeat_ends f n (b1, a1, g1))"
        by (auto split: if_splits)
      from findsD [OF f step(1)] obtain v where v: "v \<in> L" "a = v @ a1" "b1 = rev v @ b" by blast
      from Suc.IH(1) [OF rest] obtain w where "repeated L w" "a1 = w @ a'" "b' = rev w @ b1" by blast
      with v step(2) repeated.more [of v L w] show ?thesis by auto
    qed }
  { case 2
    then show ?case
    proof (cases rule: repeated.cases)
      case none
      then show ?thesis by auto
    next
      case (more v u)
      from findsE [OF f more(2)] obtain g1 where g1: "(rev v @ b, u @ a', g1) \<in> set (f (b, v @ u @ a', g))" by blast
      from Suc.IH(2) [OF more(4)] more 2 obtain g2
        where "(rev u @ rev v @ b, a', g2) \<in> set (repeat_ends f n (rev v @ b, u @ a', g1))"
        by (cases v) fastforce+
      with g1 more show ?thesis by (auto intro!: bexI [of _ "(rev v @ b, u @ a', g1)"] exI [of _ g2])
    qed }
qed

lemma ends_finds: "consumes r \<Longrightarrow> finds (ends r) (lang r)"
proof (induction r)
  case Empty
  then show ?case by (auto intro!: findsI)
next
  case (Byte P)
  show ?case by (rule findsI) (auto split: list.splits if_splits)
next
  case (Cat r q)
  then have r: "finds (ends r) (lang r)" and q: "finds (ends q) (lang q)" by auto
  show ?case
  proof (rule findsI, goal_cases)
    case (1 b a g b' a' g')
    then obtain b1 a1 g1 where "(b1, a1, g1) \<in> set (ends r (b, a, g))" "(b', a', g') \<in> set (ends q (b1, a1, g1))" by auto
    from findsD [OF r this(1)] findsD [OF q this(2)] obtain v w
      where "v \<in> lang r" "w \<in> lang q" "a = v @ w @ a'" "b' = rev (v @ w) @ b" by auto
    then show ?case by (auto intro!: bexI [of _ "v @ w"])
  next
    case (2 b g w a')
    then obtain v u where vu: "w = v @ u" "v \<in> lang r" "u \<in> lang q" by auto
    from findsE [OF r vu(2)] obtain g1 where "(rev v @ b, u @ a', g1) \<in> set (ends r (b, v @ u @ a', g))" by blast
    moreover from findsE [OF q vu(3)] obtain g2
      where "(rev u @ rev v @ b, a', g2) \<in> set (ends q (rev v @ b, u @ a', g1))" by blast
    ultimately show ?case using vu(1) by (auto intro!: bexI [of _ "(rev v @ b, u @ a', g1)"] exI [of _ g2])
  qed
next
  case (Alt r q)
  then have r: "finds (ends r) (lang r)" and q: "finds (ends q) (lang q)" by auto
  show ?case
    by (rule findsI) (auto simp: ex_disj_distrib dest!: findsD [OF r] findsD [OF q] intro: findsE [OF r] findsE [OF q])
next
  case (Star r)
  then have f: "finds (ends r) (lang r)" by simp
  show ?case
    by (rule findsI) (auto dest!: repeat_finds(1) [OF f] intro!: repeat_finds(2) [OF f])
next
  case (Group n r)
  then have f: "finds (ends r) (lang r)" by simp
  show ?case
  proof (rule findsI, goal_cases)
    case (1 b a g b' a' g')
    then show ?case by (auto dest!: findsD [OF f])
  next
    case (2 b g w a')
    then have "w \<in> lang r" by simp
    from findsE [OF f this] obtain g' where "(rev w @ b, a', g') \<in> set (ends r (b, w @ a', g))" by blast
    then show ?case by (force simp: image_iff)
  qed
qed simp_all

text \<open>A pattern anchored at both ends matches just the texts it consumes.\<close>

lemma search_anchored_start:
  assumes "\<And>b a g. b \<noteq> [] \<Longrightarrow> ends r (b, a, g) = []" and "b \<noteq> []"
  shows "search r b a = None"
  using assms(2)
proof (induction a arbitrary: b)
  case Nil
  then show ?case using assms(1) by (subst search.simps) simp
next
  case (Cons c a)
  then show ?case using assms(1) by (subst search.simps) simp
qed

lemma ends_TextEnd: "concat (map (ends TextEnd) ps) = filter (\<lambda>p. to_come p = []) ps"
  by (induction ps) auto

lemma anchored_match:
  assumes "consumes r"
  shows "MatchString (Cat TextStart (Cat r TextEnd)) s \<longleftrightarrow> s \<in> lang r"
proof -
  let ?r = "Cat TextStart (Cat r TextEnd)"
  have none: "search ?r b a = None" if "b \<noteq> []" for b a
    by (rule search_anchored_start) (use that in auto)
  have at_start: "ends ?r ([], s, []) = filter (\<lambda>p. to_come p = []) (ends r ([], s, []))"
    by (simp add: ends_TextEnd del: ends.simps(8))
  have "search ?r [] s = None \<longleftrightarrow> ends ?r ([], s, []) = []"
  proof (cases "ends ?r ([], s, [])")
    case Nil
    then show ?thesis using none by (subst search.simps) (simp only: list.case, auto split: list.splits)
  next
    case (Cons p ps)
    then show ?thesis by (subst search.simps) (simp only: list.case, auto split: prod.splits)
  qed
  also have "\<dots> \<longleftrightarrow> \<not> (\<exists>b g. (b, [], g) \<in> set (ends r ([], s, [])))"
    unfolding at_start by (force simp: filter_empty_conv to_come_def)
  also have "\<dots> \<longleftrightarrow> s \<notin> lang r"
    using ends_finds [OF assms] unfolding finds_def by (metis append_Nil2)
  finally show ?thesis by (auto simp: MatchString_def FindSubmatch_def)
qed

end
