(* ===== verification/Go_Runes.thy ===== *)
theory Go_Runes
  imports Go_Text
begin

text \<open>
  The runes of a Go string: decoding, \<open>strings.ToValidUTF8\<close>, \<open>unicode.IsPrint\<close>, the quoting of
  \<open>strconv.Quote\<close> (\<open>%q\<close>) and the string escapes of \<open>encoding/json\<close>. The part of the Unicode print
  table past Latin-1 is a parameter, \<open>table\<close>.
\<close>

section \<open>Decoding\<close>

definition byte :: "char \<Rightarrow> nat" where "byte c = of_char c"

text \<open>The code point the bytes begin with, when \<open>rune_len\<close> says they begin with one.\<close>

definition rune_value :: "nat list \<Rightarrow> nat" where
  "rune_value bs = (case bs of
     [a] \<Rightarrow> a
   | [a, b] \<Rightarrow> (a - 0xC0) * 64 + (b - 0x80)
   | [a, b, c] \<Rightarrow> ((a - 0xE0) * 64 + (b - 0x80)) * 64 + (c - 0x80)
   | [a, b, c, d] \<Rightarrow> (((a - 0xF0) * 64 + (b - 0x80)) * 64 + (c - 0x80)) * 64 + (d - 0x80)
   | _ \<Rightarrow> 0)"

text \<open>A byte that begins no encoding is its own step, with no code point.\<close>

function runes :: "string \<Rightarrow> (nat option \<times> string) list" where
  "runes s =
     (if s = [] then []
      else case rune_len (map byte s) of
             None \<Rightarrow> (None, [hd s]) # runes (tl s)
           | Some n \<Rightarrow> (Some (rune_value (map byte (take n s))), take n s) # runes (drop n s))"
  by pat_completeness auto
termination
proof (relation "measure length", goal_cases)
  case (3 s n)
  then show ?case using rune_len_pos [of "map byte s" n] by simp
qed auto

declare runes.simps [simp del]

text \<open>\<open>strings.ToValidUTF8\<close>: each run of invalid bytes becomes the replacement once.\<close>

fun replace_invalid :: "string \<Rightarrow> bool \<Rightarrow> (nat option \<times> string) list \<Rightarrow> string" where
  "replace_invalid rep in_run [] = []"
| "replace_invalid rep in_run ((Some _, bs) # rs) = bs @ replace_invalid rep False rs"
| "replace_invalid rep in_run ((None, _) # rs) = (if in_run then [] else rep) @ replace_invalid rep True rs"

definition ToValidUTF8 :: "string \<Rightarrow> string \<Rightarrow> string" where
  "ToValidUTF8 s rep = replace_invalid rep False (runes s)"

definition rune_error :: string where "rune_error = [CHR 0xEF, CHR 0xBF, CHR 0xBD]"

definition ellipsis :: string where "ellipsis = [CHR 0xE2, CHR 0x80, CHR 0xA6]"

definition RuneStart :: "char \<Rightarrow> bool" where
  "RuneStart c \<longleftrightarrow> \<not> cont_byte (byte c)"

fun rune_boundary :: "string \<Rightarrow> nat \<Rightarrow> nat" where
  "rune_boundary s 0 = 0"
| "rune_boundary s (Suc n) = (if RuneStart (s ! Suc n) then Suc n else rune_boundary s n)"

text \<open>\<open>truncate\<close> of \<open>internal/runner/build.go\<close>.\<close>

definition truncate_text :: "string \<Rightarrow> nat \<Rightarrow> string" where
  "truncate_text s n =
     (let v = ToValidUTF8 s rune_error in
      if length v \<le> n then v else take (rune_boundary v n) v @ ellipsis)"

section \<open>Printing\<close>

definition IsPrint :: "(nat \<Rightarrow> bool) \<Rightarrow> nat \<Rightarrow> bool" where
  "IsPrint table r =
     (if r < 0x100 then (0x20 \<le> r \<and> r < 0x7F) \<or> (0xA1 \<le> r \<and> r \<noteq> 0xAD) else table r)"

text \<open>\<open>printable\<close> of \<open>internal/runner/ticket.go\<close>.\<close>

definition printable :: "(nat \<Rightarrow> bool) \<Rightarrow> string \<Rightarrow> bool" where
  "printable table s \<longleftrightarrow>
     utf8_valid s \<and> list_all (\<lambda>r. case fst r of None \<Rightarrow> False | Some v \<Rightarrow> IsPrint table v) (runes s)"

definition hex_digit :: "nat \<Rightarrow> char" where
  "hex_digit n = (if n < 10 then char_of (48 + n) else char_of (87 + n))"

text \<open>The last \<open>k\<close> hexadecimal digits of a number.\<close>

fun hex :: "nat \<Rightarrow> nat \<Rightarrow> string" where
  "hex 0 n = []"
| "hex (Suc k) n = hex k (n div 16) @ [hex_digit (n mod 16)]"

definition escape :: "char \<Rightarrow> string" where "escape c = [CHR 0x5C, c]"

definition quote_rune :: "(nat \<Rightarrow> bool) \<Rightarrow> nat option \<times> string \<Rightarrow> string" where
  "quote_rune table r = (case r of
     (None, bs) \<Rightarrow> escape (CHR ''x'') @ hex 2 (byte (hd bs))
   | (Some v, bs) \<Rightarrow>
       if v = 0x22 \<or> v = 0x5C then CHR 0x5C # bs
       else if IsPrint table v then bs
       else if v = 0x07 then escape (CHR ''a'')
       else if v = 0x08 then escape (CHR ''b'')
       else if v = 0x0C then escape (CHR ''f'')
       else if v = 0x0A then escape (CHR ''n'')
       else if v = 0x0D then escape (CHR ''r'')
       else if v = 0x09 then escape (CHR ''t'')
       else if v = 0x0B then escape (CHR ''v'')
       else if v < 0x20 \<or> v = 0x7F then escape (CHR ''x'') @ hex 2 v
       else if v < 0x10000 then escape (CHR ''u'') @ hex 4 v
       else escape (CHR ''U'') @ hex 8 v)"

definition Quote :: "(nat \<Rightarrow> bool) \<Rightarrow> string \<Rightarrow> string" where
  "Quote table s = CHR 0x22 # concat (map (quote_rune table) (runes s)) @ [CHR 0x22]"

section \<open>JSON strings\<close>

text \<open>\<open>encoding/json\<close> with \<open>SetEscapeHTML(false)\<close>.\<close>

definition json_rune :: "nat option \<times> string \<Rightarrow> string" where
  "json_rune r = (case r of
     (None, _) \<Rightarrow> escape (CHR ''u'') @ ''fffd''
   | (Some v, bs) \<Rightarrow>
       if v = 0x22 \<or> v = 0x5C then CHR 0x5C # bs
       else if v = 0x08 then escape (CHR ''b'')
       else if v = 0x0C then escape (CHR ''f'')
       else if v = 0x0A then escape (CHR ''n'')
       else if v = 0x0D then escape (CHR ''r'')
       else if v = 0x09 then escape (CHR ''t'')
       else if v < 0x20 then escape (CHR ''u'') @ hex 4 v
       else if v = 0x2028 \<or> v = 0x2029 then escape (CHR ''u'') @ hex 4 v
       else bs)"

definition json_string :: "string \<Rightarrow> string" where
  "json_string s = CHR 0x22 # concat (map json_rune (runes s)) @ [CHR 0x22]"

text \<open>\<open>strings.Join\<close> and \<open>strings.Split\<close> on a one-character separator.\<close>

fun join :: "string \<Rightarrow> string list \<Rightarrow> string" where
  "join sep [] = []"
| "join sep [s] = s"
| "join sep (s # ss) = s @ sep @ join sep ss"

fun split_char :: "char \<Rightarrow> string \<Rightarrow> string list" where
  "split_char x [] = [[]]"
| "split_char x (c # cs) =
     (if c = x then [] # split_char x cs
      else case split_char x cs of [] \<Rightarrow> [[c]] | w # ws \<Rightarrow> (c # w) # ws)"

lemma split_char_nonempty: "split_char x s \<noteq> []"
  by (induction s) (auto split: list.splits)

lemma join_split: "join [x] (split_char x s) = s"
proof (induction s)
  case (Cons c s)
  then show ?case using split_char_nonempty [of x s]
    by (cases "split_char x s") (auto, (cases "tl (split_char x s)"; auto)+)
qed simp

lemma split_char_parts: "w \<in> set (split_char x s) \<Longrightarrow> x \<notin> set w"
proof (induction s arbitrary: w)
  case (Cons c s)
  then show ?case by (auto split: if_splits list.splits)
qed simp

section \<open>Runes cover their text\<close>

lemma runes_concat: "concat (map snd (runes s)) = s"
proof (induction s rule: runes.induct)
  case (1 s)
  then show ?case
    by (subst runes.simps) (auto split: option.splits)
qed

lemma runes_steps:
  "runes [] = []"
  "s \<noteq> [] \<Longrightarrow> rune_len (map byte s) = None \<Longrightarrow> runes s = (None, [hd s]) # runes (tl s)"
  "rune_len (map byte s) = Some n \<Longrightarrow> runes s = (Some (rune_value (map byte (take n s))), take n s) # runes (drop n s)"
  using rune_len_pos [of "map byte s" n] by (subst runes.simps; auto)+

text \<open>Text that is already valid is left as it is.\<close>

lemma replace_invalid_valid:
  "list_all (\<lambda>r. fst r \<noteq> None) rs \<Longrightarrow> replace_invalid rep b rs = concat (map snd rs)"
  by (induction rs arbitrary: b) auto

lemma runes_valid: "utf8_bytes (map byte s) \<Longrightarrow> list_all (\<lambda>r. fst r \<noteq> None) (runes s)"
proof (induction s rule: runes.induct)
  case (1 s)
  show ?case
  proof (cases "s = []")
    case False
    from 1(3) False obtain n where n: "rune_len (map byte s) = Some n" "utf8_bytes (drop n (map byte s))"
      by (subst (asm) utf8_bytes.simps) (auto split: option.splits)
    with 1(2) [OF False n(1)] show ?thesis by (simp add: runes_steps(3) drop_map)
  qed (simp add: runes_steps)
qed

lemma utf8_valid_byte: "utf8_valid s \<longleftrightarrow> utf8_bytes (map byte s)"
  by (simp add: utf8_valid_def byte_def [abs_def])

lemma ToValidUTF8_valid: "utf8_valid s \<Longrightarrow> ToValidUTF8 s rep = s"
  unfolding ToValidUTF8_def utf8_valid_byte
  by (subst replace_invalid_valid [OF runes_valid]) (simp_all add: runes_concat)

lemma truncate_short: "utf8_valid s \<Longrightarrow> length s \<le> n \<Longrightarrow> truncate_text s n = s"
  by (simp add: truncate_text_def ToValidUTF8_valid)

end
