(* ===== verification/Sizer.thy ===== *)
theory Sizer
  imports Go_Regexp Go_Runes
begin

text \<open>
  The sizer of \<open>internal/dispatcher/sizer.go\<close>: the patterns it looks for, the acceptance criteria of
  a ticket's body, and \<open>signalSize\<close>, the size a ticket with no size label is admitted at.
\<close>

section \<open>The patterns\<close>

definition blanks :: re where "blanks = Star (one_of [CHR 0x20, CHR 0x09])"

definition singleLayerLane :: re where
  "singleLayerLane = cats [TextStart, Star (one_of perl_space), lit ''['',
     Group 1 (alts (map fold_lit [''be'', ''fe'', ''infra'', ''ops''])), lit '']'']"

definition acHeading :: re where
  "acHeading = alts [
     cats [TextStart, blanks, Group 1 (plus (lit ''#'')), blanks, fold_lit ''acceptance criteria'', WordEdge],
     cats [TextStart, blanks, lit ''**'', blanks, fold_lit ''acceptance criteria'', WordEdge],
     cats [TextStart, blanks, fold_lit ''acceptance criteria'', blanks,
       opt (cats [lit ''('', Star (none_of [CHR '')'', CHR 0x0A]), lit '')'']), blanks, opt (lit '':''), blanks, TextEnd]]"

definition mdHeading :: re where
  "mdHeading = cats [TextStart, blanks, Group 1 (plus (lit ''#'')), one_of [CHR 0x20, CHR 0x09]]"

definition boldLine :: re where
  "boldLine = cats [TextStart, blanks, lit ''**'', plus (none_of [CHR ''*'', CHR 0x0A]), lit ''**'']"

definition amendment :: re where
  "amendment = cats [TextStart, blanks, lit ''**'', blanks,
     alts (map fold_lit [''updated'', ''added'', ''superseded'', ''removed'']), WordEdge]"

definition acItem :: re where
  "acItem = (let sp = lit '' '' in
     cats [LineStart, opt (Cat sp (opt (Cat sp (opt sp)))),
       alts [Cat (plus (Byte is_digit)) (one_of ''.)''), one_of ''-*+''], one_of [CHR 0x20, CHR 0x09]])"

text \<open>A whole word of a list, some of them with a tail.\<close>

definition word_of :: "re list \<Rightarrow> re" where
  "word_of rs = cats [WordEdge, Group 1 (alts rs), WordEdge]"

abbreviation plural :: "string \<Rightarrow> re" where
  "plural s \<equiv> Cat (fold_lit s) (opt (fold_lit ''s''))"

definition riskSignals :: "(string \<times> re) list" where
  "riskSignals = [
     (''schema'', word_of [fold_lit ''schema'', plural ''migration'', fold_lit ''firestore'', fold_lit ''database'',
        fold_lit ''storage'', Cat (fold_lit ''index'') (opt (Group 2 (fold_lit ''es'')))]),
     (''api'', Alt (word_of [plural ''api'', plural ''endpoint'', fold_lit ''graphql'', plural ''webhook''])
        (cats [WordEdge, Group 2 (alts (map fold_lit [''get'', ''post'', ''put'', ''patch'', ''delete''])), fold_lit '' /''])),
     (''auth'', word_of [fold_lit ''auth'', fold_lit ''authn'', fold_lit ''authz'', Cat (fold_lit ''authenticat'') (Star fold_word),
        cats [fold_lit ''authori'', alts [fold_char (CHR ''s''), fold_char (CHR ''z'')], Star fold_word],
        fold_lit ''iap'', fold_lit ''oauth'', plural ''credential'', plural ''secret'', plural ''permission'', fold_lit ''iam'',
        plural ''signature'', fold_lit ''sign-in'', Cat (fold_lit ''isolat'') (Star fold_word), fold_lit ''egress'',
        Cat (fold_lit ''sandbox'') (Star fold_word)]),
     (''money'', Alt (word_of [fold_lit ''spend'', plural ''cost'', plural ''price'', fold_lit ''pricing'', plural ''budget'',
        fold_lit ''billing'', fold_lit ''ledger'', fold_lit ''usd'', Cat (fold_lit ''charge'') (opt (fold_lit ''d''))])
        (Cat (lit ''$'') (Byte is_digit)))]"

definition moduleSignals :: "(string \<times> re) list" where
  "moduleSignals = [
     (''dispatcher'', cats [WordEdge, fold_lit ''dispatcher'', WordEdge]),
     (''runner'', cats [WordEdge, fold_lit ''runner'', WordEdge]),
     (''surface'', cats [WordEdge, fold_lit ''surface'', WordEdge]),
     (''webhook'', cats [WordEdge, fold_lit ''webhook'', WordEdge]),
     (''store'', cats [WordEdge, fold_lit ''store'', WordEdge]),
     (''workflow'', Alt (cats [WordEdge, plural ''workflow'', WordEdge]) (fold_lit ''.github/'')),
     (''infra'', word_of (map fold_lit [''opentofu'', ''terraform'', ''infra''])),
     (''web'', word_of [plural ''page'', fold_lit ''inbox'', fold_lit ''web'']),
     (''container'', cats [WordEdge, plural ''container'', WordEdge])]"

section \<open>The acceptance criteria\<close>

text \<open>The lines of a section opened at a heading of \<open>level\<close> hashes, 0 for a bold or bare label.\<close>

fun section_lines :: "nat \<Rightarrow> string list \<Rightarrow> string list" where
  "section_lines level [] = []"
| "section_lines level (l # ls) =
     (case FindSubmatch mdHeading l of
        Some h \<Rightarrow> if level = 0 \<or> length (group h 1) \<le> level then [] else l # section_lines level ls
      | None \<Rightarrow> if level = 0 \<and> MatchString boldLine l \<and> \<not> MatchString amendment l then []
                else l # section_lines level ls)"

fun criteria_lines :: "string list \<Rightarrow> string list option" where
  "criteria_lines [] = None"
| "criteria_lines (l # ls) =
     (case FindSubmatch acHeading l of
        None \<Rightarrow> criteria_lines ls
      | Some m \<Rightarrow> Some (section_lines (length (group m 1)) ls))"

definition acceptanceCriteria :: "string \<Rightarrow> string \<times> bool" where
  "acceptanceCriteria body =
     (case criteria_lines (split_char (CHR 0x0A) body) of
        None \<Rightarrow> ([], False)
      | Some ls \<Rightarrow> (join [CHR 0x0A] ls, True))"

definition matching :: "(string \<times> re) list \<Rightarrow> string \<Rightarrow> string list" where
  "matching signals t = map fst (filter (\<lambda>s. MatchString (snd s) t) signals)"

section \<open>The size\<close>

definition smallACs :: nat where "smallACs = 4"
definition mediumACs :: nat where "mediumACs = 6"
definition maxACs :: nat where "maxACs = 12"

definition ceilingSize :: string where "ceilingSize = ''L''"
definition aboveCeiling :: string where "aboveCeiling = ''XL''"

definition signalSize :: "string \<Rightarrow> string \<Rightarrow> string \<times> string" where
  "signalSize title body =
     (case acceptanceCriteria body of (criteria, found) \<Rightarrow>
        let n = FindAllCount acItem criteria in
        if \<not> found \<or> n = 0 then (ceilingSize, ''no acceptance criteria to count'')
        else if n > maxACs
        then (aboveCeiling, itoa (int n) @ '' acceptance criteria, over '' @ itoa (int maxACs))
        else
          let laneless = \<not> MatchString singleLayerLane title;
              risks = matching riskSignals (title @ [CHR 0x0A] @ criteria);
              mods = matching moduleSignals criteria;
              doubts = (if laneless then 1 else 0) + length risks + (if length mods \<ge> 2 then 1 else 0);
              reason = itoa (int n) @ '' acceptance criteria''
                @ (if laneless then ''; no single-layer title prefix'' else [])
                @ (if risks \<noteq> [] then ''; names '' @ join '', '' risks else [])
                @ (if length mods \<ge> 2 then ''; criteria name '' @ join '', '' mods else [])
          in if n \<le> smallACs \<and> doubts = 0 then (''S'', reason)
             else if n \<le> smallACs \<and> doubts = 1 \<or> n \<le> mediumACs \<and> doubts = 0 then (''M'', reason)
             else (ceilingSize, reason))"

section \<open>What the size follows from\<close>

text \<open>The criteria counted, and the doubts raised against a size.\<close>

definition criteria_count :: "string \<Rightarrow> nat" where
  "criteria_count body =
     (case acceptanceCriteria body of (criteria, found) \<Rightarrow> if found then FindAllCount acItem criteria else 0)"

definition doubts_of :: "string \<Rightarrow> string \<Rightarrow> nat" where
  "doubts_of title body =
     (let criteria = fst (acceptanceCriteria body) in
      (if MatchString singleLayerLane title then 0 else 1)
      + length (matching riskSignals (title @ [CHR 0x0A] @ criteria))
      + (if length (matching moduleSignals criteria) \<ge> 2 then 1 else 0))"

text \<open>The ladder as the documentation states it, one row a size.\<close>

definition ladder :: "nat \<Rightarrow> nat \<Rightarrow> string" where
  "ladder n doubts =
     (if n = 0 then ''L'' else if n > 12 then ''XL''
      else if n \<le> 4 \<and> doubts = 0 then ''S''
      else if n \<le> 4 \<and> doubts \<le> 1 \<or> n \<le> 6 \<and> doubts = 0 then ''M'' else ''L'')"

lemma signalSize_ladder: "fst (signalSize title body) = ladder (criteria_count body) (doubts_of title body)"
  by (auto simp: signalSize_def ladder_def criteria_count_def doubts_of_def Let_def smallACs_def mediumACs_def
      maxACs_def ceilingSize_def aboveCeiling_def le_Suc_eq split: prod.splits)

text \<open>The sizes in order, and that neither a criterion nor a doubt more makes a ticket smaller.\<close>

definition size_rank :: "string \<Rightarrow> nat" where
  "size_rank s = (if s = ''S'' then 0 else if s = ''M'' then 1 else if s = ''L'' then 2 else 3)"

lemma ladder_mono:
  assumes "0 < n" "n \<le> n'" "k \<le> k'"
  shows "size_rank (ladder n k) \<le> size_rank (ladder n' k')"
  using assms by (auto simp: ladder_def size_rank_def)

end
