(* ===== verification/Tickets.thy ===== *)
theory Tickets
  imports Queue_Admin Decisions Sizer
begin

text \<open>
  From a delegated Linear issue to a run the queue may hold: the ticket (\<open>internal/runner/ticket.go\<close>),
  \<open>build\<close> and its labels (\<open>internal/dispatcher/ticket.go\<close>), the sizer (\<open>sizer.go\<close>) and the models a
  ticket may name (\<open>models.go\<close>, with the patterns of \<open>internal/runner/build.go\<close>).
\<close>

section \<open>Folding case\<close>

text \<open>
  \<open>strings.EqualFold\<close> and \<open>strings.ToUpper\<close> against a text of ASCII characters: beside the ASCII
  letters, the long s and the Kelvin sign fold to \<open>s\<close> and \<open>k\<close>, and the long s and the dotless i have
  the upper cases \<open>S\<close> and \<open>I\<close>.
\<close>

definition fold_rune :: "nat option \<times> string \<Rightarrow> string" where
  "fold_rune r = (if fst r = Some 0x17F then ''s'' else if fst r = Some 0x212A then ''k'' else to_lower (snd r))"

definition EqualFold :: "string \<Rightarrow> string \<Rightarrow> bool" where
  "EqualFold a b \<longleftrightarrow> concat (map fold_rune (runes a)) = concat (map fold_rune (runes b))"

definition upper_char :: "char \<Rightarrow> char" where
  "upper_char c = (if is_lower c then char_of (byte c - 32) else c)"

definition upper_rune :: "nat option \<times> string \<Rightarrow> string" where
  "upper_rune r = (if fst r = Some 0x17F then ''S'' else if fst r = Some 0x131 then ''I'' else map upper_char (snd r))"

definition ToUpper :: "string \<Rightarrow> string" where
  "ToUpper s = concat (map upper_rune (runes s))"

section \<open>Tickets\<close>

definition maxTicketIDBytes :: nat where "maxTicketIDBytes = 64"
definition maxTicketTitleBytes :: nat where "maxTicketTitleBytes = 256"
definition maxSizedByBytes :: nat where "maxSizedByBytes = 64"
definition maxTicketBodyBytes :: nat where "maxTicketBodyBytes = 32768"
definition maxEncodedTicketBytes :: nat where "maxEncodedTicketBytes = 98304"
definition logErrorLimit :: nat where "logErrorLimit = 200"
definition decisionQuestionLimit :: nat where "decisionQuestionLimit = 300"
definition decisionLabelLimit :: nat where "decisionLabelLimit = 120"
definition FrontEndLabel :: string where "FrontEndLabel = ''area:fe''"

record answered =
  ansQuestion :: string
  ansChoice :: string

record full_ticket = ticket +
  tkPlanFiles :: "string list"
  tkDecisions :: "answered list"
  tkNote :: string

definition alnum_word :: re where "alnum_word = plus (Byte is_alnum)"

definition ticketIDPattern :: re where
  "ticketIDPattern = Cat TextStart (Cat (Cat alnum_word (Star (Group 1 (Cat (lit ''-'') alnum_word)))) TextEnd)"

definition ticketSizes :: "string list" where
  "ticketSizes = [''S'', ''M'', ''L'']"

definition ErrTicketInvalid :: string where "ErrTicketInvalid = ''ticket is invalid''"
definition errDecisionInvalid :: string where "errDecisionInvalid = ''the plan's decision is not usable''"

text \<open>A decision's free text, and the settled decisions a ticket carries.\<close>

definition checkDecisionText :: "(nat \<Rightarrow> bool) \<Rightarrow> string \<Rightarrow> string \<Rightarrow> nat \<Rightarrow> string option" where
  "checkDecisionText table name s limit =
     (if blank s then Some (errDecisionInvalid @ '': '' @ name @ '' is empty'')
      else if length s > limit then Some (errDecisionInvalid @ '': '' @ name @ '' is over '' @ itoa (int limit) @ '' bytes'')
      else if CHR 0x0D \<in> set s \<or> CHR 0x0A \<in> set s \<or> \<not> printable table s
      then Some (errDecisionInvalid @ '': '' @ name @ '' is not one printable line'')
      else None)"

definition checkAnswer :: "(nat \<Rightarrow> bool) \<Rightarrow> answered \<Rightarrow> string option" where
  "checkAnswer table a =
     (case checkDecisionText table ''answer question'' (ansQuestion a) decisionQuestionLimit of
        Some e \<Rightarrow> Some e
      | None \<Rightarrow> checkDecisionText table ''answer choice'' (ansChoice a) decisionLabelLimit)"

text \<open>\<open>Encode\<close>: one line of JSON, the fields in the order the struct declares them.\<close>

definition json_list :: "string list \<Rightarrow> string" where
  "json_list xs = ''['' @ join '','' xs @ '']''"

definition json_field :: "string \<Rightarrow> string \<Rightarrow> string" where
  "json_field name v = json_string name @ '':'' @ v"

definition json_answer :: "answered \<Rightarrow> string" where
  "json_answer a = ''{'' @ json_field ''question'' (json_string (ansQuestion a)) @ '',''
     @ json_field ''choice'' (json_string (ansChoice a)) @ ''}''"

definition Encode :: "full_ticket \<Rightarrow> string" where
  "Encode t = ''{'' @ join '',''
     ([json_field ''id'' (json_string (tkID t)), json_field ''title'' (json_string (tkTitle t)),
       json_field ''size'' (json_string (tkSize t))]
      @ (if tkSizedBy t = [] then [] else [json_field ''sized_by'' (json_string (tkSizedBy t))])
      @ [json_field ''body'' (json_string (tkBody t))]
      @ (if tkPlanFiles t = [] then [] else [json_field ''plan_files'' (json_list (map json_string (tkPlanFiles t)))])
      @ (if tkDecisions t = [] then [] else [json_field ''decisions'' (json_list (map json_answer (tkDecisions t)))])
      @ (if tkFrontEnd t then [json_field ''front_end'' ''true''] else [])
      @ (if tkNote t = [] then [] else [json_field ''note'' (json_string (tkNote t))])) @ ''}''"

text \<open>\<open>Validate\<close>: the first thing wrong with the ticket.\<close>

definition invalid :: "string \<Rightarrow> string option" where
  "invalid what = Some (ErrTicketInvalid @ '': '' @ what)"

definition Validate :: "(nat \<Rightarrow> bool) \<Rightarrow> full_ticket \<Rightarrow> string option" where
  "Validate table t =
     (if length (tkID t) > maxTicketIDBytes \<or> \<not> MatchString ticketIDPattern (tkID t)
      then invalid (''id '' @ Quote table (truncate_text (tkID t) logErrorLimit) @ '' is not a branch-safe ticket id'')
      else if blank (tkTitle t) \<or> length (tkTitle t) > maxTicketTitleBytes \<or> \<not> printable table (tkTitle t)
      then invalid ''title is empty, over 256 bytes or not one printable line''
      else if tkSize t \<notin> set ticketSizes
      then invalid (''size '' @ Quote table (truncate_text (tkSize t) logErrorLimit) @ '' is not S, M or L'')
      else if length (tkSizedBy t) > maxSizedByBytes \<or> \<not> printable table (tkSizedBy t)
      then invalid ''sized-by is over 64 bytes or not one printable line''
      else if blank (tkBody t) \<or> length (tkBody t) > maxTicketBodyBytes \<or> \<not> utf8_valid (tkBody t)
      then invalid ''body is empty, over 32768 bytes or not UTF-8''
      else case List.map_filter (checkAnswer table) (tkDecisions t) of
             e # _ \<Rightarrow> invalid e
           | [] \<Rightarrow>
             if \<not> ValidNote (tkNote t) then invalid ''note is over 4096 bytes, not UTF-8 or holds a NUL''
             else if length (Encode t) > maxEncodedTicketBytes then invalid ''encoded ticket is over 98304 bytes''
             else None)"

definition BranchSegment :: "full_ticket \<Rightarrow> string" where
  "BranchSegment t = to_lower (tkID t)"

definition conventionalPrefix :: re where
  "conventionalPrefix = cats [TextStart, plus (Byte is_lower),
     opt (Group 1 (cats [lit ''('', Star (none_of '')''), lit '')''])), opt (lit ''!''), lit '': '']"

definition Subject :: "full_ticket \<Rightarrow> string" where
  "Subject t =
     (if contains (tkTitle t) (tkID t) then tkTitle t
      else case FindSubmatch conventionalPrefix (tkTitle t) of
             Some m \<Rightarrow> matchText m @ tkID t @ '' '' @ drop (length (matchText m)) (tkTitle t)
           | None \<Rightarrow> tkID t @ '' '' @ tkTitle t)"

definition newline :: string where "newline = [CHR 0x0A]"

definition Ticket_Text :: "full_ticket \<Rightarrow> string" where
  "Ticket_Text t =
     ''## '' @ tkID t @ '': '' @ tkTitle t
     @ (if tkSize t = [] then [] else '' (size '' @ tkSize t @ '')'')
     @ newline @ newline @ tkBody t
     @ (if tkDecisions t = [] then []
        else newline @ newline @ ''## Decisions the owner has already made'' @ newline
             @ concat (map (\<lambda>a. newline @ ''- '' @ ansQuestion a @ '': '' @ ansChoice a) (tkDecisions t)))
     @ (if tkNote t = [] then []
        else newline @ newline @ ''## Owner's note for this attempt'' @ newline @ newline @ tkNote t)"

section \<open>Issues and their labels\<close>

text \<open>A ticket's milestone, a phase of its project.\<close>

record milestone =
  msID :: string
  msName :: string
  msSortOrder :: rat

text \<open>The state type, the delegate, the project and the milestone are read by the project query alone.\<close>

record issue =
  isID :: string
  isUUID :: string
  isURL :: string
  isTitle :: string
  isBody :: string
  isPriority :: int
  isLabels :: "string list"
  isStateType :: string
  isDelegatedTo :: string
  isProject :: string
  isMilestone :: milestone
  isBlockedBy :: "string list"
  isBlocks :: "string list"
  isBlockedByOpen :: "string list"
  isBlockerStates :: "(string \<times> string) list"

definition RefusalSizeUnknown :: string where "RefusalSizeUnknown = ''size-unknown''"
definition RefusalAboveCeiling :: string where "RefusalAboveCeiling = ''size-above-ceiling''"
definition RefusalNoRepository :: string where "RefusalNoRepository = ''no-repository''"
definition RefusalNotAllowlist :: string where "RefusalNotAllowlist = ''repository-not-allowlisted''"
definition RefusalTicketInvalid :: string where "RefusalTicketInvalid = ''ticket-invalid''"
definition RefusalModelMalformed :: string where "RefusalModelMalformed = ''model-malformed''"
definition RefusalReviewIsBuild :: string where "RefusalReviewIsBuild = ''review-model-is-build-model''"
definition RefusalModelUnconfigured :: string where "RefusalModelUnconfigured = ''model-provider-unconfigured''"
definition RefusalModelNotOptedIn :: string where "RefusalModelNotOptedIn = ''model-per-token-not-opted-in''"

lemmas refusal_defs = RefusalSizeUnknown_def RefusalAboveCeiling_def RefusalNoRepository_def
  RefusalNotAllowlist_def RefusalTicketInvalid_def RefusalModelMalformed_def RefusalReviewIsBuild_def
  RefusalModelUnconfigured_def RefusalModelNotOptedIn_def

definition sizePrefix :: string where "sizePrefix = ''size:''"
definition repoPrefix :: string where "repoPrefix = ''repo:''"
definition modelPrefix :: string where "modelPrefix = ''model:''"
definition reviewModelPrefix :: string where "reviewModelPrefix = ''review-model:''"
definition planModelPrefix :: string where "planModelPrefix = ''plan-model:''"
definition sizedByLabel :: string where "sizedByLabel = ''linear-label''"
definition sizedBySignals :: string where "sizedBySignals = ''deterministic''"

fun labelValue :: "string list \<Rightarrow> string \<Rightarrow> string option" where
  "labelValue [] p = None"
| "labelValue (l # ls) p =
     (case cut_prefix l p of (v, found) \<Rightarrow> if found \<and> v \<noteq> [] then Some v else labelValue ls p)"

text \<open>A refusal is its reason and its detail.\<close>

definition repository :: "string list \<Rightarrow> string list \<Rightarrow> (string \<times> string) + string" where
  "repository labels allow =
     (case labelValue labels repoPrefix of
        None \<Rightarrow> Inl (RefusalNoRepository, ''no '' @ repoPrefix @ '' label'')
      | Some label \<Rightarrow>
          (case find (\<lambda>repo. EqualFold repo label) allow of
             Some repo \<Rightarrow> Inr repo
           | None \<Rightarrow> Inl (RefusalNotAllowlist, label @ '' is not an allowlisted repository'')))"

definition noPriorityRank :: int where "noPriorityRank = 5"

definition PriorityRank :: "int \<Rightarrow> string + int" where
  "PriorityRank p =
     (if p = 0 then Inr noPriorityRank
      else if p \<in> {1, 2, 3, 4} then Inr p
      else Inl (ErrTicketInvalid @ '': Linear priority '' @ itoa p @ '' is not 0 to 4''))"

definition Overrides :: "issue \<Rightarrow> model_labels" where
  "Overrides issue =
     (let value = (\<lambda>p. case labelValue (isLabels issue) p of None \<Rightarrow> [] | Some v \<Rightarrow> v) in
      \<lparr>labelBuild = value modelPrefix, labelReview = value reviewModelPrefix,
       labelPlan = (case labelValue (isLabels issue) planModelPrefix of
          None \<Rightarrow> [] | Some models \<Rightarrow> split_char (CHR '','') models)\<rparr>)"

definition ticketSize :: "issue \<Rightarrow> (string \<times> string) + (string \<times> string)" where
  "ticketSize issue =
     (case labelValue (isLabels issue) sizePrefix of
        None \<Rightarrow>
          (case signalSize (isTitle issue) (isBody issue) of (got, why) \<Rightarrow>
             if got = aboveCeiling
             then Inl (RefusalAboveCeiling, ''sized '' @ got @ '' by its signals, above '' @ ceilingSize @ '': '' @ why)
             else Inr (got, sizedBySignals))
      | Some label \<Rightarrow>
          let s = ToUpper label in
          if s \<in> set ticketSizes then Inr (s, sizedByLabel)
          else if s = aboveCeiling then Inl (RefusalAboveCeiling, ''size '' @ s @ '' is above '' @ ceilingSize)
          else Inl (RefusalSizeUnknown, ''size '' @ label @ '' is not S, M or L''))"

section \<open>Building a queued run\<close>

text \<open>A refusal against a ticket: the document \<open>Reject\<close> files under the ticket's id.\<close>

definition refusal :: "issue \<Rightarrow> string \<times> string \<Rightarrow> time \<Rightarrow> string \<times> rejection" where
  "refusal issue why now = (isID issue, \<lparr>rejReason = fst why, rejDetail = snd why, rejAt = now\<rparr>)"

definition new_ticket :: "issue \<Rightarrow> string \<times> string \<Rightarrow> ticket" where
  "new_ticket issue sized = \<lparr>tkID = isID issue, tkTitle = isTitle issue, tkBody = isBody issue, tkSize = fst sized,
     tkSizedBy = snd sized, tkFrontEnd = list_ex (\<lambda>l. EqualFold l FrontEndLabel) (isLabels issue)\<rparr>"

definition as_full :: "ticket \<Rightarrow> full_ticket" where
  "as_full t = ticket.extend t \<lparr>tkPlanFiles = [], tkDecisions = [], tkNote = []\<rparr>"

definition build :: "(nat \<Rightarrow> bool) \<Rightarrow> string list \<Rightarrow> time \<Rightarrow> issue \<Rightarrow> (string \<times> rejection) + queued" where
  "build table allow now issue =
     (let refuse = (\<lambda>why. Inl (refusal issue why now)) in
      case repository (isLabels issue) allow of
        Inl why \<Rightarrow> refuse why
      | Inr repo \<Rightarrow>
        (case ticketSize issue of
           Inl why \<Rightarrow> refuse why
         | Inr sized \<Rightarrow>
           (case PriorityRank (isPriority issue) of
              Inl e \<Rightarrow> refuse (RefusalTicketInvalid, e)
            | Inr rank \<Rightarrow>
              let t = new_ticket issue sized in
              (case Validate table (as_full t) of
                 Some e \<Rightarrow> refuse (RefusalTicketInvalid, e)
               | None \<Rightarrow> Inr \<lparr>qRunID = isID issue, qTicket = t, qRepo = repo, qPrivate = False, qPriority = rank,
                   qBlockedBy = isBlockedBy issue, qBlocks = isBlocks issue, qModels = no_labels, qAt = now\<rparr>))))"

section \<open>The models a ticket names\<close>

definition maxModelBytes :: nat where "maxModelBytes = 200"

definition modelPattern :: re where
  "modelPattern = Cat TextStart (Cat (cats [
     Byte (\<lambda>c. is_lower c \<or> is_digit c), Star (Byte (\<lambda>c. is_lower c \<or> is_digit c \<or> c = CHR ''-'')),
     plus (Group 1 (cats [lit ''/'', Byte is_alnum, Star (Byte (\<lambda>c. is_alnum c \<or> c \<in> set ''._:-''))]))]) TextEnd)"

definition ValidModel :: "string \<Rightarrow> bool" where
  "ValidModel model \<longleftrightarrow> length model \<le> maxModelBytes \<and> MatchString modelPattern model"

fun model_list_error :: "(nat \<Rightarrow> bool) \<Rightarrow> string \<Rightarrow> string list \<Rightarrow> string list \<Rightarrow> string option" where
  "model_list_error table label seen [] = None"
| "model_list_error table label seen (m # ms) =
     (if \<not> ValidModel m then Some (label @ '' model '' @ Quote table m @ '' is not provider/model'')
      else if m \<in> set seen then Some (label @ '' model '' @ Quote table m @ '' is listed twice'')
      else model_list_error table label (m # seen) ms)"

definition validateModelList :: "(nat \<Rightarrow> bool) \<Rightarrow> string \<Rightarrow> string list \<Rightarrow> string option" where
  "validateModelList table label models =
     (if models = [] then Some (label @ '' models: at least one model is required'')
      else model_list_error table label [] models)"

definition ValidatePlanModels :: "(nat \<Rightarrow> bool) \<Rightarrow> string list \<Rightarrow> string option" where
  "ValidatePlanModels table models = validateModelList table ''plan'' models"

definition DefaultPlanModel :: string where
  "DefaultPlanModel = ''command-code/deepseek/deepseek-v4.1-flash''"

definition DefaultReviewModels :: "string list" where
  "DefaultReviewModels = [''command-code/meta/muse-spark-1.3-contributor'']"

definition embeddedFallbacks :: "string list" where
  "embeddedFallbacks = [''command-code/poolside/laguna-s-2.1-free'']"

definition fallbackModels :: "string \<Rightarrow> string list" where
  "fallbackModels model = (if model \<noteq> DefaultModel then [] else embeddedFallbacks)"

definition ValidateReviewModels :: "(nat \<Rightarrow> bool) \<Rightarrow> string list \<Rightarrow> string \<Rightarrow> string option" where
  "ValidateReviewModels table models builder =
     (case validateModelList table ''review'' models of
        Some e \<Rightarrow> Some e
      | None \<Rightarrow> map_option (\<lambda>m. ''review model '' @ Quote table m @ '' is the build model or one of its fallbacks'')
          (find (\<lambda>m. m \<in> set (builder # fallbackModels builder)) models))"

text \<open>The owner's plan record of a provider, of which admission reads the billing and the consents.\<close>

record provider_plan =
  planBilling :: string
  planOptedIn :: bool
  planPrivateOptIn :: bool

definition BillingPerToken :: string where "BillingPerToken = ''per-token''"

definition Configured :: "provider_plan \<Rightarrow> bool" where
  "Configured p \<longleftrightarrow> planBilling p \<noteq> []"

definition NeedsOptIn :: "provider_plan \<Rightarrow> bool" where
  "NeedsOptIn p \<longleftrightarrow> planBilling p = BillingPerToken"

text \<open>\<open>plans p\<close> is the read of provider \<open>p\<close>'s record, \<open>None\<close> when none is defined; an empty refusal is none.\<close>

type_synonym plan_reads = "string \<Rightarrow> store_err + provider_plan option"

definition planRefusal :: "plan_reads \<Rightarrow> string \<Rightarrow> store_err + (string \<times> string)" where
  "planRefusal plans p =
     and_then (plans p) (\<lambda>plan. Inr
       (case plan of
          Some pl \<Rightarrow>
            if \<not> Configured pl
            then (RefusalModelUnconfigured, ''provider '' @ p @ '' has no plan record with its billing recorded'')
            else if NeedsOptIn pl \<and> \<not> planOptedIn pl
            then (RefusalModelNotOptedIn, ''provider '' @ p @ '' bills per token and is not opted in (runner plan-optin)'')
            else ([], [])
        | None \<Rightarrow> (RefusalModelUnconfigured, ''provider '' @ p @ '' has no plan record with its billing recorded'')))"

definition malformedModel :: "(nat \<Rightarrow> bool) \<Rightarrow> model_labels \<Rightarrow> string \<times> string" where
  "malformedModel table m =
     (if labelBuild m \<noteq> [] \<and> \<not> ValidModel (labelBuild m)
      then (RefusalModelMalformed, modelPrefix @ labelBuild m @ '' is not provider/model'')
      else if labelReview m \<noteq> [] \<and> \<not> ValidModel (labelReview m)
      then (RefusalModelMalformed, reviewModelPrefix @ labelReview m @ '' is not provider/model'')
      else if labelPlan m = [] then ([], [])
      else (case ValidatePlanModels table (labelPlan m) of
              Some e \<Rightarrow> (RefusalModelMalformed, e) | None \<Rightarrow> ([], [])))"

fun check_plans :: "plan_reads \<Rightarrow> string list \<Rightarrow> string list \<Rightarrow> store_err + (string \<times> string)" where
  "check_plans plans seen [] = Inr ([], [])"
| "check_plans plans seen (model # models) =
     (if model = [] \<or> Provider model \<in> set seen then check_plans plans seen models
      else and_then (planRefusal plans (Provider model)) (\<lambda>why.
             if fst why \<noteq> [] then Inr why else check_plans plans (Provider model # seen) models))"

definition checkModels ::
  "(nat \<Rightarrow> bool) \<Rightarrow> plan_reads \<Rightarrow> model_labels \<Rightarrow> string \<Rightarrow> store_err + (string \<times> string)" where
  "checkModels table plans m defaultModel =
     (if fst (malformedModel table m) \<noteq> [] then Inr (malformedModel table m)
      else
        let buildWith = str_or (labelBuild m) defaultModel;
            review = (if labelReview m = [] then DefaultReviewModels else [labelReview m]) in
        if buildWith \<in> set review
        then Inr (RefusalReviewIsBuild, ''review model '' @ buildWith @ '' is the build model'')
        else check_plans plans [] ([labelBuild m, labelReview m] @ labelPlan m))"

section \<open>What an admitted ticket is\<close>

text \<open>The ids the pattern accepts: alphanumeric words joined by single hyphens.\<close>

definition alnum_text :: "string \<Rightarrow> bool" where
  "alnum_text w \<longleftrightarrow> w \<noteq> [] \<and> list_all is_alnum w"

lemma repeated_bytes: "repeated {[c] | c. P c} w \<longleftrightarrow> list_all P w"
proof
  show "repeated {[c] | c. P c} w \<Longrightarrow> list_all P w"
    by (induction rule: repeated.induct) auto
  show "list_all P w \<Longrightarrow> repeated {[c] | c. P c} w"
  proof (induction w)
    case (Cons c w)
    then show ?case using repeated.more [of "[c]" _ w] by auto
  qed (simp add: repeated.none)
qed

lemma lang_alnum_word: "lang alnum_word = {w. alnum_text w}"
proof (intro set_eqI iffI)
  fix w assume "w \<in> lang alnum_word"
  then show "w \<in> {w. alnum_text w}" by (auto simp: alnum_word_def plus_def repeated_bytes alnum_text_def)
next
  fix w assume "w \<in> {w. alnum_text w}"
  then obtain c u where "w = [c] @ u" "is_alnum c" "list_all is_alnum u" by (cases w) (auto simp: alnum_text_def)
  then show "w \<in> lang alnum_word" unfolding alnum_word_def plus_def
    by (simp add: repeated_bytes) (rule exI [of _ "[c]"], simp)
qed

lemma repeated_hyphens:
  "repeated {v @ w | v w. v \<in> {''-''} \<and> w \<in> {w. alnum_text w}} s \<Longrightarrow>
     \<exists>ws. list_all alnum_text ws \<and> s = concat (map (\<lambda>w. ''-'' @ w) ws)"
proof (induction rule: repeated.induct)
  case (more v w)
  then obtain u ws where "v = ''-'' @ u" "alnum_text u" "list_all alnum_text ws" "w = concat (map (\<lambda>w. ''-'' @ w) ws)"
    by auto
  then show ?case by (intro exI [of _ "u # ws"]) simp
qed (auto intro: exI [of _ "[]"])

lemma hyphens_repeated:
  "list_all alnum_text ws \<Longrightarrow>
     repeated {v @ w | v w. v \<in> {''-''} \<and> w \<in> {w. alnum_text w}} (concat (map (\<lambda>w. ''-'' @ w) ws))"
proof (induction ws)
  case (Cons w ws)
  then show ?case using repeated.more [of "''-'' @ w" "{v @ w | v w. v \<in> {''-''} \<and> w \<in> {w. alnum_text w}}"] by auto
qed (simp add: repeated.none)

lemma join_hyphens: "join ''-'' (w # ws) = w @ concat (map (\<lambda>w. ''-'' @ w) ws)"
  by (induction ws arbitrary: w) auto

lemma lang_hyphen: "lang (lit ''-'') = {''-''}"
  by (auto simp: lit_def one_of_def)

lemma ticketIDPattern_iff:
  "MatchString ticketIDPattern s \<longleftrightarrow> (\<exists>ws. ws \<noteq> [] \<and> list_all alnum_text ws \<and> s = join ''-'' ws)"
proof -
  let ?H = "{v @ w | v w. v \<in> {''-''} \<and> w \<in> {w. alnum_text w}}"
  have "MatchString ticketIDPattern s \<longleftrightarrow> (\<exists>v u. s = v @ u \<and> alnum_text v \<and> repeated ?H u)"
    unfolding ticketIDPattern_def
    by (subst anchored_match)
      (simp add: alnum_word_def plus_def lit_def one_of_def, simp del: ex_simps add: lang_alnum_word lang_hyphen)
  also have "\<dots> \<longleftrightarrow> (\<exists>w ws. s = w @ concat (map (\<lambda>w. ''-'' @ w) ws) \<and> alnum_text w \<and> list_all alnum_text ws)"
    using repeated_hyphens hyphens_repeated by blast
  also have "\<dots> \<longleftrightarrow> (\<exists>ws. ws \<noteq> [] \<and> list_all alnum_text ws \<and> s = join ''-'' ws)"
  proof (intro iffI)
    assume "\<exists>w ws. s = w @ concat (map (\<lambda>w. ''-'' @ w) ws) \<and> alnum_text w \<and> list_all alnum_text ws"
    then obtain w ws where "s = join ''-'' (w # ws)" "alnum_text w" "list_all alnum_text ws" by (auto simp: join_hyphens)
    then show "\<exists>ws. ws \<noteq> [] \<and> list_all alnum_text ws \<and> s = join ''-'' ws" by (intro exI [of _ "w # ws"]) simp
  next
    assume "\<exists>ws. ws \<noteq> [] \<and> list_all alnum_text ws \<and> s = join ''-'' ws"
    then obtain w ws where "list_all alnum_text (w # ws)" "s = join ''-'' (w # ws)" by (metis list.exhaust)
    then show "\<exists>w ws. s = w @ concat (map (\<lambda>w. ''-'' @ w) ws) \<and> alnum_text w \<and> list_all alnum_text ws"
      by (auto simp: join_hyphens)
  qed
  finally show ?thesis .
qed

lemma ticket_id_chars:
  assumes "MatchString ticketIDPattern s"
  shows "s \<noteq> []" and "c \<in> set s \<Longrightarrow> is_alnum c \<or> c = CHR ''-''"
proof -
  obtain w ws where s: "s = w @ concat (map (\<lambda>w. ''-'' @ w) ws)" "alnum_text w" "list_all alnum_text ws"
    using assms unfolding ticketIDPattern_iff by (metis join_hyphens list.exhaust list.pred_inject(2))
  then show "s \<noteq> []" by (simp add: alnum_text_def)
  show "c \<in> set s \<Longrightarrow> is_alnum c \<or> c = CHR ''-''"
    using s by (auto simp: alnum_text_def list_all_iff split: if_splits)
qed

lemma ticket_id_ok: "MatchString ticketIDPattern s \<Longrightarrow> run_id_ok s"
  using ticket_id_chars(2) [of s "CHR ''#''"]
  by (auto simp: run_id_ok_def is_alnum_def is_upper_def is_lower_def is_digit_def)

lemma Validate_ok:
  "Validate table t = None \<Longrightarrow> length (tkID t) \<le> 64 \<and> MatchString ticketIDPattern (tkID t) \<and> \<not> blank (tkTitle t)
     \<and> length (tkTitle t) \<le> 256 \<and> tkSize t \<in> set ticketSizes \<and> \<not> blank (tkBody t) \<and> length (tkBody t) \<le> 32768
     \<and> utf8_valid (tkBody t) \<and> length (tkSizedBy t) \<le> 64 \<and> length (Encode t) \<le> 98304"
  by (auto simp: Validate_def invalid_def maxTicketIDBytes_def maxTicketTitleBytes_def maxTicketBodyBytes_def
      maxSizedByBytes_def maxEncodedTicketBytes_def split: if_splits list.splits)

lemma repository_ok:
  "repository labels allow = Inr repo \<Longrightarrow>
     repo \<in> set allow \<and> (\<exists>label. labelValue labels repoPrefix = Some label \<and> EqualFold repo label)"
  by (auto simp: repository_def find_Some_iff split: option.splits)

lemma PriorityRank_ok: "PriorityRank p = Inr rank \<Longrightarrow> 1 \<le> rank \<and> rank \<le> 5"
  by (auto simp: PriorityRank_def noPriorityRank_def split: if_splits)

lemma build_ok:
  assumes "build table allow now issue = Inr q"
  obtains sized rank where "repository (isLabels issue) allow = Inr (qRepo q)" "ticketSize issue = Inr sized"
    "PriorityRank (isPriority issue) = Inr (qPriority q)" "Validate table (as_full (qTicket q)) = None"
    "qTicket q = new_ticket issue sized" "qRunID q = isID issue" "qAt q = now" "qModels q = no_labels"
  using assms by (auto simp: build_def Let_def split: sum.splits option.splits)

text \<open>The accepted models: well formed, not the model of the other phase, and of a plan the owner has opened.\<close>

definition plan_open :: "provider_plan \<Rightarrow> bool" where
  "plan_open p \<longleftrightarrow> Configured p \<and> (NeedsOptIn p \<longrightarrow> planOptedIn p)"

lemma refusals_nonempty [simp]:
  "RefusalModelMalformed \<noteq> []" "RefusalReviewIsBuild \<noteq> []" "RefusalModelUnconfigured \<noteq> []" "RefusalModelNotOptedIn \<noteq> []"
  "RefusalNoRepository \<noteq> []" "RefusalNotAllowlist \<noteq> []" "RefusalSizeUnknown \<noteq> []" "RefusalAboveCeiling \<noteq> []"
  "RefusalTicketInvalid \<noteq> []"
  by (simp_all add: refusal_defs)

lemma planRefusal_ok:
  "planRefusal plans p = Inr why \<Longrightarrow> fst why = [] \<longleftrightarrow> (\<exists>pl. plans p = Inr (Some pl) \<and> plan_open pl)"
  by (cases "plans p") (auto simp: planRefusal_def plan_open_def split: option.splits if_splits)

lemma check_plans_ok:
  "check_plans plans seen models = Inr why \<Longrightarrow> fst why = [] \<Longrightarrow>
     m \<in> set models \<Longrightarrow> m \<noteq> [] \<Longrightarrow> Provider m \<notin> set seen \<Longrightarrow> \<exists>pl. plans (Provider m) = Inr (Some pl) \<and> plan_open pl"
proof (induction plans seen models rule: check_plans.induct)
  case (2 plans seen model models)
  show ?case
  proof (cases "model = [] \<or> Provider model \<in> set seen")
    case True
    with 2 show ?thesis by auto
  next
    case False
    with "2.prems"(1) obtain why' where w: "planRefusal plans (Provider model) = Inr why'"
      "(if fst why' \<noteq> [] then Inr why' else check_plans plans (Provider model # seen) models) = Inr why"
      by (auto simp: and_then_Inr)
    with "2.prems"(2) have w': "fst why' = []" "check_plans plans (Provider model # seen) models = Inr why"
      by (auto split: if_splits)
    show ?thesis
    proof (cases "Provider m = Provider model")
      case True
      with planRefusal_ok [OF w(1)] w'(1) show ?thesis by auto
    next
      case distinct: False
      then show ?thesis using "2.IH"(2) [OF False, of why'] 2 w' by auto
    qed
  qed
qed simp

lemma model_list_ok: "model_list_error table label seen ms = None \<Longrightarrow> distinct ms \<and> list_all ValidModel ms \<and> set ms \<inter> set seen = {}"
proof (induction ms arbitrary: seen)
  case (Cons m ms)
  then show ?case using Cons.IH [of "m # seen"] by (auto split: if_splits)
qed simp

definition named_models :: "model_labels \<Rightarrow> string list" where
  "named_models m = filter (\<lambda>n. n \<noteq> []) ([labelBuild m, labelReview m] @ labelPlan m)"

lemma malformed_none:
  "fst (malformedModel table m) = [] \<Longrightarrow> list_all ValidModel (named_models m) \<and> distinct (labelPlan m)"
  using model_list_ok [of table "''plan''" "[]" "labelPlan m"]
  by (auto simp: malformedModel_def named_models_def ValidatePlanModels_def validateModelList_def list_all_iff
      split: if_splits option.splits)

lemma checkModels_ok:
  assumes "checkModels table plans m defaultModel = Inr why" and "fst why = []"
  shows "list_all ValidModel (named_models m)"
    and "str_or (labelBuild m) defaultModel \<notin> set (if labelReview m = [] then DefaultReviewModels else [labelReview m])"
    and "n \<in> set (named_models m) \<Longrightarrow> \<exists>pl. plans (Provider n) = Inr (Some pl) \<and> plan_open pl"
proof -
  have ok: "fst (malformedModel table m) = []"
    and review: "str_or (labelBuild m) defaultModel \<notin> set (if labelReview m = [] then DefaultReviewModels else [labelReview m])"
    and check: "check_plans plans [] ([labelBuild m, labelReview m] @ labelPlan m) = Inr why"
    using assms by (auto simp: checkModels_def Let_def split: if_splits)
  show "list_all ValidModel (named_models m)" using malformed_none [OF ok] ..
  show "str_or (labelBuild m) defaultModel \<notin> set (if labelReview m = [] then DefaultReviewModels else [labelReview m])"
    by (rule review)
  show "\<exists>pl. plans (Provider n) = Inr (Some pl) \<and> plan_open pl" if "n \<in> set (named_models m)"
    using check_plans_ok [OF check assms(2), of n] that by (auto simp: named_models_def simp del: filter.simps)
qed

end
