(* ===== verification/Projects.thy ===== *)
theory Projects
  imports Tickets
begin

text \<open>
  The phases of a project (\<open>internal/dispatcher/projects.go\<close>): the progress of its milestones, the
  tickets a start may delegate, what a poll reads of a project and why a start is refused.
\<close>

section \<open>Eligible tickets\<close>

definition stateTypeCompleted :: string where "stateTypeCompleted = ''completed''"
definition stateTypeCanceled :: string where "stateTypeCanceled = ''canceled''"

definition unstartedStates :: "string list" where "unstartedStates = [''backlog'', ''unstarted'']"

definition delegateLane :: re where
  "delegateLane = cats [TextStart, lit ''['', Group 1 (alts (map fold_lit [''be'', ''fe'', ''slice''])), lit '']'']"

definition workflowPath :: string where "workflowPath = ''.github/workflows/''"

definition workflowConstraint :: re where
  "workflowConstraint =
     (let gap = plus (one_of perl_space); tick = opt (lit [CHR 0x60]) in
      cats [WordEdge, lit ''Do'', gap, lit ''not'', gap, lit ''edit'', gap, lit ''anything'', gap, lit ''under'', gap,
        tick, lit workflowPath, tick, lit ''.'', Alt (one_of perl_space) TextEnd])"

definition holdLabel :: string where "holdLabel = ''wingman:hold''"

definition phaseEligible :: "issue \<Rightarrow> string \<Rightarrow> ticket_run \<Rightarrow> bool" where
  "phaseEligible issue repo run \<longleftrightarrow>
     \<not> (\<not> MatchString delegateLane (isTitle issue)
        \<or> isStateType issue \<notin> set unstartedStates
        \<or> isDelegatedTo issue \<noteq> [] \<or> runEnded run \<or> runQueued run \<or> runStage run \<noteq> []
        \<or> list_ex (\<lambda>l. EqualFold l holdLabel) (isLabels issue)
        \<or> contains (ReplaceAll workflowConstraint (isBody issue) '' '') workflowPath)
     \<and> (case repository (isLabels issue) [repo] of Inl _ \<Rightarrow> False | Inr _ \<Rightarrow> True)
     \<and> (case ticketSize issue of Inl _ \<Rightarrow> False | Inr _ \<Rightarrow> True)"

section \<open>Progress\<close>

record phase_progress =
  ppName :: string
  ppDone :: nat
  ppTotal :: nat

record phase_count =
  pcOrder :: rat
  pcProgress :: phase_progress

definition counts_in_phase :: "issue \<Rightarrow> bool" where
  "counts_in_phase issue \<longleftrightarrow> \<not> (msID (isMilestone issue) = [] \<or> isStateType issue = stateTypeCanceled)"

definition completed :: "issue \<Rightarrow> bool" where
  "completed issue \<longleftrightarrow> isStateType issue = stateTypeCompleted"

definition add_to_phase :: "issue \<Rightarrow> phase_count \<Rightarrow> phase_count" where
  "add_to_phase issue p =
     (if ppName (pcProgress p) = msName (isMilestone issue)
      then p\<lparr>pcProgress := (pcProgress p)\<lparr>ppTotal := ppTotal (pcProgress p) + 1,
             ppDone := ppDone (pcProgress p) + (if completed issue then 1 else 0)\<rparr>\<rparr>
      else p)"

definition count_issue :: "phase_count list \<Rightarrow> issue \<Rightarrow> phase_count list" where
  "count_issue phases issue =
     (if \<not> counts_in_phase issue then phases
      else let name = msName (isMilestone issue) in
        map (add_to_phase issue)
          (if name \<in> set (map (ppName \<circ> pcProgress) phases) then phases
           else phases @ [\<lparr>pcOrder = msSortOrder (isMilestone issue), pcProgress = \<lparr>ppName = name, ppDone = 0, ppTotal = 0\<rparr>\<rparr>]))"

definition phaseProgress :: "issue list \<Rightarrow> phase_progress list \<times> string" where
  "phaseProgress issues =
     (let phases = sort_key pcOrder (sort_key (ppName \<circ> pcProgress) (foldl count_issue [] issues));
          progress = map pcProgress phases
      in (progress, case find (\<lambda>p. ppDone p < ppTotal p) progress of None \<Rightarrow> [] | Some p \<Rightarrow> ppName p))"

section \<open>A project's view\<close>

record phase_project =
  phRepository :: string
  phLinearProject :: string
  phStartPhase :: string
  phStartRequestedAt :: time

record phase_ticket =
  ptID :: string
  ptTitle :: string
  ptStage :: string

record phase_snapshot =
  snRepository :: string
  snPhases :: "phase_progress list"
  snCurrent :: string
  snInFlight :: "phase_ticket list"
  snQueued :: nat
  snQueuedBlocked :: nat
  snEligible :: "string list"
  snEligibleBlocked :: nat
  snUnreadable :: bool
  snReason :: string
  snAt :: time

definition StartRefusedPhaseMoved :: string where "StartRefusedPhaseMoved = ''phase-moved''"
definition StartRefusedUnreadable :: string where "StartRefusedUnreadable = ''linear-unreadable''"
definition StartRefusedUnreachable :: string where "StartRefusedUnreachable = ''repository-unreachable''"
definition StartRefusedUnchecked :: string where "StartRefusedUnchecked = ''repository-unchecked''"
definition StartRefusedNoPhase :: string where "StartRefusedNoPhase = ''no-current-phase''"
definition StartRefusedNoEligible :: string where "StartRefusedNoEligible = ''no-eligible-ticket''"
definition SnapshotRunsUnreadable :: string where "SnapshotRunsUnreadable = ''runs-unreadable''"

definition unreadableSnapshot :: "string \<Rightarrow> string \<Rightarrow> time \<Rightarrow> phase_snapshot" where
  "unreadableSnapshot repo reason now = \<lparr>snRepository = repo, snPhases = [], snCurrent = [], snInFlight = [], snQueued = 0,
     snQueuedBlocked = 0, snEligible = [], snEligibleBlocked = 0, snUnreadable = True, snReason = reason, snAt = now\<rparr>"

record phase_view =
  viewSnapshot :: phase_snapshot
  viewEligible :: "issue list"

definition no_run :: ticket_run where "no_run = \<lparr>runEnded = False, runQueued = False, runStage = []\<rparr>"

definition linearProjects :: "phase_project list \<Rightarrow> string list" where
  "linearProjects projects = foldl (\<lambda>names p. if phLinearProject p \<in> set names then names else names @ [phLinearProject p]) [] projects"

definition open_tickets :: "string \<Rightarrow> issue list \<Rightarrow> issue list" where
  "open_tickets current issues = filter (\<lambda>i. current \<noteq> [] \<and> msName (isMilestone i) = current
     \<and> isStateType i \<noteq> stateTypeCompleted \<and> isStateType i \<noteq> stateTypeCanceled) issues"

text \<open>\<open>projectView\<close>, \<open>read_runs\<close> the read of the run rows of the tickets it names.\<close>

definition projectView ::
  "(string list \<Rightarrow> 'e + (string \<times> ticket_run) list) \<Rightarrow> phase_project \<Rightarrow> issue list \<Rightarrow> time \<Rightarrow> phase_view" where
  "projectView read_runs p all now =
     (let issues = filter (\<lambda>i. EqualFold (isProject i) (phLinearProject p)) all in
      case phaseProgress issues of (progress, current) \<Rightarrow>
        let open_now = open_tickets current issues; ids = map isID open_now in
        case (if ids \<noteq> [] then read_runs ids else Inr []) of
          Inl _ \<Rightarrow> \<lparr>viewSnapshot = unreadableSnapshot (phRepository p) SnapshotRunsUnreadable now, viewEligible = []\<rparr>
        | Inr rows \<Rightarrow>
          let run = (\<lambda>i. case map_of rows (isID i) of None \<Rightarrow> no_run | Some r \<Rightarrow> r);
              waiting = filter (\<lambda>i. runStage (run i) = [] \<and> runQueued (run i)) open_now;
              eligible = filter (\<lambda>i. phaseEligible i (phRepository p) (run i)) open_now;
              blocked = (\<lambda>i. isBlockedByOpen i \<noteq> [])
          in \<lparr>viewSnapshot = \<lparr>snRepository = phRepository p, snPhases = progress, snCurrent = current,
                snInFlight = map (\<lambda>i. \<lparr>ptID = isID i, ptTitle = isTitle i, ptStage = runStage (run i)\<rparr>)
                  (filter (\<lambda>i. runStage (run i) \<noteq> []) open_now),
                snQueued = length waiting, snQueuedBlocked = length (filter blocked waiting),
                snEligible = map isID eligible, snEligibleBlocked = length (filter blocked eligible),
                snUnreadable = False, snReason = [], snAt = now\<rparr>,
              viewEligible = eligible\<rparr>)"

text \<open>
  Why \<open>startPhase\<close> refuses, empty when it does not; \<open>reach\<close> is whether this poll read the
  repository, and whether it could.
\<close>

definition start_refusal :: "phase_project \<Rightarrow> phase_view \<Rightarrow> bool option \<Rightarrow> string" where
  "start_refusal p v reach =
     (let s = viewSnapshot v in
      if snUnreadable s then snReason s
      else if reach = None then StartRefusedUnchecked
      else if reach \<noteq> Some True then StartRefusedUnreachable
      else if snCurrent s = [] then StartRefusedNoPhase
      else if snCurrent s \<noteq> phStartPhase p then StartRefusedPhaseMoved
      else if viewEligible v = [] then StartRefusedNoEligible
      else [])"

section \<open>The counts\<close>

definition in_phase :: "issue list \<Rightarrow> string \<Rightarrow> issue list" where
  "in_phase issues name = filter (\<lambda>i. counts_in_phase i \<and> msName (isMilestone i) = name) issues"

lemma count_issues:
  defines "names \<equiv> \<lambda>ps. map (ppName \<circ> pcProgress) ps"
  shows "distinct (names (foldl count_issue [] issues))
    \<and> set (names (foldl count_issue [] issues)) = {msName (isMilestone i) | i. i \<in> set issues \<and> counts_in_phase i}
    \<and> (\<forall>p \<in> set (foldl count_issue [] issues).
         ppTotal (pcProgress p) = length (in_phase issues (ppName (pcProgress p)))
         \<and> ppDone (pcProgress p) = length (filter completed (in_phase issues (ppName (pcProgress p)))))"
proof (induction issues rule: rev_induct)
  case Nil
  show ?case by (simp add: names_def)
next
  case (snoc i issues)
  let ?ps = "foldl count_issue [] issues"
  have kept: "ppName (pcProgress (add_to_phase i p)) = ppName (pcProgress p)" for p by (simp add: add_to_phase_def)
  show ?case
  proof (cases "counts_in_phase i")
    case False
    then have "in_phase (issues @ [i]) n = in_phase issues n" for n by (simp add: in_phase_def)
    with False snoc show ?thesis by (auto simp: count_issue_def)
  next
    case True
    let ?name = "msName (isMilestone i)"
    let ?more = "if ?name \<in> set (names ?ps) then ?ps
      else ?ps @ [\<lparr>pcOrder = msSortOrder (isMilestone i), pcProgress = \<lparr>ppName = ?name, ppDone = 0, ppTotal = 0\<rparr>\<rparr>]"
    have step: "foldl count_issue [] (issues @ [i]) = map (add_to_phase i) ?more"
      using True by (simp add: count_issue_def Let_def names_def)
    have same: "names (map (add_to_phase i) qs) = names qs" for qs by (simp add: names_def kept)
    have phase: "in_phase (issues @ [i]) n = (if n = ?name then in_phase issues n @ [i] else in_phase issues n)" for n
      using True by (simp add: in_phase_def)
    have none: "in_phase issues ?name = []" if "?name \<notin> set (names ?ps)"
      using snoc that by (auto simp: in_phase_def filter_empty_conv)
    have counts: "ppTotal (pcProgress p) = length (in_phase issues (ppName (pcProgress p)))
        \<and> ppDone (pcProgress p) = length (filter completed (in_phase issues (ppName (pcProgress p))))"
      if "p \<in> set ?more" for p
      using that snoc none by (auto split: if_splits)
    have "distinct (names ?more)" using snoc by (auto simp: names_def)
    moreover have "set (names ?more) = {msName (isMilestone j) | j. j \<in> set (issues @ [i]) \<and> counts_in_phase j}"
      using snoc True by (auto simp: names_def)
    moreover have "\<forall>p \<in> set (map (add_to_phase i) ?more).
        ppTotal (pcProgress p) = length (in_phase (issues @ [i]) (ppName (pcProgress p)))
        \<and> ppDone (pcProgress p) = length (filter completed (in_phase (issues @ [i]) (ppName (pcProgress p))))"
    proof
      fix q assume "q \<in> set (map (add_to_phase i) ?more)"
      then obtain p where p: "p \<in> set ?more" "q = add_to_phase i p" by auto
      show "ppTotal (pcProgress q) = length (in_phase (issues @ [i]) (ppName (pcProgress q)))
        \<and> ppDone (pcProgress q) = length (filter completed (in_phase (issues @ [i]) (ppName (pcProgress q))))"
        using counts [OF p(1)] unfolding p(2) kept phase by (auto simp: add_to_phase_def)
    qed
    ultimately show ?thesis unfolding step same by blast
  qed
qed

lemma phaseProgress_counts:
  assumes "p \<in> set (fst (phaseProgress issues))"
  shows "ppTotal p = length (in_phase issues (ppName p))"
    and "ppDone p = length (filter completed (in_phase issues (ppName p)))"
  using assms count_issues [of issues] by (auto simp: phaseProgress_def Let_def)

lemma phaseProgress_names:
  "distinct (map ppName (fst (phaseProgress issues)))"
  "set (map ppName (fst (phaseProgress issues))) = {msName (isMilestone i) | i. i \<in> set issues \<and> counts_in_phase i}"
proof -
  let ?ps = "foldl count_issue [] issues"
  have "mset (map ppName (fst (phaseProgress issues))) = mset (map (ppName \<circ> pcProgress) ?ps)"
    by (simp add: phaseProgress_def Let_def flip: mset_map) (simp add: multiset.map_comp o_def)
  then show "distinct (map ppName (fst (phaseProgress issues)))"
    "set (map ppName (fst (phaseProgress issues))) = {msName (isMilestone i) | i. i \<in> set issues \<and> counts_in_phase i}"
    using count_issues [of issues] by (metis mset_eq_imp_distinct_iff, metis mset_eq_setD)
qed

section \<open>What a start may delegate\<close>

lemma phaseEligible_iff_parts:
  assumes "phaseEligible issue repo run"
  shows "isStateType issue \<in> set unstartedStates" "isDelegatedTo issue = []"
    "\<not> runEnded run" "\<not> runQueued run" "runStage run = []"
    "\<not> (\<exists>l \<in> set (isLabels issue). EqualFold l holdLabel)"
    "\<exists>r. repository (isLabels issue) [repo] = Inr r" "\<exists>sz. ticketSize issue = Inr sz"
  using assms by (auto simp: phaseEligible_def list_ex_iff split: sum.splits)

lemma start_refusal_none:
  assumes "start_refusal p v reach = []" and "\<not> snUnreadable (viewSnapshot v)"
  shows "reach = Some True" "snCurrent (viewSnapshot v) = phStartPhase p" "snCurrent (viewSnapshot v) \<noteq> []" "viewEligible v \<noteq> []"
  using assms by (auto simp: start_refusal_def Let_def StartRefusedUnchecked_def StartRefusedUnreachable_def
      StartRefusedNoPhase_def StartRefusedPhaseMoved_def StartRefusedNoEligible_def split: if_splits)

text \<open>The tickets of a view are open ones of the project in its current phase, each eligible by its own run.\<close>

lemma projectView_eligible:
  assumes "i \<in> set (viewEligible (projectView read_runs p all now))"
  shows "i \<in> set all" "EqualFold (isProject i) (phLinearProject p)"
    "msName (isMilestone i) = snCurrent (viewSnapshot (projectView read_runs p all now))"
    "\<not> snUnreadable (viewSnapshot (projectView read_runs p all now))"
    "\<exists>ids rows. read_runs ids = Inr rows \<and> isID i \<in> set ids
       \<and> phaseEligible i (phRepository p) (case map_of rows (isID i) of None \<Rightarrow> no_run | Some r \<Rightarrow> r)"
proof -
  let ?issues = "filter (\<lambda>i. EqualFold (isProject i) (phLinearProject p)) all"
  obtain progress current where ph: "phaseProgress ?issues = (progress, current)" by (cases "phaseProgress ?issues")
  let ?ids = "map isID (open_tickets current ?issues)"
  from assms ph obtain rows where rows: "(if ?ids \<noteq> [] then read_runs ?ids else Inr []) = Inr rows"
    by (auto simp: projectView_def Let_def split: sum.splits)
  from assms ph rows have i: "i \<in> set (open_tickets current ?issues)"
      "phaseEligible i (phRepository p) (case map_of rows (isID i) of None \<Rightarrow> no_run | Some r \<Rightarrow> r)"
    by (auto simp: projectView_def Let_def)
  then have "?ids \<noteq> []" by (cases "open_tickets current ?issues") auto
  then have "read_runs ?ids = Inr rows" using rows by simp
  then show "\<exists>ids rows. read_runs ids = Inr rows \<and> isID i \<in> set ids
       \<and> phaseEligible i (phRepository p) (case map_of rows (isID i) of None \<Rightarrow> no_run | Some r \<Rightarrow> r)"
    using i by (intro exI [of _ ?ids] exI [of _ rows]) auto
  show "i \<in> set all" "EqualFold (isProject i) (phLinearProject p)" using i(1) by (auto simp: open_tickets_def)
  show "msName (isMilestone i) = snCurrent (viewSnapshot (projectView read_runs p all now))"
    "\<not> snUnreadable (viewSnapshot (projectView read_runs p all now))"
    using i(1) ph rows by (auto simp: projectView_def Let_def open_tickets_def)
qed

end
