(* ===== verification/Peak_Hours.thy ===== *)
theory Peak_Hours
  imports Go_Time Complex_Main
begin

text \<open>
  Peak-price hours: the time-of-use surcharge of a rate card (\<open>internal/providers/config.go\<close> and the
  card that carries one in \<open>providers.json\<close>), and the hold of \<open>internal/dispatcher/peak.go\<close> on a run
  that would reach them.
\<close>

section \<open>Peak windows\<close>

record hour_range =
  hourFrom :: int
  hourTo :: int

record peak =
  peakMultiplier :: rat
  peakHours :: "hour_range list"

text \<open>\<open>Weekday\<close> from Monday, 0: the zero time is a Monday's midnight. And \<open>Hour\<close>, both in UTC.\<close>

definition weekday :: "time \<Rightarrow> int" where "weekday t = (t div day) mod 7"

definition hour_of :: "time \<Rightarrow> int" where "hour_of t = (t div hour) mod 24"

definition Covers :: "peak \<Rightarrow> time \<Rightarrow> bool" where
  "Covers p t \<longleftrightarrow> weekday t < 5 \<and> list_ex (\<lambda>w. hourFrom w \<le> hour_of t \<and> hour_of t < hourTo w) (peakHours p)"

text \<open>The walk over the hours a span touches.\<close>

function walk_hours :: "peak \<Rightarrow> time \<Rightarrow> time \<Rightarrow> bool" where
  "walk_hours p at_hour finish =
     (if at_hour > finish then False else if Covers p at_hour then True else walk_hours p (at_hour + hour) finish)"
  by pat_completeness auto
termination
  by (relation "measure (\<lambda>(_, t, finish). nat (finish - t + 1))") (auto simp: hour_def minute_def)

declare walk_hours.simps [simp del]

definition Spans :: "peak \<Rightarrow> time \<Rightarrow> duration \<Rightarrow> bool" where
  "Spans p start d = (if is_zero start then True else walk_hours p (truncate_time start hour) (start + d))"

section \<open>The hold\<close>

definition PeakOffPeakOnly :: string where "PeakOffPeakOnly = ''off-peak-only''"
definition PeakAlways :: string where "PeakAlways = ''always''"

definition Valid_mode :: "string \<Rightarrow> bool" where
  "Valid_mode m \<longleftrightarrow> m = PeakOffPeakOnly \<or> m = PeakAlways"

text \<open>A mode that cannot be read, or names none, holds as the default does.\<close>

definition readPeakMode :: "'e + string \<Rightarrow> string" where
  "readPeakMode read = (case read of Inl _ \<Rightarrow> PeakOffPeakOnly | Inr m \<Rightarrow> if Valid_mode m then m else PeakOffPeakOnly)"

text \<open>\<open>surcharge model\<close> is the surcharge of the model's rate card, \<open>None\<close> for a card with none or no card.\<close>

definition PeakHeld :: "(string \<Rightarrow> peak option) \<Rightarrow> string \<Rightarrow> string \<Rightarrow> time \<Rightarrow> int \<Rightarrow> bool" where
  "PeakHeld surcharge mode model now minutes =
     (if mode = PeakAlways then False
      else case surcharge model of None \<Rightarrow> False | Some p \<Rightarrow> Spans p now (int64 (minutes * minute)))"

text \<open>The one card of \<open>providers.json\<close> with a surcharge.\<close>

definition embedded_peak :: "string \<Rightarrow> peak option" where
  "embedded_peak model =
     (if model = ''command-code/deepseek/deepseek-v4.1-flash''
      then Some \<lparr>peakMultiplier = 2, peakHours = [\<lparr>hourFrom = 1, hourTo = 4\<rparr>, \<lparr>hourFrom = 6, hourTo = 10\<rparr>]\<rparr>
      else None)"

section \<open>The walk is exact\<close>

lemma hour_pos: "0 < hour"
  by (simp add: hour_def minute_def)

text \<open>Whether an instant is covered depends on its hour alone.\<close>

lemma Covers_hour: "s div hour = t div hour \<Longrightarrow> Covers p s = Covers p t"
proof -
  assume eq: "s div hour = t div hour"
  have "x div day = x div hour div 24" for x by (simp add: day_def zdiv_zmult2_eq mult.commute [of 24])
  with eq show ?thesis by (simp add: Covers_def weekday_def hour_of_def)
qed

lemma walk_hours_covers:
  assumes "at_hour mod hour = 0"
  shows "walk_hours p at_hour finish \<longleftrightarrow> (\<exists>t. at_hour \<le> t \<and> t \<le> finish \<and> Covers p t)"
  using assms
proof (induction p at_hour finish rule: walk_hours.induct)
  case (1 p a finish)
  consider "a > finish" | "a \<le> finish" "Covers p a" | "a \<le> finish" "\<not> Covers p a" by linarith
  then show ?case
  proof cases
    case 1
    then show ?thesis by (subst walk_hours.simps) auto
  next
    case 2
    then show ?thesis by (subst walk_hours.simps) auto
  next
    case 3
    have within: "\<not> Covers p t" if "a \<le> t" "t < a + hour" for t
    proof -
      have "a = hour * (a div hour)" using "1.prems" by (simp add: minus_mod_eq_mult_div [symmetric])
      with that hour_pos have "t div hour = a div hour" by (intro div_pos_geq int_div_pos_eq [of t hour "a div hour" "t - a"]) auto
      with 3(2) Covers_hour show ?thesis by blast
    qed
    have "walk_hours p a finish = walk_hours p (a + hour) finish" using 3 by (subst walk_hours.simps) simp
    also have "\<dots> \<longleftrightarrow> (\<exists>t. a + hour \<le> t \<and> t \<le> finish \<and> Covers p t)"
      using "1.IH" 3 "1.prems" by simp
    also have "\<dots> \<longleftrightarrow> (\<exists>t. a \<le> t \<and> t \<le> finish \<and> Covers p t)"
      using within hour_pos by (meson not_le order_trans less_imp_le le_add_same_cancel1)
    finally show ?thesis .
  qed
qed

lemma Spans_covers:
  assumes "\<not> is_zero start" and "0 \<le> d"
  shows "Spans p start d \<longleftrightarrow> (\<exists>t. start \<le> t \<and> t \<le> start + d \<and> Covers p t)"
proof -
  let ?a = "truncate_time start hour"
  have eq: "?a = hour * (start div hour)" using hour_pos by (simp add: truncate_time_def minus_mod_eq_mult_div)
  have a: "?a mod hour = 0" "?a \<le> start" "start div hour = ?a div hour"
    using hour_pos truncate_time_le [of start hour] by (simp_all add: eq [symmetric], simp_all add: eq)
  have early: "Covers p t = Covers p start" if "?a \<le> t" "t \<le> start" for t
  proof (rule Covers_hour)
    have "?a div hour \<le> t div hour" "t div hour \<le> start div hour" using that hour_pos by (simp_all add: zdiv_mono1)
    with a(3) show "t div hour = start div hour" by simp
  qed
  have "(\<exists>t. ?a \<le> t \<and> t \<le> start + d \<and> Covers p t) \<longleftrightarrow> (\<exists>t. start \<le> t \<and> t \<le> start + d \<and> Covers p t)"
    using early a(2) assms(2) by (metis le_add_same_cancel1 linear order_refl order_trans)
  with assms(1) a(1) show ?thesis by (simp add: Spans_def walk_hours_covers)
qed

end
