(* ===== verification/Rewrites.thy ===== *)
theory Rewrites
  imports Concurrency Tickets
begin

text \<open>
  The rewrite rate (\<open>internal/dispatcher/rewrite.go\<close>): the lines of a merged pull request split by
  who wrote them, the windows, series and groups the views draw, and the verdict \<open>AutoMergeOn\<close> of
  \<open>auto_merge.go\<close>. Line counts are \<open>int64\<close> sums; a rate is a \<open>float64\<close> or \<open>+Inf\<close>.
\<close>

section \<open>Measured lines\<close>

record rewrite =
  agentLines :: int
  ownerLines :: int
  reviewFoundLines :: int
  ownerChangeLines :: int
  unlabelledLines :: int
  unmeasuredCommits :: int

definition no_lines :: rewrite where
  "no_lines = \<lparr>agentLines = 0, ownerLines = 0, reviewFoundLines = 0, ownerChangeLines = 0, unlabelledLines = 0,
     unmeasuredCommits = 0\<rparr>"

definition ReworkReviewFound :: string where "ReworkReviewFound = ''review-found''"
definition ReworkOwnerChange :: string where "ReworkOwnerChange = ''owner-change''"

definition reworkTrailer :: re where
  "reworkTrailer = cats [LineStart, fold_lit ''rework:'', blanks,
     Group 1 (alts (map fold_lit [ReworkReviewFound, ReworkOwnerChange])), blanks, opt (one_of [CHR 0x0D]), LineEnd]"

definition reworkOf :: "string \<Rightarrow> string" where
  "reworkOf message = (case FindSubmatch reworkTrailer message of None \<Rightarrow> [] | Some m \<Rightarrow> to_lower (group m 1))"

record commit =
  commitLogin :: string
  commitMessage :: string
  commitUnmeasured :: bool
  commitAdditions :: int
  commitDeletions :: int

definition commit_lines :: "commit \<Rightarrow> int" where
  "commit_lines c = int64 (commitAdditions c + commitDeletions c)"

definition CommitAuthorLogin :: string where "CommitAuthorLogin = ''github-actions[bot]''"

definition by_agent :: "commit \<Rightarrow> bool" where
  "by_agent c \<longleftrightarrow> commitLogin c \<noteq> [] \<and> EqualFold (commitLogin c) CommitAuthorLogin"

definition add_commit :: "rewrite \<Rightarrow> commit \<Rightarrow> rewrite" where
  "add_commit r0 c =
     (let r = (if commitUnmeasured c then r0\<lparr>unmeasuredCommits := int64 (unmeasuredCommits r0 + 1)\<rparr> else r0);
          n = commit_lines c in
      if by_agent c then r\<lparr>agentLines := int64 (agentLines r + n)\<rparr>
      else let r1 = r\<lparr>ownerLines := int64 (ownerLines r + n)\<rparr>; how = reworkOf (commitMessage c) in
        if how = ReworkReviewFound then r1\<lparr>reviewFoundLines := int64 (reviewFoundLines r1 + n)\<rparr>
        else if how = ReworkOwnerChange then r1\<lparr>ownerChangeLines := int64 (ownerChangeLines r1 + n)\<rparr>
        else r1\<lparr>unlabelledLines := int64 (unlabelledLines r1 + n)\<rparr>)"

definition RewriteOf :: "commit list \<Rightarrow> rewrite" where
  "RewriteOf commits = foldl add_commit no_lines commits"

section \<open>The rate\<close>

datatype rate = Finite rat | Infinite

definition Rate :: "rewrite \<Rightarrow> rate" where
  "Rate r =
     (if agentLines r \<le> 0 then (if ownerLines r > 0 then Infinite else Finite 0)
      else Finite (float64 (float64 (of_int (ownerLines r)) / float64 (of_int (agentLines r)))))"

fun rate_above :: "rate \<Rightarrow> rat \<Rightarrow> bool" where
  "rate_above Infinite bar = True"
| "rate_above (Finite r) bar = (r > bar)"

text \<open>
  \<open>strconv.FormatFloat(rate*100, 'f', 1, 64)\<close>: the exact decimal value, rounded half to even; and
  \<open>strconv.Atoi\<close> with its error dropped, which clamps what is out of range.
\<close>

definition tenths_text :: "int \<Rightarrow> string" where
  "tenths_text n = (if n < 0 then ''-'' else []) @ itoa (\<bar>n\<bar> div 10) @ ''.'' @ itoa (\<bar>n\<bar> mod 10)"

fun PercentText :: "rate \<Rightarrow> string" where
  "PercentText Infinite = ''+Inf''"
| "PercentText (Finite r) = tenths_text (round_half_even (float64 (r * 100) * 10))"

definition atoi_value :: "string \<Rightarrow> int" where
  "atoi_value s =
     (let neg = (s \<noteq> [] \<and> hd s = CHR ''-''); signed = (s \<noteq> [] \<and> (hd s = CHR ''-'' \<or> hd s = CHR ''+''));
          ds = (if signed then tl s else s) in
      if ds = [] \<or> \<not> list_all is_digit ds then 0
      else if neg then max (- (2 ^ 63)) (- int (digits_val ds)) else min (2 ^ 63 - 1) (int (digits_val ds)))"

definition printedTenths :: "rate \<Rightarrow> int" where
  "printedTenths r = (case cut (PercentText r) ''.'' of (a, b, _) \<Rightarrow> atoi_value (a @ b))"

section \<open>Samples and windows\<close>

record sample =
  sampleRun :: string
  sampleSize :: string
  sampleRepo :: string
  samplePRURL :: string
  sampleMergedAt :: time
  samplePR :: int
  sampleTitle :: string
  samplePlanModel :: string
  sampleBuildModel :: string
  sampleReviewModel :: string
  sampleLines :: rewrite
  sampleAutoMerged :: bool
  sampleReverted :: bool

text \<open>\<open>Evidence.Window\<close> over the evidence's trailing samples, newest first.\<close>

definition Window :: "sample list \<Rightarrow> int \<Rightarrow> sample list" where
  "Window trailing n =
     (let k = (if n < 0 \<or> n > int (length trailing) then int (length trailing) else n) in take (nat k) trailing)"

definition add_lines :: "rewrite \<Rightarrow> sample \<Rightarrow> rewrite" where
  "add_lines l s = (let r = sampleLines s in
     \<lparr>agentLines = int64 (agentLines l + agentLines r), ownerLines = int64 (ownerLines l + ownerLines r),
      reviewFoundLines = int64 (reviewFoundLines l + reviewFoundLines r),
      ownerChangeLines = int64 (ownerChangeLines l + ownerChangeLines r),
      unlabelledLines = int64 (unlabelledLines l + unlabelledLines r),
      unmeasuredCommits = int64 (unmeasuredCommits l + unmeasuredCommits r)\<rparr>)"

definition Lines :: "sample list \<Rightarrow> rewrite" where
  "Lines samples = foldl add_lines no_lines samples"

definition Reverts :: "sample list \<Rightarrow> nat" where
  "Reverts samples = length (filter (\<lambda>s. sampleAutoMerged s \<and> sampleReverted s) samples)"

datatype trend = TrendUp | TrendDown | TrendFlat

record rate_window =
  rwPRs :: "int list"
  rwAsked :: int
  rwLines :: rewrite
  rwRate :: rate
  rwPrevious :: "rate option"
  rwTrend :: trend

definition trendMinMove :: int where "trendMinMove = 5"

definition trendOf :: "rate \<Rightarrow> rate \<Rightarrow> rate \<Rightarrow> trend" where
  "trendOf now previous earlier =
     (let latest = int64 (printedTenths now - printedTenths previous);
          prior = int64 (printedTenths previous - printedTenths earlier) in
      if latest \<ge> trendMinMove \<and> prior > 0 then TrendUp
      else if latest \<le> - trendMinMove \<and> prior < 0 then TrendDown else TrendFlat)"

definition WindowRate :: "sample list \<Rightarrow> int \<Rightarrow> rate_window" where
  "WindowRate samples asked =
     (let n = max asked 0; covered = take (nat n) samples; l = Lines covered in
      \<lparr>rwPRs = map samplePR covered, rwAsked = n, rwLines = l, rwRate = Rate l, rwPrevious = None,
       rwTrend = TrendFlat\<rparr>)"

text \<open>\<open>HasPrevious\<close> is whether there is a previous rate.\<close>

definition trendedWindow :: "sample list \<Rightarrow> int \<Rightarrow> rate_window" where
  "trendedWindow samples n =
     (let w = WindowRate samples n in
      if agentLines (rwLines w) \<le> 0 \<or> int (length samples) < n + 2 then w
      else let prev = WindowRate (drop 1 samples) n; earlier = WindowRate (drop 2 samples) n in
        if agentLines (rwLines prev) \<le> 0 \<or> agentLines (rwLines earlier) \<le> 0 then w
        else w\<lparr>rwPrevious := Some (rwRate prev), rwTrend := trendOf (rwRate w) (rwRate prev) (rwRate earlier)\<rparr>)"

definition TrailingPRs :: int where "TrailingPRs = 10"
definition ShortPRs :: int where "ShortPRs = 5"
definition SeriesPoints :: int where "SeriesPoints = 25"

definition Tiles :: "sample list \<Rightarrow> rate_window list" where
  "Tiles samples = [trendedWindow samples TrailingPRs, trendedWindow samples ShortPRs, trendedWindow samples 1]"

record series_point =
  pointRepo :: string
  pointPR :: int
  pointMergedAt :: time
  pointAgentLines :: int
  pointRate :: rate

definition point_at :: "sample list \<Rightarrow> nat \<Rightarrow> nat \<Rightarrow> series_point" where
  "point_at samples n i =
     (let l = Lines (take n (drop i samples)); s = samples ! i in
      \<lparr>pointRepo = sampleRepo s, pointPR = samplePR s, pointMergedAt = sampleMergedAt s,
       pointAgentLines = agentLines l, pointRate = Rate l\<rparr>)"

definition RollingSeries :: "sample list \<Rightarrow> int \<Rightarrow> int \<Rightarrow> series_point list" where
  "RollingSeries samples n points =
     (if n \<le> 0 \<or> int (length samples) < n then []
      else let out = map (point_at samples (nat n)) (rev [0..<length samples - nat n + 1]);
               keep = nat (max points 0) in
           drop (length out - keep) out)"

section \<open>Groups\<close>

record rewrite_group =
  groupPRs :: nat
  groupLines :: rewrite
  groupRate :: rate
  groupSpread :: "(rat \<times> rat) option"
  groupNoAgentPRs :: nat
  groupNoAgentOwnerLines :: int

definition measuredRates :: "sample list \<Rightarrow> rat list" where
  "measuredRates samples = sort (concat (map (\<lambda>s. if agentLines (sampleLines s) \<le> 0 then []
     else case Rate (sampleLines s) of Finite r \<Rightarrow> [r] | Infinite \<Rightarrow> []) samples))"

definition medianOf :: "rat list \<Rightarrow> rat" where
  "medianOf rs =
     (let n = length rs in
      if n mod 2 = 1 then rs ! (n div 2) else float64 (float64 (rs ! (n div 2 - 1) + rs ! (n div 2)) / 2))"

definition nearestRank :: "rat list \<Rightarrow> rat \<Rightarrow> rat" where
  "nearestRank rs p = rs ! nat (\<lceil>float64 (p * float64 (of_nat (length rs)))\<rceil> - 1)"

definition MinPRsForSpread :: nat where "MinPRsForSpread = 10"

text \<open>\<open>Spread\<close> is whether there is a median and a p90, in that order.\<close>

definition GroupOf :: "sample list \<Rightarrow> rewrite_group" where
  "GroupOf samples =
     (let l = Lines samples; none = filter (\<lambda>s. agentLines (sampleLines s) \<le> 0) samples; rates = measuredRates samples in
      \<lparr>groupPRs = length samples, groupLines = l, groupRate = Rate l,
       groupSpread = (if length samples \<ge> MinPRsForSpread \<and> rates \<noteq> []
                      then Some (medianOf rates, nearestRank rates (float64 (9 / 10))) else None),
       groupNoAgentPRs = length none,
       groupNoAgentOwnerLines = foldl (\<lambda>n s. int64 (n + ownerLines (sampleLines s))) 0 none\<rparr>)"

definition SizeUnsized :: string where "SizeUnsized = ''unsized''"

definition SizeBucket :: "string \<Rightarrow> string" where
  "SizeBucket s = (if s \<in> set [''S'', ''M'', ''L''] then s else SizeUnsized)"

definition BySize :: "sample list \<Rightarrow> (string \<times> rewrite_group) list" where
  "BySize samples = map (\<lambda>sz. (sz, GroupOf (filter (\<lambda>s. SizeBucket (sampleSize s) = sz) samples)))
     [''S'', ''M'', ''L'', SizeUnsized]"

definition ModelUnknown :: string where "ModelUnknown = ''unknown''"

definition groupByModel :: "sample list \<Rightarrow> (sample \<Rightarrow> string) \<Rightarrow> (string \<times> rewrite_group) list" where
  "groupByModel samples pick =
     (let model = (\<lambda>s. str_or (pick s) ModelUnknown);
          rows = map (\<lambda>m. (m, GroupOf (filter (\<lambda>s. model s = m) samples))) (sort (remdups (map model samples)));
          byCount = sort_key (\<lambda>row. - int (groupPRs (snd row))) rows
      in sort_key (\<lambda>row. fst row = ModelUnknown) byCount)"

record phase_models =
  byPlan :: "(string \<times> rewrite_group) list"
  byBuild :: "(string \<times> rewrite_group) list"
  byReview :: "(string \<times> rewrite_group) list"

definition ByModel :: "sample list \<Rightarrow> phase_models" where
  "ByModel samples = \<lparr>byPlan = groupByModel samples samplePlanModel, byBuild = groupByModel samples sampleBuildModel,
     byReview = groupByModel samples sampleReviewModel\<rparr>"

definition RepoUnattributed :: string where "RepoUnattributed = ''unattributed''"

record repo_row =
  rowRepo :: string
  rowTiles :: "rate_window list"
  rowSeries :: "series_point list"
  rowAverage :: rewrite_group

definition ByRepo :: "sample list \<Rightarrow> repo_row list" where
  "ByRepo samples =
     (let repos = remdups (map sampleRepo samples);
          names = sort (filter (\<lambda>r. r \<noteq> []) repos) @ (if [] \<in> set repos then [[]] else [])
      in map (\<lambda>name. let ss = filter (\<lambda>s. sampleRepo s = name) samples in
           \<lparr>rowRepo = (if name = [] then RepoUnattributed else name), rowTiles = Tiles ss,
            rowSeries = RollingSeries ss TrailingPRs SeriesPoints, rowAverage = GroupOf ss\<rparr>) names)"

definition ForRepo :: "sample list \<Rightarrow> string \<Rightarrow> sample list" where
  "ForRepo samples repo = filter (\<lambda>s. EqualFold (sampleRepo s) repo) samples"

section \<open>The verdict\<close>

definition AutoMergeRate :: rat where "AutoMergeRate = float64 (1 / 10)"

datatype merge_reason = ReasonOn | ReasonTooFewMeasured | ReasonNoAgentLines | ReasonRateAboveBar | ReasonReverted

record auto_merge_decision =
  WithinBar :: bool
  mergeReason :: merge_reason
  mergePRs :: nat
  mergeRate :: rate
  mergeReverted :: nat

definition allMeasured :: "sample list \<Rightarrow> bool" where
  "allMeasured samples \<longleftrightarrow> list_all (\<lambda>s. \<not> unmeasuredCommits (sampleLines s) > 0) samples"

definition AutoMergeOn :: "sample list \<Rightarrow> auto_merge_decision" where
  "AutoMergeOn trailing =
     (let w = Window trailing TrailingPRs; l = Lines w;
          d = \<lparr>WithinBar = False, mergeReason = ReasonOn, mergePRs = length w, mergeRate = Rate l, mergeReverted = Reverts w\<rparr>
      in if \<not> allMeasured w \<or> int (length w) < TrailingPRs then d\<lparr>mergeReason := ReasonTooFewMeasured\<rparr>
         else if agentLines l \<le> 0 then d\<lparr>mergeReason := ReasonNoAgentLines\<rparr>
         else if rate_above (mergeRate d) AutoMergeRate then d\<lparr>mergeReason := ReasonRateAboveBar\<rparr>
         else if mergeReverted d > 0 then d\<lparr>mergeReason := ReasonReverted\<rparr>
         else d\<lparr>WithinBar := True\<rparr>)"

definition RateText :: "auto_merge_decision \<Rightarrow> string" where
  "RateText d =
     (if mergeReason d = ReasonNoAgentLines \<or> mergeRate d = Infinite then ''no agent lines''
      else PercentText (mergeRate d) @ ''%'')"

section \<open>The lines split up\<close>

text \<open>
  The owner's lines are the three parts its trailers split them into, all sums modulo \<open>2 ^ 64\<close>.
\<close>

definition split_up :: "rewrite \<Rightarrow> bool" where
  "split_up r \<longleftrightarrow> ownerLines r = int64 (reviewFoundLines r + ownerChangeLines r + unlabelledLines r)"

lemma int64_cong_add: "int64 a = int64 b \<Longrightarrow> int64 (a + n) = int64 (b + n)"
  by (metis int64_add_left)

lemma split_up_no_lines [simp]: "split_up no_lines"
  by (simp add: split_up_def no_lines_def)

lemma add_commit_split: "split_up r \<Longrightarrow> split_up (add_commit r c)"
proof -
  assume up: "split_up r"
  then have "int64 (ownerLines r + n) = int64 (reviewFoundLines r + ownerChangeLines r + unlabelledLines r + n)" for n
    by (simp add: split_up_def)
  moreover have "int64 (int64 a + b + c) = int64 (a + b + c)" "int64 (b + int64 a + c) = int64 (b + a + c)" for a b c
    by (metis int64_add_left int64_add_right)+
  ultimately show ?thesis using up
    by (simp add: split_up_def add_commit_def Let_def ac_simps)
qed

lemma RewriteOf_split: "split_up (RewriteOf commits)"
proof -
  have "split_up r \<Longrightarrow> split_up (foldl add_commit r commits)" for r
    by (induction commits arbitrary: r) (simp_all add: add_commit_split)
  then show ?thesis by (simp add: RewriteOf_def)
qed

lemma Lines_sum:
  shows "agentLines (Lines ss) = int64 (\<Sum>s\<leftarrow>ss. agentLines (sampleLines s))"
    and "ownerLines (Lines ss) = int64 (\<Sum>s\<leftarrow>ss. ownerLines (sampleLines s))"
    and "unmeasuredCommits (Lines ss) = int64 (\<Sum>s\<leftarrow>ss. unmeasuredCommits (sampleLines s))"
proof -
  have "agentLines (foldl add_lines l ss) = foldl (\<lambda>acc s. int64 (acc + agentLines (sampleLines s))) (agentLines l) ss"
    "ownerLines (foldl add_lines l ss) = foldl (\<lambda>acc s. int64 (acc + ownerLines (sampleLines s))) (ownerLines l) ss"
    "unmeasuredCommits (foldl add_lines l ss) = foldl (\<lambda>acc s. int64 (acc + unmeasuredCommits (sampleLines s))) (unmeasuredCommits l) ss"
    for l by (induction ss arbitrary: l) (simp_all add: add_lines_def Let_def)
  then show "agentLines (Lines ss) = int64 (\<Sum>s\<leftarrow>ss. agentLines (sampleLines s))"
    "ownerLines (Lines ss) = int64 (\<Sum>s\<leftarrow>ss. ownerLines (sampleLines s))"
    "unmeasuredCommits (Lines ss) = int64 (\<Sum>s\<leftarrow>ss. unmeasuredCommits (sampleLines s))"
    using foldl_int64 [of _ 0] by (simp_all add: Lines_def no_lines_def)
qed

section \<open>The bar is exact\<close>

text \<open>
  Up to \<open>2 ^ 52\<close> lines the two roundings lose nothing the bar could see: the pooled rate is above
  \<^term>\<open>AutoMergeRate\<close> just when the owner's lines are more than a tenth of the agent's.
\<close>

lemma AutoMergeRate_value: "AutoMergeRate = 7205759403792794 / 2 ^ 56"
  unfolding AutoMergeRate_def by code_simp

lemma above_bar_exact:
  assumes "0 < agentLines r" and "agentLines r \<le> 2 ^ 52" and "0 \<le> ownerLines r" and "ownerLines r \<le> 2 ^ 52"
  shows "rate_above (Rate r) AutoMergeRate \<longleftrightarrow> agentLines r < 10 * ownerLines r"
proof -
  let ?a = "agentLines r" and ?o = "ownerLines r"
  let ?q = "of_int ?o / of_int ?a :: rat"
  have a: "(0::rat) < of_int ?a" using assms by simp
  have "of_int ?a \<le> (of_int (2 ^ 52) :: rat)" using assms(2) by (simp only: of_int_le_iff)
  then have a52: "of_int ?a \<le> (4503599627370496 :: rat)" by simp
  have rate: "Rate r = Finite (float64 ?q)"
    using assms by (simp add: Rate_def float64_of_int)
  show ?thesis
  proof
    assume "agentLines r < 10 * ownerLines r"
    then have "of_int (?a + 1) \<le> (of_int (10 * ?o) :: rat)" by (simp only: of_int_le_iff)
    then have o: "(of_int ?a + 1) / 10 \<le> (of_int ?o :: rat)" by simp
    have "of_int ?a * 7205759403792795 \<le> (of_int ?a + 1) / 10 * (2 ^ 56 :: rat)"
      using a52 by (simp add: field_simps)
    also have "\<dots> \<le> of_int ?o * 2 ^ 56" using o by (intro mult_right_mono) simp_all
    finally have "7205759403792795 / 2 ^ 56 \<le> ?q" using a by (simp add: field_simps)
    then have "float64 (7205759403792795 / 2 ^ 56) \<le> float64 ?q" by (intro float64_mono) simp_all
    moreover have "float64 (7205759403792795 / 2 ^ 56) = 7205759403792795 / 2 ^ 56"
      by (rule float64_exact [of _ 7205759403792795 "- 56"]) (simp_all add: power_int_def field_simps)
    ultimately show "rate_above (Rate r) AutoMergeRate"
      by (simp add: rate AutoMergeRate_value)
  next
    assume above: "rate_above (Rate r) AutoMergeRate"
    show "agentLines r < 10 * ownerLines r"
    proof (rule ccontr)
      assume "\<not> ?thesis"
      then have "of_int (10 * ?o) \<le> (of_int ?a :: rat)" by (simp only: of_int_le_iff)
      then have "?q \<le> 1 / 10" using a by (simp add: field_simps)
      then have "float64 ?q \<le> AutoMergeRate" unfolding AutoMergeRate_def using assms a by (intro float64_mono) simp_all
      with above show False by (simp add: rate)
    qed
  qed
qed

text \<open>The verdict over samples whose counts are real: not negative and few enough for the sums.\<close>

definition counted :: "sample list \<Rightarrow> bool" where
  "counted ss \<longleftrightarrow> list_all (\<lambda>s. 0 \<le> agentLines (sampleLines s) \<and> 0 \<le> ownerLines (sampleLines s)) ss
     \<and> (\<Sum>s\<leftarrow>ss. agentLines (sampleLines s)) \<le> 2 ^ 52 \<and> (\<Sum>s\<leftarrow>ss. ownerLines (sampleLines s)) \<le> 2 ^ 52"

lemma counted_sums:
  assumes "counted ss"
  shows "agentLines (Lines ss) = (\<Sum>s\<leftarrow>ss. agentLines (sampleLines s))"
    and "ownerLines (Lines ss) = (\<Sum>s\<leftarrow>ss. ownerLines (sampleLines s))"
    and "0 \<le> agentLines (Lines ss)" "agentLines (Lines ss) \<le> 2 ^ 52" "0 \<le> ownerLines (Lines ss)" "ownerLines (Lines ss) \<le> 2 ^ 52"
proof -
  have pos: "0 \<le> (\<Sum>s\<leftarrow>ss. agentLines (sampleLines s))" "0 \<le> (\<Sum>s\<leftarrow>ss. ownerLines (sampleLines s))"
    using assms by (auto simp: counted_def list_all_iff intro!: sum_list_nonneg)
  show "agentLines (Lines ss) = (\<Sum>s\<leftarrow>ss. agentLines (sampleLines s))"
    "ownerLines (Lines ss) = (\<Sum>s\<leftarrow>ss. ownerLines (sampleLines s))"
    "0 \<le> agentLines (Lines ss)" "agentLines (Lines ss) \<le> 2 ^ 52" "0 \<le> ownerLines (Lines ss)" "ownerLines (Lines ss) \<le> 2 ^ 52"
    using assms pos by (simp_all add: Lines_sum counted_def in_int64_def)
qed

lemma AutoMergeOn_iff:
  assumes "counted (Window trailing TrailingPRs)"
  defines "w \<equiv> take 10 trailing"
  shows "WithinBar (AutoMergeOn trailing) \<longleftrightarrow>
     length trailing \<ge> 10 \<and> (\<forall>s \<in> set w. unmeasuredCommits (sampleLines s) \<le> 0)
     \<and> 0 < (\<Sum>s\<leftarrow>w. agentLines (sampleLines s))
     \<and> 10 * (\<Sum>s\<leftarrow>w. ownerLines (sampleLines s)) \<le> (\<Sum>s\<leftarrow>w. agentLines (sampleLines s))
     \<and> \<not> (\<exists>s \<in> set w. sampleAutoMerged s \<and> sampleReverted s)"
proof -
  have w: "Window trailing TrailingPRs = w"
    by (auto simp: Window_def TrailingPRs_def w_def Let_def)
  have c: "counted w" using assms(1) by (simp add: w)
  note sums = counted_sums [OF c]
  have reverts: "Reverts w = 0 \<longleftrightarrow> \<not> (\<exists>s \<in> set w. sampleAutoMerged s \<and> sampleReverted s)"
    by (auto simp: Reverts_def filter_empty_conv)
  have bar: "rate_above (Rate (Lines w)) AutoMergeRate \<longleftrightarrow> agentLines (Lines w) < 10 * ownerLines (Lines w)"
    if "0 < agentLines (Lines w)" using sums that by (intro above_bar_exact) simp_all
  have len: "int (length w) < TrailingPRs \<longleftrightarrow> length trailing < 10" by (auto simp: w_def TrailingPRs_def)
  have all: "allMeasured w \<longleftrightarrow> (\<forall>s \<in> set w. unmeasuredCommits (sampleLines s) \<le> 0)"
    by (auto simp: allMeasured_def list_all_iff)
  show ?thesis
    unfolding sums(1,2) [symmetric] reverts [symmetric] all [symmetric]
    by (cases "agentLines (Lines w) \<le> 0") (auto simp: AutoMergeOn_def w Let_def bar len)
qed

section \<open>The trend follows the rates\<close>

lemma digits_val_append: "digits_val (s @ [c]) = 10 * digits_val s + (of_char c - 48)"
  by (simp add: digits_val_def)

lemma itoa_nat_small: "n < 10 \<Longrightarrow> itoa_nat n = [char_of (48 + n)]"
  by (subst itoa_nat.simps) simp

lemma printedTenths_value:
  assumes "0 \<le> r"
  shows "printedTenths (Finite r) = min (2 ^ 63 - 1) (round_half_even (float64 (r * 100) * 10))"
proof -
  define n where "n = round_half_even (float64 (r * 100) * 10)"
  have "0 \<le> float64 (r * 100) * 10" using assms by (simp add: float64_nonneg)
  then have "round_half_even (of_int 0) \<le> n" unfolding n_def by (intro round_half_even_mono) simp
  then have n: "0 \<le> n" by (simp only: round_half_even_of_int)
  let ?a = "itoa_nat (nat (n div 10))" and ?b = "itoa_nat (nat (n mod 10))"
  have b: "?b = [char_of (48 + nat (n mod 10))]" by (rule itoa_nat_small) (simp add: nat_less_iff)
  have no_dot: "CHR ''.'' \<notin> set ?a" using itoa_nat_digits [of "nat (n div 10)"] by (auto simp: list_all_iff is_digit_def)
  have printed: "tenths_text n = ?a @ ''.'' @ ?b" using n by (simp add: tenths_text_def itoa_def not_less)
  have dec: "cut (?a @ CHR ''.'' # ?b) ''.'' = (?a, ?b, True)" using cut_found [OF no_dot, of "[]"] by simp
  have digits: "list_all is_digit (?a @ ?b)" by (simp add: itoa_nat_digits)
  have nonempty: "?a @ ?b \<noteq> []" by (simp add: b)
  have "is_digit (hd (?a @ ?b))" using digits hd_in_set [OF nonempty] by (simp only: list_all_iff)
  then have first: "hd (?a @ ?b) \<noteq> CHR ''-''" "hd (?a @ ?b) \<noteq> CHR ''+''" by (auto simp: is_digit_def)
  have "digits_val (?a @ ?b) = nat n"
    using n by (simp add: b digits_val_append of_char_of) (simp add: nat_div_distrib nat_mod_distrib)
  then have "atoi_value (?a @ ?b) = min (2 ^ 63 - 1) n"
    using digits nonempty first n unfolding atoi_value_def Let_def by (simp del: list_all_append append_is_Nil_conv)
  then show ?thesis
    by (simp add: printedTenths_def n_def [symmetric] printed dec)
qed

lemma printedTenths_mono: "0 \<le> r \<Longrightarrow> r \<le> s \<Longrightarrow> printedTenths (Finite r) \<le> printedTenths (Finite s)"
proof -
  assume "0 \<le> r" "r \<le> s"
  then have "float64 (r * 100) \<le> float64 (s * 100)" by (intro float64_mono) simp_all
  then have "round_half_even (float64 (r * 100) * 10) \<le> round_half_even (float64 (s * 100) * 10)"
    by (intro round_half_even_mono) simp
  with \<open>0 \<le> r\<close> \<open>r \<le> s\<close> show ?thesis by (simp add: printedTenths_value)
qed

lemma printedTenths_range: "0 \<le> r \<Longrightarrow> 0 \<le> printedTenths (Finite r) \<and> printedTenths (Finite r) < 2 ^ 63"
proof -
  assume r: "0 \<le> r"
  have "printedTenths (Finite 0) = 0" by code_simp
  with printedTenths_mono [OF order.refl r] show ?thesis using r by (simp add: printedTenths_value)
qed

text \<open>An arrow never contradicts the rates it stands beside.\<close>

lemma trend_follows:
  assumes "0 \<le> a" "0 \<le> b" "0 \<le> c"
  shows "trendOf (Finite a) (Finite b) (Finite c) = TrendUp \<Longrightarrow> c < b \<and> b < a"
    and "trendOf (Finite a) (Finite b) (Finite c) = TrendDown \<Longrightarrow> a < b \<and> b < c"
proof -
  have id: "int64 (printedTenths (Finite x) - printedTenths (Finite y)) = printedTenths (Finite x) - printedTenths (Finite y)"
    if "0 \<le> x" "0 \<le> y" for x y
    using printedTenths_range [OF that(1)] printedTenths_range [OF that(2)] by (simp add: in_int64_def)
  have less: "x < y" if "printedTenths (Finite x) < printedTenths (Finite y)" "0 \<le> x" "0 \<le> y" for x y
    using printedTenths_mono [of y x] that by (cases "x < y") auto
  show "trendOf (Finite a) (Finite b) (Finite c) = TrendUp \<Longrightarrow> c < b \<and> b < a"
    "trendOf (Finite a) (Finite b) (Finite c) = TrendDown \<Longrightarrow> a < b \<and> b < c"
    using assms less by (auto simp: trendOf_def Let_def id trendMinMove_def split: if_splits)
qed

section \<open>Series and groups\<close>

lemma RollingSeries_length:
  assumes "0 < n" and "0 \<le> points"
  shows "length (RollingSeries samples n points) = min (nat points) (nat (int (length samples) - n + 1))"
  using assms by (auto simp: RollingSeries_def Let_def nat_diff_distrib' split: if_splits)

text \<open>The newest point of the series is the window's own rate.\<close>

lemma RollingSeries_newest:
  assumes "0 < n" and "n \<le> int (length samples)" and "0 < points"
  shows "pointRate (last (RollingSeries samples n points)) = rwRate (WindowRate samples n)"
proof -
  let ?out = "map (point_at samples (nat n)) (rev [0..<length samples - nat n + 1])"
  have "?out \<noteq> []" "last ?out = point_at samples (nat n) 0" by (simp_all add: last_map last_rev)
  moreover have "RollingSeries samples n points = drop (length ?out - nat points) ?out"
    using assms by (simp add: RollingSeries_def Let_def)
  moreover have "length ?out - nat points < length ?out" using assms by simp
  ultimately have "last (RollingSeries samples n points) = point_at samples (nat n) 0"
    by (metis last_drop)
  then show ?thesis using assms by (simp add: point_at_def WindowRate_def Let_def)
qed

text \<open>Every pull request is counted in one size and in one model of each phase.\<close>

lemma partition_length:
  "distinct ks \<Longrightarrow> \<forall>x \<in> set xs. key x \<in> set ks \<Longrightarrow> (\<Sum>k\<leftarrow>ks. length (filter (\<lambda>x. key x = k) xs)) = length xs"
proof (induction xs)
  case (Cons x xs)
  have "(\<Sum>k\<leftarrow>ks. length (filter (\<lambda>y. key y = k) (x # xs)))
      = (\<Sum>k\<leftarrow>ks. (if key x = k then 1 else 0) + length (filter (\<lambda>y. key y = k) xs))"
    by (intro arg_cong [where f = sum_list] map_cong) auto
  also have "\<dots> = (\<Sum>k\<leftarrow>ks. if key x = k then 1 else 0) + length xs"
    using Cons by (simp add: sum_list_addf)
  also have "(\<Sum>k\<leftarrow>ks. if key x = k then 1 else 0) = (1::nat)"
    using Cons.prems by (simp add: sum_list_distinct_conv_sum_set)
  finally show ?case by simp
qed simp

lemma BySize_counts: "(\<Sum>row\<leftarrow>BySize samples. groupPRs (snd row)) = length samples"
proof -
  have "(\<Sum>row\<leftarrow>BySize samples. groupPRs (snd row))
      = (\<Sum>k\<leftarrow>[''S'', ''M'', ''L'', SizeUnsized]. length (filter (\<lambda>s. SizeBucket (sampleSize s) = k) samples))"
    by (simp add: BySize_def GroupOf_def Let_def)
  also have "\<dots> = length samples"
    by (rule partition_length) (auto simp: SizeBucket_def SizeUnsized_def)
  finally show ?thesis .
qed

lemma sum_sort_key: "(\<Sum>x\<leftarrow>sort_key f xs. g x) = (\<Sum>x\<leftarrow>xs. g x :: nat)"
  by (metis mset_map mset_sort sum_mset_sum_list)

lemma groupByModel_counts: "(\<Sum>row\<leftarrow>groupByModel samples pick. groupPRs (snd row)) = length samples"
proof -
  let ?ks = "sort (remdups (map (\<lambda>s. str_or (pick s) ModelUnknown) samples))"
  have "(\<Sum>row\<leftarrow>groupByModel samples pick. groupPRs (snd row))
      = (\<Sum>k\<leftarrow>?ks. length (filter (\<lambda>s. str_or (pick s) ModelUnknown = k) samples))"
    by (simp add: groupByModel_def GroupOf_def Let_def sum_sort_key o_def)
  also have "\<dots> = length samples" by (rule partition_length) auto
  finally show ?thesis .
qed

text \<open>The p90 is one of the group's own rates.\<close>

lemma float64_gt_0: "0 < x \<Longrightarrow> 0 < float64 x"
  by (rule less_le_trans [OF _ float64_between(1)]) simp_all

lemma nearestRank_mem:
  assumes "rs \<noteq> []" and "length rs \<le> 2 ^ 53"
  shows "nearestRank rs (float64 (9 / 10)) \<in> set rs"
proof -
  let ?n = "of_nat (length rs) :: rat"
  have n: "float64 ?n = ?n" using float64_of_int [of "int (length rs)"] assms(2) by simp
  have p: "0 < float64 (9 / 10)" "float64 (9 / 10) \<le> 1"
    using float64_mono [of "9 / 10" 1] float64_of_int [of 1] by (simp_all add: float64_gt_0)
  have pos: "0 < ?n" using assms(1) by simp
  have "float64 (float64 (9 / 10) * ?n) \<le> float64 ?n"
    using p pos by (intro float64_mono) (simp_all add: mult_le_cancel_right1)
  moreover have "0 < float64 (float64 (9 / 10) * ?n)"
    using p pos by (intro float64_gt_0) simp
  ultimately have "0 < \<lceil>float64 (float64 (9 / 10) * ?n)\<rceil>" "\<lceil>float64 (float64 (9 / 10) * ?n)\<rceil> \<le> int (length rs)"
    by (simp_all add: n ceiling_le_iff)
  then show ?thesis unfolding nearestRank_def n by (intro nth_mem) linarith
qed

end
