(* ===== verification/Health.thy ===== *)
theory Health
  imports Run_Store
begin

text \<open>
  What holds dispatch and what tells the owner: the breaker and the notices
  (\<open>internal/store/breaker.go\<close>, posted by \<open>postNotices\<close> of \<open>internal/dispatcher/notice.go\<close>) and
  the provider halts (\<open>internal/store/providers.go\<close>).
\<close>

section \<open>The breaker\<close>

definition Trip :: "store_err option \<Rightarrow> string \<Rightarrow> string \<Rightarrow> time \<Rightarrow> db \<Rightarrow> (store_err + unit) \<times> db" where
  "Trip fault runID cls now d =
     (case fault of
        Some e \<Rightarrow> (Inl e, d)
      | None \<Rightarrow> (Inr (), (case breaker d of
            Some _ \<Rightarrow> d
          | None \<Rightarrow> d\<lparr>breaker := Some (apply_updates
              [(runIDField, Put (VStr runID)), (classField, Put (VStr cls)), (trippedAtField, Put (VTime now))] (\<lambda>_. None))\<rparr>)))"

definition Tripped :: "db \<Rightarrow> bool" where
  "Tripped d \<longleftrightarrow> breaker d \<noteq> None"

definition Reset :: "store_err option \<Rightarrow> db \<Rightarrow> (store_err + unit) \<times> db" where
  "Reset fault d = (case fault of Some e \<Rightarrow> (Inl e, d) | None \<Rightarrow> (Inr (), d\<lparr>breaker := None\<rparr>))"

section \<open>Notices\<close>

record notice =
  noticeID :: string
  noticeClass :: string
  noticeDetail :: string
  noticeLink :: string

definition noticePending :: string where "noticePending = ''pending''"
definition noticeClaimed :: string where "noticeClaimed = ''claimed''"
definition noticePosted :: string where "noticePosted = ''posted''"

lemma notice_states_neq [simp]:
  "noticePending \<noteq> noticeClaimed" "noticePending \<noteq> noticePosted" "noticeClaimed \<noteq> noticePosted"
  "noticeClaimed \<noteq> noticePending" "noticePosted \<noteq> noticePending" "noticePosted \<noteq> noticeClaimed"
  by (simp_all add: noticePending_def noticeClaimed_def noticePosted_def)

definition noticeData :: "notice \<Rightarrow> time \<Rightarrow> doc" where
  "noticeData n now = apply_updates
     [(classField, Put (VStr (noticeClass n))), (linkField, Put (VStr (noticeLink n))),
      (detailField, Put (VStr (noticeDetail n))), (noticeStateField, Put (VStr noticePending)),
      (raisedAtField, Put (VTime now))] (\<lambda>_. None)"

definition put_notice :: "string \<Rightarrow> doc \<Rightarrow> db \<Rightarrow> db" where
  "put_notice i n d = d\<lparr>notices := (\<lambda>j. if j = i then Some n else notices d j)\<rparr>"

definition create_notice :: "notice \<Rightarrow> time \<Rightarrow> db \<Rightarrow> db" where
  "create_notice n now d = (case notices d (noticeID n) of
     Some _ \<Rightarrow> d | None \<Rightarrow> put_notice (noticeID n) (noticeData n now) d)"

definition Raise :: "store_err option \<Rightarrow> notice \<Rightarrow> time \<Rightarrow> db \<Rightarrow> (store_err + unit) \<times> db" where
  "Raise fault n now d = (case fault of Some e \<Rightarrow> (Inl e, d) | None \<Rightarrow> (Inr (), create_notice n now d))"

definition update_notice :: "string \<Rightarrow> updates \<Rightarrow> db \<Rightarrow> store_err + db" where
  "update_notice i us d =
     (case notices d i of None \<Rightarrow> Inl NotFound | Some n \<Rightarrow> Inr (put_notice i (apply_updates us n) d))"

definition claim_notice_updates :: "time \<Rightarrow> updates" where
  "claim_notice_updates now = [(noticeStateField, Put (VStr noticeClaimed)), (claimedAtField, Put (VTime now))]"

text \<open>\<open>Claim\<close> on what its two queries list: the pending notices, and those claimed before a time.\<close>

fun claim_each :: "time \<Rightarrow> string list \<Rightarrow> db \<Rightarrow> store_err + notice list \<times> db" where
  "claim_each now [] d = Inr ([], d)"
| "claim_each now (i # is) d =
     (case notices d i of
        None \<Rightarrow> Inl NotFound
      | Some n \<Rightarrow>
        and_then (update_notice i (claim_notice_updates now) d) (\<lambda>d'.
        and_then (claim_each now is d') (\<lambda>(claimed, d'').
          Inr (\<lparr>noticeID = i, noticeClass = str n classField, noticeDetail = str n detailField,
                noticeLink = str n linkField\<rparr> # claimed, d''))))"

definition Claim ::
  "store_err option \<Rightarrow> (db \<Rightarrow> string list) \<Rightarrow> (time \<Rightarrow> db \<Rightarrow> string list) \<Rightarrow> time \<Rightarrow> time \<Rightarrow> db \<Rightarrow>
   (store_err + notice list) \<times> db" where
  "Claim fault pending stale now staleBefore d =
     run_transaction fault (\<lambda>d. claim_each now (pending d @ stale staleBefore d) d) d"

definition NoticePosted :: "store_err option \<Rightarrow> string \<Rightarrow> time \<Rightarrow> db \<Rightarrow> (store_err + unit) \<times> db" where
  "NoticePosted fault i now d = run_transaction fault (\<lambda>d.
     and_then (update_notice i [(noticeStateField, Put (VStr noticePosted)), (postedAtField, Put (VTime now)),
       (claimedAtField, Delete)] d) (\<lambda>d'. Inr ((), d'))) d"

definition Unclaim :: "store_err option \<Rightarrow> string \<Rightarrow> db \<Rightarrow> (store_err + unit) \<times> db" where
  "Unclaim fault i d = run_transaction fault (\<lambda>d.
     and_then (update_notice i [(noticeStateField, Put (VStr noticePending)), (claimedAtField, Delete)] d)
       (\<lambda>d'. Inr ((), d'))) d"

section \<open>Posting\<close>

definition noticeLease :: duration where
  "noticeLease = 15 * minute"

definition PollInterval :: duration where
  "PollInterval = 15 * minute"

text \<open>
  \<open>postNotices\<close>. \<open>opened\<close> is whether the poster could be opened, \<open>posts n\<close> whether it posted the
  notice; \<open>faults i\<close> is what its \<open>Posted\<close> or \<open>Unclaim\<close> write of notice \<open>i\<close> meets
  and \<open>clock i\<close> when it is posted. The answer is
  what was posted.
\<close>

fun post_each ::
  "(notice \<Rightarrow> bool) \<Rightarrow> (string \<Rightarrow> store_err option) \<Rightarrow> (string \<Rightarrow> time) \<Rightarrow> notice list \<Rightarrow> db \<Rightarrow> notice list \<times> db" where
  "post_each posts faults clock [] d = ([], d)"
| "post_each posts faults clock (n # ns) d =
     (if \<not> posts n then post_each posts faults clock ns (snd (Unclaim (faults (noticeID n)) (noticeID n) d))
      else (case post_each posts faults clock ns (snd (NoticePosted (faults (noticeID n)) (noticeID n) (clock (noticeID n)) d)) of
              (sent, d') \<Rightarrow> (n # sent, d')))"

definition postNotices ::
  "store_err option \<Rightarrow> (db \<Rightarrow> string list) \<Rightarrow> (time \<Rightarrow> db \<Rightarrow> string list) \<Rightarrow> bool \<Rightarrow> (notice \<Rightarrow> bool) \<Rightarrow>
   (string \<Rightarrow> store_err option) \<Rightarrow> time \<Rightarrow> (string \<Rightarrow> time) \<Rightarrow> db \<Rightarrow> notice list \<times> db" where
  "postNotices fault pending stale opened posts faults now clock d =
     (case Claim fault pending stale now (now - noticeLease) d of
        (Inl _, d') \<Rightarrow> ([], d')
      | (Inr ns, d') \<Rightarrow>
        if ns = [] then ([], d')
        else if \<not> opened then ([], foldl (\<lambda>d n. snd (Unclaim (faults (noticeID n)) (noticeID n) d)) d' ns)
        else post_each posts faults clock ns d')"

section \<open>Provider halts\<close>

record provider_health =
  ConsecutiveStops :: int
  HaltedAt :: time

definition healthy :: provider_health where
  "healthy = \<lparr>ConsecutiveStops = 0, HaltedAt = 0\<rparr>"

definition haltThreshold :: int where
  "haltThreshold = 3"

type_synonym providers = "string \<Rightarrow> provider_health option"

definition readProviderHealth :: "providers \<Rightarrow> string \<Rightarrow> provider_health" where
  "readProviderHealth ps p = (case ps p of None \<Rightarrow> healthy | Some h \<Rightarrow> h)"

definition infra_stop :: "time \<Rightarrow> provider_health \<Rightarrow> provider_health" where
  "infra_stop now h =
     (let h' = h\<lparr>ConsecutiveStops := ConsecutiveStops h + 1\<rparr> in
      if ConsecutiveStops h' \<ge> haltThreshold \<and> is_zero (HaltedAt h') then h'\<lparr>HaltedAt := now\<rparr> else h')"

definition RecordInfraStop :: "store_err option \<Rightarrow> string \<Rightarrow> time \<Rightarrow> providers \<Rightarrow> (store_err + unit) \<times> providers" where
  "RecordInfraStop fault p now ps =
     (case fault of Some e \<Rightarrow> (Inl e, ps)
      | None \<Rightarrow> (Inr (), (\<lambda>q. if q = p then Some (infra_stop now (readProviderHealth ps p)) else ps q)))"

definition Halted :: "providers \<Rightarrow> string \<Rightarrow> bool" where
  "Halted ps p \<longleftrightarrow> \<not> is_zero (HaltedAt (readProviderHealth ps p))"

definition reset_provider :: "store_err option \<Rightarrow> string \<Rightarrow> providers \<Rightarrow> (store_err + unit) \<times> providers" where
  "reset_provider fault p ps =
     (case fault of Some e \<Rightarrow> (Inl e, ps) | None \<Rightarrow> (Inr (), (\<lambda>q. if q = p then Some healthy else ps q)))"

definition ClearHalt :: "store_err option \<Rightarrow> string \<Rightarrow> providers \<Rightarrow> (store_err + unit) \<times> providers" where
  "ClearHalt = reset_provider"

definition RecordSuccess :: "store_err option \<Rightarrow> string \<Rightarrow> providers \<Rightarrow> (store_err + unit) \<times> providers" where
  "RecordSuccess = reset_provider"

section \<open>A history of stops and successes\<close>

text \<open>What happened to providers, in order: an infra stop at a time, or a success or clear.\<close>

datatype provider_event = InfraStop string time | Cleared string

fun provider_step :: "providers \<Rightarrow> provider_event \<Rightarrow> providers" where
  "provider_step ps (InfraStop p now) = snd (RecordInfraStop None p now ps)"
| "provider_step ps (Cleared p) = snd (RecordSuccess None p ps)"

definition after_events :: "provider_event list \<Rightarrow> providers" where
  "after_events es = foldl provider_step (\<lambda>_. None) es"

text \<open>The times of the provider's stops since it was last cleared, oldest first.\<close>

fun stops_since :: "string \<Rightarrow> time list \<Rightarrow> provider_event list \<Rightarrow> time list" where
  "stops_since p ts [] = ts"
| "stops_since p ts (InfraStop q t # es) = stops_since p (if q = p then ts @ [t] else ts) es"
| "stops_since p ts (Cleared q # es) = stops_since p (if q = p then [] else ts) es"

lemma stops_since_snoc:
  "stops_since p ts (es @ [e]) = (case e of
     InfraStop q t \<Rightarrow> if q = p then stops_since p ts es @ [t] else stops_since p ts es
   | Cleared q \<Rightarrow> if q = p then [] else stops_since p ts es)"
  by (induction p ts es rule: stops_since.induct) (auto split: provider_event.splits)

lemma health_after_events:
  assumes "\<And>q t. InfraStop q t \<in> set es \<Longrightarrow> \<not> is_zero t"
  shows "readProviderHealth (after_events es) p =
    \<lparr>ConsecutiveStops = int (length (stops_since p [] es)),
     HaltedAt = (if length (stops_since p [] es) \<ge> 3 then stops_since p [] es ! 2 else 0)\<rparr>"
  using assms
proof (induction es rule: rev_induct)
  case Nil
  show ?case by (simp add: after_events_def readProviderHealth_def healthy_def)
next
  case (snoc e es)
  have stopped: "\<not> is_zero (stops_since p [] es ! 2)" if "length (stops_since p [] es) \<ge> 3"
  proof -
    have "t \<in> set (stops_since p ts fs) \<Longrightarrow> t \<in> set ts \<or> (\<exists>q. InfraStop q t \<in> set fs)" for t ts fs
      by (induction p ts fs rule: stops_since.induct) (auto split: if_splits)
    moreover have "stops_since p [] es ! 2 \<in> set (stops_since p [] es)" using that by (intro nth_mem) simp
    ultimately obtain q where "InfraStop q (stops_since p [] es ! 2) \<in> set es" by fastforce
    then show ?thesis using snoc.prems [of q "stops_since p [] es ! 2"] by simp
  qed
  have IH: "readProviderHealth (after_events es) p = \<lparr>ConsecutiveStops = int (length (stops_since p [] es)),
     HaltedAt = (if length (stops_since p [] es) \<ge> 3 then stops_since p [] es ! 2 else 0)\<rparr>"
    by (rule snoc.IH) (use snoc.prems in auto)
  have step: "after_events (es @ [e]) = provider_step (after_events es) e" by (simp add: after_events_def)
  show ?case
  proof (cases e)
    case (InfraStop q t)
    show ?thesis
    proof (cases "q = p")
      case True
      let ?h = "readProviderHealth (after_events es) p"
      have "readProviderHealth (after_events (es @ [e])) p = infra_stop t ?h"
        unfolding step using True InfraStop by (simp add: RecordInfraStop_def readProviderHealth_def)
      then show ?thesis
        using True InfraStop stopped unfolding IH
        by (auto simp: infra_stop_def Let_def haltThreshold_def stops_since_snoc nth_append)
    next
      case False
      then show ?thesis
        using IH InfraStop unfolding step by (simp add: RecordInfraStop_def readProviderHealth_def stops_since_snoc)
    qed
  next
    case (Cleared q)
    then show ?thesis
      using IH unfolding step by (auto simp: RecordSuccess_def reset_provider_def readProviderHealth_def healthy_def stops_since_snoc)
  qed
qed

section \<open>A notice is one poll's at a time\<close>

text \<open>What the two queries are relied on for: they list only notices that match them.\<close>

definition lists_pending :: "(db \<Rightarrow> string list) \<Rightarrow> bool" where
  "lists_pending pending \<longleftrightarrow>
     (\<forall>d. \<forall>i \<in> set (pending d). \<exists>n. notices d i = Some n \<and> str n noticeStateField = noticePending)"

definition lists_stale :: "(time \<Rightarrow> db \<Rightarrow> string list) \<Rightarrow> bool" where
  "lists_stale stale \<longleftrightarrow>
     (\<forall>t d. \<forall>i \<in> set (stale t d). \<exists>n s. notices d i = Some n \<and> n claimedAtField = Some (VTime s) \<and> s < t)"

lemma notice_simps [simp]:
  "notices (put_notice i n d) j = (if j = i then Some n else notices d j)"
  "runs (put_notice i n d) = runs d"
  "dbLedger (put_notice i n d) = dbLedger d"
  "readLedger (put_notice i n d) = readLedger d"
  "breaker (put_notice i n d) = breaker d"
  by (simp_all add: put_notice_def readLedger_def)

lemma claim_each_effect:
  assumes "claim_each now is d = Inr (claimed, d')"
  shows "map noticeID claimed = is"
    and "i \<in> set is \<Longrightarrow> \<exists>n. notices d' i = Some n \<and> str n noticeStateField = noticeClaimed
           \<and> n claimedAtField = Some (VTime now)"
    and "i \<notin> set is \<Longrightarrow> notices d' i = notices d i"
  using assms
proof (induction "is" arbitrary: d claimed d')
  case (Cons j js)
  case 1
  then show ?case using Cons by (auto simp: and_then_Inr split: option.splits)
next
  case (Cons j js)
  case 2
  from 2(2) obtain n cs where n: "notices d j = Some n"
    and rest: "claim_each now js (put_notice j (apply_updates (claim_notice_updates now) n) d) = Inr (cs, d')"
    by (auto simp: and_then_Inr update_notice_def split: option.splits)
  show ?case
  proof (cases "i \<in> set js")
    case True
    then show ?thesis using Cons.IH(2) [OF True rest] by blast
  next
    case False
    with 2(1) have "i = j" by simp
    then have "notices d' i = Some (apply_updates (claim_notice_updates now) n)"
      using Cons.IH(3) [OF False rest] by simp
    then show ?thesis by (simp add: claim_notice_updates_def row_simps)
  qed
next
  case (Cons j js)
  case 3
  from 3(2) obtain n cs where n: "notices d j = Some n"
    and rest: "claim_each now js (put_notice j (apply_updates (claim_notice_updates now) n) d) = Inr (cs, d')"
    by (auto simp: and_then_Inr update_notice_def split: option.splits)
  show ?case using Cons.IH(3) [OF _ rest] 3(1) by simp
qed simp_all

lemma Claim_effect:
  assumes "Claim fault pending stale now staleBefore d = (Inr claimed, d')"
  shows "map noticeID claimed = pending d @ stale staleBefore d"
    and "n \<in> set claimed \<Longrightarrow> \<exists>doc. notices d' (noticeID n) = Some doc \<and> str doc noticeStateField = noticeClaimed
           \<and> doc claimedAtField = Some (VTime now)"
proof -
  have eff: "claim_each now (pending d @ stale staleBefore d) d = Inr (claimed, d')"
    using assms by (simp add: Claim_def run_transaction_ok)
  show ids: "map noticeID claimed = pending d @ stale staleBefore d" using claim_each_effect(1) [OF eff] .
  assume "n \<in> set claimed"
  then have "noticeID n \<in> set (map noticeID claimed)" by simp
  then have "noticeID n \<in> set (pending d @ stale staleBefore d)" by (simp only: ids)
  from claim_each_effect(2) [OF eff this] show "\<exists>doc. notices d' (noticeID n) = Some doc
      \<and> str doc noticeStateField = noticeClaimed \<and> doc claimedAtField = Some (VTime now)" .
qed

text \<open>A notice a poll holds is not taken by another before its claim goes stale.\<close>

lemma Claim_exclusive:
  assumes "lists_pending pending" and "lists_stale stale"
    and first: "Claim fault pending stale now before d = (Inr claimed, d')"
    and second: "Claim fault' pending stale now' before' d' = (Inr claimed', d'')"
    and "before' \<le> now"
  shows "noticeID ` set claimed \<inter> noticeID ` set claimed' = {}"
proof (rule ccontr)
  assume "noticeID ` set claimed \<inter> noticeID ` set claimed' \<noteq> {}"
  then obtain n m where n: "n \<in> set claimed" "m \<in> set claimed'" "noticeID n = noticeID m" by auto
  from Claim_effect(2) [OF first n(1)] obtain doc where doc: "notices d' (noticeID n) = Some doc"
    "str doc noticeStateField = noticeClaimed" "doc claimedAtField = Some (VTime now)" by blast
  have "noticeID m \<in> set (map noticeID claimed')" using n(2) by simp
  then have "noticeID n \<in> set (pending d' @ stale before' d')"
    unfolding Claim_effect(1) [OF second] using n(3) by simp
  then show False
    using assms(1,2,5) doc by (fastforce simp: lists_pending_def lists_stale_def)
qed

section \<open>A claimed notice is posted, put back, or left to go stale\<close>

lemma settle_notice_other:
  "i \<noteq> j \<Longrightarrow> notices (snd (Unclaim fault i d)) j = notices d j"
  "i \<noteq> j \<Longrightarrow> notices (snd (NoticePosted fault i now d)) j = notices d j"
  using run_transaction_cases [of fault _ d]
  by (auto simp: Unclaim_def NoticePosted_def run_transaction_def update_notice_def split: option.splits)

lemma settle_notice:
  assumes "notices d i = Some n"
  shows "notices (snd (Unclaim None i d)) i = Some (apply_updates [(noticeStateField, Put (VStr noticePending)), (claimedAtField, Delete)] n)"
    and "notices (snd (NoticePosted None i now d)) i = Some (apply_updates [(noticeStateField, Put (VStr noticePosted)),
      (postedAtField, Put (VTime now)), (claimedAtField, Delete)] n)"
    and "notices (snd (Unclaim (Some e) i d)) i = Some n"
    and "notices (snd (NoticePosted (Some e) i now d)) i = Some n"
  using assms by (simp_all add: Unclaim_def NoticePosted_def run_transaction_def update_notice_def)

definition notice_outcome :: "(notice \<Rightarrow> bool) \<Rightarrow> (string \<Rightarrow> store_err option) \<Rightarrow> notice \<Rightarrow> string" where
  "notice_outcome posts faults n = (if faults (noticeID n) \<noteq> None then noticeClaimed
     else if posts n then noticePosted else noticePending)"

definition all_claimed :: "db \<Rightarrow> notice list \<Rightarrow> bool" where
  "all_claimed d ns \<longleftrightarrow> (\<forall>n \<in> set ns. \<exists>doc. notices d (noticeID n) = Some doc \<and> str doc noticeStateField = noticeClaimed)"

lemma post_each_outcome:
  assumes "distinct (map noticeID ns)" and "all_claimed d ns"
  shows "fst (post_each posts faults clock ns d) = filter posts ns"
    and "n \<in> set ns \<Longrightarrow> \<exists>doc. notices (snd (post_each posts faults clock ns d)) (noticeID n) = Some doc
      \<and> str doc noticeStateField = notice_outcome posts faults n"
    and "i \<notin> noticeID ` set ns \<Longrightarrow> notices (snd (post_each posts faults clock ns d)) i = notices d i"
  using assms
proof (induction ns arbitrary: d i)
  case (Cons m ns)
  let ?d = "\<lambda>d. if posts m then snd (NoticePosted (faults (noticeID m)) (noticeID m) (clock (noticeID m)) d)
            else snd (Unclaim (faults (noticeID m)) (noticeID m) d)"
  have step: "post_each posts faults clock (m # ns) d =
      (if posts m then (m # fst (post_each posts faults clock ns (?d d)), snd (post_each posts faults clock ns (?d d)))
       else post_each posts faults clock ns (?d d))" for d
    by (simp add: case_prod_beta)
  have other: "notices (?d d) j = notices d j" if "j \<noteq> noticeID m" for d j
    using that settle_notice_other [of "noticeID m" j] by simp
  have prems: "distinct (map noticeID ns)" "noticeID m \<notin> noticeID ` set ns"
    if "distinct (map noticeID (m # ns))" using that by auto
  have ready: "all_claimed (?d d) ns" if "distinct (map noticeID (m # ns))" "all_claimed d (m # ns)" for d
    unfolding all_claimed_def
  proof
    fix n assume n: "n \<in> set ns"
    then have "noticeID n \<noteq> noticeID m" using prems(2) [OF that(1)] by (metis image_eqI)
    then show "\<exists>doc. notices (?d d) (noticeID n) = Some doc \<and> str doc noticeStateField = noticeClaimed"
      unfolding other [where d = d, OF \<open>noticeID n \<noteq> noticeID m\<close>] using that(2) n by (simp add: all_claimed_def)
  qed
  {
    case (1 d)
    from Cons.IH(1) [OF prems(1) [OF 1(1)] ready [OF 1]] show ?case unfolding step [of d] by (cases "posts m") simp_all
  next
    case (2 d)
    show ?case
    proof (cases "n = m")
      case True
      from 2(3) obtain doc where doc: "notices d (noticeID m) = Some doc" "str doc noticeStateField = noticeClaimed"
        by (auto simp: all_claimed_def)
      have "notices (snd (post_each posts faults clock ns (?d d))) (noticeID m) = notices (?d d) (noticeID m)"
        using Cons.IH(3) [OF prems(2) [OF 2(2)] prems(1) [OF 2(2)] ready [OF 2(2,3)]] .
      moreover have "\<exists>doc'. notices (?d d) (noticeID m) = Some doc' \<and> str doc' noticeStateField = notice_outcome posts faults m"
        using doc settle_notice [OF doc(1)]
        by (cases "faults (noticeID m)") (auto simp: notice_outcome_def row_simps)
      ultimately show ?thesis unfolding step [of d] using True by (cases "posts m") simp_all
    next
      case False
      with 2(1) have n: "n \<in> set ns" by simp
      show ?thesis unfolding step [of d] using Cons.IH(2) [OF n prems(1) [OF 2(2)] ready [OF 2(2,3)]] by (cases "posts m") simp_all
    qed
  next
    case (3 d i)
    have i: "i \<notin> noticeID ` set ns" "i \<noteq> noticeID m" using 3(1) by auto
    show ?case
      unfolding step [of d] using Cons.IH(3) [OF i(1) prems(1) [OF 3(2)] ready [OF 3(2,3)]] other [where d = d, OF i(2)]
      by (cases "posts m") simp_all
  }
qed simp_all

end
