(* ===== verification/Sweep.thy ===== *)
theory Sweep
  imports Requeue Health
begin

text \<open>
  The sweep of \<open>internal/store/sweep.go\<close> with the windows and the notice of
  \<open>internal/dispatcher/sweep.go\<close>: claims that never reported back are abandoned, each in its own
  transaction, and reservations past their window whose run has settled are dropped. The listing of
  the claimed runs is a Firestore query, a parameter here.
\<close>

section \<open>Windows and notices\<close>

definition buildAbandonWindow :: duration where "buildAbandonWindow = 190 * minute"
definition planAbandonWindow :: duration where "planAbandonWindow = 140 * minute"

record abandon_windows =
  windowPlan :: duration
  windowBuild :: duration

definition window_for :: "abandon_windows \<Rightarrow> string \<Rightarrow> duration" where
  "window_for w stage = (if stage = StagePlan then windowPlan w else windowBuild w)"

record abandoned =
  abRunID :: string
  abTicket :: string
  abRepo :: string
  abStage :: string
  abAttempt :: int
  abTicketState :: string

definition abandonedNoOutcome :: string where "abandonedNoOutcome = ''no-outcome-past-window''"
definition abandonedClass :: string where "abandonedClass = ''abandoned:''"
definition abandonedNoticeKey :: string where "abandonedNoticeKey = ''abandoned-''"

definition Abandoned_link :: "abandoned \<Rightarrow> string" where
  "Abandoned_link a = (if abRepo a = [] then [] else ''https://github.com/'' @ abRepo a @ ''/actions'')"

definition Abandoned_Notice :: "abandoned \<Rightarrow> notice" where
  "Abandoned_Notice a = \<lparr>
     noticeID = abandonedNoticeKey @ abRunID a @ ''-'' @ itoa (abAttempt a),
     noticeClass = abandonedClass @ abRunID a
       @ (if abTicket a \<noteq> abRunID a then '' ticket '' @ abTicket a else [])
       @ '' requeue with: runner requeue -run-id '' @ abRunID a,
     noticeDetail = [],
     noticeLink = Abandoned_link a\<rparr>"

section \<open>Abandoning a claim\<close>

definition staleClaims ::
  "(db \<Rightarrow> store_err + (string \<times> doc) list) \<Rightarrow> time \<Rightarrow> abandon_windows \<Rightarrow> db \<Rightarrow> store_err + string list" where
  "staleClaims listing now w d =
     and_then (listing d) (\<lambda>snaps.
       let cutoff = now - min (windowPlan w) (windowBuild w) in
       Inr (map fst (filter (\<lambda>(_, row).
         \<not> (str row outcomeField \<noteq> [] \<or> str row stopReasonField \<noteq> []
            \<or> is_zero (time_of row claimedAtField) \<or> \<not> time_of row claimedAtField < cutoff)) snaps)))"

definition abandon_updates :: "time \<Rightarrow> updates" where
  "abandon_updates now =
     [(stateField, Put (VStr stateAbandoned)), (updatedAtField, Put (VTime now)),
      (abandonedReasonField, Put (VStr abandonedNoOutcome)), (abandonedAtField, Put (VTime now)),
      (ticketStateField, Delete)]"

text \<open>The stage of the entry \<open>reservation\<close> finds, the zero entry's when it finds none.\<close>

definition claim_stage :: "ledger_doc \<Rightarrow> string \<Rightarrow> doc \<Rightarrow> string" where
  "claim_stage ledger runID row =
     (case ledger_reservation ledger runID (rowAttempt row) of None \<Rightarrow> [] | Some (_, entry) \<Rightarrow> entryStage entry)"

definition abandoned_of :: "ledger_doc \<Rightarrow> string \<Rightarrow> doc \<Rightarrow> abandoned" where
  "abandoned_of ledger runID row = \<lparr>abRunID = runID, abTicket = str row ticketIDField, abRepo = str row repoField,
     abStage = claim_stage ledger runID row, abAttempt = rowAttempt row, abTicketState = str row ticketStateField\<rparr>"

definition abandon_body :: "string \<Rightarrow> time \<Rightarrow> abandon_windows \<Rightarrow> db \<Rightarrow> store_err + abandoned option \<times> db" where
  "abandon_body runID now w d =
     (case runs d runID of
        None \<Rightarrow> Inr (None, d)
      | Some row \<Rightarrow>
        let claimedAt = time_of row claimedAtField in
        if str row stateField \<noteq> stateClaimed \<or> str row outcomeField \<noteq> [] \<or> str row stopReasonField \<noteq> []
           \<or> is_zero claimedAt
        then Inr (None, d)
        else
          let ledger = readLedger d; found = abandoned_of ledger runID row in
          if \<not> claimedAt < now - window_for w (abStage found) then Inr (None, d)
          else
            and_then (update_row runID (abandon_updates now) d) (\<lambda>d1.
            and_then (dropReservations ledger runID (rowAttempt row) (create_notice (Abandoned_Notice found) now d1))
              (\<lambda>d2. Inr (Some found, d2))))"

definition abandon ::
  "store_err option \<Rightarrow> string \<Rightarrow> time \<Rightarrow> abandon_windows \<Rightarrow> db \<Rightarrow> (store_err + abandoned option) \<times> db" where
  "abandon fault runID now w d = run_transaction fault (abandon_body runID now w) d"

section \<open>Releasing what a settled run still holds\<close>

definition reservationExpired :: "reservation_entry \<Rightarrow> time \<Rightarrow> abandon_windows \<Rightarrow> bool" where
  "reservationExpired entry now w \<longleftrightarrow>
     \<not> is_zero (ClaimedAt entry) \<and> ClaimedAt entry < now - window_for w (entryStage entry)"

definition releaseIfSettled_body :: "string \<Rightarrow> time \<Rightarrow> abandon_windows \<Rightarrow> db \<Rightarrow> store_err + bool \<times> db" where
  "releaseIfSettled_body key now w d =
     (case map_of (Reservations (readLedger d)) key of
        None \<Rightarrow> Inr (False, d)
      | Some entry \<Rightarrow>
        if \<not> reservationExpired entry now w then Inr (False, d)
        else if (case runs d (reservationRunID key) of
                   None \<Rightarrow> True
                 | Some row \<Rightarrow> str row stateField \<noteq> stateClaimed \<or> str row outcomeField \<noteq> []
                     \<or> str row stopReasonField \<noteq> [] \<or> entryAttempt entry < rowAttempt row)
        then and_then (update_ledger (drop_key key) d) (\<lambda>d'. Inr (True, d'))
        else Inr (False, d))"

definition releaseIfSettled ::
  "store_err option \<Rightarrow> string \<Rightarrow> time \<Rightarrow> abandon_windows \<Rightarrow> db \<Rightarrow> (store_err + bool) \<times> db" where
  "releaseIfSettled fault key now w d = run_transaction fault (releaseIfSettled_body key now w) d"

section \<open>The sweep\<close>

text \<open>
  A failure on one run or key is collected, and the rest goes on. \<open>fault\<close> is what each transaction
  meets: the listing of the reservations, a run's abandon and a key's release.
\<close>

record sweep_faults =
  faultListing :: "store_err option"
  faultRun :: "string \<Rightarrow> store_err option"
  faultKey :: "string \<Rightarrow> store_err option"

fun abandon_each ::
  "sweep_faults \<Rightarrow> time \<Rightarrow> abandon_windows \<Rightarrow> string list \<Rightarrow> db \<Rightarrow> (abandoned list \<times> store_err list) \<times> db" where
  "abandon_each faults now w [] d = (([], []), d)"
| "abandon_each faults now w (r # rs) d =
     (case abandon (faultRun faults r) r now w d of
        (res, d') \<Rightarrow>
          (case abandon_each faults now w rs d' of
             ((out, errs), d'') \<Rightarrow>
               (case res of Inl e \<Rightarrow> ((out, e # errs), d'')
                | Inr None \<Rightarrow> ((out, errs), d'')
                | Inr (Some a) \<Rightarrow> ((a # out, errs), d''))))"

fun release_each ::
  "sweep_faults \<Rightarrow> time \<Rightarrow> abandon_windows \<Rightarrow> string list \<Rightarrow> db \<Rightarrow> store_err list \<times> db" where
  "release_each faults now w [] d = ([], d)"
| "release_each faults now w (k # ks) d =
     (case releaseIfSettled (faultKey faults k) k now w d of
        (res, d') \<Rightarrow>
          (case release_each faults now w ks d' of
             (errs, d'') \<Rightarrow> ((case res of Inl e \<Rightarrow> e # errs | Inr _ \<Rightarrow> errs), d'')))"

definition expired_keys :: "ledger_doc \<Rightarrow> time \<Rightarrow> abandon_windows \<Rightarrow> string list" where
  "expired_keys ledger now w = map fst (filter (\<lambda>(_, entry). reservationExpired entry now w) (Reservations ledger))"

definition releaseSettledReservations ::
  "sweep_faults \<Rightarrow> time \<Rightarrow> abandon_windows \<Rightarrow> db \<Rightarrow> store_err list \<times> db" where
  "releaseSettledReservations faults now w d =
     (case faultListing faults of
        Some e \<Rightarrow> ([e], d)
      | None \<Rightarrow> release_each faults now w (expired_keys (readLedger d) now w) d)"

definition SweepAbandoned ::
  "sweep_faults \<Rightarrow> (db \<Rightarrow> store_err + (string \<times> doc) list) \<Rightarrow> time \<Rightarrow> abandon_windows \<Rightarrow> db \<Rightarrow>
   (abandoned list \<times> store_err list) \<times> db" where
  "SweepAbandoned faults listing now w d =
     (case (case staleClaims listing now w d of Inl e \<Rightarrow> ([e], []) | Inr ids \<Rightarrow> ([], ids)) of
        (errs0, ids) \<Rightarrow>
          (case abandon_each faults now w ids d of
             ((out, errs1), d') \<Rightarrow>
               (case releaseSettledReservations faults now w d' of
                  (errs2, d'') \<Rightarrow> ((out, errs0 @ errs1 @ errs2), d''))))"

text \<open>The dispatcher's sweep runs it with the windows of the two stages.\<close>

definition abandonWindows :: abandon_windows where
  "abandonWindows = \<lparr>windowPlan = planAbandonWindow, windowBuild = buildAbandonWindow\<rparr>"

definition sweepAbandoned ::
  "sweep_faults \<Rightarrow> (db \<Rightarrow> store_err + (string \<times> doc) list) \<Rightarrow> time \<Rightarrow> db \<Rightarrow> (abandoned list \<times> store_err list) \<times> db" where
  "sweepAbandoned faults listing now d = SweepAbandoned faults listing now abandonWindows d"

section \<open>What abandoning a run does\<close>

text \<open>A claim past its stage's window that has reported nothing.\<close>

definition overdue :: "time \<Rightarrow> abandon_windows \<Rightarrow> db \<Rightarrow> string \<Rightarrow> doc \<Rightarrow> bool" where
  "overdue now w d runID row \<longleftrightarrow>
     runs d runID = Some row \<and> rowState row = stateClaimed \<and> \<not> hasEnded row \<and> \<not> is_zero (time_of row claimedAtField)
     \<and> time_of row claimedAtField < now - window_for w (claim_stage (readLedger d) runID row)"

definition abandoned_row :: "time \<Rightarrow> doc \<Rightarrow> doc" where
  "abandoned_row now row = apply_updates (abandon_updates now) row"

lemma abandoned_row_reads [simp]:
  "rowState (abandoned_row now row) = stateAbandoned" "rowAttempt (abandoned_row now row) = rowAttempt row"
  by (simp_all add: abandoned_row_def abandon_updates_def rowState_def rowAttempt_def row_simps)

lemma create_notice_db [simp]:
  "runs (create_notice n now d) = runs d" "dbLedger (create_notice n now d) = dbLedger d"
  "readLedger (create_notice n now d) = readLedger d" "attempts (create_notice n now d) = attempts d"
  "rejected (create_notice n now d) = rejected d"
  by (simp_all add: create_notice_def put_notice_def readLedger_def split: option.splits)

text \<open>The two ways the transaction of one run ends.\<close>

lemma abandon_body_spared:
  assumes "\<And>row. \<not> overdue now w d runID row"
  shows "abandon_body runID now w d = Inr (None, d)"
proof (cases "runs d runID")
  case (Some row)
  with assms [of row] show ?thesis
    by (auto simp: overdue_def abandon_body_def Let_def abandoned_of_def rowState_def hasEnded_def)
qed (simp add: abandon_body_def)

lemma abandon_body_taken:
  assumes inv: "ledger_inv d" and over: "overdue now w d runID row"
  obtains d' where "abandon_body runID now w d = Inr (Some (abandoned_of (readLedger d) runID row), d')"
    "runs d' = runs (put_row runID (abandoned_row now row) d)"
    "Reservations (readLedger d') = Reservations (drop_keys (reservedKeys (readLedger d) runID (rowAttempt row)) (readLedger d))"
    "notices d' = notices (create_notice (Abandoned_Notice (abandoned_of (readLedger d) runID row)) now d)"
    "attempts d' = attempts d" "rejected d' = rejected d"
proof -
  let ?a = "abandoned_of (readLedger d) runID row"
  let ?d1 = "create_notice (Abandoned_Notice ?a) now (put_row runID (abandoned_row now row) d)"
  let ?keys = "reservedKeys (readLedger d) runID (rowAttempt row)"
  have row: "runs d runID = Some row" using over by (simp add: overdue_def)
  have body: "abandon_body runID now w d = and_then (dropReservations (readLedger d) runID (rowAttempt row) ?d1) (\<lambda>d2. Inr (Some ?a, d2))"
    using over by (simp add: overdue_def abandon_body_def Let_def abandoned_of_def rowState_def hasEnded_def abandoned_row_def)
  have notices: "notices ?d1 = notices (create_notice (Abandoned_Notice ?a) now d)"
    by (auto simp: create_notice_def put_notice_def fun_eq_iff split: option.splits)
  show ?thesis
  proof (cases "?keys = []")
    case True
    then show ?thesis
      using that [of ?d1] body notices by (simp add: dropReservations_def drop_keys_def)
  next
    case False
    then obtain key where "map_of (Reservations (readLedger d)) key \<noteq> None"
      using reservedKeys_held [of "hd ?keys" "readLedger d" runID "rowAttempt row"] by fastforce
    then have "dbLedger ?d1 = Some (readLedger d)" using held_ledger by simp
    then have "dropReservations (readLedger d) runID (rowAttempt row) ?d1 = Inr (set_ledger (drop_keys ?keys (readLedger d)) ?d1)"
      using False by (simp add: dropReservations_def Let_def update_ledger_def set_ledger_def)
    then show ?thesis
      using that [of "set_ledger (drop_keys ?keys (readLedger d)) ?d1"] body notices by simp
  qed
qed

lemma abandon_body_keeps:
  assumes inv: "ledger_inv d" and "abandon_body runID now w d = Inr (res, d')"
  shows "ledger_inv d'" and "res = Some a \<Longrightarrow> holds_none d' runID"
proof -
  have "ledger_inv d' \<and> (res = Some a \<longrightarrow> holds_none d' runID)"
  proof (cases "\<exists>row. overdue now w d runID row")
    case False
    then show ?thesis using assms abandon_body_spared by auto
  next
    case True
    then obtain row where over: "overdue now w d runID row" by blast
    then have row: "runs d runID = Some row" by (simp add: overdue_def)
    let ?e = "set_ledger (drop_keys (reservedKeys (readLedger d) runID (rowAttempt row)) (readLedger d)) d"
    from abandon_body_taken [OF inv over] assms(2)
    have d': "runs d' = runs (put_row runID (abandoned_row now row) d)"
      "Reservations (readLedger d') = Reservations (drop_keys (reservedKeys (readLedger d) runID (rowAttempt row)) (readLedger d))"
      by auto
    have "ledger_inv (put_row runID (abandoned_row now row) ?e)"
      using put_row_unreserved [OF drop_reserved [OF inv row] ledger_invD(2) [OF inv row]] .
    moreover have "runs d' = runs (put_row runID (abandoned_row now row) ?e)" using d'(1) by (simp add: fun_eq_iff)
    ultimately have "ledger_inv d'"
      using d'(2) ledger_inv_cong [of d' "put_row runID (abandoned_row now row) ?e"] by simp
    then show ?thesis using drop_reserved(2) [OF inv row] d'(2) holds_none_cong [of d' ?e] by simp
  qed
  then show "ledger_inv d'" "res = Some a \<Longrightarrow> holds_none d' runID" by auto
qed

lemma abandon_keeps: "ledger_inv d \<Longrightarrow> ledger_inv (snd (abandon fault runID now w d))"
  unfolding abandon_def by (rule transaction_keeps) (blast intro: abandon_body_keeps(1))+

lemma releaseIfSettled_body_Inr:
  assumes "releaseIfSettled_body key now w d = Inr (b, d')"
  shows "d' = d \<and> \<not> b \<or> b \<and> d' = set_ledger (drop_key key (readLedger d)) d"
proof (cases "map_of (Reservations (readLedger d)) key")
  case (Some entry)
  then show ?thesis
    using assms by (auto simp: releaseIfSettled_body_def update_ledger_held split: if_splits)
qed (use assms in \<open>simp add: releaseIfSettled_body_def\<close>)

lemma releaseIfSettled_keeps:
  assumes inv: "ledger_inv d"
  shows "ledger_inv (snd (releaseIfSettled fault key now w d))"
  unfolding releaseIfSettled_def
proof (rule transaction_keeps [OF inv])
  fix b d' assume "releaseIfSettled_body key now w d = Inr (b, d')"
  then consider "d' = d" | "d' = set_ledger (drop_key key (readLedger d)) d"
    using releaseIfSettled_body_Inr by blast
  then show "ledger_inv d'"
  proof cases
    case 2
    show ?thesis
      unfolding 2 using inv ledger_invD(1) [OF inv] by (intro drop_keeps) (auto simp: held_def split: if_splits)
  qed (use inv in simp)
qed

text \<open>A step of each walk.\<close>

lemma abandon_each_step:
  "snd (abandon_each faults now w (r # rs) d) =
     snd (abandon_each faults now w rs (snd (abandon (faultRun faults r) r now w d)))"
  "fst (fst (abandon_each faults now w (r # rs) d)) =
     (case fst (abandon (faultRun faults r) r now w d) of Inr (Some a) \<Rightarrow> [a] | _ \<Rightarrow> [])
     @ fst (fst (abandon_each faults now w rs (snd (abandon (faultRun faults r) r now w d))))"
  by (auto split: prod.splits sum.splits option.splits)

lemma release_each_step:
  "snd (release_each faults now w (k # ks) d) =
     snd (release_each faults now w ks (snd (releaseIfSettled (faultKey faults k) k now w d)))"
  by (auto split: prod.splits sum.splits)

lemma abandon_each_keeps: "ledger_inv d \<Longrightarrow> ledger_inv (snd (abandon_each faults now w rs d))"
  by (induction rs arbitrary: d) (simp_all only: abandon_each_step abandon_each.simps(1) snd_conv abandon_keeps)

lemma release_each_keeps: "ledger_inv d \<Longrightarrow> ledger_inv (snd (release_each faults now w ks d))"
  by (induction ks arbitrary: d) (simp_all only: release_each_step release_each.simps(1) snd_conv releaseIfSettled_keeps)

lemma releaseSettled_keeps: "ledger_inv d \<Longrightarrow> ledger_inv (snd (releaseSettledReservations faults now w d))"
  by (simp add: releaseSettledReservations_def release_each_keeps split: option.splits)

text \<open>The sweep in two halves: the runs it abandons, then the keys it releases.\<close>

definition stale_ids :: "(db \<Rightarrow> store_err + (string \<times> doc) list) \<Rightarrow> time \<Rightarrow> abandon_windows \<Rightarrow> db \<Rightarrow> string list" where
  "stale_ids listing now w d = (case staleClaims listing now w d of Inl e \<Rightarrow> [] | Inr ids \<Rightarrow> ids)"

lemma SweepAbandoned_parts:
  "snd (SweepAbandoned faults listing now w d) =
     snd (releaseSettledReservations faults now w (snd (abandon_each faults now w (stale_ids listing now w d) d)))"
  "fst (fst (SweepAbandoned faults listing now w d)) = fst (fst (abandon_each faults now w (stale_ids listing now w d) d))"
  by (auto simp: SweepAbandoned_def stale_ids_def split: prod.splits sum.splits)

interpretation sweep: keeps_ledger "SweepAbandoned faults listing now w" for faults listing now w
  by unfold_locales (simp add: SweepAbandoned_parts releaseSettled_keeps abandon_each_keeps)

section \<open>The sweep takes the overdue claims and no others\<close>

lemma ledger_reservation_cong:
  assumes "run_id_ok r" and "\<And>k. reservationRunID k = r \<Longrightarrow> map_of (Reservations l) k = map_of (Reservations l') k"
  shows "ledger_reservation l r a = ledger_reservation l' r a"
  using assms by (simp add: ledger_reservation_def reservedKeys_def held_keys_def Let_def
      reservationRunID_key reservationRunID_legacy split: list.splits)

text \<open>The rest of an abandoned run's own transaction.\<close>

lemma abandon_effect:
  assumes inv: "ledger_inv d"
  shows "runs (snd (abandon fault r now w d)) q =
      map_option (\<lambda>row. if q = r \<and> fault = None \<and> overdue now w d r row then abandoned_row now row else row) (runs d q)"
    and "held (snd (abandon fault r now w d)) key =
      (if fault = None \<and> (\<exists>row. overdue now w d r row) \<and> reservationRunID key = r then None else held d key)"
    and "(\<exists>a. fst (abandon fault r now w d) = Inr (Some a)) \<longleftrightarrow> fault = None \<and> (\<exists>row. overdue now w d r row)"
    and "fst (abandon fault r now w d) = Inr (Some a) \<Longrightarrow> abRunID a = r"
proof -
  have *: "runs (snd (abandon fault r now w d)) q =
      map_option (\<lambda>row. if q = r \<and> fault = None \<and> overdue now w d r row then abandoned_row now row else row) (runs d q)
    \<and> held (snd (abandon fault r now w d)) key =
      (if fault = None \<and> (\<exists>row. overdue now w d r row) \<and> reservationRunID key = r then None else held d key)
    \<and> ((\<exists>a. fst (abandon fault r now w d) = Inr (Some a)) \<longleftrightarrow> fault = None \<and> (\<exists>row. overdue now w d r row))
    \<and> (\<forall>a. fst (abandon fault r now w d) = Inr (Some a) \<longrightarrow> abRunID a = r)"
  proof (cases "fault = None \<and> (\<exists>row. overdue now w d r row)")
    case True
    then obtain row where over: "overdue now w d r row" and fault: "fault = None" by blast
    have row: "runs d r = Some row" using over by (simp add: overdue_def)
    from abandon_body_taken [OF inv over] obtain d' where
      body: "abandon_body r now w d = Inr (Some (abandoned_of (readLedger d) r row), d')"
      and d': "runs d' = runs (put_row r (abandoned_row now row) d)"
      "Reservations (readLedger d') = Reservations (drop_keys (reservedKeys (readLedger d) r (rowAttempt row)) (readLedger d))"
      by metis
    have "held d' key = (if reservationRunID key = r then None else held d key)"
      using held_iff_reserved [OF inv row] by (auto simp: held_def d'(2))
    then show ?thesis
      using over row d'(1) body fault by (auto simp: abandon_def run_transaction_def abandoned_of_def option.map_ident)
  next
    case False
    then show ?thesis
      using abandon_body_spared [of now w d r]
      by (cases fault; cases "runs d q") (auto simp: abandon_def run_transaction_def)
  qed
  show "runs (snd (abandon fault r now w d)) q =
      map_option (\<lambda>row. if q = r \<and> fault = None \<and> overdue now w d r row then abandoned_row now row else row) (runs d q)"
    using * by blast
  show "held (snd (abandon fault r now w d)) key =
      (if fault = None \<and> (\<exists>row. overdue now w d r row) \<and> reservationRunID key = r then None else held d key)"
    using * by blast
  show "(\<exists>a. fst (abandon fault r now w d) = Inr (Some a)) \<longleftrightarrow> fault = None \<and> (\<exists>row. overdue now w d r row)"
    using * by blast
  show "fst (abandon fault r now w d) = Inr (Some a) \<Longrightarrow> abRunID a = r" using * by blast
qed

text \<open>Abandoning one run leaves every other run's claim as overdue as it was.\<close>

lemma abandon_overdue_other:
  assumes inv: "ledger_inv d" and "q \<noteq> r"
  shows "overdue now w (snd (abandon fault r now w d)) q row \<longleftrightarrow> overdue now w d q row"
proof -
  let ?d = "snd (abandon fault r now w d)"
  have run: "runs ?d q = runs d q" using abandon_effect(1) [OF inv, of fault r now w q] assms(2) by (cases "runs d q") auto
  have "claim_stage (readLedger ?d) q row = claim_stage (readLedger d) q row" if "runs d q = Some row"
  proof -
    have "map_of (Reservations (readLedger ?d)) k = map_of (Reservations (readLedger d)) k" if "reservationRunID k = q" for k
      using abandon_effect(2) [OF inv, of fault r now w k] that assms(2) by (auto simp: held_def)
    then show ?thesis
      unfolding claim_stage_def using ledger_reservation_cong [OF ledger_invD(2) [OF inv that]] by metis
  qed
  then show ?thesis using run by (auto simp: overdue_def)
qed

lemma abandon_not_overdue:
  assumes inv: "ledger_inv d" and fault: "fault = None"
  shows "\<not> overdue now w (snd (abandon fault r now w d)) r row"
proof (cases "\<exists>row. overdue now w d r row")
  case True
  then obtain row' where over: "overdue now w d r row'" by blast
  then have "runs (snd (abandon fault r now w d)) r = Some (abandoned_row now row')"
    using abandon_effect(1) [OF inv, of fault r now w r] fault by (simp add: overdue_def)
  then show ?thesis by (auto simp: overdue_def)
next
  case False
  then have "snd (abandon fault r now w d) = d"
    using abandon_body_spared [of now w d r] fault by (simp add: abandon_def run_transaction_def)
  then show ?thesis using False by simp
qed

lemma abandon_each_exact:
  assumes "ledger_inv d"
  shows "runs (snd (abandon_each faults now w rs d)) q =
      map_option (\<lambda>row. if q \<in> set rs \<and> faultRun faults q = None \<and> overdue now w d q row then abandoned_row now row else row)
        (runs d q)"
    and "held (snd (abandon_each faults now w rs d)) key =
      (if reservationRunID key \<in> set rs \<and> faultRun faults (reservationRunID key) = None
          \<and> (\<exists>row. overdue now w d (reservationRunID key) row) then None else held d key)"
    and "abRunID ` set (fst (fst (abandon_each faults now w rs d))) =
      {q \<in> set rs. faultRun faults q = None \<and> (\<exists>row. overdue now w d q row)}"
  using assms
proof (induction rs arbitrary: d q key)
  case Nil
  { case 1 show ?case by (simp add: option.map_ident) next case 2 show ?case by simp next case 3 show ?case by simp }
next
  case (Cons r rs)
  let ?d = "\<lambda>d. snd (abandon (faultRun faults r) r now w d)"
  {
    case (1 d q)
    have inv: "ledger_inv (?d d)" using 1 by (rule abandon_keeps)
    show ?case
    proof (cases "q = r")
      case True
      then show ?thesis
        unfolding abandon_each_step Cons.IH(1) [OF inv]
        using abandon_effect(1) [OF 1, of "faultRun faults r" r now w r] abandon_not_overdue [OF 1, of "faultRun faults r" now w r]
          abandon_not_overdue [OF inv]
        by (cases "runs d r"; cases "faultRun faults r") (auto simp: abandon_def run_transaction_def)
    next
      case False
      then show ?thesis
        unfolding abandon_each_step Cons.IH(1) [OF inv]
        using abandon_effect(1) [OF 1, of "faultRun faults r" r now w q] abandon_overdue_other [OF 1 False]
        by (cases "runs d q") auto
    qed
  next
    case (2 d key)
    have inv: "ledger_inv (?d d)" using 2 by (rule abandon_keeps)
    show ?case
    proof (cases "reservationRunID key = r")
      case True
      then show ?thesis
        unfolding abandon_each_step Cons.IH(2) [OF inv]
        using abandon_effect(2) [OF 2, of "faultRun faults r" r now w key] abandon_not_overdue [OF 2, of "faultRun faults r" now w r]
        by (cases "faultRun faults r") (auto simp: abandon_def run_transaction_def)
    next
      case False
      then show ?thesis
        unfolding abandon_each_step Cons.IH(2) [OF inv]
        using abandon_effect(2) [OF 2, of "faultRun faults r" r now w key] False
        by (auto simp: abandon_overdue_other [OF 2 False, abs_def])
    qed
  next
    case (3 d)
    have inv: "ledger_inv (?d d)" using 3 by (rule abandon_keeps)
    have head: "abRunID ` set (case fst (abandon (faultRun faults r) r now w d) of Inr (Some a) \<Rightarrow> [a] | _ \<Rightarrow> []) =
        (if faultRun faults r = None \<and> (\<exists>row. overdue now w d r row) then {r} else {})"
      using abandon_effect(3,4) [OF 3, of "faultRun faults r" r now w]
      by (cases "fst (abandon (faultRun faults r) r now w d)") (auto split: option.splits)
    have tail: "abRunID ` set (fst (fst (abandon_each faults now w rs (?d d)))) =
        {q \<in> set rs. faultRun faults q = None \<and> (\<exists>row. overdue now w (?d d) q row)}"
      using Cons.IH(3) [OF inv] .
    have over: "overdue now w (?d d) q row \<longleftrightarrow> q \<noteq> r \<and> overdue now w d q row" if "faultRun faults q = None" for q row
      using that abandon_overdue_other [OF 3] abandon_not_overdue [OF 3] by (cases "q = r") auto
    have swept: "faultRun faults q = None \<and> (\<exists>row. overdue now w (?d d) q row) \<longleftrightarrow>
        faultRun faults q = None \<and> q \<noteq> r \<and> (\<exists>row. overdue now w d q row)" for q
      using over by metis
    show ?case
      unfolding abandon_each_step set_append image_Un head tail swept by auto
  }
qed

text \<open>The release half drops every expired reservation whose run has settled, and no others.\<close>

definition releasable :: "time \<Rightarrow> abandon_windows \<Rightarrow> db \<Rightarrow> string \<Rightarrow> bool" where
  "releasable now w d key \<longleftrightarrow>
     (\<exists>e. held d key = Some e \<and> reservationExpired e now w
        \<and> (case runs d (reservationRunID key) of None \<Rightarrow> True
           | Some row \<Rightarrow> rowState row \<noteq> stateClaimed \<or> hasEnded row \<or> entryAttempt e < rowAttempt row))"

lemma release_effect:
  "runs (snd (releaseIfSettled fault k now w d)) = runs d"
  "held (snd (releaseIfSettled fault k now w d)) key =
     (if key = k \<and> fault = None \<and> releasable now w d k then None else held d key)"
proof -
  have "runs (snd (releaseIfSettled fault k now w d)) = runs d \<and>
    held (snd (releaseIfSettled fault k now w d)) key =
     (if key = k \<and> fault = None \<and> releasable now w d k then None else held d key)"
  proof (cases "fault = None \<and> releasable now w d k")
    case True
    then obtain e where "map_of (Reservations (readLedger d)) k = Some e" by (auto simp: releasable_def held_def)
    with True have "releaseIfSettled_body k now w d = Inr (True, set_ledger (drop_key k (readLedger d)) d)"
      by (auto simp: releasable_def releaseIfSettled_body_def held_def hasEnded_def rowState_def update_ledger_held split: option.splits)
    with True show ?thesis by (simp add: releaseIfSettled_def run_transaction_def) (simp add: held_def)
  next
    case False
    then have "fault = None \<Longrightarrow> releaseIfSettled_body k now w d = Inr (False, d)"
      by (auto simp: releasable_def releaseIfSettled_body_def held_def hasEnded_def rowState_def split: option.splits)
    with False show ?thesis by (cases fault) (auto simp: releaseIfSettled_def run_transaction_def)
  qed
  then show "runs (snd (releaseIfSettled fault k now w d)) = runs d"
    "held (snd (releaseIfSettled fault k now w d)) key =
     (if key = k \<and> fault = None \<and> releasable now w d k then None else held d key)" by blast+
qed

lemma release_other: "releasable now w (snd (releaseIfSettled fault k now w d)) key \<longleftrightarrow>
    \<not> (key = k \<and> fault = None) \<and> releasable now w d key"
  using release_effect(2) [of fault k now w d key] by (auto simp: releasable_def release_effect(1) split: if_splits)

lemma release_each_exact:
  "runs (snd (release_each faults now w ks d)) = runs d"
  "held (snd (release_each faults now w ks d)) key =
     (if key \<in> set ks \<and> faultKey faults key = None \<and> releasable now w d key then None else held d key)"
proof (induction ks arbitrary: d)
  case (Cons k ks)
  {
    case 1 show ?case unfolding release_each_step Cons.IH(1) release_effect(1) ..
  next
    case 2 show ?case unfolding release_each_step Cons.IH(2) release_effect(2) release_other by auto
  }
qed simp_all

lemma expired_listed: "releasable now w d key \<Longrightarrow> key \<in> set (expired_keys (readLedger d) now w)"
  by (force simp: releasable_def expired_keys_def held_def dest: map_of_SomeD)

lemma releaseSettled_exact:
  "runs (snd (releaseSettledReservations faults now w d)) = runs d"
  "held (snd (releaseSettledReservations faults now w d)) key =
     (if faultListing faults = None \<and> faultKey faults key = None \<and> releasable now w d key then None else held d key)"
  using expired_listed [of now w d key]
  by (auto simp: releaseSettledReservations_def release_each_exact split: option.splits)

section \<open>The whole sweep\<close>

text \<open>What the listing is relied on for: it returns the rows whose state is claimed.\<close>

definition lists_claimed :: "(db \<Rightarrow> store_err + (string \<times> doc) list) \<Rightarrow> db \<Rightarrow> bool" where
  "lists_claimed listing d \<longleftrightarrow>
     (\<exists>snaps. listing d = Inr snaps \<and> set snaps = {(r, row). runs d r = Some row \<and> rowState row = stateClaimed})"

lemma overdue_listed:
  assumes "lists_claimed listing d" and "overdue now w d r row"
  shows "r \<in> set (stale_ids listing now w d)"
proof -
  obtain snaps where snaps: "listing d = Inr snaps" "set snaps = {(r, row). runs d r = Some row \<and> rowState row = stateClaimed}"
    using assms(1) by (auto simp: lists_claimed_def)
  have "time_of row claimedAtField < now - min (windowPlan w) (windowBuild w)"
    using assms(2) by (auto simp: overdue_def window_for_def split: if_splits)
  moreover have "(r, row) \<in> set snaps" using assms(2) snaps(2) by (simp add: overdue_def)
  ultimately show ?thesis
    using assms(2) snaps(1) by (force simp: stale_ids_def staleClaims_def overdue_def hasEnded_def)
qed

text \<open>The runs a sweep abandons: overdue, with no fault in their own transaction.\<close>

definition swept :: "sweep_faults \<Rightarrow> time \<Rightarrow> abandon_windows \<Rightarrow> db \<Rightarrow> string \<Rightarrow> bool" where
  "swept faults now w d r \<longleftrightarrow> faultRun faults r = None \<and> (\<exists>row. overdue now w d r row)"

lemma sweep_exact:
  assumes inv: "ledger_inv d" and listing: "lists_claimed listing d"
    and sweep: "SweepAbandoned faults listing now w d = ((out, errs), d')"
  shows "runs d' r = map_option (\<lambda>row. if swept faults now w d r then abandoned_row now row else row) (runs d r)"
    and "abRunID ` set out = {r. swept faults now w d r}"
    and "held d' key =
      (if swept faults now w d (reservationRunID key)
          \<or> faultListing faults = None \<and> faultKey faults key = None \<and> releasable now w d key then None else held d key)"
proof -
  let ?d = "snd (abandon_each faults now w (stale_ids listing now w d) d)"
  have d': "d' = snd (releaseSettledReservations faults now w ?d)" and out: "out = fst (fst (abandon_each faults now w (stale_ids listing now w d) d))"
    using SweepAbandoned_parts [of faults listing now w d] sweep by simp_all
  note each = abandon_each_exact [OF inv, of faults now w "stale_ids listing now w d"]
  have rows: "runs ?d q = map_option (\<lambda>row. if swept faults now w d q then abandoned_row now row else row) (runs d q)" for q
    unfolding each(1) using overdue_listed [OF listing, of now w q]
    by (cases "runs d q") (auto simp: swept_def overdue_def)
  have keys: "held ?d key = (if swept faults now w d (reservationRunID key) then None else held d key)" for key
    unfolding each(2) using overdue_listed [OF listing] by (auto simp: swept_def)
  show "runs d' r = map_option (\<lambda>row. if swept faults now w d r then abandoned_row now row else row) (runs d r)"
    by (simp add: d' releaseSettled_exact(1) rows)
  show "abRunID ` set out = {r. swept faults now w d r}"
    unfolding out each(3) using overdue_listed [OF listing] by (auto simp: swept_def)
  have "releasable now w ?d key \<longleftrightarrow> \<not> swept faults now w d (reservationRunID key) \<and> releasable now w d key"
    using rows [of "reservationRunID key"] keys [of key]
    by (cases "runs d (reservationRunID key)") (auto simp: releasable_def split: if_splits)
  then show "held d' key =
      (if swept faults now w d (reservationRunID key)
          \<or> faultListing faults = None \<and> faultKey faults key = None \<and> releasable now w d key then None else held d key)"
    by (auto simp: d' releaseSettled_exact(2) keys)
qed

end
