(* ===== verification/Run_Steps.thy ===== *)
theory Run_Steps
  imports Decisions Sweep Queue_Admin
begin

text \<open>
  What an operation of the store may do to the runs it does not create: the locale \<open>run_op\<close> is the
  contract of an operation that books no reservation and starts at most the next attempt of a run,
  and only once its attempt has ended; \<open>steady_op\<close> that of one that starts none. Every operation but
  \<open>TryClaim\<close>, \<open>Enqueue\<close> and \<open>PutRecord\<close> is interpreted as one of them.
\<close>

definition releases_only :: "db \<Rightarrow> db \<Rightarrow> bool" where
  "releases_only d d' \<longleftrightarrow> (\<forall>k e. held d' k = Some e \<longrightarrow> held d k = Some e)"

definition same_attempts :: "db \<Rightarrow> db \<Rightarrow> bool" where
  "same_attempts d d' \<longleftrightarrow> (\<forall>r. map_option rowAttempt (runs d' r) = map_option rowAttempt (runs d r))"

definition next_attempts :: "db \<Rightarrow> db \<Rightarrow> bool" where
  "next_attempts d d' \<longleftrightarrow>
     (\<forall>r row. runs d r = Some row \<longrightarrow>
        (\<exists>row'. runs d' r = Some row' \<and>
           (rowAttempt row' = rowAttempt row \<or> rowAttempt row' = rowAttempt row + 1 \<and> ended_for_good row)))"

lemma releases_only_refl [simp]: "releases_only d d"
  by (simp add: releases_only_def)

lemma same_attempts_refl [simp]: "same_attempts d d"
  by (simp add: same_attempts_def)

lemma releases_only_trans: "releases_only d d' \<Longrightarrow> releases_only d' d'' \<Longrightarrow> releases_only d d''"
  by (simp add: releases_only_def)

lemma same_attempts_trans: "same_attempts d d' \<Longrightarrow> same_attempts d' d'' \<Longrightarrow> same_attempts d d''"
  by (simp add: same_attempts_def)

lemma same_then_next:
  assumes "same_attempts d d'"
  shows "next_attempts d d'"
  unfolding next_attempts_def
proof (intro allI impI)
  fix r row assume "runs d r = Some row"
  then obtain row' where "runs d' r = Some row'" "rowAttempt row' = rowAttempt row"
    using assms [unfolded same_attempts_def, rule_format, of r] by auto
  then show "\<exists>row'. runs d' r = Some row' \<and>
      (rowAttempt row' = rowAttempt row \<or> rowAttempt row' = rowAttempt row + 1 \<and> ended_for_good row)" by blast
qed

locale run_op = keeps_ledger op for op :: "db \<Rightarrow> 'r \<times> db" +
  assumes books_none: "ledger_inv d \<Longrightarrow> releases_only d (snd (op d))"
    and attempts: "ledger_inv d \<Longrightarrow> next_attempts d (snd (op d))"
begin

text \<open>So the runs in flight never grow by it.\<close>

lemma in_flight_le:
  assumes inv: "ledger_inv d"
  shows "length (Reservations (readLedger (snd (op d)))) \<le> length (Reservations (readLedger d))"
proof -
  have sub: "fst ` set (Reservations (readLedger (snd (op d)))) \<subseteq> fst ` set (Reservations (readLedger d))"
  proof
    fix k assume "k \<in> fst ` set (Reservations (readLedger (snd (op d))))"
    then obtain e where "held (snd (op d)) k = Some e"
      by (metis held_def map_of_eq_None_iff not_Some_eq)
    then have "held d k = Some e" using books_none [OF inv] by (simp add: releases_only_def)
    then show "k \<in> fst ` set (Reservations (readLedger d))"
      by (metis held_def map_of_eq_None_iff option.distinct(1))
  qed
  have "length (Reservations (readLedger (snd (op d)))) = card (fst ` set (Reservations (readLedger (snd (op d)))))"
    using ledger_invD(1) [OF keeps [OF inv]] distinct_card [of "map fst (Reservations (readLedger (snd (op d))))"]
    by (simp add: keyed_def)
  also have "\<dots> \<le> card (fst ` set (Reservations (readLedger d)))" using sub by (simp add: card_mono)
  also have "\<dots> \<le> length (Reservations (readLedger d))" by (metis card_length length_map set_map)
  finally show ?thesis .
qed

end

locale steady_op = keeps_ledger op for op :: "db \<Rightarrow> 'r \<times> db" +
  assumes releases: "ledger_inv d \<Longrightarrow> releases_only d (snd (op d))"
    and steady: "ledger_inv d \<Longrightarrow> same_attempts d (snd (op d))"

sublocale steady_op \<subseteq> run_op
  by unfold_locales (auto intro: releases same_then_next steady)

section \<open>The shapes of the operations\<close>

lemma put_row_same_attempts:
  "runs d r = Some row \<Longrightarrow> rowAttempt row' = rowAttempt row \<Longrightarrow> same_attempts d (put_row r row' d)"
  by (simp add: same_attempts_def)

lemma put_row_releases [simp]: "releases_only d (put_row r row d)"
  by (simp add: releases_only_def)

lemma on_row_steady:
  assumes "row_change f"
  shows "releases_only d (snd (run_transaction fault (on_row r missing f) d))"
    and "same_attempts d (snd (run_transaction fault (on_row r missing f) d))"
proof -
  have "snd (run_transaction fault (on_row r missing f) d) = d \<or>
      (\<exists>row us a. runs d r = Some row \<and> f row = Inr (a, us)
         \<and> snd (run_transaction fault (on_row r missing f) d) = put_row r (apply_updates us row) d)"
    using run_transaction_cases [of fault "on_row r missing f" d] by (auto simp: on_row_Inr)
  then show "releases_only d (snd (run_transaction fault (on_row r missing f) d))"
    and "same_attempts d (snd (run_transaction fault (on_row r missing f) d))"
    using row_change.keeps_attempt [OF assms] by (auto intro!: put_row_same_attempts same_attempt)
qed

lemma drop_key_releases: "keyed (Reservations (readLedger d)) \<Longrightarrow> Reservations l = AList.delete k (Reservations (readLedger d)) \<Longrightarrow>
    releases_only d (set_ledger l d)"
  by (auto simp: releases_only_def held_def split: if_splits)

lemma end_claim_steady:
  assumes inv: "ledger_inv d" and us: "\<And>row. attemptField \<notin> touches (us row)" "\<And>row e. attemptField \<notin> touches (f row e)"
  shows "releases_only d (snd (run_transaction fault (end_claim r us f) d))"
    and "same_attempts d (snd (run_transaction fault (end_claim r us f) d))"
proof -
  have *: "releases_only d d' \<and> same_attempts d d'" if "end_claim r us f d = Inr (u, d')" for u d'
    using inv that
  proof (cases rule: end_claim_cases)
    case (free row)
    then show ?thesis using us by (auto intro!: put_row_same_attempts same_attempt)
  next
    case (dropped row key entry)
    then show ?thesis
      using us by (auto simp: releases_only_def same_attempts_def same_attempt held_def split: if_splits)
  qed
  then show "releases_only d (snd (run_transaction fault (end_claim r us f) d))"
    and "same_attempts d (snd (run_transaction fault (end_claim r us f) d))"
    using run_transaction_cases [of fault "end_claim r us f" d] by (metis releases_only_refl, metis same_attempts_refl)
qed

lemma settle_steady:
  "releases_only d (snd (run_transaction fault (settle_body recent r a st) d))"
  "same_attempts d (snd (run_transaction fault (settle_body recent r a st) d))"
proof -
  have *: "releases_only d d' \<and> same_attempts d d'" if "settle_body recent r a st d = Inr (u, d')" for u d'
    using that
  proof (cases rule: settle_body_cases)
    case (plan row entry)
    then show ?thesis
      by (auto simp: releases_only_def same_attempts_def same_attempt planSettle_def held_def split: if_splits)
  next
    case (build entry rec)
    then show ?thesis by (auto simp: releases_only_def same_attempts_def held_def split: if_splits)
  qed simp
  then show "releases_only d (snd (run_transaction fault (settle_body recent r a st) d))"
    and "same_attempts d (snd (run_transaction fault (settle_body recent r a st) d))"
    using run_transaction_cases [of fault "settle_body recent r a st" d] by (metis releases_only_refl, metis same_attempts_refl)
qed

context requeue_decision
begin

lemma requeue_next:
  shows "releases_only d (snd (requeue fault opts decide r now d))"
    and "next_attempts d (snd (requeue fault opts decide r now d))"
proof -
  have *: "releases_only d d' \<and> next_attempts d d'" if "requeue_body opts decide r now d = Inr (res, d')" for res d'
    using that
  proof (rule requeue_ok)
    fix row state extra
    assume row: "runs d r = Some row" and dec: "decide row (rowAttempt row + 1) = Inr (state, extra)"
      and d': "runs d' = runs (put_row r (requeued_row opts state extra row now) d)"
      and R: "Reservations (readLedger d') = Reservations (drop_keys (reservedKeys (readLedger d) r (rowAttempt row)) (readLedger d))"
    have "releases_only d d'" by (auto simp: releases_only_def held_def R split: if_splits)
    moreover have "next_attempts d d'"
      using ended [OF dec] requeued_row_reads(2) [OF dec] row by (auto simp: next_attempts_def d')
    ultimately show ?thesis by blast
  qed
  then show "releases_only d (snd (requeue fault opts decide r now d))"
    and "next_attempts d (snd (requeue fault opts decide r now d))"
    using run_transaction_cases [of fault "requeue_body opts decide r now" d] same_then_next [OF same_attempts_refl [of d]]
    unfolding requeue_def by (metis releases_only_refl, metis)
qed

end

section \<open>Claims, releases and settlements\<close>

interpretation release_step: steady_op "Release fault runID now" for fault runID now
  by unfold_locales (simp_all add: Release_def end_claim_steady release_updates_def)

interpretation stop_step: steady_op "Stop fault runID reason detail now" for fault runID reason detail now
  by unfold_locales (simp_all add: Stop_def end_claim_steady stop_updates_def planSettle_def)

interpretation settle_step: steady_op "Settle fault recent runID attempt" for fault recent runID attempt
  by unfold_locales (simp_all add: Settle_def settle_steady)

interpretation settle_plan_step: steady_op "SettlePlan fault recent runID attempt" for fault recent runID attempt
  by unfold_locales (simp_all add: SettlePlan_def settle_steady)

interpretation adopt_step: steady_op "AdoptRunsAtOnce fault n" for fault n
  by unfold_locales
    (auto simp: AdoptRunsAtOnce_def run_transaction_def Let_def releases_only_def same_attempts_def held_def split: option.splits)

section \<open>Requeues\<close>

interpretation requeue_step: run_op "Requeue fault runID now" for fault runID now
  by unfold_locales (simp_all add: Requeue_def plain.requeue_next)

interpretation conflict_step: run_op "RequeueAfterConflict fault runID now maxAttempts" for fault runID now maxAttempts
  by unfold_locales (simp_all add: RequeueAfterConflict_def conflict.requeue_next)

interpretation transient_step: run_op "RequeueTransient fault runID now cls limit" for fault runID now cls limit
  by unfold_locales (simp_all add: RequeueTransient_def transient.requeue_next)

interpretation retry_step: run_op "RetryWithNote fault runID req now" for fault runID req now
proof unfold_locales
  fix d :: db
  show "releases_only d (snd (RetryWithNote fault runID req now d))"
    using RetryWithNote_db [of fault runID req now d] retry.requeue_next(1) by (metis releases_only_refl)
  show "next_attempts d (snd (RetryWithNote fault runID req now d))"
    using RetryWithNote_db [of fault runID req now d] retry.requeue_next(2) same_then_next [OF same_attempts_refl] by metis
qed

interpretation supersede_step: run_op "Supersede fault runID index replied ans now" for fault runID index replied ans now
  by unfold_locales (simp_all add: Supersede_db supersede.requeue_next)

section \<open>Decisions\<close>

lemma settleDecision_steady:
  assumes "ledger_inv d" and "\<And>es. attemptField \<notin> touches (snd (f es))"
  shows "releases_only d (snd (run_transaction fault (settleDecision runID runURL now f) d))"
    and "same_attempts d (snd (run_transaction fault (settleDecision runID runURL now f) d))"
  using assms by (simp_all add: settleDecision_def Let_def end_claim_steady planSettle_def case_prod_beta)

interpretation suspend_step: steady_op "Suspend fault runID dec runURL now" for fault runID dec runURL now
  by unfold_locales (simp_all add: Suspend_def settleDecision_steady)

interpretation take_step: steady_op "TakeRecommendation fault runID dec runURL now" for fault runID dec runURL now
  by unfold_locales (simp_all add: TakeRecommendation_def settleDecision_steady)

interpretation reply_step: steady_op "Reply fault runID sessionID said now" for fault runID sessionID said now
  by unfold_locales (simp_all add: Reply_def on_row_steady reply_change.row_change_axioms)

interpretation answer_step: steady_op "Answer fault runID ans now" for fault runID ans now
  by unfold_locales (simp_all add: Answer_def on_row_steady answer_change.row_change_axioms)

interpretation posted_step: steady_op "Posted fault runID sessionID now" for fault runID sessionID now
  by unfold_locales (simp_all add: Posted_def on_row_steady posted_change.row_change_axioms)

interpretation stop_waiting_step: steady_op "StopWaiting fault runID dec now" for fault runID dec now
  by unfold_locales (simp_all add: StopWaiting_def on_row_steady stop_waiting_change.row_change_axioms)

interpretation posted_provisional_step: steady_op "PostedProvisional fault runID sessionID now" for fault runID sessionID now
  by unfold_locales (simp_all add: PostedProvisional_def on_row_steady posted_provisional_change.row_change_axioms)

interpretation confirm_step: steady_op "ConfirmProvisional fault runID index replied now" for fault runID index replied now
  by unfold_locales (simp_all add: ConfirmProvisional_def on_row_steady confirm_change.row_change_axioms)

interpretation clear_step: steady_op "ClearProvisionalReply fault runID replied" for fault runID replied
  by unfold_locales (simp_all add: ClearProvisionalReply_def on_row_steady clear_change.row_change_axioms)

section \<open>The sweep\<close>

lemma abandon_steady:
  assumes inv: "ledger_inv d"
  shows "releases_only d (snd (abandon fault r now w d))" and "same_attempts d (snd (abandon fault r now w d))"
proof -
  show "releases_only d (snd (abandon fault r now w d))"
    by (simp add: releases_only_def abandon_effect(2) [OF inv])
  have "map_option rowAttempt (runs (snd (abandon fault r now w d)) q) = map_option rowAttempt (runs d q)" for q
    unfolding abandon_effect(1) [OF inv] by (cases "runs d q") simp_all
  then show "same_attempts d (snd (abandon fault r now w d))" by (simp add: same_attempts_def)
qed

lemma abandon_each_steady:
  assumes "ledger_inv d"
  shows "releases_only d (snd (abandon_each faults now w rs d)) \<and> same_attempts d (snd (abandon_each faults now w rs d))"
  using assms
proof (induction rs arbitrary: d)
  case (Cons r rs)
  show ?case
    unfolding abandon_each_step
    using Cons.IH [OF abandon_keeps [OF Cons.prems]] abandon_steady [OF Cons.prems]
    by (blast intro: releases_only_trans same_attempts_trans)
qed simp

lemma releaseSettled_steady:
  "releases_only d (snd (releaseSettledReservations faults now w d))"
  "same_attempts d (snd (releaseSettledReservations faults now w d))"
  using releaseSettled_exact [of faults now w d]
  by (auto simp: releases_only_def same_attempts_def split: if_splits)

interpretation sweep_step: steady_op "SweepAbandoned faults listing now w" for faults listing now w
proof unfold_locales
  fix d assume "ledger_inv d"
  note abandoned = abandon_each_steady [OF this, of faults now w "stale_ids listing now w d"]
  show "releases_only d (snd (SweepAbandoned faults listing now w d))"
    unfolding SweepAbandoned_parts using abandoned releaseSettled_steady(1) releases_only_trans by blast
  show "same_attempts d (snd (SweepAbandoned faults listing now w d))"
    unfolding SweepAbandoned_parts using abandoned releaseSettled_steady(2) same_attempts_trans by blast
qed

section \<open>Row writes\<close>

interpretation priority_step: steady_op "UpdateQueuedPriority fault runID rank" for fault runID rank
  by unfold_locales (simp_all add: UpdateQueuedPriority_def on_row_steady priority_change.row_change_axioms)

interpretation refresh_step: steady_op "RefreshQueuedTicket fault run" for fault run
  by unfold_locales (simp_all add: RefreshQueuedTicket_def on_row_steady refresh_change.row_change_axioms)

lemma stamp_steady:
  "releases_only d (snd (stampQueuedAt fault r dryRun d))" "same_attempts d (snd (stampQueuedAt fault r dryRun d))"
  by (simp_all add: stampQueuedAt_def on_row_steady stamp_change.row_change_axioms)

lemma stamp_each_steady:
  "releases_only d (snd (stamp_each faults dryRun rs res d)) \<and> same_attempts d (snd (stamp_each faults dryRun rs res d))"
proof (induction rs arbitrary: res d)
  case (Cons r rs)
  obtain a d' where d': "stampQueuedAt (faults r) r dryRun d = (a, d')" by (cases "stampQueuedAt (faults r) r dryRun d")
  then have first: "releases_only d d'" "same_attempts d d'" using stamp_steady [of d "faults r" r dryRun] by simp_all
  show ?case
  proof (cases a)
    case (Inr b)
    then show ?thesis
      using Cons.IH [of d'] first d' releases_only_trans [OF first(1)] same_attempts_trans [OF first(2)] by auto
  qed (use d' first in simp)
qed simp

interpretation backfill_step: steady_op "BackfillQueuedAt faults listing dryRun" for faults listing dryRun
  by unfold_locales (simp_all add: BackfillQueuedAt_def stamp_each_steady split: sum.splits)

interpretation models_step: steady_op "RefreshRetriedModels fault runID m" for fault runID m
  by unfold_locales (simp_all add: RefreshRetriedModels_def updateRetried_def on_row_steady models_change.row_change_axioms)

interpretation stop_retried_step: steady_op "StopRetried fault runID reason detail now" for fault runID reason detail now
  by unfold_locales (simp_all add: StopRetried_def updateRetried_def on_row_steady stop_retried_change.row_change_axioms)

interpretation hold_step: steady_op "RecordHold fault runID reason onDay now" for fault runID reason onDay now
  by unfold_locales (simp_all add: RecordHold_def on_row_steady hold_change.row_change_axioms)

interpretation cancel_step: steady_op "RecordCancel fault runID by' now" for fault runID by' now
  by unfold_locales (simp_all add: RecordCancel_def on_row_steady cancel_change.row_change_axioms)

interpretation checks_step: steady_op "RecordChecks fault runID prURL sha result" for fault runID prURL sha result
  by unfold_locales (simp_all add: RecordChecks_def on_row_steady checks_change.row_change_axioms)

lemma write_row_steady:
  assumes "attemptField \<notin> touches us" and "stateField \<notin> touches us"
  shows "releases_only d (snd (write_row fault r us d))" and "same_attempts d (snd (write_row fault r us d))"
proof -
  have "row_change (\<lambda>_. Inr ((), us) :: store_err + unit \<times> updates)" using assms by unfold_locales auto
  from on_row_steady [OF this] show "releases_only d (snd (write_row fault r us d))"
    and "same_attempts d (snd (write_row fault r us d))" by (simp_all add: write_row_def)
qed

interpretation ticket_state_step: steady_op "RecordTicketState fault runID stateID" for fault runID stateID
  by unfold_locales (simp_all add: RecordTicketState_def write_row_steady)

interpretation verdict_step: steady_op "RecordVerdict fault runID verdict" for fault runID verdict
  by unfold_locales (simp_all add: RecordVerdict_def write_row_steady)

interpretation wait_reason_step: steady_op "SetWaitReason fault runID reason" for fault runID reason
  by unfold_locales (simp_all add: SetWaitReason_def write_row_steady)

interpretation merge_step: steady_op "RecordMerge fault runID sha now" for fault runID sha now
  by unfold_locales (simp_all add: RecordMerge_def write_row_steady)

interpretation reject_step: steady_op "Reject fault ticketID r" for fault ticketID r
  by unfold_locales
    (auto simp: Reject_def run_transaction_def releases_only_def same_attempts_def held_def readLedger_def split: option.splits)

lemma close_each_steady:
  "releases_only d (snd (close_each faults moved tickets now snaps marked d))
   \<and> same_attempts d (snd (close_each faults moved tickets now snaps marked d))"
proof (induction snaps arbitrary: marked d)
  case (Cons snap snaps)
  obtain r row where snap: "snap = (r, row)" by (cases snap)
  obtain a d' where d': "write_row (faults r) r [(ticketClosedAtField, Put (VTime now))] d = (a, d')"
    by (cases "write_row (faults r) r [(ticketClosedAtField, Put (VTime now))] d")
  then have first: "releases_only d d'" "same_attempts d d'"
    using write_row_steady [of "[(ticketClosedAtField, Put (VTime now))]" d "faults r" r] by simp_all
  show ?case
    using Cons.IH [where d = d'] Cons.IH [where d = d] first d' releases_only_trans [OF first(1)] same_attempts_trans [OF first(2)]
    by (cases a) (auto simp: snap)
qed simp

interpretation tickets_closed_step: steady_op "RecordTicketsClosed faults moved listing tickets now"
  for faults moved listing tickets now
  by unfold_locales (simp_all add: RecordTicketsClosed_def close_each_steady split: sum.splits)

section \<open>Beside the runs\<close>

text \<open>An operation on the notices or the breaker, which touches neither a run nor the ledger.\<close>

locale aside_op =
  fixes op :: "db \<Rightarrow> 'r \<times> db"
  assumes runs_kept: "runs (snd (op d)) = runs d" and ledger_kept: "dbLedger (snd (op d)) = dbLedger d"

sublocale aside_op \<subseteq> steady_op op
proof unfold_locales
  fix d
  have ledger: "readLedger (snd (op d)) = readLedger d" by (simp add: readLedger_def ledger_kept)
  show "ledger_inv (snd (op d))" if "ledger_inv d" using that ledger_inv_cong [OF runs_kept] ledger by simp
  show "releases_only d (snd (op d))" by (simp add: releases_only_def held_def ledger)
  show "same_attempts d (snd (op d))" by (simp add: same_attempts_def runs_kept)
qed

lemma update_notice_aside:
  "update_notice i us d = Inr d' \<Longrightarrow> runs d' = runs d \<and> dbLedger d' = dbLedger d"
  by (auto simp: update_notice_def put_notice_def split: option.splits)

lemma claim_each_aside:
  "claim_each now is d = Inr (ns, d') \<Longrightarrow> runs d' = runs d \<and> dbLedger d' = dbLedger d"
proof (induction now "is" d arbitrary: ns d' rule: claim_each.induct)
  case (2 now i "is" d)
  then show ?case by (auto simp: and_then_Inr split: option.splits dest!: update_notice_aside)
qed simp

lemma transaction_aside:
  assumes "\<And>a d'. body d = Inr (a, d') \<Longrightarrow> runs d' = runs d \<and> dbLedger d' = dbLedger d"
  shows "runs (snd (run_transaction fault body d)) = runs d"
    and "dbLedger (snd (run_transaction fault body d)) = dbLedger d"
  using run_transaction_cases [of fault body d] assms [of _ "snd (run_transaction fault body d)"] by metis+

interpretation raise_step: aside_op "Raise fault n now" for fault n now
  by unfold_locales (auto simp: Raise_def create_notice_def put_notice_def split: option.splits)

interpretation claim_notices_step: aside_op "Claim fault pending stale now staleBefore" for fault pending stale now staleBefore
  by unfold_locales (auto simp: Claim_def intro!: transaction_aside dest!: claim_each_aside)

interpretation notice_posted_step: aside_op "NoticePosted fault i now" for fault i now
  by unfold_locales (auto simp: NoticePosted_def and_then_Inr intro!: transaction_aside dest!: update_notice_aside)

interpretation unclaim_step: aside_op "Unclaim fault i" for fault i
  by unfold_locales (auto simp: Unclaim_def and_then_Inr intro!: transaction_aside dest!: update_notice_aside)

interpretation trip_step: aside_op "Trip fault runID cls now" for fault runID cls now
  by unfold_locales (auto simp: Trip_def split: option.splits)

interpretation reset_step: aside_op "Reset fault" for fault
  by unfold_locales (auto simp: Reset_def split: option.splits)

section \<open>The three that create or book\<close>

lemma TryClaim_same_attempts:
  "same_attempts d (snd (TryClaim fault query runID now cfg facts res d))"
proof -
  have "same_attempts d d'" if "TryClaim_body query runID now cfg facts res d = Inr ((ok, why), d')" for ok why d'
    using that
  proof (cases rule: TryClaim_body_cases)
    case (ended row)
    then show ?thesis by (auto simp: ended_db_def intro: put_row_same_attempts)
  next
    case (withheld row)
    then show ?thesis by (auto simp: withheld_db_def claimable_def same_attempt intro!: put_row_same_attempts)
  next
    case (claimed row s)
    then show ?thesis by (auto simp: claimed_db_def claimable_def same_attempts_def)
  qed simp
  then show ?thesis
    using run_transaction_cases [of fault "TryClaim_body query runID now cfg facts res" d]
    unfolding TryClaim_def by (metis prod.exhaust_sel same_attempts_refl)
qed

text \<open>A claim adds at most one reservation, and one only when the caps leave room for it.\<close>

lemma TryClaim_in_flight:
  assumes inv: "ledger_inv d"
  shows "int (length (Reservations (readLedger (snd (TryClaim fault query runID now cfg facts res d)))))
    \<le> max (int (length (Reservations (readLedger d)))) (PlatformCap (factLimits facts))"
proof -
  have "int (length (Reservations (readLedger d'))) \<le> max (int (length (Reservations (readLedger d)))) (PlatformCap (factLimits facts))"
    if "TryClaim_body query runID now cfg facts res d = Inr ((ok, why), d')" for ok why d'
    using that
  proof (cases rule: TryClaim_body_cases)
    case (claimed row s)
    have "int (length (inFlight (readLedger d))) < PlatformCap (factLimits facts)"
      using claim_admitted(1) [OF claimed(5)] by (simp add: HeldBeforeBudget_none caps_leave_room_def)
    then show ?thesis
      using claimed_ledger(2) [OF inv claimed(3), of facts res now] by (simp add: claimed(6) inFlight_def)
  qed (simp_all add: ended_db_def withheld_db_def)
  then show ?thesis
    using run_transaction_cases [of fault "TryClaim_body query runID now cfg facts res" d]
    unfolding TryClaim_def by (metis max.cobounded1 prod.exhaust_sel)
qed

lemma merge_row_next:
  assumes "attemptField \<notin> fst ` set fs"
  shows "releases_only d (snd (merge_row fault r fs d))" and "next_attempts d (snd (merge_row fault r fs d))"
proof -
  have "attemptField \<notin> touches (put_fields fs)" using assms by (auto simp: put_fields_def touches_def image_iff)
  then show "releases_only d (snd (merge_row fault r fs d))" and "next_attempts d (snd (merge_row fault r fs d))"
    by (auto simp: merge_row_def run_transaction_def next_attempts_def same_attempt split: option.splits)
qed

lemma PutRecord_next:
  "releases_only d (snd (PutRecord fault r rec d))" "next_attempts d (snd (PutRecord fault r rec d))"
  by (simp_all add: PutRecord_def merge_row_next record_fields_def)

lemma WritePlan_next:
  "releases_only d (snd (WritePlan fault r p d))" "next_attempts d (snd (WritePlan fault r p d))"
  by (simp_all add: WritePlan_def merge_row_next plan_fields_def)

lemma Enqueue_next:
  "releases_only d (snd (Enqueue fault run d))" "next_attempts d (snd (Enqueue fault run d))"
  by (auto simp: Enqueue_def run_transaction_def releases_only_def next_attempts_def held_def readLedger_def split: option.splits)

end
