(* ===== verification/Rewrite_Store.thy ===== *)
theory Rewrite_Store
  imports Rewrites Run_Steps
begin

text \<open>
  The rewrite measurement on the run rows (\<open>internal/store/rewrites.go\<close>): the row a merged pull
  request belongs to, the writes \<open>Record\<close> and \<open>FlagReverted\<close>, the marker of a pull request no row
  names, and the sample read back.
\<close>

section \<open>Finding a row\<close>

record closed_pr =
  cprNumber :: int
  cprTitle :: string
  cprBody :: string
  cprHead :: string
  cprURL :: string
  cprMergedAt :: time

text \<open>The queries \<open>RunForMerged\<close> makes, and what it relies on of their answers.\<close>

datatype row_query = Equals field goval | Contains field goval

fun matches :: "row_query \<Rightarrow> doc \<Rightarrow> bool" where
  "matches (Equals f v) row \<longleftrightarrow> row f = Some v"
| "matches (Contains f v) row \<longleftrightarrow> v \<in> set (list_of row f)"

type_synonym run_reads = "db \<Rightarrow> row_query \<Rightarrow> store_err + (string \<times> doc) list"

definition answers_rows :: "run_reads \<Rightarrow> bool" where
  "answers_rows reads \<longleftrightarrow> (\<forall>d q snaps. reads d q = Inr snaps \<longrightarrow>
     (\<forall>(r, row) \<in> set snaps. runs d r = Some row \<and> matches q row))"

record run_row =
  foundRunID :: string
  foundMeasured :: time

definition runRow :: "string \<times> doc \<Rightarrow> run_row" where
  "runRow snap = \<lparr>foundRunID = fst snap, foundMeasured = time_of (snd snap) rewriteMergedAtField\<rparr>"

definition merged_queries :: "closed_pr \<Rightarrow> row_query list" where
  "merged_queries pr =
     (if cprHead pr \<noteq> [] then [Equals branchField (VStr (cprHead pr)), Contains branchesField (VStr (cprHead pr))] else [])
     @ (if cprURL pr \<noteq> [] then [Equals prURLField (VStr (cprURL pr))] else [])"

definition number_queries :: "closed_pr \<Rightarrow> row_query list" where
  "number_queries pr =
     (if cprNumber pr \<noteq> 0 then map (\<lambda>f. Equals f (VInt (cprNumber pr))) [prNumberField, supersededPRField] else [])"

text \<open>The first row that passes, of the first query that has one.\<close>

fun first_row :: "run_reads \<Rightarrow> db \<Rightarrow> (doc \<Rightarrow> bool) \<Rightarrow> row_query list \<Rightarrow> store_err + run_row option" where
  "first_row reads d ok [] = Inr None"
| "first_row reads d ok (q # qs) =
     and_then (reads d q) (\<lambda>snaps.
       case find (\<lambda>snap. ok (snd snap)) snaps of Some snap \<Rightarrow> Inr (Some (runRow snap)) | None \<Rightarrow> first_row reads d ok qs)"

definition RunForMerged :: "run_reads \<Rightarrow> string \<Rightarrow> closed_pr \<Rightarrow> db \<Rightarrow> store_err + run_row option" where
  "RunForMerged reads repo pr d =
     and_then (first_row reads d (\<lambda>_. True) (merged_queries pr)) (\<lambda>found.
       case found of
         Some r \<Rightarrow> Inr (Some r)
       | None \<Rightarrow> first_row reads d (\<lambda>row. str row repoField = repo) (number_queries pr))"

section \<open>The marker of an unfound pull request\<close>

definition replace_char :: "char \<Rightarrow> char \<Rightarrow> string \<Rightarrow> string" where
  "replace_char a b s = map (\<lambda>c. if c = a then b else c) s"

definition unfoundDocID :: "string \<Rightarrow> int \<Rightarrow> string" where
  "unfoundDocID repo number = ''unfound-'' @ replace_char (CHR ''/'') (CHR ''#'') repo @ ''#'' @ itoa number"

definition MarkUnfound :: "store_err option \<Rightarrow> string \<Rightarrow> int \<Rightarrow> time \<Rightarrow> db \<Rightarrow> (store_err + bool) \<times> db" where
  "MarkUnfound fault repo number now d = run_transaction fault (\<lambda>d.
     let doc = unfoundDocID repo number in
     case unfound d doc of
       Some _ \<Rightarrow> Inr (False, d)
     | None \<Rightarrow> Inr (True, d\<lparr>unfound := (\<lambda>j. if j = doc then Some now else unfound d j)\<rparr>)) d"

section \<open>Writing a measurement\<close>

definition prTitleLimit :: nat where "prTitleLimit = 200"

definition is_control :: "nat \<Rightarrow> bool" where
  "is_control v \<longleftrightarrow> v < 0x20 \<or> (0x7F \<le> v \<and> v < 0xA0)"

text \<open>\<open>strings.Map\<close> writes the replacement character for a byte that begins no encoding.\<close>

definition one_line :: "nat option \<times> string \<Rightarrow> string" where
  "one_line r = (case r of (None, _) \<Rightarrow> rune_error | (Some v, bs) \<Rightarrow> if is_control v then '' '' else bs)"

definition titleText :: "string \<Rightarrow> string" where
  "titleText title =
     (let line = concat (map one_line (runes title)) in
      if length line \<le> prTitleLimit then line else take (rune_boundary line prTitleLimit) line)"

record merge_measured =
  msLines :: rewrite
  msMergedAt :: time
  msPR :: int
  msTitle :: string

definition measured_fields :: "merge_measured \<Rightarrow> (field \<times> goval) list" where
  "measured_fields m = [
     (rewriteAgentLinesField, VInt (agentLines (msLines m))), (rewriteOwnerLinesField, VInt (ownerLines (msLines m))),
     (rewriteReviewFoundField, VInt (reviewFoundLines (msLines m))), (rewriteOwnerChangeField, VInt (ownerChangeLines (msLines m))),
     (rewriteUnlabelledField, VInt (unlabelledLines (msLines m))), (rewriteUnmeasuredField, VInt (unmeasuredCommits (msLines m))),
     (prNumberField, VInt (msPR m)), (prTitleField, VStr (titleText (msTitle m))), (rewriteMergedAtField, VTime (msMergedAt m)),
     (rewriteRevertedField, VBool False)]"

definition RecordRewrite :: "store_err option \<Rightarrow> string \<Rightarrow> merge_measured \<Rightarrow> db \<Rightarrow> (store_err + unit) \<times> db" where
  "RecordRewrite fault runID m = merge_row fault runID (measured_fields m)"

definition FlagReverted :: "store_err option \<Rightarrow> string \<Rightarrow> db \<Rightarrow> (store_err + unit) \<times> db" where
  "FlagReverted fault runID = merge_row fault runID [(rewriteRevertedField, VBool True)]"

section \<open>Reading a sample\<close>

record run_step =
  stepPhase :: string
  stepModel :: string

definition PhaseBuild :: string where "PhaseBuild = ''build''"
definition PhaseReview :: string where "PhaseReview = ''review''"

definition map_str :: "(string \<times> goval) list \<Rightarrow> string \<Rightarrow> string" where
  "map_str m k = (case map_of m k of Some (VStr s) \<Rightarrow> s | _ \<Rightarrow> [])"

definition stepModels :: "doc \<Rightarrow> run_step list" where
  "stepModels row = map (\<lambda>item. let fs = (case item of VMap m \<Rightarrow> m | _ \<Rightarrow> []) in
     \<lparr>stepPhase = map_str fs ''phase'', stepModel = map_str fs ''model''\<rparr>) (list_of row stepsField)"

fun phase_model :: "run_step list \<Rightarrow> string \<Rightarrow> string \<Rightarrow> string" where
  "phase_model [] ph model = model"
| "phase_model (s # ss) ph model =
     (if stepPhase s \<noteq> ph \<or> stepModel s = [] then phase_model ss ph model
      else if model \<noteq> [] \<and> stepModel s \<noteq> model then []
      else phase_model ss ph (stepModel s))"

definition PhaseModel :: "run_step list \<Rightarrow> string \<Rightarrow> string" where
  "PhaseModel steps ph = phase_model steps ph []"

definition rewriteOf :: "doc \<Rightarrow> rewrite \<times> bool" where
  "rewriteOf row =
     (\<lparr>agentLines = int_of row rewriteAgentLinesField, ownerLines = int_of row rewriteOwnerLinesField,
       reviewFoundLines = int_of row rewriteReviewFoundField, ownerChangeLines = int_of row rewriteOwnerChangeField,
       unlabelledLines = int_of row rewriteUnlabelledField, unmeasuredCommits = int_of row rewriteUnmeasuredField\<rparr>,
      (case row rewriteMergedAtField of Some (VTime _) \<Rightarrow> True | _ \<Rightarrow> False))"

definition sample_of :: "string \<Rightarrow> doc \<Rightarrow> sample" where
  "sample_of runID row =
     \<lparr>sampleRun = runID, sampleSize = str row sizeField, sampleRepo = str row repoField,
      samplePRURL = str row prURLField, sampleMergedAt = time_of row rewriteMergedAtField,
      samplePR = int_of row prNumberField, sampleTitle = str row prTitleField,
      samplePlanModel = str row planModelField, sampleBuildModel = PhaseModel (stepModels row) PhaseBuild,
      sampleReviewModel = PhaseModel (stepModels row) PhaseReview, sampleLines = fst (rewriteOf row),
      sampleAutoMerged = bool_of row autoMergeField, sampleReverted = bool_of row rewriteRevertedField\<rparr>"

text \<open>\<open>recentSamples\<close> over the rows its query returns, newest merge first.\<close>

definition recentSamples :: "store_err + (string \<times> doc) list \<Rightarrow> store_err + sample list" where
  "recentSamples listed = and_then listed (\<lambda>snaps. Inr (map (\<lambda>(r, row). sample_of r row) snaps))"

section \<open>What the reads and writes do\<close>

lemma first_row_found:
  assumes "answers_rows reads" and "first_row reads d ok qs = Inr (Some r)"
  shows "\<exists>row q. q \<in> set qs \<and> runs d (foundRunID r) = Some row \<and> ok row \<and> matches q row
     \<and> foundMeasured r = time_of row rewriteMergedAtField"
  using assms(2)
proof (induction qs)
  case (Cons q qs)
  then obtain snaps where reads: "reads d q = Inr snaps" by (auto simp: and_then_Inr)
  show ?case
  proof (cases "find (\<lambda>snap. ok (snd snap)) snaps")
    case None
    then show ?thesis using Cons reads by auto
  next
    case (Some snap)
    then have "snap \<in> set snaps" "ok (snd snap)" by (auto simp: find_Some_iff)
    moreover have "runs d (fst snap) = Some (snd snap) \<and> matches q (snd snap)"
      using assms(1) reads \<open>snap \<in> set snaps\<close> by (fastforce simp: answers_rows_def)
    ultimately show ?thesis using Cons.prems reads Some by (auto simp: runRow_def)
  qed
qed simp

text \<open>The row found is one the pull request names, in one of the five ways.\<close>

definition names_pr :: "string \<Rightarrow> closed_pr \<Rightarrow> doc \<Rightarrow> bool" where
  "names_pr repo pr row \<longleftrightarrow>
     cprHead pr \<noteq> [] \<and> (row branchField = Some (VStr (cprHead pr)) \<or> VStr (cprHead pr) \<in> set (list_of row branchesField))
     \<or> cprURL pr \<noteq> [] \<and> row prURLField = Some (VStr (cprURL pr))
     \<or> cprNumber pr \<noteq> 0 \<and> str row repoField = repo
       \<and> (row prNumberField = Some (VInt (cprNumber pr)) \<or> row supersededPRField = Some (VInt (cprNumber pr)))"

lemma RunForMerged_found:
  assumes "answers_rows reads" and "RunForMerged reads repo pr d = Inr (Some r)"
  shows "\<exists>row. runs d (foundRunID r) = Some row \<and> names_pr repo pr row \<and> foundMeasured r = time_of row rewriteMergedAtField"
proof -
  from assms(2) consider "first_row reads d (\<lambda>_. True) (merged_queries pr) = Inr (Some r)"
    | "first_row reads d (\<lambda>row. str row repoField = repo) (number_queries pr) = Inr (Some r)"
    by (auto simp: RunForMerged_def and_then_Inr split: option.splits)
  then show ?thesis
  proof cases
    case 1
    from first_row_found [OF assms(1) this] obtain row q where q: "q \<in> set (merged_queries pr)" "matches q row"
      and found: "runs d (foundRunID r) = Some row" "foundMeasured r = time_of row rewriteMergedAtField" by blast
    then have "names_pr repo pr row" by (auto simp: merged_queries_def names_pr_def split: if_splits)
    with found show ?thesis by blast
  next
    case 2
    from first_row_found [OF assms(1) this] obtain row q where q: "q \<in> set (number_queries pr)" "matches q row"
      "str row repoField = repo"
      and found: "runs d (foundRunID r) = Some row" "foundMeasured r = time_of row rewriteMergedAtField" by blast
    then have "names_pr repo pr row" by (auto simp: number_queries_def names_pr_def split: if_splits)
    with found show ?thesis by blast
  qed
qed

text \<open>A measurement reads back as the sample it was written from.\<close>

lemma recorded_sample:
  assumes "runs d runID = Some row"
  obtains row' where "RecordRewrite None runID m d = (Inr (), put_row runID row' d)"
    and "rewriteOf row' = (msLines m, True)" and "sampleLines (sample_of runID row') = msLines m"
    and "sampleMergedAt (sample_of runID row') = msMergedAt m" and "samplePR (sample_of runID row') = msPR m"
    and "sampleTitle (sample_of runID row') = titleText (msTitle m)" and "\<not> sampleReverted (sample_of runID row')"
    and "sampleRepo (sample_of runID row') = str row repoField" and "sampleSize (sample_of runID row') = str row sizeField"
  by (rule that [of "apply_updates (put_fields (measured_fields m)) row"])
    (simp_all add: RecordRewrite_def merge_row_def run_transaction_def assms measured_fields_def put_fields_def
      rewriteOf_def sample_of_def row_simps)

lemma rune_boundary_le: "rune_boundary s n \<le> n"
  by (induction n) simp_all

lemma titleText_short: "length (titleText t) \<le> prTitleLimit"
  using rune_boundary_le [of "concat (map one_line (runes t))" prTitleLimit]
  by (simp add: titleText_def Let_def)

text \<open>A pull request is reported once: the second poll that finds no row for it is told so.\<close>

lemma MarkUnfound_once:
  assumes "MarkUnfound fault repo number now d = (Inr fresh, d')"
  shows "MarkUnfound None repo number now' d' = (Inr False, d')"
  using assms by (auto simp: MarkUnfound_def run_transaction_def Let_def split: option.splits)

section \<open>The writes as steps of the store\<close>

interpretation mark_unfound_step: aside_op "MarkUnfound fault repo number now" for fault repo number now
  by unfold_locales (auto simp: MarkUnfound_def run_transaction_def Let_def split: option.splits)

lemma measured_fields_aside:
  "attemptField \<notin> fst ` set (measured_fields m)" "stateField \<notin> fst ` set (measured_fields m)"
  by (simp_all add: measured_fields_def)

lemma RecordRewrite_keeps: "run_id_ok r \<Longrightarrow> ledger_inv d \<Longrightarrow> ledger_inv (snd (RecordRewrite fault r m d))"
  unfolding RecordRewrite_def by (rule merge_row_keeps) (simp_all add: measured_fields_def)

lemma FlagReverted_keeps: "run_id_ok r \<Longrightarrow> ledger_inv d \<Longrightarrow> ledger_inv (snd (FlagReverted fault r d))"
  unfolding FlagReverted_def by (rule merge_row_keeps) simp_all

lemma rewrite_writes_next:
  "releases_only d (snd (RecordRewrite fault r m d))" "next_attempts d (snd (RecordRewrite fault r m d))"
  "releases_only d (snd (FlagReverted fault r d))" "next_attempts d (snd (FlagReverted fault r d))"
  by (simp_all add: RecordRewrite_def FlagReverted_def merge_row_next measured_fields_def)

end
