(* ===== verification/Queue_System.thy ===== *)
theory Queue_System
  imports Rewrite_Store
begin

text \<open>
  The queue as a system: the step relation whose steps are the store's operations, in any order and
  with any transaction failing, and what holds of every state they reach. A step runs one operation
  whole, as Firestore's transactions serialise them; the sweeps, the backfill and the closing of
  tickets, which span several transactions, are one step each.

  \<open>cap\<close> bounds the platform cap the polls claim under. The ids of the runs a step creates hold no
  \<open>#\<close>: they are ticket identifiers.
\<close>

inductive step :: "int \<Rightarrow> db \<Rightarrow> db \<Rightarrow> bool" for cap where
  enqueue: "run_id_ok (qRunID run) \<Longrightarrow> step cap d (snd (Enqueue fault run d))"
| put_record: "run_id_ok runID \<Longrightarrow> step cap d (snd (PutRecord fault runID rec d))"
| write_plan: "run_id_ok runID \<Longrightarrow> step cap d (snd (WritePlan fault runID p d))"
| try_claim: "PlatformCap (factLimits facts) \<le> cap \<Longrightarrow>
    step cap d (snd (TryClaim fault query runID now cfg facts res d))"
| release: "step cap d (snd (Release fault runID now d))"
| stop: "step cap d (snd (Stop fault runID reason detail now d))"
| settle: "step cap d (snd (Settle fault recent runID attempt d))"
| settle_plan: "step cap d (snd (SettlePlan fault recent runID attempt d))"
| adopt: "step cap d (snd (AdoptRunsAtOnce fault n d))"
| requeue: "step cap d (snd (Requeue fault runID now d))"
| requeue_conflict: "step cap d (snd (RequeueAfterConflict fault runID now maxAttempts d))"
| requeue_transient: "step cap d (snd (RequeueTransient fault runID now cls limit d))"
| retry: "step cap d (snd (RetryWithNote fault runID req now d))"
| supersede: "step cap d (snd (Supersede fault runID index replied ans now d))"
| suspend: "step cap d (snd (Suspend fault runID dec runURL now d))"
| take_recommendation: "step cap d (snd (TakeRecommendation fault runID dec runURL now d))"
| reply: "step cap d (snd (Reply fault runID sessionID said now d))"
| answer: "step cap d (snd (Answer fault runID ans now d))"
| posted: "step cap d (snd (Posted fault runID sessionID now d))"
| stop_waiting: "step cap d (snd (StopWaiting fault runID dec now d))"
| posted_provisional: "step cap d (snd (PostedProvisional fault runID sessionID now d))"
| confirm_provisional: "step cap d (snd (ConfirmProvisional fault runID index replied now d))"
| clear_provisional: "step cap d (snd (ClearProvisionalReply fault runID replied d))"
| sweep: "step cap d (snd (SweepAbandoned faults listing now w d))"
| update_priority: "step cap d (snd (UpdateQueuedPriority fault runID rank d))"
| refresh_ticket: "step cap d (snd (RefreshQueuedTicket fault run d))"
| backfill: "step cap d (snd (BackfillQueuedAt run_faults listing dryRun d))"
| refresh_models: "step cap d (snd (RefreshRetriedModels fault runID m d))"
| stop_retried: "step cap d (snd (StopRetried fault runID reason detail now d))"
| record_hold: "step cap d (snd (RecordHold fault runID reason onDay now d))"
| record_cancel: "step cap d (snd (RecordCancel fault runID by' now d))"
| record_checks: "step cap d (snd (RecordChecks fault runID prURL sha result d))"
| record_ticket_state: "step cap d (snd (RecordTicketState fault runID stateID d))"
| record_verdict: "step cap d (snd (RecordVerdict fault runID verdict d))"
| set_wait_reason: "step cap d (snd (SetWaitReason fault runID reason d))"
| record_merge: "step cap d (snd (RecordMerge fault runID sha now d))"
| reject: "step cap d (snd (Reject fault ticketID r d))"
| tickets_closed: "step cap d (snd (RecordTicketsClosed run_faults moved listing tickets now d))"
| raise: "step cap d (snd (Raise fault n now d))"
| claim_notices: "step cap d (snd (Claim fault pending stale now staleBefore d))"
| notice_posted: "step cap d (snd (NoticePosted fault i now d))"
| unclaim: "step cap d (snd (Unclaim fault i d))"
| trip: "step cap d (snd (Trip fault runID cls now d))"
| reset: "step cap d (snd (Reset fault d))"
| mark_unfound: "step cap d (snd (MarkUnfound fault repo number now d))"
| record_rewrite: "run_id_ok runID \<or> runs d runID \<noteq> None \<Longrightarrow> step cap d (snd (RecordRewrite fault runID m d))"
| flag_reverted: "run_id_ok runID \<or> runs d runID \<noteq> None \<Longrightarrow> step cap d (snd (FlagReverted fault runID d))"

inductive reachable :: "int \<Rightarrow> db \<Rightarrow> bool" for cap where
  start: "reachable cap empty_db"
| further: "reachable cap d \<Longrightarrow> step cap d d' \<Longrightarrow> reachable cap d'"

section \<open>What every step keeps\<close>

lemmas op_keeps = release.keeps stop.keeps settle.keeps settle_plan.keeps adopt.keeps requeue_op.keeps
  requeue_conflict.keeps requeue_transient.keeps retry_op.keeps supersede_op.keeps suspend.keeps take_recommendation.keeps
  reply_op.keeps answer_op.keeps posted_op.keeps stop_waiting_op.keeps posted_provisional_op.keeps confirm_op.keeps
  clear_op.keeps sweep.keeps update_priority.keeps refresh_ticket.keeps backfill.keeps refresh_models.keeps
  stop_retried.keeps record_hold.keeps record_cancel.keeps record_checks.keeps ticket_state.keeps record_verdict.keeps
  wait_reason.keeps record_merge.keeps reject.keeps tickets_closed.keeps
  raise_step.keeps claim_notices_step.keeps notice_posted_step.keeps unclaim_step.keeps trip_step.keeps reset_step.keeps mark_unfound_step.keeps

lemmas op_next = release_step.attempts stop_step.attempts settle_step.attempts settle_plan_step.attempts adopt_step.attempts requeue_step.attempts
  conflict_step.attempts transient_step.attempts retry_step.attempts supersede_step.attempts suspend_step.attempts take_step.attempts
  reply_step.attempts answer_step.attempts posted_step.attempts stop_waiting_step.attempts posted_provisional_step.attempts confirm_step.attempts
  clear_step.attempts sweep_step.attempts priority_step.attempts refresh_step.attempts backfill_step.attempts models_step.attempts
  stop_retried_step.attempts hold_step.attempts cancel_step.attempts checks_step.attempts ticket_state_step.attempts verdict_step.attempts
  wait_reason_step.attempts merge_step.attempts reject_step.attempts tickets_closed_step.attempts
  raise_step.attempts claim_notices_step.attempts notice_posted_step.attempts unclaim_step.attempts trip_step.attempts reset_step.attempts mark_unfound_step.attempts

lemmas op_in_flight = release_step.in_flight_le stop_step.in_flight_le settle_step.in_flight_le settle_plan_step.in_flight_le adopt_step.in_flight_le requeue_step.in_flight_le
  conflict_step.in_flight_le transient_step.in_flight_le retry_step.in_flight_le supersede_step.in_flight_le suspend_step.in_flight_le take_step.in_flight_le
  reply_step.in_flight_le answer_step.in_flight_le posted_step.in_flight_le stop_waiting_step.in_flight_le posted_provisional_step.in_flight_le confirm_step.in_flight_le
  clear_step.in_flight_le sweep_step.in_flight_le priority_step.in_flight_le refresh_step.in_flight_le backfill_step.in_flight_le models_step.in_flight_le
  stop_retried_step.in_flight_le hold_step.in_flight_le cancel_step.in_flight_le checks_step.in_flight_le ticket_state_step.in_flight_le verdict_step.in_flight_le
  wait_reason_step.in_flight_le merge_step.in_flight_le reject_step.in_flight_le tickets_closed_step.in_flight_le
  raise_step.in_flight_le claim_notices_step.in_flight_le notice_posted_step.in_flight_le unclaim_step.in_flight_le trip_step.in_flight_le reset_step.in_flight_le mark_unfound_step.in_flight_le

lemma step_keeps: "step cap d d' \<Longrightarrow> ledger_inv d \<Longrightarrow> ledger_inv d'"
proof (induction rule: step.induct)
  case (record_rewrite runID d fault m)
  then show ?case using ledger_invD(2) by (blast intro: RecordRewrite_keeps)
next
  case (flag_reverted runID d fault)
  then show ?case using ledger_invD(2) by (blast intro: FlagReverted_keeps)
qed (assumption | erule (1) Enqueue_keeps PutRecord_keeps WritePlan_keeps | erule TryClaim_keeps op_keeps)+

lemma creates_books_none:
  "Reservations (readLedger (snd (Enqueue fault run d))) = Reservations (readLedger d)"
  "Reservations (readLedger (snd (PutRecord fault r rec d))) = Reservations (readLedger d)"
  "Reservations (readLedger (snd (WritePlan fault r p d))) = Reservations (readLedger d)"
  "Reservations (readLedger (snd (RecordRewrite fault r m d))) = Reservations (readLedger d)"
  "Reservations (readLedger (snd (FlagReverted fault r d))) = Reservations (readLedger d)"
  by (auto simp: Enqueue_def PutRecord_def WritePlan_def RecordRewrite_def FlagReverted_def merge_row_def run_transaction_def readLedger_def split: option.splits)

text \<open>The runs in flight grow only by a claim, and never past the cap.\<close>

lemma step_in_flight:
  assumes "step cap d d'" and inv: "ledger_inv d"
  shows "int (length (Reservations (readLedger d'))) \<le> max (int (length (Reservations (readLedger d)))) cap"
  using assms(1)
proof cases
  case (try_claim facts fault query runID now cfg res)
  then show ?thesis using TryClaim_in_flight [OF inv, of fault query runID now cfg facts res] by simp
qed (use inv op_in_flight in \<open>simp_all add: creates_books_none le_max_iff_disj\<close>)

lemma reachable_inv:
  assumes "reachable cap d"
  shows "ledger_inv d \<and> int (length (Reservations (readLedger d))) \<le> max 0 cap"
  using assms
proof induction
  case start
  show ?case using ledger_inv_empty by (simp add: readLedger_def empty_db_def empty_ledger_def)
next
  case (further d d')
  then show ?case using step_keeps step_in_flight [OF further(2)] by fastforce
qed

lemma step_next: "step cap d d' \<Longrightarrow> ledger_inv d \<Longrightarrow> next_attempts d d'"
  by (induction rule: step.induct)
    (rule Enqueue_next PutRecord_next WritePlan_next rewrite_writes_next | rule same_then_next [OF TryClaim_same_attempts] | erule op_next)+

end
