(* ===== verification/Poll_State.thy ===== *)
theory Poll_State
  imports Projects Peak_Hours Queue_System
begin

text \<open>
  What one poll of \<open>internal/dispatcher/dispatcher.go\<close> works on: its configuration, what it reads of
  the world outside the store, and the state its phases thread. The store is the \<^typ>\<open>db\<close> of the
  components; each call on it may fail, and each reading of the clock is its own: both are looked
  up by the call that is made and the run or ticket it is made for.
\<close>

section \<open>Configuration\<close>

record config =
  cfgRepos :: "string list"
  cfgBudget :: budget_config
  cfgModel :: string
  cfgPlanBudgets :: "paid_plan list"
  cfgLimits :: limits
  cfgTuning :: tuning
  cfgLastResort :: "string list list"
  cfgTwoStage :: bool
  cfgDecisionTimeout :: duration
  cfgDecisionMode :: string

definition poll_cap :: "config \<Rightarrow> int" where
  "poll_cap c = PlatformCap (Limits_OrDefault (cfgLimits c))"

section \<open>Outside the store\<close>

text \<open>A failed read of GitHub: a response it refused with, a network fault or anything else.\<close>

datatype github_err = APIError int | NetworkError | OtherError

record estimate =
  estProviderCost :: micros
  estMinutes :: int

record run_claim =
  claimRunID :: string
  claimRepo :: string
  claimPriority :: int
  claimVerdict :: string
  claimStageOf :: string
  claimAttempt :: int

text \<open>What \<open>url.Parse\<close> reads of a URL.\<close>

record parsed_url =
  urlScheme :: string
  urlHost :: string
  urlPath :: string

text \<open>The calls a poll makes, as what names a failure and a reading of the clock.\<close>

datatype call =
    CPoll | CBuild | CExists | CPriority | CRefresh | CRetryAwaiting | CRefreshModels | CStopRetried | CRefuse | CReject
  | CEnqueue | CDefer | CHold | CPeak | CClaim | CBreaker | CNotice | CSpend | CRelease | CRequeue
  | CTicketState | CVerdict | CSweep | CReach | CDecide | CPosted | CAnswer | CStopWaiting | CProvisional | CConfirm
  | CClear | CSupersede | CStuck | CNoticeClaim | CNoticePosted | CUnclaim | CChecks | CExhausted | CWaitingNotice
  | CStuckNotice | CUnfound | CRecordRewrite | CFlagReverted | CProjects | CTicketRuns

text \<open>
  \<open>envVerdict\<close> is \<open>None\<close> when no verdicts are wired; \<open>recordsVerdicts\<close> and \<open>recordsHolds\<close> are whether
  those recorders are, \<open>recordsReach\<close> whether the one of the reads of the repositories is, and \<open>envMissing\<close>
  names a dependency that was not set. \<open>envHistory since\<close> is the one read of the settled history a poll's loader makes,
  \<open>holdDay\<close> the date of an instant in the owner's zone, \<open>surcharge\<close> the peak of a model's rate card.
\<close>

record env =
  envClock :: "call \<Rightarrow> string \<Rightarrow> time"
  envFault :: "call \<Rightarrow> string \<Rightarrow> store_err option"
  printTable :: "nat \<Rightarrow> bool"
  envDelegated :: "store_err + issue list"
  envPlans :: plan_reads
  envPrivate :: "string \<Rightarrow> store_err + bool"
  envCandidates :: "db \<Rightarrow> store_err + (string \<times> doc) list"
  envTransient :: "db \<Rightarrow> string \<Rightarrow> store_err + (string \<times> doc) list"
  envHistory :: "time \<Rightarrow> store_err + settlement list"
  envOpenPRs :: "string \<Rightarrow> github_err + int"
  envPullOpen :: "string \<Rightarrow> int \<Rightarrow> github_err + bool"
  envPaused :: "store_err + string list"
  envPeakMode :: "store_err + string"
  envEstimate :: "string \<Rightarrow> store_err + estimate"
  envEstimatePlan :: "string \<Rightarrow> store_err + estimate"
  envHalted :: "string \<Rightarrow> store_err + bool"
  envVerdict :: "(string \<Rightarrow> store_err + string) option"
  recordsVerdicts :: bool
  recordsHolds :: bool
  recordsReach :: bool
  envMissing :: string
  surcharge :: "string \<Rightarrow> peak option"
  holdDay :: "time \<Rightarrow> string"
  envSweepFaults :: sweep_faults
  envClaimed :: "db \<Rightarrow> store_err + (string \<times> doc) list"
  envRunReads :: run_reads
  envClosed :: "string \<Rightarrow> github_err + closed_pr list \<times> bool"
  envPull :: "string \<Rightarrow> int \<Rightarrow> github_err + closed_pr"
  envCommits :: "string \<Rightarrow> int \<Rightarrow> github_err + commit list"
  envWithPR :: "db \<Rightarrow> store_err + (string \<times> doc) list"
  envChecksExpired :: "string \<Rightarrow> bool"
  envParseURL :: "string \<Rightarrow> parsed_url option"
  envPullCommits :: "string \<Rightarrow> int \<Rightarrow> github_err + (string \<times> string) list"
  envRequired :: "string \<Rightarrow> github_err + string list"
  envChecksOutcome :: "string \<Rightarrow> string \<Rightarrow> string list \<Rightarrow> github_err + string"
  envWaiting :: "db \<Rightarrow> store_err + (string \<times> doc) list"
  envUnposted :: "db \<Rightarrow> store_err + (string \<times> doc) list"
  envReplied :: "db \<Rightarrow> store_err + (string \<times> doc) list"
  envSession :: "string \<Rightarrow> store_err + string"
  envElicits :: "string \<Rightarrow> decision \<Rightarrow> bool"
  envElicitsProvisional :: "string \<Rightarrow> decision \<Rightarrow> string \<Rightarrow> bool"
  envSame :: "string \<Rightarrow> string \<Rightarrow> bool"
  envStuckWaiting :: "db \<Rightarrow> store_err + (string \<times> doc) list"
  envStuckFinished :: "db \<Rightarrow> store_err + (string \<times> doc) list"
  envStuckEnded :: "db \<Rightarrow> store_err + (string \<times> doc) list"
  envPendingNotices :: "db \<Rightarrow> string list"
  envStaleNotices :: "time \<Rightarrow> db \<Rightarrow> string list"
  envPosterError :: "string option"
  envPostError :: "notice \<Rightarrow> string option"
  envPhasesReady :: bool
  envListed :: "store_err + phase_project list"
  envProjectIssues :: "string list \<Rightarrow> store_err + issue list"
  envDelegates :: "string \<Rightarrow> bool"
  recordsClosed :: bool
  envClosedFaults :: "string \<Rightarrow> store_err option"
  envMoved :: "string \<Rightarrow> bool"
  envInboxWindow :: "db \<Rightarrow> store_err + (string \<times> doc) list"
  envProjectNames :: "(store_err + string list) option"
  envStartTicket :: "string \<Rightarrow> store_err + string"
  envDispatch :: "run_claim \<Rightarrow> github_err option"

section \<open>The state of a poll\<close>

record repo_reach =
  reachRepo :: string
  reachable_now :: bool
  reachReason :: string
  reachStatus :: int
  reachCheckedAt :: time

record deferral =
  deferRunID :: string
  deferCeiling :: string
  deferAt :: time

text \<open>The calls that leave the store, in the order the poll makes them.\<close>

datatype outside =
    StartTicket string
  | RestoreTicket string string
  | DispatchRun run_claim
  | RecordReach "repo_reach list"
  | Elicit string decision
  | ElicitProvisional string decision string
  | RecordSnapshots "phase_snapshot list"
  | DelegateIssue string
  | ResolveStart string time string
  | RecordProjectNames "string list"
  | PostNotice notice

record poll_state =
  pollDB :: db
  pollEnqueued :: "string list"
  pollRejections :: "(string \<times> rejection) list"
  pollDeferrals :: "deferral list"
  pollDispatched :: "string list"
  pollUnchecked :: "string list"
  pollReach :: "repo_reach list"
  pollCalls :: "outside list"

definition poll_start :: "db \<Rightarrow> poll_state" where
  "poll_start d = \<lparr>pollDB = d, pollEnqueued = [], pollRejections = [], pollDeferrals = [], pollDispatched = [],
     pollUnchecked = [], pollReach = [], pollCalls = []\<rparr>"

text \<open>An operation of the store, run inside a poll.\<close>

definition on_db :: "(db \<Rightarrow> 'r \<times> db) \<Rightarrow> poll_state \<Rightarrow> 'r \<times> poll_state" where
  "on_db f s = (case f (pollDB s) of (r, d) \<Rightarrow> (r, s\<lparr>pollDB := d\<rparr>))"

definition call_outside :: "outside \<Rightarrow> poll_state \<Rightarrow> poll_state" where
  "call_outside c s = s\<lparr>pollCalls := pollCalls s @ [c]\<rparr>"

lemma on_db_simps [simp]:
  "pollDB (snd (on_db f s)) = snd (f (pollDB s))"
  "fst (on_db f s) = fst (f (pollDB s))"
  "pollEnqueued (snd (on_db f s)) = pollEnqueued s"
  "pollRejections (snd (on_db f s)) = pollRejections s"
  "pollDeferrals (snd (on_db f s)) = pollDeferrals s"
  "pollDispatched (snd (on_db f s)) = pollDispatched s"
  "pollUnchecked (snd (on_db f s)) = pollUnchecked s"
  "pollReach (snd (on_db f s)) = pollReach s"
  "pollCalls (snd (on_db f s)) = pollCalls s"
  by (simp_all add: on_db_def split: prod.splits)

lemma call_outside_simps [simp]:
  "pollDB (call_outside c s) = pollDB s"
  "pollDispatched (call_outside c s) = pollDispatched s"
  "pollCalls (call_outside c s) = pollCalls s @ [c]"
  "pollUnchecked (call_outside c s) = pollUnchecked s"
  by (simp_all add: call_outside_def)

section \<open>A phase is a run of the store's operations\<close>

definition store_steps :: "int \<Rightarrow> poll_state \<Rightarrow> poll_state \<Rightarrow> bool" where
  "store_steps cap s s' \<longleftrightarrow> (step cap)\<^sup>*\<^sup>* (pollDB s) (pollDB s')"

lemma store_steps_refl [simp, intro]: "store_steps cap s s"
  by (simp add: store_steps_def)

lemma store_steps_same [intro]: "pollDB s' = pollDB s \<Longrightarrow> store_steps cap s s'"
  by (simp add: store_steps_def)

lemma store_steps_trans [trans]: "store_steps cap s t \<Longrightarrow> store_steps cap t u \<Longrightarrow> store_steps cap s u"
  unfolding store_steps_def by (rule rtranclp_trans)

lemma store_steps_db: "pollDB s' = pollDB t \<Longrightarrow> store_steps cap s t \<Longrightarrow> store_steps cap s s'"
  by (simp add: store_steps_def)

lemma store_steps_step: "step cap (pollDB s) (pollDB s') \<Longrightarrow> store_steps cap s s'"
  by (simp add: store_steps_def r_into_rtranclp)

lemma store_steps_on_db: "step cap (pollDB s) (snd (f (pollDB s))) \<Longrightarrow> store_steps cap s (snd (on_db f s))"
  by (simp add: store_steps_step)

lemma on_db_step:
  assumes "on_db f s = (r, s')" and "step cap (pollDB s) (snd (f (pollDB s)))" and "pollDB s'' = pollDB s'"
  shows "store_steps cap s s''"
  using assms by (intro store_steps_step) (auto simp: on_db_def split: prod.splits)

text \<open>The state a phase returned, named.\<close>

lemma steps_result: "f s = (r, s') \<Longrightarrow> store_steps cap s (snd (f s)) \<Longrightarrow> store_steps cap s s'"
  by simp

lemma steps_then:
  "store_steps cap s s' \<Longrightarrow> f s' = (r, s'') \<Longrightarrow> store_steps cap s' (snd (f s')) \<Longrightarrow> store_steps cap s s''"
  using store_steps_trans by simp

text \<open>So what every step of the store keeps, every phase keeps.\<close>

lemma store_steps_inv: "store_steps cap s s' \<Longrightarrow> ledger_inv (pollDB s) \<Longrightarrow> ledger_inv (pollDB s')"
  unfolding store_steps_def by (induction rule: rtranclp_induct) (auto intro: step_keeps)

lemma store_steps_in_flight:
  assumes "store_steps cap s s'" and "ledger_inv (pollDB s)"
  shows "int (length (Reservations (readLedger (pollDB s')))) \<le> max (int (length (Reservations (readLedger (pollDB s))))) cap"
proof -
  have "ledger_inv d' \<and> int (length (Reservations (readLedger d'))) \<le> max (int (length (Reservations (readLedger d)))) cap"
    if "(step cap)\<^sup>*\<^sup>* d d'" "ledger_inv d" for d d'
    using that by (induction rule: rtranclp_induct) (auto dest: step_keeps step_in_flight)
  with assms show ?thesis by (simp add: store_steps_def)
qed

lemma store_steps_reachable: "store_steps cap s s' \<Longrightarrow> reachable cap (pollDB s) \<Longrightarrow> reachable cap (pollDB s')"
  unfolding store_steps_def by (induction rule: rtranclp_induct) (auto intro: reachable.further)

section \<open>Walks\<close>

text \<open>A phase's loop over a list: every element, its errors gathered, or up to the first error.\<close>

datatype poll_err = InStore store_err | InGithub github_err | Truncated string | NotPosted string | NotSet string

fun each :: "('a \<Rightarrow> poll_state \<Rightarrow> poll_err list \<times> poll_state) \<Rightarrow> 'a list \<Rightarrow> poll_state \<Rightarrow> poll_err list \<times> poll_state" where
  "each f [] s = ([], s)"
| "each f (x # xs) s = (case f x s of (errs, s') \<Rightarrow> (case each f xs s' of (rest, s'') \<Rightarrow> (errs @ rest, s'')))"

fun until_error ::
  "('a \<Rightarrow> poll_state \<Rightarrow> store_err option \<times> poll_state) \<Rightarrow> 'a list \<Rightarrow> poll_state \<Rightarrow> store_err option \<times> poll_state" where
  "until_error f [] s = (None, s)"
| "until_error f (x # xs) s = (case f x s of (Some e, s') \<Rightarrow> (Some e, s') | (None, s') \<Rightarrow> until_error f xs s')"

lemma each_steps:
  assumes "\<And>x s. store_steps cap s (snd (f x s))"
  shows "store_steps cap s (snd (each f xs s))"
proof (induction xs arbitrary: s)
  case (Cons x xs)
  show ?case using store_steps_trans [OF assms [of s x] Cons.IH] by (auto split: prod.splits)
qed simp

lemma until_error_steps:
  assumes "\<And>x s. store_steps cap s (snd (f x s))"
  shows "store_steps cap s (snd (until_error f xs s))"
proof (induction xs arbitrary: s)
  case (Cons x xs)
  show ?case using assms [of s x] store_steps_trans [OF assms [of s x] Cons.IH]
    by (auto split: prod.splits option.splits)
qed simp

end
