(* ===== verification/Poll_Admit.thy ===== *)
theory Poll_Admit
  imports Poll_State
begin

text \<open>
  The admission phase of a poll (\<open>internal/dispatcher/dispatcher.go\<close>): \<open>admit\<close>, which queues one
  delegated issue, keeps its queued row in step or records the refusal against it, and
  \<open>refreshRetriedModels\<close>, which gives a retry awaiting its claim the models its ticket names now.
\<close>

section \<open>Refusing\<close>

definition refuse :: "env \<Rightarrow> string \<times> rejection \<Rightarrow> poll_state \<Rightarrow> store_err option \<times> poll_state" where
  "refuse e rej s =
     (case on_db (Reject (envFault e CReject (fst rej)) (fst rej) (snd rej)) s of
        (Inl err, s') \<Rightarrow> (Some err, s')
      | (Inr _, s') \<Rightarrow> (None, s'\<lparr>pollRejections := pollRejections s' @ [rej]\<rparr>))"

section \<open>Retries\<close>

definition RetryAwaitingClaim :: "db \<Rightarrow> string \<Rightarrow> bool" where
  "RetryAwaitingClaim d runID = (case runs d runID of None \<Rightarrow> False | Some row \<Rightarrow> retriedAwaitingClaim row)"

definition refreshRetriedModels :: "config \<Rightarrow> env \<Rightarrow> issue \<Rightarrow> string \<Rightarrow> poll_state \<Rightarrow> store_err option \<times> poll_state" where
  "refreshRetriedModels c e issue runID s =
     (case envFault e CRetryAwaiting runID of
        Some err \<Rightarrow> (Some err, s)
      | None \<Rightarrow>
        if \<not> RetryAwaitingClaim (pollDB s) runID then (None, s)
        else case checkModels (printTable e) (envPlans e) (Overrides issue) (cfgModel c) of
            Inl _ \<Rightarrow> (None, s\<lparr>pollUnchecked := runID # pollUnchecked s\<rparr>)
          | Inr why \<Rightarrow>
            if fst why \<noteq> [] then
              (case on_db (StopRetried (envFault e CStopRetried runID) runID StopModelRefused (fst why @ '': '' @ snd why)
                             (envClock e CStopRetried runID)) s of
                 (Inl err, s') \<Rightarrow> (Some err, s')
               | (Inr False, s') \<Rightarrow> (None, s')
               | (Inr True, s') \<Rightarrow> refuse e (refusal issue why (envClock e CRefuse runID)) s')
            else
              (case on_db (RefreshRetriedModels (envFault e CRefreshModels runID) runID (Overrides issue)) s of
                 (Inl err, s') \<Rightarrow> (Some err, s')
               | (Inr _, s') \<Rightarrow> (None, s')))"

section \<open>Admitting\<close>

text \<open>An issue already queued: a failed refresh of its rank or its ticket is logged.\<close>

definition refresh_queued :: "config \<Rightarrow> env \<Rightarrow> issue \<Rightarrow> queued \<Rightarrow> poll_state \<Rightarrow> store_err option \<times> poll_state" where
  "refresh_queued c e issue q s =
     (let runID = qRunID q;
          s1 = snd (on_db (UpdateQueuedPriority (envFault e CPriority runID) runID (qPriority q)) s);
          s2 = snd (on_db (RefreshQueuedTicket (envFault e CRefresh runID) q) s1)
      in refreshRetriedModels c e issue runID s2)"

definition enqueue_new :: "env \<Rightarrow> queued \<Rightarrow> poll_state \<Rightarrow> store_err option \<times> poll_state" where
  "enqueue_new e q s =
     (case on_db (Enqueue (envFault e CEnqueue (qRunID q)) q) s of
        (Inl err, s') \<Rightarrow> (if err = ErrAlreadyQueued then None else Some err, s')
      | (Inr _, s') \<Rightarrow> (None, s'\<lparr>pollEnqueued := pollEnqueued s' @ [qRunID q]\<rparr>))"

definition admit :: "config \<Rightarrow> env \<Rightarrow> issue \<Rightarrow> poll_state \<Rightarrow> store_err option \<times> poll_state" where
  "admit c e issue s =
     (case build (printTable e) (cfgRepos c) (envClock e CBuild (isID issue)) issue of
        Inl rej \<Rightarrow> refuse e rej s
      | Inr q \<Rightarrow>
        (case envFault e CExists (qRunID q) of
           Some err \<Rightarrow> (Some err, s)
         | None \<Rightarrow>
           if Exists (pollDB s) (qRunID q) then refresh_queued c e issue q s
           else case checkModels (printTable e) (envPlans e) (Overrides issue) (cfgModel c) of
               Inl _ \<Rightarrow> (None, s)
             | Inr why \<Rightarrow>
               if fst why \<noteq> [] then refuse e (refusal issue why (envClock e CRefuse (qRunID q))) s
               else case envPrivate e (qRepo q) of
                   Inl _ \<Rightarrow> (None, s)
                 | Inr private \<Rightarrow> enqueue_new e (q\<lparr>qModels := Overrides issue, qPrivate := private\<rparr>) s))"

definition admit_all :: "config \<Rightarrow> env \<Rightarrow> issue list \<Rightarrow> poll_state \<Rightarrow> store_err option \<times> poll_state" where
  "admit_all c e issues s = until_error (admit c e) issues s"

section \<open>Admission is a run of the store's operations\<close>

lemma refuse_steps: "store_steps cap s (snd (refuse e rej s))"
  unfolding refuse_def by (auto split: prod.splits sum.splits intro: on_db_step step.reject)

lemma refreshRetriedModels_steps: "store_steps cap s (snd (refreshRetriedModels c e issue runID s))"
  unfolding refreshRetriedModels_def
  by (auto split: option.splits sum.splits prod.splits bool.splits
      intro: on_db_step step.stop_retried step.refresh_models store_steps_trans [OF _ refuse_steps])

lemma refresh_queued_steps: "store_steps cap s (snd (refresh_queued c e issue q s))"
  unfolding refresh_queued_def Let_def
  by (rule store_steps_trans [OF _ refreshRetriedModels_steps])
    (blast intro: store_steps_trans store_steps_on_db step.update_priority step.refresh_ticket)

lemma enqueue_new_steps:
  "run_id_ok (qRunID q) \<Longrightarrow> store_steps cap s (snd (enqueue_new e q s))"
  unfolding enqueue_new_def by (auto split: prod.splits sum.splits intro: on_db_step step.enqueue)

lemma build_run_id:
  assumes "build table allow now issue = Inr q"
  shows "run_id_ok (qRunID q)"
  using assms by (rule build_ok)
    (use Validate_ok [of table "as_full (qTicket q)"] ticket_id_ok in \<open>auto simp: as_full_def new_ticket_def ticket.defs\<close>)

lemma admit_steps: "store_steps cap s (snd (admit c e issue s))"
  unfolding admit_def
  by (auto split: option.splits sum.splits
      intro: refuse_steps refresh_queued_steps intro!: enqueue_new_steps dest: build_run_id)

lemma admit_all_steps: "store_steps cap s (snd (admit_all c e issues s))"
  unfolding admit_all_def by (rule until_error_steps) (rule admit_steps)

end
