(* ===== verification/Poll_Claim.thy ===== *)
theory Poll_Claim
  imports Poll_Admit
begin

text \<open>
  The claim walk of a poll (\<open>admitClaims\<close> of \<open>internal/dispatcher/dispatcher.go\<close>) and the dispatch of
  what it claimed, with the holds it records (\<open>holds.go\<close>), the paused projects (\<open>phase.go\<close>), the
  reachability of the listed repositories (\<open>reach.go\<close>) and the notice of a budget deferral
  (\<open>notice.go\<close>).

  The estimates, halts, verdicts and opt-ins are read at most once a poll for each size or plan: an
  answer is a function of its key.
\<close>

section \<open>Holds\<close>

definition HoldConcurrency :: string where "HoldConcurrency = ''concurrency''"
definition HoldRepoBusy :: string where "HoldRepoBusy = ''repo-busy''"
definition HoldReviewWIP :: string where "HoldReviewWIP = ''review-wip''"
definition HoldLargeCap :: string where "HoldLargeCap = ''large-cap''"
definition HoldBlocked :: string where "HoldBlocked = ''blocked''"
definition HoldBudget :: string where "HoldBudget = ''budget''"
definition HoldJobLimit :: string where "HoldJobLimit = ''job-limit''"
definition HoldBreaker :: string where "HoldBreaker = ''breaker''"
definition HoldPaused :: string where "HoldPaused = ''paused''"
definition HoldPeakHours :: string where "HoldPeakHours = ''peak-hours''"
definition HoldProviderDown :: string where "HoldProviderDown = ''provider-down''"
definition HoldNoEstimate :: string where "HoldNoEstimate = ''no-estimate''"
definition HoldPrivateOptIn :: string where "HoldPrivateOptIn = ''private-opt-in''"

lemmas hold_defs = HoldConcurrency_def HoldRepoBusy_def HoldReviewWIP_def HoldLargeCap_def HoldBlocked_def
  HoldBudget_def HoldJobLimit_def HoldBreaker_def HoldPaused_def HoldPeakHours_def HoldProviderDown_def
  HoldNoEstimate_def HoldPrivateOptIn_def

definition HoldReasons :: "string list" where
  "HoldReasons = [HoldConcurrency, HoldRepoBusy, HoldReviewWIP, HoldLargeCap, HoldBlocked, HoldBudget,
     HoldJobLimit, HoldBreaker, HoldPaused, HoldPeakHours, HoldProviderDown, HoldNoEstimate, HoldPrivateOptIn]"

definition holdReason :: "string \<Rightarrow> budget_config \<Rightarrow> string" where
  "holdReason binding budget =
     (if binding = ConditionConcurrency then HoldConcurrency
      else if binding = ConditionRepoCap \<or> binding = ConditionRepoOverlap then HoldRepoBusy
      else if binding = ConditionReviewWIP then HoldReviewWIP
      else if binding = ConditionLargeCap then HoldLargeCap
      else if binding = ConditionBlocked then HoldBlocked
      else if binding = CeilingCash \<or> binding = CeilingRunnerMinutes then HoldBudget
      else if binding = ConditionPlatformCap then HoldJobLimit
      else if binding = ConditionCircuitBreaker then HoldBreaker
      else if binding = ConditionOwnerPaused then HoldPaused
      else if binding = ConditionPeakHours then HoldPeakHours
      else if binding = CeilingProviderHalted then HoldProviderDown
      else if binding = ConditionEstimateFailed then HoldNoEstimate
      else if binding = ConditionPrivateOptIn then HoldPrivateOptIn
      else if isProviderCeiling budget binding then HoldBudget
      else [])"

definition recordHold :: "env \<Rightarrow> run_candidate \<Rightarrow> string \<Rightarrow> budget_config \<Rightarrow> poll_state \<Rightarrow> poll_state" where
  "recordHold e cand binding budget s =
     (let reason = holdReason binding budget; now = envClock e CHold (candRunID cand); onDay = holdDay e now in
      if \<not> recordsHolds e \<or> reason = [] then s
      else if reason \<in> set (case map_of (candHeld cand) onDay of None \<Rightarrow> [] | Some rs \<Rightarrow> rs) then s
      else snd (on_db (RecordHold (envFault e CHold (candRunID cand)) (candRunID cand) reason onDay now) s))"

text \<open>\<open>RankHolds\<close>: the reasons with a count, largest first, a tie in the order of \<open>HoldReasons\<close>.\<close>

definition RankHolds :: "(string \<Rightarrow> int) \<Rightarrow> (string \<times> int) list" where
  "RankHolds counts =
     sort_key (\<lambda>h. - snd h) (filter (\<lambda>h. snd h > 0) (map (\<lambda>r. (r, counts r)) HoldReasons))"

section \<open>Paused projects and reachability\<close>

definition PhaseRunning :: string where "PhaseRunning = ''running''"
definition PhaseStopping :: string where "PhaseStopping = ''stopping''"
definition PhaseStopped :: string where "PhaseStopped = ''stopped''"

definition Phase :: "bool \<Rightarrow> int \<Rightarrow> string" where
  "Phase paused running = (if \<not> paused then PhaseRunning else if running > 0 then PhaseStopping else PhaseStopped)"

text \<open>An unreadable set holds every repository.\<close>

definition paused_holds :: "env \<Rightarrow> string \<Rightarrow> bool" where
  "paused_holds e repo = (case envPaused e of Inl _ \<Rightarrow> True | Inr repos \<Rightarrow> to_lower repo \<in> set repos)"

definition ReachForbidden :: string where "ReachForbidden = ''forbidden''"
definition ReachNotFound :: string where "ReachNotFound = ''not-found''"
definition ReachOther :: string where "ReachOther = ''other''"
definition ReachUnauthorized :: string where "ReachUnauthorized = ''unauthorized''"
definition ReachUnreachable :: string where "ReachUnreachable = ''unreachable''"

definition classifyReach :: "string \<Rightarrow> github_err option \<Rightarrow> time \<Rightarrow> repo_reach" where
  "classifyReach repo err now =
     (let r = \<lparr>reachRepo = repo, reachable_now = (err = None), reachReason = [], reachStatus = 0, reachCheckedAt = now\<rparr> in
      case err of
        None \<Rightarrow> r
      | Some (APIError status) \<Rightarrow> r\<lparr>reachStatus := status, reachReason :=
          (if status = 401 then ReachUnauthorized else if status = 403 then ReachForbidden
           else if status = 404 then ReachNotFound else ReachOther)\<rparr>
      | Some NetworkError \<Rightarrow> r\<lparr>reachReason := ReachUnreachable\<rparr>
      | Some OtherError \<Rightarrow> r\<lparr>reachReason := ReachOther\<rparr>)"

definition ReachChecking :: string where "ReachChecking = ''checking''"
definition ReachCannotRead :: string where "ReachCannotRead = ''cannot-read''"
definition ReachReachable :: string where "ReachReachable = ''reachable''"

definition ReachState :: "repo_reach option \<Rightarrow> time \<Rightarrow> string" where
  "ReachState record addedAt =
     (case record of
        None \<Rightarrow> ReachChecking
      | Some r \<Rightarrow> if reachCheckedAt r < addedAt then ReachChecking
                  else if reachable_now r then ReachReachable else ReachCannotRead)"

text \<open>The open agent PRs across the allowlist, known only when every repository was read.\<close>

record open_prs =
  prCount :: int
  prKnown :: bool

definition read_ok :: "'e + 'a \<Rightarrow> bool" where
  "read_ok r = (case r of Inl _ \<Rightarrow> False | Inr _ \<Rightarrow> True)"

definition countOpenPRs :: "env \<Rightarrow> string list \<Rightarrow> open_prs \<times> repo_reach list" where
  "countOpenPRs e repos =
     (let reads = map (\<lambda>repo. (repo, envOpenPRs e repo)) repos;
          reaches = map (\<lambda>(repo, r). classifyReach repo (case r of Inl err \<Rightarrow> Some err | Inr _ \<Rightarrow> None) (envClock e CReach [])) reads
      in if list_all (\<lambda>(_, r). read_ok r) reads
         then (\<lparr>prCount = foldl (\<lambda>n (_, r). case r of Inr k \<Rightarrow> int64 (n + k) | Inl _ \<Rightarrow> n) 0 reads, prKnown = True\<rparr>, reaches)
         else (\<lparr>prCount = 0, prKnown = False\<rparr>, reaches))"

definition reviewWIPFor :: "env \<Rightarrow> run_candidate \<Rightarrow> open_prs \<Rightarrow> int" where
  "reviewWIPFor e cand prs =
     (if candSupersededPR cand \<le> 0 \<or> prCount prs = 0 then prCount prs
      else case envPullOpen e (candRepo cand) (candSupersededPR cand) of
          Inl _ \<Rightarrow> prCount prs
        | Inr True \<Rightarrow> prCount prs - 1
        | Inr False \<Rightarrow> prCount prs)"

section \<open>The tier a claim is judged on\<close>

record claim_tier =
  tierBudget :: budget_config
  tierPlan :: string
  tierModel :: string

definition claimStage :: "run_candidate \<Rightarrow> bool \<Rightarrow> string" where
  "claimStage cand twoStage =
     (if \<not> twoStage then []
      else if candStage cand = StageBuild then StageBuild
      else if candSize cand = ''S'' then []
      else StagePlan)"

definition isFree :: "config \<Rightarrow> string \<Rightarrow> bool" where
  "isFree c model \<longleftrightarrow> list_ex (\<lambda>models. model \<in> set models) (cfgLastResort c)"

definition namedFree :: "config \<Rightarrow> run_candidate \<Rightarrow> bool" where
  "namedFree c cand =
     (if candModel cand = [] then False
      else list_all (isFree c)
        ([candModel cand]
         @ (if candReviewModel cand \<noteq> [] then [candReviewModel cand] else DefaultReviewModels)
         @ (if candSize cand \<noteq> ''S''
            then (if candPlanModels cand \<noteq> [] then candPlanModels cand else [DefaultPlanModel]) else [])))"

definition namedFreeModels :: "config \<Rightarrow> run_candidate \<Rightarrow> string list" where
  "namedFreeModels c cand =
     filter (\<lambda>m. \<not> (m = [] \<or> \<not> isFree c m)) ([candModel cand, candReviewModel cand] @ candPlanModels cand)"

definition tierOf :: "config \<Rightarrow> run_candidate \<Rightarrow> string \<Rightarrow> claim_tier" where
  "tierOf c cand stage =
     (let default = \<lparr>tierBudget = cfgBudget c, tierPlan = Provider (cfgModel c),
            tierModel = str_or (candModel cand) (cfgModel c)\<rparr> in
      if namedFree c cand
      then \<lparr>tierBudget = lastResort (cfgBudget c), tierPlan = Provider (candModel cand), tierModel = candModel cand\<rparr>
      else if stage = StageBuild then
        (case find (\<lambda>p. planName p = candPlan cand) (cfgPlanBudgets c) of
           Some p \<Rightarrow> \<lparr>tierBudget = planBudget p, tierPlan = planName p,
                      tierModel = str_or (candModel cand) (planBuildModel p)\<rparr>
         | None \<Rightarrow> default)
      else default)"

section \<open>Reads that fail safe\<close>

definition breakerTripped :: "env \<Rightarrow> db \<Rightarrow> bool" where
  "breakerTripped e d = (case envFault e CBreaker [] of Some _ \<Rightarrow> True | None \<Rightarrow> Tripped d)"

definition providerHalted :: "env \<Rightarrow> string \<Rightarrow> bool" where
  "providerHalted e plan = (case envHalted e plan of Inl _ \<Rightarrow> False | Inr v \<Rightarrow> v)"

definition lookupPrivateOptIn :: "env \<Rightarrow> string \<Rightarrow> bool" where
  "lookupPrivateOptIn e plan =
     (case envPlans e plan of Inr (Some p) \<Rightarrow> planPrivateOptIn p | _ \<Rightarrow> False)"

definition VerdictUnknown :: string where "VerdictUnknown = ''unknown''"

definition lookupVerdict :: "env \<Rightarrow> string \<Rightarrow> string" where
  "lookupVerdict e provider =
     (case envVerdict e of
        None \<Rightarrow> []
      | Some read \<Rightarrow> (case read provider of Inl _ \<Rightarrow> VerdictUnknown | Inr v \<Rightarrow> v))"

section \<open>The notice of a deferral\<close>

text \<open>\<open>url.PathEscape\<close>, and a time's Unix seconds.\<close>

definition path_safe :: "char \<Rightarrow> bool" where
  "path_safe c \<longleftrightarrow> is_alnum c \<or> c \<in> set ''-_.~$&+:=@''"

definition upper_hex :: "nat \<Rightarrow> char" where
  "upper_hex n = (if n < 10 then char_of (48 + n) else char_of (55 + n))"

definition PathEscape :: "string \<Rightarrow> string" where
  "PathEscape s = concat (map (\<lambda>c. if path_safe c then [c]
     else [CHR ''%'', upper_hex (byte c div 16), upper_hex (byte c mod 16)]) s)"

definition unix_epoch :: time where "unix_epoch = 719162 * day"

definition Unix :: "time \<Rightarrow> int" where "Unix t = (t - unix_epoch) div 1000000000"

definition ceilingName :: "budget_config \<Rightarrow> string \<Rightarrow> string" where
  "ceilingName cfg binding =
     (if binding = CeilingCash then ''its cash ceiling''
      else if binding = CeilingRunnerMinutes then ''its runner-minutes ceiling''
      else if list_ex (\<lambda>w. windowName w = binding) (providerWindows cfg) then ''its '' @ binding @ '' window''
      else if list_ex (\<lambda>w. windowName w = binding) (map snd (modelCaps cfg)) then ''its cap on '' @ binding
      else [])"

fun union_of :: "string list \<Rightarrow> string list \<Rightarrow> string list" where
  "union_of have [] = have"
| "union_of have (m # ms) = union_of (if m \<in> set have then have else have @ [m]) ms"

definition deferralChoices :: "budget_config \<Rightarrow> string \<Rightarrow> string \<Rightarrow> string list list \<Rightarrow> string" where
  "deferralChoices cfg binding plan freeTiers =
     (let named = ceilingName cfg binding; detail = ''plan '' @ plan @ '': wait for '' @ named @ '' to reset'';
          free = union_of [] (concat freeTiers) in
      if named = [] then []
      else if \<not> isProviderCeiling cfg binding then detail
      else if free = [] then detail
      else detail @ '', or name free build and review models on a ticket: '' @ join '', '' free
             @ '' (a private repository also needs the plan's private opt-in)'')"

definition deferralClass :: string where "deferralClass = ''deferral:''"
definition deferralNoticeKey :: string where "deferralNoticeKey = ''deferral-''"

definition deferralNoticeID :: "string \<Rightarrow> time \<Rightarrow> string" where
  "deferralNoticeID binding start = deferralNoticeKey @ PathEscape binding @ ''-'' @ itoa (Unix start)"

text \<open>Whether it raised one, and what it raised: the ceiling would still bind at the next poll.\<close>

definition noticeDeferral ::
  "env \<Rightarrow> string \<Rightarrow> budget_config \<Rightarrow> string \<Rightarrow> reservation \<Rightarrow> string \<Rightarrow> string \<Rightarrow> string \<Rightarrow>
   store_err + settlement list \<Rightarrow> poll_state \<Rightarrow> bool \<times> poll_state" where
  "noticeDeferral e runID cfg model res binding link detail history s =
     (let now = envClock e CNotice runID in
      case ceilingStart cfg binding now of
        None \<Rightarrow> (False, s)
      | Some start \<Rightarrow>
        if link = [] then (False, s)
        else case Spend (envFault e CSpend runID) (\<lambda>_ _. Inr []) cfg model (now + PollInterval) (Some history) (pollDB s) of
            Inl _ \<Rightarrow> (False, s)
          | Inr (reserved, settled) \<Rightarrow>
            if \<not> stillBinds cfg model reserved settled res binding then (False, s)
            else case on_db (Raise (envFault e CNotice runID)
                   \<lparr>noticeID = deferralNoticeID binding start, noticeClass = deferralClass @ binding,
                    noticeDetail = detail, noticeLink = link\<rparr> now) s of
                (Inl _, s') \<Rightarrow> (False, s')
              | (Inr _, s') \<Rightarrow> (True, s'))"

section \<open>The claim walk\<close>

text \<open>What the walk reads once, before its first candidate.\<close>

record walk_facts =
  walkTripped :: bool
  walkMode :: string
  walkPRs :: open_prs
  walkRelations :: "string \<Rightarrow> relations"
  walkLink :: "string \<Rightarrow> string"
  walkHistory :: "store_err + settlement list"

text \<open>A candidate is withheld before its claim, with the budget its hold is judged by, or tried.\<close>

record claim_try =
  tryStage :: string
  tryTier :: claim_tier
  tryReservation :: reservation
  tryFacts :: "store_err facts"

datatype prepared = Withheld string "budget_config option" | Try claim_try

definition stage_estimate :: "env \<Rightarrow> run_candidate \<Rightarrow> string \<Rightarrow> store_err + estimate" where
  "stage_estimate e cand stage =
     and_then (envEstimate e (candSize cand)) (\<lambda>est.
       if stage = StagePlan then envEstimatePlan e (candSize cand) else Inr est)"

definition prepare_claim :: "config \<Rightarrow> env \<Rightarrow> walk_facts \<Rightarrow> string list \<Rightarrow> run_candidate \<Rightarrow> prepared" where
  "prepare_claim c e w unchecked cand =
     (if candRunID cand \<in> set unchecked then Withheld ConditionModelsUnchecked None
      else
        let stage = claimStage cand (cfgTwoStage c) in
        case stage_estimate e cand stage of
          Inl _ \<Rightarrow> Withheld ConditionEstimateFailed (Some (cfgBudget c))
        | Inr est \<Rightarrow>
          let tier = tierOf c cand stage; plan = Provider (tierModel tier) in
          if candPrivate cand \<and> list_ex (\<lambda>m. \<not> lookupPrivateOptIn e (Provider m)) (namedFreeModels c cand)
          then Withheld ConditionPrivateOptIn (Some (tierBudget tier))
          else Try \<lparr>tryStage = stage, tryTier = tier,
            tryReservation = \<lparr>
              resProviderCost = (if providerFree (tierBudget tier) then 0 else estProviderCost est),
              resRunnerMinutes = (if candPrivate cand then estMinutes est else 0),
              resStage = stage, resFiles = candPlanFiles cand\<rparr>,
            tryFacts = \<lparr>factLimits = Limits_OrDefault (cfgLimits c), factTuning = Tuning_OrDefault (cfgTuning c),
              factRelations = walkRelations w (candRunID cand), factProviderHalted = providerHalted e plan,
              factBreakerTripped = walkTripped w,
              factOwnerPaused = (paused_holds e (candRepo cand) \<and> stage \<noteq> StageBuild),
              factPeakHeld = PeakHeld (surcharge e) (walkMode w) (tierModel tier) (envClock e CPeak (candRunID cand)) (estMinutes est),
              factModel = tierModel tier, factOpenPRs = reviewWIPFor e cand (walkPRs w),
              factOpenPRsKnown = prKnown (walkPRs w), factDecisionMode = cfgDecisionMode c,
              factHistory = Some (walkHistory w)\<rparr>\<rparr>)"

definition defer_run :: "env \<Rightarrow> run_candidate \<Rightarrow> string \<Rightarrow> poll_state \<Rightarrow> poll_state" where
  "defer_run e cand why s = s\<lparr>pollDeferrals := pollDeferrals s @
     [\<lparr>deferRunID = candRunID cand, deferCeiling = why, deferAt = envClock e CDefer (candRunID cand)\<rparr>]\<rparr>"

definition claim_of :: "env \<Rightarrow> run_candidate \<Rightarrow> claim_try \<Rightarrow> run_claim" where
  "claim_of e cand t = \<lparr>claimRunID = candRunID cand, claimRepo = candRepo cand, claimPriority = candPriority cand,
     claimVerdict = lookupVerdict e (Provider (tierModel (tryTier t))), claimStageOf = tryStage t,
     claimAttempt = candAttempt cand\<rparr>"

text \<open>
  One candidate: claimed, skipped or deferred, with the ceilings noticed so far. An error ends the
  walk, the claims booked before it kept.
\<close>

definition try_candidate ::
  "config \<Rightarrow> env \<Rightarrow> walk_facts \<Rightarrow> run_candidate \<Rightarrow> string list \<Rightarrow> poll_state \<Rightarrow>
   (store_err + run_claim option) \<times> string list \<times> poll_state" where
  "try_candidate c e w cand noticed s =
     (case prepare_claim c e w (pollUnchecked s) cand of
        Withheld why hold \<Rightarrow>
          let s' = defer_run e cand why s in
          (Inr None, noticed, (case hold of None \<Rightarrow> s' | Some budget \<Rightarrow> recordHold e cand why budget s'))
      | Try t \<Rightarrow>
          let budget = tierBudget (tryTier t); r = candRunID cand in
          (case on_db (TryClaim (envFault e CClaim r) (\<lambda>_ _. Inr []) r (envClock e CClaim r) budget (tryFacts t) (tryReservation t)) s of
             (Inl err, s') \<Rightarrow> (Inl err, noticed, s')
           | (Inr (True, _), s') \<Rightarrow> (Inr (Some (claim_of e cand t)), noticed, s')
           | (Inr (False, binding), s') \<Rightarrow>
               if binding = [] then (Inr None, noticed, s')
               else
                 let s1 = recordHold e cand binding budget (defer_run e cand binding s') in
                 if binding \<in> set noticed then (Inr None, noticed, s1)
                 else (case noticeDeferral e r budget (factModel (tryFacts t)) (tryReservation t) binding (walkLink w r)
                         (deferralChoices budget binding (tierPlan (tryTier t)) (cfgLastResort c)) (walkHistory w) s1 of
                     (raised, s2) \<Rightarrow> (Inr None, if raised then binding # noticed else noticed, s2))))"

fun claim_walk ::
  "config \<Rightarrow> env \<Rightarrow> walk_facts \<Rightarrow> run_candidate list \<Rightarrow> string list \<Rightarrow> poll_state \<Rightarrow>
   (run_claim list \<times> store_err option) \<times> poll_state" where
  "claim_walk c e w [] noticed s = (([], None), s)"
| "claim_walk c e w (cand # cands) noticed s =
     (case try_candidate c e w cand noticed s of
        (Inl err, _, s') \<Rightarrow> (([], Some err), s')
      | (Inr claimed, noticed', s') \<Rightarrow>
          (case claim_walk c e w cands noticed' s' of
             ((claims, err), s'') \<Rightarrow> ((case claimed of None \<Rightarrow> claims | Some cl \<Rightarrow> cl # claims, err), s'')))"

definition issue_relations :: "issue list \<Rightarrow> string \<Rightarrow> relations" where
  "issue_relations issues r =
     (case find (\<lambda>i. isID i = r) (rev issues) of
        None \<Rightarrow> \<lparr>relKnown = False, relBlockedBy = [], relBlocks = [], relBlockedByOpen = []\<rparr>
      | Some i \<Rightarrow> \<lparr>relKnown = True, relBlockedBy = isBlockedBy i, relBlocks = isBlocks i, relBlockedByOpen = isBlockedByOpen i\<rparr>)"

definition issue_link :: "issue list \<Rightarrow> string \<Rightarrow> string" where
  "issue_link issues r = (case find (\<lambda>i. isID i = r) (rev issues) of None \<Rightarrow> [] | Some i \<Rightarrow> isURL i)"

definition admitClaims ::
  "config \<Rightarrow> env \<Rightarrow> issue list \<Rightarrow> open_prs \<Rightarrow> poll_state \<Rightarrow> (run_claim list \<times> store_err option) \<times> poll_state" where
  "admitClaims c e issues prs s =
     (case Candidates (envCandidates e (pollDB s)) of
        Inl err \<Rightarrow> (([], Some err), s)
      | Inr cands \<Rightarrow>
        let w = \<lparr>walkTripped = breakerTripped e (pollDB s), walkMode = readPeakMode (envPeakMode e), walkPRs = prs,
              walkRelations = issue_relations issues, walkLink = issue_link issues,
              walkHistory = envHistory e (historySince (cfgBudget c) (cfgPlanBudgets c) (envClock e CPoll []))\<rparr>
        in claim_walk c e w cands [] s)"

section \<open>Starting what was claimed\<close>

definition startTicket :: "env \<Rightarrow> run_claim \<Rightarrow> poll_state \<Rightarrow> poll_state" where
  "startTicket e cl s =
     (let r = claimRunID cl; s1 = call_outside (StartTicket r) s in
      case envStartTicket e r of
        Inl _ \<Rightarrow> s1
      | Inr prior \<Rightarrow> if prior = [] then s1 else snd (on_db (RecordTicketState (envFault e CTicketState r) r prior) s1))"

definition recordVerdict :: "env \<Rightarrow> run_claim \<Rightarrow> poll_state \<Rightarrow> poll_state" where
  "recordVerdict e cl s =
     (if \<not> recordsVerdicts e \<or> claimVerdict cl = [] then s
      else snd (on_db (RecordVerdict (envFault e CVerdict (claimRunID cl)) (claimRunID cl) (claimVerdict cl)) s))"

definition dispatch :: "env \<Rightarrow> run_claim \<Rightarrow> poll_state \<Rightarrow> poll_err list \<times> poll_state" where
  "dispatch e cl s =
     (let r = claimRunID cl; s1 = call_outside (DispatchRun cl) (recordVerdict e cl s) in
      case envDispatch e cl of
        None \<Rightarrow> ([], s1)
      | Some err \<Rightarrow>
          (case on_db (Release (envFault e CRelease r) r (envClock e CRelease r)) s1 of
             (Inl rerr, s2) \<Rightarrow> ([InGithub err, InStore rerr], s2)
           | (Inr _, s2) \<Rightarrow> ([InGithub err], s2)))"

definition start_run :: "env \<Rightarrow> run_claim \<Rightarrow> poll_state \<Rightarrow> poll_err list \<times> poll_state" where
  "start_run e cl s =
     (case dispatch e cl (startTicket e cl s) of
        ([], s') \<Rightarrow> ([], s'\<lparr>pollDispatched := pollDispatched s' @ [claimRunID cl]\<rparr>)
      | (errs, s') \<Rightarrow> (errs, s'))"

section \<open>The walk and the starts are runs of the store's operations\<close>

lemma defer_run_db [simp]: "pollDB (defer_run e cand why s) = pollDB s"
  by (simp add: defer_run_def)

lemma recordHold_steps: "store_steps cap s (recordHold e cand binding budget s)"
  by (auto simp: recordHold_def Let_def intro: store_steps_on_db step.record_hold)

lemma noticeDeferral_steps: "store_steps cap s (snd (noticeDeferral e r cfg model res binding link detail history s))"
  unfolding noticeDeferral_def Let_def
  by (auto split: option.splits sum.splits prod.splits intro: on_db_step step.raise)

lemma try_candidate_steps:
  assumes "poll_cap c \<le> cap"
  shows "store_steps cap s (snd (snd (try_candidate c e w cand noticed s)))"
proof (cases "prepare_claim c e w (pollUnchecked s) cand")
  case (Withheld why hold)
  have "store_steps cap s (recordHold e cand why b (defer_run e cand why s))" for b
    by (rule store_steps_trans [OF _ recordHold_steps]) auto
  with Withheld show ?thesis by (auto simp: try_candidate_def Let_def split: option.splits)
next
  case (Try t)
  let ?op = "TryClaim (envFault e CClaim (candRunID cand)) (\<lambda>_ _. Inr []) (candRunID cand) (envClock e CClaim (candRunID cand))
    (tierBudget (tryTier t)) (tryFacts t) (tryReservation t)"
  from Try have "PlatformCap (factLimits (tryFacts t)) = poll_cap c"
    by (auto simp: prepare_claim_def Let_def poll_cap_def split: if_splits sum.splits)
  then have claim: "store_steps cap s (snd (on_db ?op s))"
    using assms by (intro store_steps_on_db step.try_claim) simp
  have more: "store_steps cap s' (recordHold e cand b budget (defer_run e cand b s'))" for s' b budget
    by (rule store_steps_trans [OF _ recordHold_steps]) auto
  have noticed_steps: "store_steps cap s' s''" if "noticeDeferral e r cfg model res b link detail history s' = (x, s'')"
    for s' s'' r cfg model res b link detail history x
    using noticeDeferral_steps [of cap s' e r cfg model res b link detail history] that by simp
  show ?thesis
  proof (cases "on_db ?op s")
    case (Pair r s')
    with claim have c: "store_steps cap s s'" by simp
    show ?thesis
      using Try Pair c store_steps_trans [OF c more]
      by (auto simp: try_candidate_def Let_def split: sum.splits prod.splits bool.splits if_splits
          intro: store_steps_trans [OF c] store_steps_trans [OF _ noticed_steps])
  qed
qed

lemma claim_walk_steps:
  assumes "poll_cap c \<le> cap"
  shows "store_steps cap s (snd (claim_walk c e w cands noticed s))"
proof (induction cands arbitrary: noticed s)
  case (Cons cand cands)
  obtain r noticed' s' where eq: "try_candidate c e w cand noticed s = (r, noticed', s')" by (rule prod_cases3)
  have "store_steps cap s s'" using try_candidate_steps [OF assms, of s e w cand noticed] by (simp add: eq)
  then show ?case using store_steps_trans [OF _ Cons.IH [of s' noticed']]
    by (auto simp: eq split: prod.splits sum.splits)
qed simp

lemma admitClaims_steps:
  "poll_cap c \<le> cap \<Longrightarrow> store_steps cap s (snd (admitClaims c e issues prs s))"
  by (auto simp: admitClaims_def Let_def intro: claim_walk_steps split: sum.splits)

lemma startTicket_steps: "store_steps cap s (startTicket e cl s)"
  by (auto simp: startTicket_def Let_def store_steps_def split: sum.splits intro: r_into_rtranclp step.record_ticket_state)

lemma recordVerdict_steps: "store_steps cap s (recordVerdict e cl s)"
  by (auto simp: recordVerdict_def intro: store_steps_on_db step.record_verdict)

lemma dispatch_steps: "store_steps cap s (snd (dispatch e cl s))"
proof -
  have "store_steps cap s (call_outside x (recordVerdict e cl s))" for x
    by (rule store_steps_db [OF _ recordVerdict_steps]) simp
  then show ?thesis
    unfolding dispatch_def Let_def
    by (auto split: option.splits prod.splits sum.splits intro: store_steps_trans [OF _ on_db_step] step.release)
qed

lemma start_run_steps: "store_steps cap s (snd (start_run e cl s))"
proof -
  have "store_steps cap s (snd (dispatch e cl (startTicket e cl s)))"
    by (rule store_steps_trans [OF startTicket_steps dispatch_steps])
  then show ?thesis
    by (auto simp: start_run_def store_steps_def split: prod.splits list.splits)
qed

end
