(* ===== verification/Poll_Settle.thy ===== *)
theory Poll_Settle
  imports Poll_State
begin

text \<open>
  The phases of a poll that settle what earlier polls started: the requeue of runs stopped on a known
  transient fault (\<open>internal/dispatcher/transient.go\<close>), the sweep of abandoned claims (\<open>sweep.go\<close>)
  and the decisions runs are parked on (\<open>decision.go\<close>, with the listings of
  \<open>internal/store/decision.go\<close>).
\<close>

section \<open>Shared pieces\<close>

text \<open>A failed write of Linear is logged, and withholds nothing.\<close>

definition restoreTicket :: "string \<Rightarrow> string \<Rightarrow> poll_state \<Rightarrow> poll_state" where
  "restoreTicket ticketID stateID s = (if stateID = [] then s else call_outside (RestoreTicket ticketID stateID) s)"

text \<open>A write whose error alone matters.\<close>

definition write_db :: "(db \<Rightarrow> (store_err + 'a) \<times> db) \<Rightarrow> poll_state \<Rightarrow> poll_err list \<times> poll_state" where
  "write_db f s = (case on_db f s of (Inl err, s') \<Rightarrow> ([InStore err], s') | (Inr _, s') \<Rightarrow> ([], s'))"

section \<open>Transient stops\<close>

definition exhaustedClass :: string where "exhaustedClass = ''transient-exhausted:''"
definition exhaustedNoticeKey :: string where "exhaustedNoticeKey = ''transient-exhausted-''"

definition TransientStop_link :: "transient_stop \<Rightarrow> string" where
  "TransientStop_link t = (if tsRepo t = [] then [] else ''https://github.com/'' @ tsRepo t @ ''/actions'')"

definition ExhaustedNotice :: "transient_stop \<Rightarrow> notice" where
  "ExhaustedNotice t =
     \<lparr>noticeID = exhaustedNoticeKey @ tsRunID t @ ''-'' @ itoa (tsAttempts t),
      noticeClass = exhaustedClass @ tsRunID t @ (if tsTicket t \<noteq> tsRunID t then '' ticket '' @ tsTicket t else [])
        @ '' '' @ tsClass t @ '' after '' @ itoa (tsAttempts t)
        @ '' automatic requeues; requeue with: runner requeue -run-id '' @ tsRunID t,
      noticeDetail = [], noticeLink = TransientStop_link t\<rparr>"

definition requeue_stop :: "env \<Rightarrow> transient_stop \<Rightarrow> poll_state \<Rightarrow> poll_err list \<times> poll_state" where
  "requeue_stop e t s =
     (let r = tsRunID t in
      if \<not> Listed (tsClass t) then ([], s)
      else if tsAttempts t \<ge> DefaultTransientRequeues
      then write_db (Raise (envFault e CExhausted r) (ExhaustedNotice t) (envClock e CExhausted r)) s
      else (case on_db (RequeueTransient (envFault e CRequeue r) r (envClock e CRequeue r) (tsClass t) DefaultTransientRequeues) s of
          (Inl err, s') \<Rightarrow> ([InStore err], s')
        | (Inr res, s') \<Rightarrow> ([], restoreTicket (tsTicket t) (resTicketState res) s')))"

definition requeueStopped :: "env \<Rightarrow> poll_state \<Rightarrow> poll_err list \<times> poll_state" where
  "requeueStopped e s =
     (case TransientStops (envTransient e (pollDB s)) of
        Inl err \<Rightarrow> ([InStore err], s)
      | Inr stops \<Rightarrow> each (requeue_stop e) stops s)"

section \<open>The sweep\<close>

definition sweep_phase :: "env \<Rightarrow> poll_state \<Rightarrow> poll_err list \<times> poll_state" where
  "sweep_phase e s =
     (case on_db (sweepAbandoned (envSweepFaults e) (envClaimed e) (envClock e CSweep [])) s of
        ((taken, errs), s') \<Rightarrow>
          (map InStore errs, foldl (\<lambda>s a. restoreTicket (abTicket a) (abTicketState a) s) s' taken))"

section \<open>Decisions\<close>

record provisional_run =
  provRunID :: string
  provDecision :: decision
  provTaken :: string
  provIndex :: int
  provReply :: string
  provRepliedAt :: time

text \<open>The two listings, on the rows their queries return.\<close>

definition unposted_of :: "string \<times> doc \<Rightarrow> provisional_run option" where
  "unposted_of snap = (case snap of (runID, row) \<Rightarrow>
     let es = entries_of row decisionsField in
     (case firstUnpostedProvisional es of
        None \<Rightarrow> None
      | Some i \<Rightarrow> if str row outcomeField \<noteq> [] then None
          else Some \<lparr>provRunID = runID, provDecision = entryDecision (es ! i), provTaken = answer (es ! i),
                 provIndex = int i + 1, provReply = [], provRepliedAt = 0\<rparr>))"

definition ProvisionalUnposted :: "store_err + (string \<times> doc) list \<Rightarrow> store_err + provisional_run list" where
  "ProvisionalUnposted listed = and_then listed (\<lambda>snaps. Inr (List.map_filter unposted_of snaps))"

definition replied_of :: "string \<times> doc \<Rightarrow> provisional_run option" where
  "replied_of snap = (case snap of (runID, row) \<Rightarrow>
     let es = entries_of row decisionsField in
     (case repliedProvisional es of
        None \<Rightarrow> None
      | Some i \<Rightarrow> Some \<lparr>provRunID = runID, provDecision = entryDecision (es ! i), provTaken = answer (es ! i),
          provIndex = int i + 1, provReply = reply (es ! i), provRepliedAt = repliedAt (es ! i)\<rparr>))"

definition ProvisionalReplied :: "store_err + (string \<times> doc) list \<Rightarrow> store_err + provisional_run list" where
  "ProvisionalReplied listed = and_then listed (\<lambda>snaps. Inr (List.map_filter replied_of snaps))"

definition postDecision :: "env \<Rightarrow> waiting_run \<Rightarrow> time \<Rightarrow> poll_state \<Rightarrow> poll_err list \<times> poll_state" where
  "postDecision e w now s =
     (let r = waitRunID w in
      case envSession e r of
        Inl err \<Rightarrow> ([InStore err], s)
      | Inr session \<Rightarrow>
        if session = [] then ([], s)
        else
          let s1 = call_outside (Elicit session (waitDecision w)) s in
          if \<not> envElicits e session (waitDecision w) then ([], s1)
          else write_db (Posted (envFault e CPosted r) r session now) s1)"

definition waitingNoticeID :: "string \<Rightarrow> int \<Rightarrow> string" where
  "waitingNoticeID runID index = ''waiting-'' @ runID @ ''#'' @ itoa index"

definition stopWaiting :: "env \<Rightarrow> waiting_run \<Rightarrow> time \<Rightarrow> poll_state \<Rightarrow> poll_err list \<times> poll_state" where
  "stopWaiting e w now s =
     (let r = waitRunID w;
          n = \<lparr>noticeID = waitingNoticeID r (int (waitIndex w)), noticeClass = StopWaitingOnOwner,
               noticeDetail = [], noticeLink = waitRunURL w\<rparr> in
      case on_db (Raise (envFault e CWaitingNotice r) n now) s of
        (Inl err, s') \<Rightarrow> ([InStore err], s')
      | (Inr _, s') \<Rightarrow> write_db (StopWaiting (envFault e CStopWaiting r) r (waitDecision w) now) s')"

definition settle_waiting :: "config \<Rightarrow> env \<Rightarrow> time \<Rightarrow> waiting_run \<Rightarrow> poll_state \<Rightarrow> poll_err list \<times> poll_state" where
  "settle_waiting c e now w s =
     (case decide (envSame e) (cfgDecisionTimeout c) w now of
        AnswerWith choice \<Rightarrow> write_db (Answer (envFault e CAnswer (waitRunID w)) (waitRunID w) (optLabel choice) now) s
      | Ask \<Rightarrow> postDecision e w now s
      | StopUnanswered \<Rightarrow> stopWaiting e w now s
      | Leave \<Rightarrow> ([], s))"

definition postProvisional :: "env \<Rightarrow> time \<Rightarrow> provisional_run \<Rightarrow> poll_state \<Rightarrow> poll_err list \<times> poll_state" where
  "postProvisional e now p s =
     (let r = provRunID p in
      case envSession e r of
        Inl err \<Rightarrow> ([InStore err], s)
      | Inr session \<Rightarrow>
        if session = [] then ([], s)
        else
          let s1 = call_outside (ElicitProvisional session (provDecision p) (provTaken p)) s in
          if \<not> envElicitsProvisional e session (provDecision p) (provTaken p) then ([], s1)
          else write_db (PostedProvisional (envFault e CProvisional r) r session now) s1)"

definition decideProvisional :: "env \<Rightarrow> time \<Rightarrow> provisional_run \<Rightarrow> poll_state \<Rightarrow> poll_err list \<times> poll_state" where
  "decideProvisional e now p s =
     (let r = provRunID p; clear = write_db (ClearProvisionalReply (envFault e CClear r) r (provRepliedAt p)) in
      case Match (envSame e) (provDecision p) (provReply p) of
        None \<Rightarrow> clear s
      | Some choice \<Rightarrow>
        if optLabel choice = provTaken p
        then write_db (ConfirmProvisional (envFault e CConfirm r) r (provIndex p) (provRepliedAt p) now) s
        else (case on_db (Supersede (envFault e CSupersede r) r (provIndex p) (provRepliedAt p) (optLabel choice) now) s of
            (Inl (ErrRunNotEnded _), s') \<Rightarrow> ([], s')
          | (Inl (ErrReplyUnusable _), s') \<Rightarrow> clear s'
          | (Inl err, s') \<Rightarrow> ([InStore err], s')
          | (Inr _, s') \<Rightarrow> ([], s')))"

text \<open>A listing that failed is an error and lists nothing.\<close>

definition listed_or_error :: "store_err + 'a list \<Rightarrow> poll_err list \<times> 'a list" where
  "listed_or_error r = (case r of Inl err \<Rightarrow> ([InStore err], []) | Inr xs \<Rightarrow> ([], xs))"

definition postDecisions :: "config \<Rightarrow> env \<Rightarrow> poll_state \<Rightarrow> poll_err list \<times> poll_state" where
  "postDecisions c e s =
     (case Waiting (envWaiting e (pollDB s)) of
        Inl err \<Rightarrow> ([InStore err], s)
      | Inr waiting \<Rightarrow>
        let now = envClock e CDecide [] in
        case each (settle_waiting c e now) waiting s of (errs1, s1) \<Rightarrow>
        case listed_or_error (ProvisionalUnposted (envUnposted e (pollDB s1))) of (errs2, unposted) \<Rightarrow>
        case each (postProvisional e now) unposted s1 of (errs3, s2) \<Rightarrow>
        case listed_or_error (ProvisionalReplied (envReplied e (pollDB s2))) of (errs4, replied) \<Rightarrow>
        case each (decideProvisional e now) replied s2 of (errs5, s3) \<Rightarrow>
          (errs1 @ errs2 @ errs3 @ errs4 @ errs5, s3))"

section \<open>The phases are runs of the store's operations\<close>

lemma restoreTicket_db [simp]: "pollDB (restoreTicket t st s) = pollDB s"
  by (simp add: restoreTicket_def)

lemma restore_all_db: "pollDB (foldl (\<lambda>s a. restoreTicket (f a) (g a) s) s xs) = pollDB s"
  by (induction xs arbitrary: s) simp_all

lemma write_db_steps:
  "pollDB s0 = pollDB s \<Longrightarrow> step cap (pollDB s) (snd (f (pollDB s))) \<Longrightarrow> store_steps cap s0 (snd (write_db f s))"
  by (auto simp: write_db_def on_db_def store_steps_def intro!: r_into_rtranclp split: prod.splits sum.splits)

lemma each_result:
  assumes "each f xs s = (errs, s')" and "\<And>x s. store_steps cap s (snd (f x s))"
  shows "store_steps cap s s'"
  using each_steps [where f = f and xs = xs and s = s, OF assms(2)] assms(1) by simp

lemma requeue_stop_steps: "store_steps cap s (snd (requeue_stop e t s))"
proof (cases "on_db (RequeueTransient (envFault e CRequeue (tsRunID t)) (tsRunID t) (envClock e CRequeue (tsRunID t))
    (tsClass t) DefaultTransientRequeues) s")
  case (Pair r s')
  have "store_steps cap s s'" by (rule on_db_step [OF Pair]) (simp_all add: step.requeue_transient)
  with Pair show ?thesis
    by (auto simp: requeue_stop_def Let_def intro!: write_db_steps step.raise elim: store_steps_db [rotated] split: sum.splits)
qed

lemma requeueStopped_steps: "store_steps cap s (snd (requeueStopped e s))"
  by (auto simp: requeueStopped_def intro!: each_steps requeue_stop_steps split: sum.splits)

lemma sweep_phase_steps: "store_steps cap s (snd (sweep_phase e s))"
proof -
  obtain taken errs s' where run: "on_db (sweepAbandoned (envSweepFaults e) (envClaimed e) (envClock e CSweep [])) s = ((taken, errs), s')"
    by (metis prod.exhaust)
  then have "store_steps cap s s'"
    by (rule on_db_step) (simp_all add: sweepAbandoned_def step.sweep)
  with run show ?thesis by (auto simp: sweep_phase_def restore_all_db elim: store_steps_db [rotated])
qed

lemma postDecision_steps: "store_steps cap s (snd (postDecision e w now s))"
  by (auto simp: postDecision_def Let_def intro!: write_db_steps step.posted split: sum.splits)

lemma stopWaiting_steps: "store_steps cap s (snd (stopWaiting e w now s))"
proof -
  let ?n = "\<lparr>noticeID = waitingNoticeID (waitRunID w) (int (waitIndex w)), noticeClass = StopWaitingOnOwner,
               noticeDetail = [], noticeLink = waitRunURL w\<rparr>"
  obtain r s' where run: "on_db (Raise (envFault e CWaitingNotice (waitRunID w)) ?n now) s = (r, s')" by (metis prod.exhaust)
  then have one: "store_steps cap s s'" by (rule on_db_step) (simp_all add: step.raise)
  have "store_steps cap s' (snd (write_db (StopWaiting (envFault e CStopWaiting (waitRunID w)) (waitRunID w) (waitDecision w) now) s'))"
    by (intro write_db_steps step.stop_waiting refl)
  with one run show ?thesis by (auto simp: stopWaiting_def Let_def intro: store_steps_trans split: sum.splits)
qed

lemma settle_waiting_steps: "store_steps cap s (snd (settle_waiting c e now w s))"
  by (auto simp: settle_waiting_def intro!: write_db_steps step.answer postDecision_steps stopWaiting_steps split: decision_step.splits)

lemma postProvisional_steps: "store_steps cap s (snd (postProvisional e now p s))"
  by (auto simp: postProvisional_def Let_def intro!: write_db_steps step.posted_provisional split: sum.splits)

lemma decideProvisional_steps: "store_steps cap s (snd (decideProvisional e now p s))"
proof (cases "Match (envSame e) (provDecision p) (provReply p)")
  case None
  then show ?thesis by (auto simp: decideProvisional_def Let_def intro!: write_db_steps step.clear_provisional)
next
  case (Some choice)
  obtain r s' where run: "on_db (Supersede (envFault e CSupersede (provRunID p)) (provRunID p) (provIndex p) (provRepliedAt p) (optLabel choice) now) s
      = (r, s')" by (metis prod.exhaust)
  then have one: "store_steps cap s s'" by (rule on_db_step) (simp_all add: step.supersede)
  have "store_steps cap s' (snd (write_db (ClearProvisionalReply (envFault e CClear (provRunID p)) (provRunID p) (provRepliedAt p)) s'))"
    by (intro write_db_steps step.clear_provisional refl)
  then have both: "store_steps cap s (snd (write_db (ClearProvisionalReply (envFault e CClear (provRunID p)) (provRunID p)
      (provRepliedAt p)) s'))" using one by (rule store_steps_trans [rotated])
  have confirmed: "store_steps cap s (snd (write_db (ConfirmProvisional (envFault e CConfirm (provRunID p)) (provRunID p)
      (provIndex p) (provRepliedAt p) now) s))"
    by (intro write_db_steps step.confirm_provisional refl)
  show ?thesis
    using one both confirmed by (simp add: decideProvisional_def Let_def Some run split: sum.split store_err.split)
qed

lemma postDecisions_steps: "store_steps cap s (snd (postDecisions c e s))"
proof (cases "Waiting (envWaiting e (pollDB s))")
  case (Inr waiting)
  let ?now = "envClock e CDecide []"
  obtain errs1 s1 where 1: "each (settle_waiting c e ?now) waiting s = (errs1, s1)" by (metis prod.exhaust)
  obtain errs2 unposted where 2: "listed_or_error (ProvisionalUnposted (envUnposted e (pollDB s1))) = (errs2, unposted)"
    by (metis prod.exhaust)
  obtain errs3 s2 where 3: "each (postProvisional e ?now) unposted s1 = (errs3, s2)" by (metis prod.exhaust)
  obtain errs4 replied where 4: "listed_or_error (ProvisionalReplied (envReplied e (pollDB s2))) = (errs4, replied)"
    by (metis prod.exhaust)
  obtain errs5 s3 where 5: "each (decideProvisional e ?now) replied s2 = (errs5, s3)" by (metis prod.exhaust)
  have "store_steps cap s s1" by (rule each_result [OF 1 settle_waiting_steps])
  also have "store_steps cap s1 s2" by (rule each_result [OF 3 postProvisional_steps])
  also have "store_steps cap s2 s3" by (rule each_result [OF 5 decideProvisional_steps])
  finally show ?thesis using Inr 1 2 3 4 5 by (simp add: postDecisions_def Let_def)
qed (simp add: postDecisions_def)

end
