(* ===== verification/Poll_Notices.thy ===== *)
theory Poll_Notices
  imports Poll_Claim Poll_Settle
begin

text \<open>
  The last phases of a poll: a notice for each run that has sat too long
  (\<open>internal/dispatcher/stuck.go\<close>), and the posting of the notices waiting (\<open>notice.go\<close>), whose
  effect on the store is the one \<open>Health\<close> describes.
\<close>

section \<open>Stuck runs\<close>

definition DefaultStuckRunAfter :: duration where "DefaultStuckRunAfter = 4 * hour"
definition DefaultStuckLookback :: duration where "DefaultStuckLookback = 7 * 24 * hour"

definition stuckClass :: string where "stuckClass = ''stuck:''"
definition stuckNoticeKey :: string where "stuckNoticeKey = ''stuck-''"

text \<open>Each open blocker, in identifier order, with its state type when there is one.\<close>

definition blocker_part :: "issue \<Rightarrow> string \<Rightarrow> string" where
  "blocker_part issue i =
     i @ (case map_of (isBlockerStates issue) i of None \<Rightarrow> [] | Some state \<Rightarrow> if state = [] then [] else '' ('' @ state @ '')'')"

definition blockerList :: "issue \<Rightarrow> string" where
  "blockerList issue = join '', '' (map (blocker_part issue) (sort (isBlockedByOpen issue)))"

definition stuckDetail :: "stuck \<Rightarrow> issue option \<Rightarrow> string" where
  "stuckDetail run issue =
     (let state = stuckState run; reason = stuckReason run;
          held = (case issue of None \<Rightarrow> [] | Some i \<Rightarrow> isBlockedByOpen i) in
      if state = StuckQueued \<or> state = StuckPlanned then
        (if held \<noteq> [] then state @ '', blocked by '' @ blockerList (the issue) @ ''; clears when they finish''
         else if reason = [] then state @ '', not yet claimed''
         else state @ '', held by '' @ reason @ ''; clears when that condition lifts'')
      else state @ (if reason \<noteq> [] then '' ('' @ reason @ '')'' else [])
             @ ''; requeue with: runner requeue -run-id '' @ stuckRunID run)"

definition stuck_notice :: "issue list \<Rightarrow> stuck \<Rightarrow> notice" where
  "stuck_notice issues run =
     (let issue = find (\<lambda>i. isID i = stuckTicket run) (rev issues) in
      \<lparr>noticeID = stuckNoticeKey @ PathEscape (stuckRunID run @ ''-'' @ stuckState run @ ''-'' @ stuckReason run),
       noticeClass = stuckClass @ stuckRunID run, noticeDetail = stuckDetail run issue,
       noticeLink = (case issue of None \<Rightarrow> [] | Some i \<Rightarrow> isURL i)\<rparr>)"

definition notice_stuck_run :: "env \<Rightarrow> issue list \<Rightarrow> time \<Rightarrow> stuck \<Rightarrow> poll_state \<Rightarrow> poll_err list \<times> poll_state" where
  "notice_stuck_run e issues now run s =
     write_db (Raise (envFault e CStuckNotice (stuckRunID run)) (stuck_notice issues run) now) s"

definition noticeStuck :: "env \<Rightarrow> issue list \<Rightarrow> poll_state \<Rightarrow> poll_err list \<times> poll_state" where
  "noticeStuck e issues s =
     (let now = envClock e CStuck []; d = pollDB s in
      case StuckRuns (envStuckWaiting e d) (envStuckFinished e d) (envStuckEnded e d)
             (now - DefaultStuckRunAfter) (now - DefaultStuckLookback) of
        Inl err \<Rightarrow> ([InStore err], s)
      | Inr stuck_runs \<Rightarrow> each (notice_stuck_run e issues now) stuck_runs s)"

section \<open>Posting\<close>

definition post_notice :: "env \<Rightarrow> notice \<Rightarrow> poll_state \<Rightarrow> poll_err list \<times> poll_state" where
  "post_notice e n s =
     (let i = noticeID n; s1 = call_outside (PostNotice n) s in
      case envPostError e n of
        Some err \<Rightarrow> (case write_db (Unclaim (envFault e CNoticePosted i) i) s1 of (errs, s2) \<Rightarrow> (NotPosted err # errs, s2))
      | None \<Rightarrow> write_db (NoticePosted (envFault e CNoticePosted i) i (envClock e CNoticePosted i)) s1)"

definition unclaim_notice :: "env \<Rightarrow> notice \<Rightarrow> poll_state \<Rightarrow> poll_err list \<times> poll_state" where
  "unclaim_notice e n s = write_db (Unclaim (envFault e CNoticePosted (noticeID n)) (noticeID n)) s"

definition notices_phase :: "env \<Rightarrow> poll_state \<Rightarrow> poll_err list \<times> poll_state" where
  "notices_phase e s =
     (let now = envClock e CNoticeClaim [] in
      case on_db (Claim (envFault e CNoticeClaim []) (envPendingNotices e) (envStaleNotices e) now (now - noticeLease)) s of
        (Inl err, s') \<Rightarrow> ([InStore err], s')
      | (Inr ns, s') \<Rightarrow>
        if ns = [] then ([], s')
        else case envPosterError e of
            Some err \<Rightarrow> (case each (unclaim_notice e) ns s' of (errs, s'') \<Rightarrow> (NotPosted err # errs, s''))
          | None \<Rightarrow> each (post_notice e) ns s')"

section \<open>The phases are runs of the store's operations\<close>

lemma noticeStuck_steps: "store_steps cap s (snd (noticeStuck e issues s))"
  by (auto simp: noticeStuck_def Let_def notice_stuck_run_def intro!: each_steps write_db_steps step.raise split: sum.splits)

lemma unclaim_notice_steps: "store_steps cap s (snd (unclaim_notice e n s))"
  unfolding unclaim_notice_def by (intro write_db_steps step.unclaim refl)

lemma post_notice_steps: "store_steps cap s (snd (post_notice e n s))"
proof (cases "envPostError e n")
  case None
  then show ?thesis by (auto simp: post_notice_def Let_def intro!: write_db_steps step.notice_posted)
next
  case (Some err)
  have "store_steps cap s (snd (write_db (Unclaim (envFault e CNoticePosted (noticeID n)) (noticeID n)) (call_outside (PostNotice n) s)))"
    by (intro write_db_steps step.unclaim) simp
  with Some show ?thesis by (auto simp: post_notice_def Let_def split: prod.splits)
qed

lemma notices_phase_steps: "store_steps cap s (snd (notices_phase e s))"
proof -
  let ?now = "envClock e CNoticeClaim []"
  obtain r s' where run: "on_db (Claim (envFault e CNoticeClaim []) (envPendingNotices e) (envStaleNotices e) ?now (?now - noticeLease)) s = (r, s')"
    by (metis prod.exhaust)
  then have one: "store_steps cap s s'" by (rule on_db_step) (simp_all add: step.claim_notices)
  have post: "store_steps cap s (snd (each (post_notice e) ns s'))" for ns
    by (rule store_steps_trans [OF one each_steps]) (rule post_notice_steps)
  have undone: "store_steps cap s s''" if "each (unclaim_notice e) ns s' = (errs, s'')" for ns errs s''
    by (rule store_steps_trans [OF one each_result [OF that unclaim_notice_steps]])
  show ?thesis using one run post undone by (auto simp: notices_phase_def Let_def split: sum.splits option.splits prod.splits)
qed

section \<open>What the phase does to the store is what posting does\<close>

lemma write_db_pollDB: "pollDB (snd (write_db f s)) = snd (f (pollDB s))"
  by (auto simp: write_db_def on_db_def split: prod.splits sum.splits)

lemma write_db_result: "write_db f s = (errs, s') \<Longrightarrow> pollDB s' = snd (f (pollDB s))"
  using write_db_pollDB [of f s] by simp

lemma post_each_db:
  "pollDB (snd (each (post_notice e) ns s)) =
     snd (post_each (\<lambda>n. envPostError e n = None) (envFault e CNoticePosted) (envClock e CNoticePosted) ns (pollDB s))"
proof (induction ns arbitrary: s)
  case (Cons n ns)
  obtain errs s1 where one: "post_notice e n s = (errs, s1)" by (metis prod.exhaust)
  have "pollDB s1 = (if envPostError e n = None
      then snd (NoticePosted (envFault e CNoticePosted (noticeID n)) (noticeID n) (envClock e CNoticePosted (noticeID n)) (pollDB s))
      else snd (Unclaim (envFault e CNoticePosted (noticeID n)) (noticeID n) (pollDB s)))"
    using one by (auto simp: post_notice_def Let_def dest!: write_db_result split: option.splits prod.splits)
  with one Cons.IH [of s1] show ?case by (auto split: prod.splits)
qed simp

lemma unclaim_each_db:
  "pollDB (snd (each (unclaim_notice e) ns s)) =
     foldl (\<lambda>d n. snd (Unclaim (envFault e CNoticePosted (noticeID n)) (noticeID n) d)) (pollDB s) ns"
proof (induction ns arbitrary: s)
  case (Cons n ns)
  obtain errs s1 where one: "unclaim_notice e n s = (errs, s1)" by (metis prod.exhaust)
  then have "pollDB s1 = snd (Unclaim (envFault e CNoticePosted (noticeID n)) (noticeID n) (pollDB s))"
    unfolding unclaim_notice_def by (rule write_db_result)
  with one Cons.IH [of s1] show ?case by (auto split: prod.splits)
qed simp

lemma notices_phase_db:
  "pollDB (snd (notices_phase e s)) =
     snd (postNotices (envFault e CNoticeClaim []) (envPendingNotices e) (envStaleNotices e) (envPosterError e = None)
       (\<lambda>n. envPostError e n = None) (envFault e CNoticePosted) (envClock e CNoticeClaim []) (envClock e CNoticePosted) (pollDB s))"
proof -
  let ?now = "envClock e CNoticeClaim []"
  obtain r d where run: "Claim (envFault e CNoticeClaim []) (envPendingNotices e) (envStaleNotices e) ?now (?now - noticeLease) (pollDB s) = (r, d)"
    by (metis prod.exhaust)
  show ?thesis
    using post_each_db [of e _ "s\<lparr>pollDB := d\<rparr>"] unclaim_each_db [of e _ "s\<lparr>pollDB := d\<rparr>"]
    by (simp add: notices_phase_def postNotices_def Let_def on_db_def run case_prod_beta split: sum.split option.split)
qed

end
