(* ===== verification/Poll_Measure.thy ===== *)
theory Poll_Measure
  imports Poll_State
begin

text \<open>
  The measurement phase of a poll (\<open>internal/dispatcher/measure.go\<close>): each merged pull request of a
  run is measured once onto its row, and a merged revert flags the row of the one it takes back.
\<close>

section \<open>Reverts\<close>

definition BranchPrefix :: string where "BranchPrefix = ''wingman/''"

definition run_branch :: "string \<Rightarrow> bool" where "run_branch head \<longleftrightarrow> prefix BranchPrefix head"

definition revertBody :: re where
  "revertBody = cats [LineStart, lit ''Reverts '',
     Group 1 (cats [plus (none_of (CHR ''/'' # space_class)), lit ''/'', plus (none_of (CHR ''#'' # space_class))]),
     lit ''#'', Group 2 (plus (Byte is_digit)), opt (one_of [CHR 0x0D]), LineEnd]"

definition revertTitle :: re where
  "revertTitle = cats [TextStart, lit ''Revert '', lit [CHR 0x22], Group 1 (Star (none_of [CHR 0x0A])), lit [CHR 0x22], TextEnd]"

definition revertedPR :: "closed_pr \<Rightarrow> string \<Rightarrow> (string \<times> int) list \<Rightarrow> int" where
  "revertedPR pr repo byTitle =
     (if is_zero (cprMergedAt pr) then 0
      else case FindSubmatch revertBody (cprBody pr) of
        Some m \<Rightarrow>
          (case atoi (group m 2) of None \<Rightarrow> 0 | Some n \<Rightarrow> if EqualFold (group m 1) repo then n else 0)
      | None \<Rightarrow>
          (case FindSubmatch revertTitle (cprTitle pr) of
             None \<Rightarrow> 0
           | Some m \<Rightarrow> (case map_of byTitle (group m 1) of None \<Rightarrow> 0 | Some n \<Rightarrow> n)))"

section \<open>Measuring a merge\<close>

definition merged_run_pr :: "closed_pr \<Rightarrow> bool" where
  "merged_run_pr pr \<longleftrightarrow> \<not> (is_zero (cprMergedAt pr) \<or> \<not> run_branch (cprHead pr))"

definition reportUnfoundPR :: "env \<Rightarrow> string \<Rightarrow> int \<Rightarrow> poll_state \<Rightarrow> poll_err list \<times> poll_state" where
  "reportUnfoundPR e repo number s =
     (let key = unfoundDocID repo number in
      case on_db (MarkUnfound (envFault e CUnfound key) repo number (envClock e CUnfound key)) s of
        (Inl err, s') \<Rightarrow> ([InStore err], s')
      | (Inr _, s') \<Rightarrow> ([], s'))"

text \<open>The errors of one pull request, and whether it was measured now.\<close>

definition measureMerged :: "env \<Rightarrow> string \<Rightarrow> closed_pr \<Rightarrow> poll_state \<Rightarrow> (poll_err list \<times> bool) \<times> poll_state" where
  "measureMerged e repo pr s =
     (case RunForMerged (envRunReads e) repo pr (pollDB s) of
        Inl err \<Rightarrow> (([InStore err], False), s)
      | Inr None \<Rightarrow> (case reportUnfoundPR e repo (cprNumber pr) s of (errs, s') \<Rightarrow> ((errs, False), s'))
      | Inr (Some row) \<Rightarrow>
        if foundMeasured row = cprMergedAt pr then (([], False), s)
        else case envCommits e repo (cprNumber pr) of
            Inl err \<Rightarrow> (([InGithub err], False), s)
          | Inr commits \<Rightarrow>
            (case on_db (RecordRewrite (envFault e CRecordRewrite (foundRunID row)) (foundRunID row)
                \<lparr>msLines = RewriteOf commits, msMergedAt = cprMergedAt pr, msPR = cprNumber pr, msTitle = cprTitle pr\<rparr>) s of
               (Inl err, s') \<Rightarrow> (([InStore err], False), s')
             | (Inr _, s') \<Rightarrow> (([], True), s')))"

text \<open>\<open>flagReverted\<close>: the pull request named must have merged before the revert and be a run's own.\<close>

definition takes_back :: "closed_pr \<Rightarrow> closed_pr \<Rightarrow> int \<Rightarrow> bool" where
  "takes_back revert original reverted \<longleftrightarrow>
     \<not> (is_zero (cprMergedAt original) \<or> \<not> cprMergedAt original < cprMergedAt revert
        \<or> (cprNumber original \<noteq> 0 \<and> cprNumber original \<noteq> reverted) \<or> \<not> run_branch (cprHead original))"

definition flagReverted ::
  "env \<Rightarrow> string \<Rightarrow> (int \<times> closed_pr) list \<Rightarrow> closed_pr \<Rightarrow> int \<Rightarrow> poll_state \<Rightarrow> poll_err list \<times> poll_state" where
  "flagReverted e repo byNumber revert reverted s =
     (case (case map_of byNumber reverted of Some pr \<Rightarrow> Inr pr | None \<Rightarrow> envPull e repo reverted) of
        Inl err \<Rightarrow> ([InGithub err], s)
      | Inr original \<Rightarrow>
        if \<not> takes_back revert original reverted then ([], s)
        else case RunForMerged (envRunReads e) repo original (pollDB s) of
            Inl err \<Rightarrow> ([InStore err], s)
          | Inr None \<Rightarrow> reportUnfoundPR e repo reverted s
          | Inr (Some row) \<Rightarrow>
            (case on_db (FlagReverted (envFault e CFlagReverted (foundRunID row)) (foundRunID row)) s of
               (Inl err, s') \<Rightarrow> ([InStore err], s')
             | (Inr _, s') \<Rightarrow> ([], s')))"

definition closedPRsPerPage :: nat where "closedPRsPerPage = 100"

text \<open>
  The measurements of a listing of \<open>n\<close>, from index \<open>i\<close>: the errors, and whether a merge was first
  measured on the listing's last page.
\<close>

fun measure_prs ::
  "env \<Rightarrow> string \<Rightarrow> nat \<Rightarrow> nat \<Rightarrow> closed_pr list \<Rightarrow> poll_state \<Rightarrow> (poll_err list \<times> bool) \<times> poll_state" where
  "measure_prs e repo n i [] s = (([], False), s)"
| "measure_prs e repo n i (pr # prs) s =
     (if \<not> merged_run_pr pr then measure_prs e repo n (Suc i) prs s
      else case measureMerged e repo pr s of
        ((errs, fresh), s') \<Rightarrow>
          (case measure_prs e repo n (Suc i) prs s' of
             ((rest, tail), s'') \<Rightarrow> ((errs @ rest, tail \<or> (fresh \<and> i + closedPRsPerPage \<ge> n)), s'')))"

definition by_number :: "closed_pr list \<Rightarrow> (int \<times> closed_pr) list" where
  "by_number prs = rev (map (\<lambda>pr. (cprNumber pr, pr)) prs)"

definition by_title :: "closed_pr list \<Rightarrow> (string \<times> int) list" where
  "by_title prs = rev (map (\<lambda>pr. (cprTitle pr, cprNumber pr)) (filter merged_run_pr prs))"

definition flag_revert ::
  "env \<Rightarrow> string \<Rightarrow> closed_pr list \<Rightarrow> closed_pr \<Rightarrow> poll_state \<Rightarrow> poll_err list \<times> poll_state" where
  "flag_revert e repo prs pr s =
     (let reverted = revertedPR pr repo (by_title prs) in
      if reverted > 0 then flagReverted e repo (by_number prs) pr reverted s else ([], s))"

definition measureRepo :: "env \<Rightarrow> string \<Rightarrow> closed_pr list \<Rightarrow> bool \<Rightarrow> poll_state \<Rightarrow> poll_err list \<times> poll_state" where
  "measureRepo e repo prs truncated s =
     (case measure_prs e repo (length prs) 0 prs s of
        ((errs, tail), s') \<Rightarrow>
          (case each (flag_revert e repo prs) prs s' of
             (errs', s'') \<Rightarrow> (errs @ (if truncated \<and> tail then [Truncated repo] else []) @ errs', s'')))"

definition measure_listed :: "env \<Rightarrow> string \<Rightarrow> poll_state \<Rightarrow> poll_err list \<times> poll_state" where
  "measure_listed e repo s =
     (case envClosed e repo of Inl _ \<Rightarrow> ([], s) | Inr (prs, truncated) \<Rightarrow> measureRepo e repo prs truncated s)"

text \<open>A repository that could not be listed is passed over, unless none could.\<close>

definition listing_errors :: "env \<Rightarrow> string list \<Rightarrow> poll_err list" where
  "listing_errors e repos = concat (map (\<lambda>repo. case envClosed e repo of Inl err \<Rightarrow> [InGithub err] | Inr _ \<Rightarrow> []) repos)"

definition measureRewrites :: "config \<Rightarrow> env \<Rightarrow> poll_state \<Rightarrow> poll_err list \<times> poll_state" where
  "measureRewrites c e s =
     (case each (measure_listed e) (cfgRepos c) s of
        (errs, s') \<Rightarrow>
          let failures = listing_errors e (cfgRepos c) in
          (errs @ (if length failures = length (cfgRepos c) then failures else []), s'))"

section \<open>The phase is a run of the store's operations\<close>

lemma reportUnfoundPR_steps: "store_steps cap s (snd (reportUnfoundPR e repo number s))"
  unfolding reportUnfoundPR_def Let_def by (auto split: prod.splits sum.splits intro: on_db_step step.mark_unfound)

lemma found_row_present:
  "answers_rows reads \<Longrightarrow> RunForMerged reads repo pr d = Inr (Some row) \<Longrightarrow> runs d (foundRunID row) \<noteq> None"
  by (auto dest: RunForMerged_found)

lemma measureMerged_steps:
  assumes "answers_rows (envRunReads e)"
  shows "store_steps cap s (snd (measureMerged e repo pr s))"
  unfolding measureMerged_def
  by (auto split: sum.splits option.splits prod.splits if_splits
      elim!: steps_result [OF _ reportUnfoundPR_steps] on_db_step intro!: step.record_rewrite
      dest: found_row_present [OF assms])

lemma flagReverted_steps:
  assumes "answers_rows (envRunReads e)"
  shows "store_steps cap s (snd (flagReverted e repo byNumber revert reverted s))"
  unfolding flagReverted_def
  by (auto split: sum.splits option.splits prod.splits if_splits
      intro: reportUnfoundPR_steps elim!: on_db_step intro!: step.flag_reverted dest: found_row_present [OF assms])

lemma measure_prs_steps:
  assumes "answers_rows (envRunReads e)"
  shows "store_steps cap s (snd (measure_prs e repo n i prs s))"
proof (induction prs arbitrary: i s)
  case (Cons pr prs)
  show ?case
  proof (cases "measureMerged e repo pr s")
    case (Pair r s')
    then have "store_steps cap s s'" using measureMerged_steps [OF assms, of cap s repo pr] by simp
    from store_steps_trans [OF this Cons.IH [of s' "Suc i"]] Cons.IH [of s "Suc i"] show ?thesis
      by (auto simp: Pair split: prod.splits)
  qed
qed simp

lemma measureRepo_steps:
  assumes "answers_rows (envRunReads e)"
  shows "store_steps cap s (snd (measureRepo e repo prs truncated s))"
proof -
  have "store_steps cap s (snd (flag_revert e repo prs pr s))" for pr s
    using flagReverted_steps [OF assms] by (simp add: flag_revert_def Let_def)
  from each_steps [where f = "flag_revert e repo prs", OF this]
  show ?thesis
    unfolding measureRepo_def
    by (auto split: prod.splits dest!: steps_result [OF _ measure_prs_steps [OF assms, where cap = cap]]
        elim!: steps_then [where f = "each (flag_revert e repo prs) prs"])
qed

lemma measureRewrites_steps:
  assumes "answers_rows (envRunReads e)"
  shows "store_steps cap s (snd (measureRewrites c e s))"
proof -
  have "store_steps cap s (snd (measure_listed e repo s))" for repo s
    using measureRepo_steps [OF assms] by (auto simp: measure_listed_def split: sum.splits)
  from each_steps [where f = "measure_listed e", OF this] show ?thesis
    unfolding measureRewrites_def Let_def by (auto split: prod.splits intro: steps_result)
qed

end
