(* ===== verification/Poll_Projects.thy ===== *)
theory Poll_Projects
  imports Poll_State
begin

text \<open>
  The project phase of a poll (\<open>pollProjects\<close> of \<open>internal/dispatcher/projects.go\<close> and
  \<open>project_names.go\<close>): one read of Linear for every listed project, a snapshot of each, the stopped
  runs whose tickets were closed, and the pending starts. No failure here fails the poll.
\<close>

definition read_ticket_runs :: "env \<Rightarrow> db \<Rightarrow> string list \<Rightarrow> store_err + (string \<times> ticket_run) list" where
  "read_ticket_runs e d ids = (case envFault e CTicketRuns [] of Some err \<Rightarrow> Inl err | None \<Rightarrow> Inr (TicketRuns ids d))"

definition closed_tickets :: "issue list \<Rightarrow> string list" where
  "closed_tickets issues =
     map isID (filter (\<lambda>i. isStateType i = stateTypeCompleted \<or> isStateType i = stateTypeCanceled) issues)"

definition recordClosed :: "env \<Rightarrow> issue list \<Rightarrow> time \<Rightarrow> poll_state \<Rightarrow> poll_state" where
  "recordClosed e issues now s =
     (if \<not> recordsClosed e \<or> closed_tickets issues = [] then s
      else snd (on_db (RecordTicketsClosed (envClosedFaults e) (envMoved e) (envInboxWindow e) (closed_tickets issues) now) s))"

text \<open>Delegating until one fails, and whether none did.\<close>

fun delegate_all :: "env \<Rightarrow> issue list \<Rightarrow> poll_state \<Rightarrow> bool \<times> poll_state" where
  "delegate_all e [] s = (True, s)"
| "delegate_all e (i # is) s =
     (let s' = call_outside (DelegateIssue (isUUID i)) s in
      if envDelegates e (isUUID i) then delegate_all e is s' else (False, s'))"

definition startPhase :: "env \<Rightarrow> phase_project \<Rightarrow> phase_view \<Rightarrow> bool option \<Rightarrow> poll_state \<Rightarrow> poll_state" where
  "startPhase e p v reach s =
     (let refused = start_refusal p v reach in
      case (if refused = [] then delegate_all e (viewEligible v) s else (True, s)) of
        (False, s') \<Rightarrow> s'
      | (True, s') \<Rightarrow> call_outside (ResolveStart (phRepository p) (phStartRequestedAt p) refused) s')"

definition reach_of :: "repo_reach list \<Rightarrow> string \<Rightarrow> bool option" where
  "reach_of reaches repo =
     map_option reachable_now (find (\<lambda>r. to_lower (reachRepo r) = to_lower repo) (rev reaches))"

definition start_pending :: "env \<Rightarrow> repo_reach list \<Rightarrow> (phase_project \<times> phase_view) list \<Rightarrow> poll_state \<Rightarrow> poll_state" where
  "start_pending e reaches pairs s =
     foldl (\<lambda>s (p, v). if is_zero (phStartRequestedAt p) then s else startPhase e p v (reach_of reaches (phRepository p)) s) s pairs"

definition pollProjects :: "env \<Rightarrow> repo_reach list \<Rightarrow> poll_state \<Rightarrow> poll_state" where
  "pollProjects e reaches s =
     (if \<not> envPhasesReady e then s
      else case envListed e of
        Inl _ \<Rightarrow> s
      | Inr projects \<Rightarrow>
        if projects = [] then s
        else
          let now = envClock e CProjects []; read = envProjectIssues e (linearProjects projects);
              s1 = (case read of Inl _ \<Rightarrow> s | Inr issues \<Rightarrow> recordClosed e issues now s);
              views = map (\<lambda>p. case read of
                  Inl _ \<Rightarrow> \<lparr>viewSnapshot = unreadableSnapshot (phRepository p) StartRefusedUnreadable now, viewEligible = []\<rparr>
                | Inr issues \<Rightarrow> projectView (read_ticket_runs e (pollDB s1)) p issues now) projects;
              s2 = call_outside (RecordSnapshots (map viewSnapshot views)) s1
          in start_pending e reaches (zip projects views) s2)"

definition recordProjectNames :: "env \<Rightarrow> poll_state \<Rightarrow> poll_state" where
  "recordProjectNames e s =
     (case envProjectNames e of Some (Inr names) \<Rightarrow> call_outside (RecordProjectNames names) s | _ \<Rightarrow> s)"

section \<open>What the phase does to the store\<close>

lemma delegate_all_db [simp]: "pollDB (snd (delegate_all e is s)) = pollDB s"
  by (induction e "is" s rule: delegate_all.induct) (auto simp: Let_def)

lemma startPhase_db [simp]: "pollDB (startPhase e p v reach s) = pollDB s"
proof -
  obtain ok s' where "delegate_all e (viewEligible v) s = (ok, s')" by (cases "delegate_all e (viewEligible v) s")
  then show ?thesis using delegate_all_db [of e "viewEligible v" s] by (cases ok) (simp_all add: startPhase_def Let_def)
qed

lemma start_pending_db [simp]: "pollDB (start_pending e reaches pairs s) = pollDB s"
proof -
  have "pollDB (foldl (\<lambda>s (p, v). if is_zero (phStartRequestedAt p) then s else startPhase e p v (reach_of reaches (phRepository p)) s) s pairs)
      = pollDB s" by (induction pairs arbitrary: s) (auto split: prod.splits)
  then show ?thesis by (simp add: start_pending_def)
qed

lemma recordClosed_steps: "store_steps cap s (recordClosed e issues now s)"
  by (auto simp: recordClosed_def intro: store_steps_on_db step.tickets_closed)

lemma pollProjects_steps: "store_steps cap s (pollProjects e reaches s)"
  unfolding pollProjects_def Let_def
  by (auto split: sum.splits intro: store_steps_db [OF _ recordClosed_steps] store_steps_same)

lemma recordProjectNames_db [simp]: "pollDB (recordProjectNames e s) = pollDB s"
  by (simp add: recordProjectNames_def split: option.splits sum.splits)

section \<open>A start delegates only what the owner confirmed\<close>

lemma delegate_all_calls:
  "\<exists>sent. pollCalls (snd (delegate_all e is s)) = pollCalls s @ map (DelegateIssue \<circ> isUUID) sent \<and> prefix sent is
    \<and> (fst (delegate_all e is s) \<longrightarrow> sent = is)"
proof (induction "is" arbitrary: s)
  case (Cons i "is")
  show ?case
  proof (cases "envDelegates e (isUUID i)")
    case True
    obtain sent where "pollCalls (snd (delegate_all e is (call_outside (DelegateIssue (isUUID i)) s)))
        = pollCalls (call_outside (DelegateIssue (isUUID i)) s) @ map (DelegateIssue \<circ> isUUID) sent"
      "prefix sent is" "fst (delegate_all e is (call_outside (DelegateIssue (isUUID i)) s)) \<longrightarrow> sent = is"
      using Cons.IH by blast
    with True show ?thesis by (intro exI [of _ "i # sent"]) (simp add: Let_def)
  next
    case False
    then show ?thesis by (intro exI [of _ "[i]"]) (simp add: Let_def)
  qed
qed simp

lemma startPhase_calls:
  assumes "DelegateIssue u \<in> set (pollCalls (startPhase e p v reach s))" and "DelegateIssue u \<notin> set (pollCalls s)"
  shows "start_refusal p v reach = []" and "\<exists>i \<in> set (viewEligible v). isUUID i = u"
proof -
  obtain sent where calls: "pollCalls (snd (delegate_all e (viewEligible v) s)) = pollCalls s @ map (DelegateIssue \<circ> isUUID) sent"
    and pre: "prefix sent (viewEligible v)" using delegate_all_calls by blast
  show "start_refusal p v reach = []"
    using assms by (auto simp: startPhase_def Let_def split: if_splits)
  then have "DelegateIssue u \<in> set (map (DelegateIssue \<circ> isUUID) sent)"
    using assms calls by (auto simp: startPhase_def Let_def split: prod.splits bool.splits)
  then show "\<exists>i \<in> set (viewEligible v). isUUID i = u" using pre set_mono_prefix by fastforce
qed

text \<open>
  A ticket this phase delegates is in a project whose start is pending, in the phase the owner
  confirmed, on a repository this poll read, and is eligible.
\<close>

definition start_justified :: "env \<Rightarrow> repo_reach list \<Rightarrow> poll_state \<Rightarrow> issue \<Rightarrow> bool" where
  "start_justified e reaches s i \<longleftrightarrow>
     (\<exists>projects p issues.
        envListed e = Inr projects \<and> p \<in> set projects \<and> \<not> is_zero (phStartRequestedAt p)
        \<and> envProjectIssues e (linearProjects projects) = Inr issues \<and> i \<in> set issues
        \<and> EqualFold (isProject i) (phLinearProject p) \<and> msName (isMilestone i) = phStartPhase p
        \<and> reach_of reaches (phRepository p) = Some True
        \<and> (\<exists>ids. isID i \<in> set ids \<and> phaseEligible i (phRepository p)
             (case map_of (TicketRuns ids (pollDB (recordClosed e issues (envClock e CProjects []) s))) (isID i) of
                None \<Rightarrow> no_run | Some r \<Rightarrow> r)))"

lemma start_pending_calls:
  assumes "DelegateIssue u \<in> set (pollCalls (start_pending e reaches pairs s))" and "DelegateIssue u \<notin> set (pollCalls s)"
  shows "\<exists>p v. (p, v) \<in> set pairs \<and> \<not> is_zero (phStartRequestedAt p)
     \<and> start_refusal p v (reach_of reaches (phRepository p)) = [] \<and> (\<exists>i \<in> set (viewEligible v). isUUID i = u)"
  using assms
proof (induction pairs arbitrary: s)
  case Nil
  then show ?case by (simp add: start_pending_def)
next
  case (Cons pv pairs)
  obtain p v where pv: "pv = (p, v)" by (cases pv)
  let ?s = "if is_zero (phStartRequestedAt p) then s else startPhase e p v (reach_of reaches (phRepository p)) s"
  have step: "start_pending e reaches (pv # pairs) s = start_pending e reaches pairs ?s"
    by (simp add: start_pending_def pv)
  show ?case
  proof (cases "DelegateIssue u \<in> set (pollCalls ?s)")
    case True
    then have "\<not> is_zero (phStartRequestedAt p)" using Cons.prems by (auto split: if_splits)
    with True Cons.prems show ?thesis using startPhase_calls [of u e p v "reach_of reaches (phRepository p)" s]
      by (auto simp: pv)
  next
    case False
    then show ?thesis using Cons.IH [of ?s] Cons.prems unfolding step by auto
  qed
qed

lemma pollProjects_delegates:
  assumes "DelegateIssue u \<in> set (pollCalls (pollProjects e reaches s))" and "DelegateIssue u \<notin> set (pollCalls s)"
  shows "\<exists>i. isUUID i = u \<and> start_justified e reaches s i"
proof -
  have closed: "pollCalls (recordClosed e issues now s) = pollCalls s" for issues now by (simp add: recordClosed_def)
  obtain projects where listed: "envListed e = Inr projects" "projects \<noteq> []"
    using assms by (auto simp: pollProjects_def split: if_splits sum.splits)
  define read where "read = envProjectIssues e (linearProjects projects)"
  define now where "now = envClock e CProjects []"
  define s1 where "s1 = (case read of Inl _ \<Rightarrow> s | Inr issues \<Rightarrow> recordClosed e issues now s)"
  define view where "view = (\<lambda>p. case read of
      Inl _ \<Rightarrow> \<lparr>viewSnapshot = unreadableSnapshot (phRepository p) StartRefusedUnreadable now, viewEligible = []\<rparr>
    | Inr issues \<Rightarrow> projectView (read_ticket_runs e (pollDB s1)) p issues now)"
  have "pollProjects e reaches s = (if envPhasesReady e then
      start_pending e reaches (zip projects (map view projects)) (call_outside (RecordSnapshots (map viewSnapshot (map view projects))) s1)
      else s)"
    unfolding pollProjects_def Let_def view_def s1_def read_def now_def using listed by simp
  moreover have "pollCalls s1 = pollCalls s" by (simp add: s1_def closed split: sum.splits)
  ultimately obtain p v i where pv: "(p, v) \<in> set (zip projects (map view projects))" "\<not> is_zero (phStartRequestedAt p)"
    "start_refusal p v (reach_of reaches (phRepository p)) = []" "i \<in> set (viewEligible v)" "isUUID i = u"
    using start_pending_calls [of u e reaches "zip projects (map view projects)"
        "call_outside (RecordSnapshots (map viewSnapshot (map view projects))) s1"] assms
    by (auto split: if_splits)
  then have p: "p \<in> set projects" and v: "v = view p" by (auto simp: set_zip)
  obtain issues where read: "read = Inr issues" using pv(4) by (auto simp: v view_def split: sum.splits)
  note elig = projectView_eligible [of i "read_ticket_runs e (pollDB s1)" p issues now]
  have i: "i \<in> set (viewEligible (projectView (read_ticket_runs e (pollDB s1)) p issues now))"
    and none: "start_refusal p (projectView (read_ticket_runs e (pollDB s1)) p issues now) (reach_of reaches (phRepository p)) = []"
    using pv(3,4) by (simp_all add: v view_def read)
  obtain ids rows where rows: "read_ticket_runs e (pollDB s1) ids = Inr rows" "isID i \<in> set ids"
    "phaseEligible i (phRepository p) (case map_of rows (isID i) of None \<Rightarrow> no_run | Some r \<Rightarrow> r)"
    using elig(5) [OF i] by blast
  then have "rows = TicketRuns ids (pollDB s1)" by (auto simp: read_ticket_runs_def split: option.splits)
  moreover have "s1 = recordClosed e issues now s" by (simp add: s1_def read)
  ultimately show ?thesis
    using rows elig(1-4) [OF i] start_refusal_none [OF none] pv(2,5) p listed(1) read
    unfolding start_justified_def read_def now_def by (intro exI [of _ i] conjI exI [of _ projects] exI [of _ p]) auto
qed

text \<open>What the runs of the tickets asked for are, row by row.\<close>

lemma TicketRuns_lookup:
  assumes "t \<in> set ids"
  shows "map_of (TicketRuns ids d) t =
    map_option (ticket_run_of (foldl (\<lambda>m run. AList.update (flightTicket run) (PhaseStage (flightStage run)) m) [] (inFlight (readLedger d))) t)
      (runs d t)"
  using assms unfolding TicketRuns_def Let_def
proof (induction ids rule: rev_induct)
  case (snoc x ids)
  have none: "map_of (foldl (\<lambda>out t. case runs d t of None \<Rightarrow> out | Some row \<Rightarrow> AList.update t (f t row) out) [] us) t = None"
    if "runs d t = None" for us and f :: "string \<Rightarrow> doc \<Rightarrow> ticket_run"
    using that by (induction us rule: rev_induct) (auto simp: update_conv' split: option.splits)
  show ?case
  proof (cases "x = t")
    case True
    with none show ?thesis by (cases "runs d t") (auto simp: update_conv')
  next
    case False
    with snoc show ?thesis by (cases "runs d x") (auto simp: update_conv')
  qed
qed simp

lemma flight_stages:
  "map_of (foldl (\<lambda>m run. AList.update (flightTicket run) (PhaseStage (flightStage run)) m) [] fs) t = None
     \<or> map_of (foldl (\<lambda>m run. AList.update (flightTicket run) (PhaseStage (flightStage run)) m) [] fs) t \<noteq> Some []"
  by (induction fs rule: rev_induct)
     (auto simp: update_conv' PhaseStage_def PhaseStagePlanning_def PhaseStageBuilding_def)

lemma flight_stages_none:
  "map_of (foldl (\<lambda>m run. AList.update (flightTicket run) (PhaseStage (flightStage run)) m) [] fs) t = None
     \<longleftrightarrow> t \<notin> set (map flightTicket fs)"
  by (induction fs rule: rev_induct) (auto simp: update_conv')

lemma eligible_row:
  assumes "t \<in> set ids" "runs d t = Some row"
    and "phaseEligible i repo (case map_of (TicketRuns ids d) t of None \<Rightarrow> no_run | Some r \<Rightarrow> r)"
  shows "\<exists>err. requeueState row = Inl err" "str row stateField \<notin> set candidateStates" "t \<notin> set (map flightTicket (inFlight (readLedger d)))"
proof -
  let ?stages = "foldl (\<lambda>m run. AList.update (flightTicket run) (PhaseStage (flightStage run)) m) [] (inFlight (readLedger d))"
  have run: "map_of (TicketRuns ids d) t = Some (ticket_run_of ?stages t row)"
    using TicketRuns_lookup [OF assms(1), of d] assms(2) by simp
  note parts = phaseEligible_iff_parts [OF assms(3)]
  from parts(3) run show "\<exists>err. requeueState row = Inl err" by (auto simp: ticket_run_of_def Let_def split: sum.splits)
  with parts(4) run show "str row stateField \<notin> set candidateStates" by (auto simp: ticket_run_of_def Let_def)
  from parts(5) run flight_stages [of "inFlight (readLedger d)" t]
  show "t \<notin> set (map flightTicket (inFlight (readLedger d)))"
    unfolding flight_stages_none [symmetric] by (auto simp: ticket_run_of_def Let_def split: option.splits)
qed

end
