(* ===== verification/Poll_Checks.thy ===== *)
theory Poll_Checks
  imports Poll_State
begin

text \<open>
  The checks phase of a poll (\<open>internal/dispatcher/checks.go\<close>, \<open>pull_url.go\<close>, the listing of
  \<open>internal/store/checks.go\<close>): the result of the required checks of the agent's last commit, recorded
  on each run whose pull request has none yet. \<open>envChecksExpired\<close> is whether the phase's time was up
  when it came to a run; \<open>envParseURL\<close> is Go's \<open>url.Parse\<close>.
\<close>

section \<open>Pull request URLs\<close>

definition repo_char :: "char \<Rightarrow> bool" where
  "repo_char c \<longleftrightarrow> is_alnum c \<or> c \<in> set ''._-''"

definition repositoryPattern :: re where
  "repositoryPattern = cats [TextStart, cats [plus (Byte repo_char), lit ''/'', plus (Byte repo_char)], TextEnd]"

definition ValidRepository :: "string \<Rightarrow> bool" where
  "ValidRepository repo = MatchString repositoryPattern repo"

definition trim_char :: "char \<Rightarrow> string \<Rightarrow> string" where
  "trim_char x s = rev (dropWhile (\<lambda>c. c = x) (rev (dropWhile (\<lambda>c. c = x) s)))"

text \<open>\<open>None\<close> is its error.\<close>

definition ParsePullURL :: "(string \<Rightarrow> parsed_url option) \<Rightarrow> string \<Rightarrow> (string \<times> int) option" where
  "ParsePullURL parse raw =
     (case parse raw of
        None \<Rightarrow> None
      | Some u \<Rightarrow>
        if urlScheme u \<noteq> ''https'' \<or> urlHost u \<noteq> ''github.com'' then None
        else
          let parts = split_char (CHR ''/'') (trim_char (CHR ''/'') (urlPath u)) in
          if length parts \<noteq> 4 \<or> parts ! 2 \<noteq> ''pull'' then None
          else case atoi (parts ! 3) of
              None \<Rightarrow> None
            | Some number \<Rightarrow>
              if number \<le> 0 then None
              else
                let repo = parts ! 0 @ ''/'' @ parts ! 1 in
                if \<not> ValidRepository repo \<or> ''.'' \<in> set (take 2 parts) \<or> ''..'' \<in> set (take 2 parts) then None
                else Some (repo, number))"

section \<open>The runs without a result\<close>

record unsettled_run =
  unsID :: string
  unsPRURL :: string
  unsStartedAt :: time

definition unsettled_of :: "string \<times> doc \<Rightarrow> unsettled_run option" where
  "unsettled_of snap = (case snap of (runID, row) \<Rightarrow>
     if str row checksResultField \<noteq> [] \<or> str row outcomeField \<noteq> OutcomePROpened then None
     else Some \<lparr>unsID = runID, unsPRURL = str row prURLField,
       unsStartedAt = (if is_zero (time_of row startedAtField) then time_of row queuedAtField else time_of row startedAtField)\<rparr>)"

definition UnsettledRuns :: "store_err + (string \<times> doc) list \<Rightarrow> nat \<Rightarrow> store_err + unsettled_run list" where
  "UnsettledRuns listed limit =
     and_then listed (\<lambda>snaps. Inr (take limit (sort_key unsStartedAt (sort_key unsID (List.map_filter unsettled_of snaps)))))"

section \<open>Settling\<close>

definition CheckUnresolved :: string where "CheckUnresolved = ''unresolved''"
definition CheckPending :: string where "CheckPending = ''pending''"
definition checksPerPoll :: nat where "checksPerPoll = 20"

text \<open>A commit of a pull request is its sha and its author's login, in order.\<close>

definition lastAgentCommit :: "(string \<times> string) list \<Rightarrow> string" where
  "lastAgentCommit commits =
     (case find (\<lambda>c. EqualFold (snd c) CommitAuthorLogin) (rev commits) of None \<Rightarrow> [] | Some c \<Rightarrow> fst c)"

definition recordChecks :: "env \<Rightarrow> unsettled_run \<Rightarrow> string \<Rightarrow> string \<Rightarrow> poll_state \<Rightarrow> bool \<times> poll_state" where
  "recordChecks e run sha result s =
     (case on_db (RecordChecks (envFault e CChecks (unsID run)) (unsID run) (unsPRURL run) sha result) s of
        (Inl _, s') \<Rightarrow> (False, s')
      | (Inr recorded, s') \<Rightarrow> (recorded, s'))"

text \<open>
  The result it recorded, or the empty string. The required checks of a repository are read once a
  phase: an answer is a function of the repository.
\<close>

definition settleRunChecks :: "env \<Rightarrow> unsettled_run \<Rightarrow> poll_state \<Rightarrow> string \<times> poll_state" where
  "settleRunChecks e run s =
     (case ParsePullURL (envParseURL e) (unsPRURL run) of
        None \<Rightarrow> (case recordChecks e run [] CheckUnresolved s of (ok, s') \<Rightarrow> (if ok then CheckUnresolved else [], s'))
      | Some (repo, number) \<Rightarrow>
        (case envPullCommits e repo number of
           Inl _ \<Rightarrow> ([], s)
         | Inr commits \<Rightarrow>
           let sha = lastAgentCommit commits in
           if sha = []
           then (case recordChecks e run [] CheckUnresolved s of (ok, s') \<Rightarrow> (if ok then CheckUnresolved else [], s'))
           else case envRequired e repo of
               Inl _ \<Rightarrow> ([], s)
             | Inr names \<Rightarrow>
               (case envChecksOutcome e repo sha names of
                  Inl _ \<Rightarrow> ([], s)
                | Inr outcome \<Rightarrow>
                  if outcome = CheckPending then ([], s)
                  else (case recordChecks e run sha outcome s of (ok, s') \<Rightarrow> (if ok then outcome else [], s')))))"

text \<open>The phase: each run in turn, until its time is up.\<close>

fun settle_each :: "env \<Rightarrow> unsettled_run list \<Rightarrow> poll_state \<Rightarrow> poll_state" where
  "settle_each e [] s = s"
| "settle_each e (run # rest) s =
     (if envChecksExpired e (unsID run) then s else settle_each e rest (snd (settleRunChecks e run s)))"

definition settleChecks :: "env \<Rightarrow> poll_state \<Rightarrow> poll_err list \<times> poll_state" where
  "settleChecks e s =
     (case UnsettledRuns (envWithPR e (pollDB s)) checksPerPoll of
        Inl err \<Rightarrow> ([InStore err], s)
      | Inr listed \<Rightarrow> ([], settle_each e listed s))"

section \<open>What is parsed is a repository and a number\<close>

lemma lang_plus_bytes: "lang (plus (Byte P)) = {w. w \<noteq> [] \<and> list_all P w}"
proof (intro set_eqI iffI)
  fix w assume "w \<in> {w. w \<noteq> [] \<and> list_all P w}"
  then obtain c u where "w = [c] @ u" "P c" "list_all P u" by (cases w) auto
  then show "w \<in> lang (plus (Byte P))" unfolding plus_def
    by (simp add: repeated_bytes) (rule exI [of _ "[c]"], simp)
qed (auto simp: plus_def repeated_bytes)

lemma ValidRepository_iff:
  "ValidRepository repo \<longleftrightarrow>
     (\<exists>owner name. repo = owner @ ''/'' @ name \<and> owner \<noteq> [] \<and> name \<noteq> [] \<and> list_all repo_char owner \<and> list_all repo_char name)"
proof -
  have "consumes (cats [plus (Byte repo_char), lit ''/'', plus (Byte repo_char)])"
    by (simp add: plus_def lit_def one_of_def)
  from anchored_match [OF this]
  have "ValidRepository repo \<longleftrightarrow> repo \<in> lang (cats [plus (Byte repo_char), lit ''/'', plus (Byte repo_char)])"
    by (simp add: ValidRepository_def repositoryPattern_def)
  also have "\<dots> \<longleftrightarrow> (\<exists>owner name. repo = owner @ ''/'' @ name
      \<and> owner \<in> lang (plus (Byte repo_char)) \<and> name \<in> lang (plus (Byte repo_char)))"
    by (auto simp: lit_def one_of_def)
  finally show ?thesis by (simp add: lang_plus_bytes conj_ac)
qed

lemma ParsePullURL_ok:
  assumes "ParsePullURL parse raw = Some (repo, number)"
  shows "ValidRepository repo" and "0 < number"
  using assms by (auto simp: ParsePullURL_def Let_def split: option.splits if_splits)

section \<open>The phase is a run of the store's operations\<close>

lemma recordChecks_steps: "store_steps cap s (snd (recordChecks e run sha result s))"
proof (cases "on_db (RecordChecks (envFault e CChecks (unsID run)) (unsID run) (unsPRURL run) sha result) s")
  case (Pair r s')
  then have "store_steps cap s s'" by (rule on_db_step) (simp_all add: step.record_checks)
  with Pair show ?thesis by (auto simp: recordChecks_def split: sum.splits)
qed

lemma settleRunChecks_steps: "store_steps cap s (snd (settleRunChecks e run s))"
proof -
  have rec: "store_steps cap s (snd (case recordChecks e run sha result s of (ok, s') \<Rightarrow> (f ok, s')))" for sha result and f :: "bool \<Rightarrow> string"
    using recordChecks_steps [of cap s e run sha result] by (cases "recordChecks e run sha result s") simp
  show ?thesis
    using rec by (simp add: settleRunChecks_def Let_def split: option.split sum.split)
qed

lemma settle_each_steps: "store_steps cap s (settle_each e rs s)"
proof (induction rs arbitrary: s)
  case (Cons run rest)
  show ?case using store_steps_trans [OF settleRunChecks_steps Cons.IH] by simp
qed simp

lemma settleChecks_steps: "store_steps cap s (snd (settleChecks e s))"
  using settle_each_steps by (simp add: settleChecks_def split: sum.splits)

end
