(* ===== verification/Poll_Run.thy ===== *)
theory Poll_Run
  imports Poll_Notices Poll_Measure Poll_Projects Poll_Checks
begin

text \<open>
  A whole poll (\<open>poll\<close> and \<open>Poll\<close> of \<open>internal/dispatcher/dispatcher.go\<close>): its phases in the code's
  order, and what they make of the store together.
\<close>

section \<open>The poll\<close>

definition recordReach :: "env \<Rightarrow> repo_reach list \<Rightarrow> poll_state \<Rightarrow> poll_state" where
  "recordReach e reaches s = (if \<not> recordsReach e \<or> reaches = [] then s else call_outside (RecordReach reaches) s)"

definition allowlistRead :: "config \<Rightarrow> bool" where
  "allowlistRead c \<longleftrightarrow> cfgRepos c \<noteq> []"

text \<open>The claims of a poll that has admitted its issues, with the walk's error.\<close>

definition claim_phase :: "config \<Rightarrow> env \<Rightarrow> issue list \<Rightarrow> poll_state \<Rightarrow> (run_claim list \<times> store_err option) \<times> poll_state" where
  "claim_phase c e issues s =
     (if \<not> allowlistRead c then (([], None), s\<lparr>pollReach := []\<rparr>)
      else case countOpenPRs e (cfgRepos c) of (prs, reaches) \<Rightarrow> admitClaims c e issues prs (s\<lparr>pollReach := reaches\<rparr>))"

text \<open>The issues it saw, its errors and the state it leaves.\<close>

definition poll :: "config \<Rightarrow> env \<Rightarrow> poll_state \<Rightarrow> (issue list \<times> poll_err list) \<times> poll_state" where
  "poll c e s =
     (case envDelegated e of
        Inl err \<Rightarrow> (([], [InStore err]), s)
      | Inr issues \<Rightarrow>
        (case (if allowlistRead c then admit_all c e issues s else (None, s)) of
           (Some err, s1) \<Rightarrow> ((issues, [InStore err]), s1)
         | (None, s1) \<Rightarrow>
           case requeueStopped e s1 of (errs2, s2) \<Rightarrow>
           case claim_phase c e issues s2 of ((claims, err3), s3) \<Rightarrow>
           let s4 = recordReach e (pollReach s3) s3;
               s5 = (if allowlistRead c then pollProjects e (pollReach s4) s4 else s4) in
           case each (start_run e) claims s5 of (errs6, s6) \<Rightarrow>
             ((issues, errs2 @ (case err3 of None \<Rightarrow> [] | Some err \<Rightarrow> [InStore err]) @ errs6), s6)))"

definition Poll :: "config \<Rightarrow> env \<Rightarrow> db \<Rightarrow> poll_err list \<times> poll_state" where
  "Poll c e d =
     (if envMissing e \<noteq> [] then ([NotSet (envMissing e)], poll_start d)
      else
        case poll c e (poll_start d) of ((issues, errs0), s0) \<Rightarrow>
        case sweep_phase e (recordProjectNames e s0) of (errs1, s1) \<Rightarrow>
        case measureRewrites c e s1 of (errs2, s2) \<Rightarrow>
        case settleChecks e s2 of (errs3, s3) \<Rightarrow>
        case postDecisions c e s3 of (errs4, s4) \<Rightarrow>
        case noticeStuck e issues s4 of (errs5, s5) \<Rightarrow>
        case notices_phase e s5 of (errs6, s6) \<Rightarrow>
          (errs0 @ errs1 @ errs2 @ errs3 @ errs4 @ errs5 @ errs6, s6))"

section \<open>A poll is a run of the store's operations\<close>

lemma poll_start_db [simp]: "pollDB (poll_start d) = d"
  by (simp add: poll_start_def)

lemma recordReach_db [simp]: "pollDB (recordReach e reaches s) = pollDB s"
  by (simp add: recordReach_def)

lemma claim_phase_steps:
  assumes "poll_cap c \<le> cap" shows "store_steps cap s (snd (claim_phase c e issues s))"
proof (cases "allowlistRead c")
  case True
  obtain prs reaches where read: "countOpenPRs e (cfgRepos c) = (prs, reaches)" by (metis prod.exhaust)
  have "store_steps cap s (s\<lparr>pollReach := reaches\<rparr>)" by (rule store_steps_same) simp
  also have "store_steps cap (s\<lparr>pollReach := reaches\<rparr>) (snd (admitClaims c e issues prs (s\<lparr>pollReach := reaches\<rparr>)))"
    by (rule admitClaims_steps [OF assms])
  finally show ?thesis using True read by (simp add: claim_phase_def)
qed (auto simp: claim_phase_def intro: store_steps_same)

lemma poll_steps:
  assumes cap: "poll_cap c \<le> cap" shows "store_steps cap s (snd (poll c e s))"
proof (cases "envDelegated e")
  case (Inr issues)
  obtain err s1 where 1: "(if allowlistRead c then admit_all c e issues s else (None, s)) = (err, s1)" by (metis prod.exhaust)
  have s1: "store_steps cap s s1"
    using 1 admit_all_steps [of cap s c e issues] by (auto split: if_splits)
  show ?thesis
  proof (cases err)
    case None
    obtain errs2 s2 where 2: "requeueStopped e s1 = (errs2, s2)" by (metis prod.exhaust)
    obtain claims err3 s3 where 3: "claim_phase c e issues s2 = ((claims, err3), s3)" by (metis prod.exhaust)
    define s4 where "s4 = recordReach e (pollReach s3) s3"
    define s5 where "s5 = (if allowlistRead c then pollProjects e (pollReach s4) s4 else s4)"
    obtain errs6 s6 where 6: "each (start_run e) claims s5 = (errs6, s6)" by (metis prod.exhaust)
    note s1
    also have "store_steps cap s1 s2" using 2 requeueStopped_steps by (rule steps_result)
    also have "store_steps cap s2 s3" using 3 claim_phase_steps [OF cap] by (rule steps_result)
    also have "store_steps cap s3 s4" by (rule store_steps_same) (simp add: s4_def)
    also have "store_steps cap s4 s5" by (simp add: s5_def pollProjects_steps)
    also have "store_steps cap s5 s6" by (rule each_result [OF 6 start_run_steps])
    finally show ?thesis using Inr 1 None 2 3 6 unfolding s5_def s4_def by (simp add: poll_def Let_def del: if_split)
  qed (use Inr 1 s1 in \<open>simp add: poll_def\<close>)
qed (simp add: poll_def)

text \<open>What follows the dispatches.\<close>

lemma Poll_after:
  assumes "answers_rows (envRunReads e)" and "envMissing e = []" and 0: "poll c e (poll_start d) = (out, s0)"
  shows "store_steps cap s0 (snd (Poll c e d))"
proof -
  obtain issues errs0 where out: "out = (issues, errs0)" by (cases out)
  obtain errs1 s1 where 1: "sweep_phase e (recordProjectNames e s0) = (errs1, s1)" by (metis prod.exhaust)
  obtain errs2 s2 where 2: "measureRewrites c e s1 = (errs2, s2)" by (metis prod.exhaust)
  obtain errs3 s3 where 3: "settleChecks e s2 = (errs3, s3)" by (metis prod.exhaust)
  obtain errs4 s4 where 4: "postDecisions c e s3 = (errs4, s4)" by (metis prod.exhaust)
  obtain errs5 s5 where 5: "noticeStuck e issues s4 = (errs5, s5)" by (metis prod.exhaust)
  obtain errs6 s6 where 6: "notices_phase e s5 = (errs6, s6)" by (metis prod.exhaust)
  have "store_steps cap s0 (recordProjectNames e s0)" by (rule store_steps_same) (simp add: recordProjectNames_db)
  also have "store_steps cap (recordProjectNames e s0) s1" using 1 sweep_phase_steps by (rule steps_result)
  also have "store_steps cap s1 s2" using 2 measureRewrites_steps [OF assms(1)] by (rule steps_result)
  also have "store_steps cap s2 s3" using 3 settleChecks_steps by (rule steps_result)
  also have "store_steps cap s3 s4" using 4 postDecisions_steps by (rule steps_result)
  also have "store_steps cap s4 s5" using 5 noticeStuck_steps by (rule steps_result)
  also have "store_steps cap s5 s6" using 6 notices_phase_steps by (rule steps_result)
  finally show ?thesis using assms(2) 0 out 1 2 3 4 5 6 by (simp add: Poll_def)
qed

lemma Poll_steps:
  assumes "poll_cap c \<le> cap" and "answers_rows (envRunReads e)"
  shows "store_steps cap (poll_start d) (snd (Poll c e d))"
proof (cases "envMissing e = []")
  case True
  obtain out s0 where run: "poll c e (poll_start d) = (out, s0)" by (metis prod.exhaust)
  from run have "store_steps cap (poll_start d) s0" using poll_steps [OF assms(1)] by (rule steps_result)
  then show ?thesis using Poll_after [OF assms(2) True run] by (rule store_steps_trans)
qed (simp add: Poll_def)

lemma Poll_reachable:
  "reachable (poll_cap c) d \<Longrightarrow> answers_rows (envRunReads e) \<Longrightarrow> reachable (poll_cap c) (pollDB (snd (Poll c e d)))"
  using store_steps_reachable [OF Poll_steps [OF order.refl]] by simp

end
