(* ===== verification/Poll_Quiet.thy ===== *)
theory Poll_Quiet
  imports Poll_Run
begin

text \<open>
  The phases of a poll that start no run: every one but the dispatch of what the walk claimed.
\<close>

section \<open>Phases that start nothing\<close>

fun starts :: "outside \<Rightarrow> bool" where
  "starts (DispatchRun _) = True"
| "starts _ = False"

definition quiet :: "poll_state \<Rightarrow> poll_state \<Rightarrow> bool" where
  "quiet s s' \<longleftrightarrow> filter starts (pollCalls s') = filter starts (pollCalls s) \<and> pollDispatched s' = pollDispatched s"

lemma quiet_refl [simp, intro]: "quiet s s"
  by (simp add: quiet_def)

lemma quiet_trans [trans]: "quiet s t \<Longrightarrow> quiet t u \<Longrightarrow> quiet s u"
  by (simp add: quiet_def)

lemma quiet_same: "pollCalls s' = pollCalls s \<Longrightarrow> pollDispatched s' = pollDispatched s \<Longrightarrow> quiet s s'"
  by (simp add: quiet_def)

lemma quiet_on_db [simp]: "quiet s (snd (on_db f s))"
  by (simp add: quiet_def)

lemma on_db_quiet: "on_db f s = (r, s') \<Longrightarrow> quiet s s'"
  using quiet_on_db [of s f] by simp

lemma quiet_call: "\<not> starts c \<Longrightarrow> quiet s s' \<Longrightarrow> quiet s (call_outside c s')"
  by (simp add: quiet_def)

lemma quiet_write: "quiet s s' \<Longrightarrow> quiet s (snd (write_db f s'))"
  using on_db_quiet [of f s'] by (auto simp: write_db_def quiet_def split: prod.splits sum.splits)

lemma each_quiet:
  assumes "\<And>x s. quiet s (snd (f x s))" shows "quiet s (snd (each f xs s))"
proof (induction xs arbitrary: s)
  case (Cons x xs)
  show ?case using quiet_trans [OF assms [of s x] Cons.IH] by (auto split: prod.splits)
qed simp

lemma each_result_quiet: "each f xs s = (errs, s') \<Longrightarrow> (\<And>x s. quiet s (snd (f x s))) \<Longrightarrow> quiet s s'"
  using each_quiet [of f s xs] by simp

lemma until_error_quiet:
  assumes "\<And>x s. quiet s (snd (f x s))" shows "quiet s (snd (until_error f xs s))"
proof (induction xs arbitrary: s)
  case (Cons x xs)
  show ?case using assms [of s x] quiet_trans [OF assms [of s x] Cons.IH] by (auto split: prod.splits option.splits)
qed simp

lemma quiet_result: "f s = (r, s') \<Longrightarrow> quiet s (snd (f s)) \<Longrightarrow> quiet s s'"
  by simp

subsection \<open>Admission\<close>

lemma quiet_fields [simp]:
  "quiet s (s'\<lparr>pollRejections := x\<rparr>) \<longleftrightarrow> quiet s s'" "quiet s (s'\<lparr>pollUnchecked := y\<rparr>) \<longleftrightarrow> quiet s s'"
  "quiet s (s'\<lparr>pollEnqueued := z\<rparr>) \<longleftrightarrow> quiet s s'" "quiet s (s'\<lparr>pollDeferrals := u\<rparr>) \<longleftrightarrow> quiet s s'"
  "quiet s (s'\<lparr>pollReach := v\<rparr>) \<longleftrightarrow> quiet s s'"
  by (simp_all add: quiet_def)

lemma refuse_quiet: "quiet s (snd (refuse e rej s))"
  by (auto simp: refuse_def dest: on_db_quiet split: prod.splits sum.splits)

lemma refreshRetriedModels_quiet: "quiet s (snd (refreshRetriedModels c e issue runID s))"
  by (auto simp: refreshRetriedModels_def dest: on_db_quiet intro: quiet_trans [OF on_db_quiet refuse_quiet]
      split: option.splits sum.splits prod.splits bool.splits)

lemma admit_quiet: "quiet s (snd (admit c e issue s))"
proof -
  have "quiet s (snd (refresh_queued c e issue q s))" for q
    unfolding refresh_queued_def Let_def
    by (rule quiet_trans [OF _ refreshRetriedModels_quiet]) (rule quiet_trans [OF quiet_on_db quiet_on_db])
  moreover have "quiet s (snd (enqueue_new e q s))" for q
    by (auto simp: enqueue_new_def dest: on_db_quiet split: prod.splits sum.splits)
  ultimately show ?thesis by (auto simp: admit_def intro: refuse_quiet split: option.splits sum.splits)
qed

lemma admit_all_quiet: "quiet s (snd (admit_all c e issues s))"
  unfolding admit_all_def by (rule until_error_quiet) (rule admit_quiet)

subsection \<open>Settling\<close>

lemma restoreTicket_quiet: "quiet s s' \<Longrightarrow> quiet s (restoreTicket t st s')"
  by (auto simp: restoreTicket_def intro: quiet_call)

lemma requeueStopped_quiet: "quiet s (snd (requeueStopped e s))"
proof -
  have "quiet s (snd (requeue_stop e t s))" for t s
    by (auto simp: requeue_stop_def Let_def dest: on_db_quiet intro: quiet_write restoreTicket_quiet split: prod.splits sum.splits)
  then show ?thesis by (auto simp: requeueStopped_def intro: each_quiet split: sum.splits)
qed

lemma restore_all_quiet: "quiet s s' \<Longrightarrow> quiet s (foldl (\<lambda>s a. restoreTicket (f a) (g a) s) s' xs)"
  by (induction xs arbitrary: s') (simp_all add: restoreTicket_quiet)

lemma sweep_phase_quiet: "quiet s (snd (sweep_phase e s))"
  by (auto simp: sweep_phase_def dest: on_db_quiet intro: restore_all_quiet split: prod.splits)

lemma postDecisions_quiet: "quiet s (snd (postDecisions c e s))"
proof -
  have post: "quiet s (snd (postDecision e w now s))" for w now s
    by (auto simp: postDecision_def Let_def intro!: quiet_write quiet_call split: sum.splits)
  have stop: "quiet s (snd (stopWaiting e w now s))" for w now s
    by (auto simp: stopWaiting_def Let_def dest: on_db_quiet intro: quiet_write split: sum.splits prod.splits)
  have 1: "quiet s (snd (settle_waiting c e now w s))" for w now s
    by (auto simp: settle_waiting_def intro: quiet_write post stop split: decision_step.splits)
  have 2: "quiet s (snd (postProvisional e now p s))" for p now s
    by (auto simp: postProvisional_def Let_def intro!: quiet_write quiet_call split: sum.splits)
  have 3: "quiet s (snd (decideProvisional e now p s))" for p now s
    by (auto simp: decideProvisional_def Let_def dest: on_db_quiet intro: quiet_write
        split: option.splits sum.splits prod.splits store_err.splits)
  show ?thesis
    by (auto simp: postDecisions_def Let_def split: sum.splits prod.splits
        dest!: each_result_quiet [OF _ 1] each_result_quiet [OF _ 2] each_result_quiet [OF _ 3] intro: quiet_trans)
qed

lemma settleChecks_quiet: "quiet s (snd (settleChecks e s))"
proof -
  have rec: "quiet s (snd (recordChecks e run sha result s))" for run sha result s
    by (auto simp: recordChecks_def dest: on_db_quiet split: prod.splits sum.splits)
  have "quiet s (snd (settleRunChecks e run s))" for run s
    using rec by (auto simp: settleRunChecks_def Let_def dest: quiet_result [OF _ rec] split: option.splits sum.splits prod.splits)
  then have "quiet s (settle_each e rs s)" for rs s
    by (induction rs arbitrary: s) (auto intro: quiet_trans)
  then show ?thesis by (simp add: settleChecks_def split: sum.splits)
qed

lemma measureRewrites_quiet: "quiet s (snd (measureRewrites c e s))"
proof -
  have report: "quiet s (snd (reportUnfoundPR e repo n s))" for repo n s
    by (auto simp: reportUnfoundPR_def Let_def dest: on_db_quiet split: prod.splits sum.splits)
  have merged: "quiet s (snd (measureMerged e repo pr s))" for repo pr s
    by (auto simp: measureMerged_def dest: on_db_quiet quiet_result [OF _ report] split: sum.splits option.splits prod.splits)
  have prs: "quiet s (snd (measure_prs e repo n i prs s))" for repo n i prs s
  proof (induction prs arbitrary: i s)
    case (Cons pr prs)
    obtain errs fresh s' where one: "measureMerged e repo pr s = ((errs, fresh), s')" by (metis prod.exhaust)
    then have "quiet s s'" using merged by (rule quiet_result)
    then show ?case using one Cons.IH [where i = "Suc i" and s = s] quiet_trans [OF _ Cons.IH [where i = "Suc i" and s = s']] by (auto split: prod.splits)
  qed simp
  have flagged: "quiet s (snd (flagReverted e repo byNumber revert reverted s))" for repo byNumber revert reverted s
    by (auto simp: flagReverted_def dest: on_db_quiet intro: report split: sum.splits option.splits prod.splits)
  then have flag: "quiet s (snd (flag_revert e repo ps pr s))" for repo ps pr s
    by (simp add: flag_revert_def Let_def)
  have repo: "quiet s (snd (measureRepo e repo ps truncated s))" for repo ps truncated s
    by (auto simp: measureRepo_def dest!: quiet_result [OF _ prs] each_result_quiet [OF _ flag] intro: quiet_trans split: prod.splits)
  have "quiet s (snd (measure_listed e repo s))" for repo s
    by (auto simp: measure_listed_def intro: repo split: sum.splits)
  then have "quiet s (snd (each (measure_listed e) rs s))" for rs s by (rule each_quiet)
  then show ?thesis by (auto simp: measureRewrites_def Let_def dest: quiet_result split: prod.splits)
qed

lemma noticeStuck_quiet: "quiet s (snd (noticeStuck e issues s))"
  by (auto simp: noticeStuck_def Let_def notice_stuck_run_def intro!: each_quiet quiet_write split: sum.splits)

lemma notices_phase_quiet: "quiet s (snd (notices_phase e s))"
proof -
  have post: "quiet s (snd (post_notice e n s))" for n s
  proof -
    have "quiet s (snd (write_db f (call_outside (PostNotice n) s)))" for f :: "db \<Rightarrow> (store_err + unit) \<times> db"
      by (intro quiet_write quiet_call) simp_all
    then show ?thesis by (auto simp: post_notice_def Let_def dest: quiet_result split: option.splits prod.splits)
  qed
  have undo: "quiet s (snd (unclaim_notice e n s))" for n s
    by (simp add: unclaim_notice_def quiet_write)
  show ?thesis
    by (auto simp: notices_phase_def Let_def split: prod.splits sum.splits option.splits
        dest!: on_db_quiet each_result_quiet [OF _ undo] intro: quiet_trans [OF _ each_quiet] quiet_trans post)
qed

lemma pollProjects_quiet: "quiet s (pollProjects e reaches s)"
proof -
  have delegate: "quiet s (snd (delegate_all e is s))" for "is" s
  proof (induction "is" arbitrary: s)
    case (Cons i "is")
    have "quiet s (call_outside (DelegateIssue (isUUID i)) s)" by (simp add: quiet_call)
    then show ?case using quiet_trans [OF _ Cons.IH] by (simp add: Let_def)
  qed simp
  have start: "quiet s (startPhase e p v reach s)" for p v reach s
  proof -
    obtain ok s' where run: "(if start_refusal p v reach = [] then delegate_all e (viewEligible v) s else (True, s)) = (ok, s')"
      by (metis prod.exhaust)
    then have "quiet s s'" using delegate [of s "viewEligible v"] by (auto split: if_splits)
    then show ?thesis using run by (cases ok) (simp_all add: startPhase_def Let_def quiet_call del: if_split)
  qed
  have next_start: "quiet s s' \<Longrightarrow> quiet s (startPhase e p v reach s')" for p v reach s s'
    by (rule quiet_trans [OF _ start])
  have all: "quiet s s' \<Longrightarrow> quiet s (start_pending e reaches pairs s')" for pairs s s'
    unfolding start_pending_def
  proof (induction pairs arbitrary: s')
    case (Cons pair pairs)
    show ?case using Cons.IH Cons.prems next_start [OF Cons.prems] by (cases pair) simp
  qed simp
  have "quiet s (recordClosed e issues now s)" for issues now
    by (simp add: recordClosed_def)
  then show ?thesis
    by (auto simp: pollProjects_def Let_def intro!: all quiet_call split: sum.splits)
qed

lemma recordProjectNames_quiet: "quiet s (recordProjectNames e s)"
  by (auto simp: recordProjectNames_def intro!: quiet_call split: option.splits sum.splits)

lemma recordReach_quiet: "quiet s (recordReach e reaches s)"
  by (simp add: recordReach_def quiet_call)

subsection \<open>The walk\<close>

lemma recordHold_quiet: "quiet s s' \<Longrightarrow> quiet s (recordHold e cand binding budget s')"
  by (auto simp: recordHold_def Let_def intro: quiet_trans)

lemma defer_run_quiet [simp]: "quiet s (defer_run e cand why s') \<longleftrightarrow> quiet s s'"
  by (simp add: defer_run_def)

lemma noticeDeferral_quiet: "quiet s (snd (noticeDeferral e r cfg model res binding link detail history s))"
  unfolding noticeDeferral_def Let_def
  by (auto dest: on_db_quiet split: option.splits sum.splits prod.splits)

lemma try_candidate_quiet: "quiet s (snd (snd (try_candidate c e w cand noticed s)))"
proof (cases "prepare_claim c e w (pollUnchecked s) cand")
  case (Withheld why hold)
  then show ?thesis by (auto simp: try_candidate_def Let_def intro: recordHold_quiet split: option.splits)
next
  case (Try t)
  have held: "quiet s s' \<Longrightarrow> quiet s (recordHold e cand b budget (defer_run e cand b s'))" for s' b budget
    by (simp add: recordHold_quiet)
  have noticed: "quiet s s'' \<Longrightarrow> noticeDeferral e r cfg model res b link detail history s'' = (x, s') \<Longrightarrow> quiet s s'"
    for s' s'' r cfg model res b link detail history x
    using quiet_trans [OF _ noticeDeferral_quiet [of s'' e r cfg model res b link detail history]] by simp
  show ?thesis
    using Try by (auto simp: try_candidate_def Let_def split: sum.splits prod.splits bool.splits if_splits
        dest!: on_db_quiet intro: held dest: noticed [OF held])
qed

lemma claim_walk_quiet: "quiet s (snd (claim_walk c e w cands noticed s))"
proof (induction cands arbitrary: noticed s)
  case (Cons cand cands)
  obtain r noticed' s' where eq: "try_candidate c e w cand noticed s = (r, noticed', s')" by (rule prod_cases3)
  have "quiet s s'" using try_candidate_quiet [of s c e w cand noticed] by (simp add: eq)
  then show ?case using quiet_trans [OF _ Cons.IH [of s' noticed']] by (auto simp: eq split: prod.splits sum.splits)
qed simp

lemma claim_phase_quiet: "quiet s (snd (claim_phase c e issues s))"
proof -
  have "quiet s (snd (admitClaims c e issues prs (s\<lparr>pollReach := reaches\<rparr>)))" for prs reaches
    by (rule quiet_trans [where t = "s\<lparr>pollReach := reaches\<rparr>"])
      (auto simp: admitClaims_def Let_def intro: claim_walk_quiet split: sum.splits)
  then show ?thesis by (auto simp: claim_phase_def split: prod.splits)
qed

end
