(* ===== verification/Poll_Safety.thy ===== *)
theory Poll_Safety
  imports Poll_Quiet
begin

text \<open>
  What a poll starts: only runs its own walk claimed, each once, none while the breaker is tripped;
  and where a run stands when the poll is over: claimed when it was dispatched, back in the queue when
  its dispatch was refused and released.
\<close>

section \<open>Where a run stands\<close>

definition standing :: "db \<Rightarrow> string \<Rightarrow> (string \<times> bool) option" where
  "standing d r = map_option (\<lambda>row. (rowState row, hasEnded row)) (runs d r)"

definition taken :: "db \<Rightarrow> string \<Rightarrow> bool" where
  "taken d r \<longleftrightarrow> standing d r = Some (stateClaimed, False)"

lemma claimable_standing:
  "(\<exists>row. claimable d r row) \<longleftrightarrow> standing d r \<in> {Some (stateQueued, False), Some (statePlanned, False)}"
  by (auto simp: claimable_def standing_def rowState_def)

lemma standing_cong: "runs d r = runs d' r \<Longrightarrow> standing d r = standing d' r"
  by (simp add: standing_def)

lemma standing_row:
  assumes "runs d r = Some row" and "touches us \<inter> {stateField, outcomeField, stopReasonField} = {}"
  shows "standing (put_row r (apply_updates us row) d) q = standing d q"
  using assms by (auto simp: standing_def rowState_def hasEnded_def untouched_read)

lemma on_row_standing:
  assumes "\<And>row a us. f row = Inr (a, us) \<Longrightarrow> touches us \<inter> {stateField, outcomeField, stopReasonField} = {}"
  shows "standing (snd (run_transaction fault (on_row r missing f) d)) q = standing d q"
proof (cases "run_transaction fault (on_row r missing f) d")
  case (Pair res d')
  show ?thesis
  proof (cases res)
    case (Inl e)
    then show ?thesis using Pair run_transaction_error [of fault "on_row r missing f" d] by simp
  next
    case (Inr a)
    then have "on_row r missing f d = Inr (a, d')" using Pair by (simp add: run_transaction_ok)
    then show ?thesis using Pair assms standing_row by (auto simp: on_row_Inr)
  qed
qed

lemma RecordHold_standing: "standing (snd (RecordHold fault r reason onDay now d)) q = standing d q"
  unfolding RecordHold_def by (rule on_row_standing) (auto simp: RecordHold_row_def Let_def)

lemma write_row_standing:
  "touches us \<inter> {stateField, outcomeField, stopReasonField} = {} \<Longrightarrow> standing (snd (write_row fault r us d)) q = standing d q"
  unfolding write_row_def by (rule on_row_standing) auto

lemma record_standing:
  "standing (snd (RecordTicketState fault r st d)) q = standing d q"
  "standing (snd (RecordVerdict fault r v d)) q = standing d q"
  by (simp_all add: RecordTicketState_def RecordVerdict_def write_row_standing)

lemma Raise_standing: "standing (snd (Raise fault n now d)) q = standing d q"
  by (auto intro!: standing_cong simp: Raise_def run_transaction_def create_notice_def put_notice_def split: option.splits)

lemma closed_standing: "standing (snd (RecordTicketsClosed faults moved listing tickets now d)) q = standing d q"
proof -
  have "standing (snd (close_each faults moved tickets now snaps n d)) q = standing d q" for snaps n d
  proof (induction snaps arbitrary: n d)
    case (Cons snap snaps)
    obtain r row where snap: "snap = (r, row)" by (cases snap)
    obtain res d' where one: "write_row (faults r) r [(ticketClosedAtField, Put (VTime now))] d = (res, d')" by (metis prod.exhaust)
    then have "standing d' q = standing d q"
      using write_row_standing [of "[(ticketClosedAtField, Put (VTime now))]" "faults r" r d q] by simp
    then show ?case using Cons.IH snap one by (cases res) auto
  qed simp
  then show ?thesis by (simp add: RecordTicketsClosed_def split: sum.splits)
qed

lemma Release_standing: "q \<noteq> r \<Longrightarrow> ledger_inv d \<Longrightarrow> standing (snd (Release fault r now d)) q = standing d q"
proof -
  assume q: "q \<noteq> r" and inv: "ledger_inv d"
  obtain res d' where run: "Release fault r now d = (res, d')" by (metis prod.exhaust)
  show ?thesis
  proof (cases res)
    case (Inl e)
    with run have "d' = d" unfolding Release_def by (metis run_transaction_error fst_conv snd_conv)
    with run show ?thesis by simp
  next
    case (Inr u)
    then have "end_claim r (\<lambda>_. release_updates stateQueued now)
        (\<lambda>_ entry. release_updates (if entryStage entry = StageBuild then statePlanned else stateQueued) now) d = Inr (u, d')"
      using run by (simp add: Release_def run_transaction_ok)
    from inv this show ?thesis by (cases rule: end_claim_cases) (use run q in \<open>auto simp: standing_def\<close>)
  qed
qed

lemma Release_frees:
  assumes inv: "ledger_inv d" and "Release fault r now d = (Inr u, d')" and "taken d r"
  shows "\<exists>row. claimable d' r row"
proof -
  have "end_claim r (\<lambda>_. release_updates stateQueued now)
      (\<lambda>_ entry. release_updates (if entryStage entry = StageBuild then statePlanned else stateQueued) now) d = Inr (u, d')"
    using assms(2) by (simp add: Release_def run_transaction_ok)
  with inv show ?thesis
    by (cases rule: end_claim_cases)
      (use assms(3) in \<open>auto simp: claimable_standing standing_def taken_def rowState_def hasEnded_def release_updates_def row_simps\<close>)
qed

section \<open>What the walk claims\<close>

definition claims_run :: "config \<Rightarrow> env \<Rightarrow> walk_facts \<Rightarrow> run_claim \<Rightarrow> db \<Rightarrow> db \<Rightarrow> bool" where
  "claims_run c e w cl d d' \<longleftrightarrow> (\<exists>cand passed t why fault query now.
     prepare_claim c e w passed cand = Try t \<and> cl = claim_of e cand t
     \<and> TryClaim fault query (claimRunID cl) now (tierBudget (tryTier t)) (tryFacts t) (tryReservation t) d = (Inr (True, why), d'))"

lemma prepare_facts:
  assumes "prepare_claim c e w passed cand = Try t"
  shows "candRunID cand \<notin> set passed" "factBreakerTripped (tryFacts t) = walkTripped w"
    "PlatformCap (factLimits (tryFacts t)) = poll_cap c"
  using assms by (auto simp: prepare_claim_def Let_def poll_cap_def split: if_splits sum.splits)

lemma claims_run_taken:
  assumes "claims_run c e w cl d d'" and "ledger_inv d"
  shows "taken d' (claimRunID cl)" and "\<not> taken d (claimRunID cl)" and "q \<noteq> claimRunID cl \<Longrightarrow> standing d' q = standing d q"
    and "\<not> walkTripped w"
proof -
  from assms(1) obtain cand passed t why fault query now where t: "prepare_claim c e w passed cand = Try t"
    and run: "TryClaim fault query (claimRunID cl) now (tierBudget (tryTier t)) (tryFacts t) (tryReservation t) d = (Inr (True, why), d')"
    by (auto simp: claims_run_def)
  from TryClaim_claimed [OF run] obtain row s where row: "claimable d (claimRunID cl) row"
    and adm: "Admit ((claim_input (readLedger d) row (tierBudget (tryTier t)) (tryFacts t) (tryReservation t))\<lparr>inSettled := s\<rparr>) = (True, [])"
    and d': "d' = claimed_db (claimRunID cl) row (tryFacts t) (tryReservation t) now d" by blast
  have ended: "hasEnded (apply_updates (claim_updates l row' facts res now) row') = hasEnded row'" for l row' facts res
    by (simp add: hasEnded_def untouched_read claim_updates_def)
  show "taken d' (claimRunID cl)"
    using row ended unfolding d' taken_def standing_def by (auto simp: claimable_def claimed_db_def)
  show "\<not> taken d (claimRunID cl)"
    using row by (auto simp: taken_def standing_def claimable_def rowState_def)
  show "standing d' q = standing d q" if "q \<noteq> claimRunID cl"
    using that unfolding d' by (simp add: standing_def claimed_db_def)
  show "\<not> walkTripped w"
    using claim_admitted(1) [OF adm] prepare_facts(2) [OF t] by (auto simp: HeldBeforeBudget_none no_hold_def)
qed

text \<open>A claim that failed leaves a taken run as it is.\<close>

lemma TryClaim_taken:
  assumes "TryClaim fault query r now cfg facts res d = (out, d')" and "taken d q"
  shows "taken d' q"
proof (cases out)
  case (Inl err)
  then have "d' = d" using assms(1) unfolding TryClaim_def by (metis run_transaction_error fst_conv snd_conv)
  with assms(2) show ?thesis by simp
next
  case (Inr p)
  then obtain ok why where p: "out = Inr (ok, why)" by (cases p) simp
  from TryClaim_ok [OF assms(1) [unfolded p]] show ?thesis
    by (cases rule: TryClaim_body_cases)
      (use assms(2) in \<open>auto simp: taken_def standing_def ended_db_def withheld_db_def claimed_db_def claimable_def
         rowState_def\<close>)
qed

lemma recordHold_standing: "standing (pollDB (recordHold e cand b budget s)) q = standing (pollDB s) q"
  by (simp add: recordHold_def Let_def RecordHold_standing)

lemma noticeDeferral_standing:
  "standing (pollDB (snd (noticeDeferral e r cfg model res b link detail history s))) q = standing (pollDB s) q"
  using Raise_standing
  by (auto simp: noticeDeferral_def Let_def on_db_def split: option.splits sum.splits prod.splits) (metis snd_conv)+

lemma try_candidate_claims:
  assumes "try_candidate c e w cand noticed s = (Inr (Some cl), noticed', s')"
  shows "claims_run c e w cl (pollDB s) (pollDB s')"
proof (cases "prepare_claim c e w (pollUnchecked s) cand")
  case (Try t)
  then show ?thesis
    using assms unfolding claims_run_def
    by (intro exI [of _ cand] exI [of _ "pollUnchecked s"] exI [of _ t])
      (auto simp: try_candidate_def Let_def on_db_def claim_of_def split: sum.splits prod.splits bool.splits if_splits, blast+)
qed (use assms in \<open>auto simp: try_candidate_def Let_def split: option.splits\<close>)

lemma try_candidate_taken:
  assumes "try_candidate c e w cand noticed s = (out, noticed', s')" and "ledger_inv (pollDB s)" and "taken (pollDB s) q"
  shows "taken (pollDB s') q"
proof (cases "prepare_claim c e w (pollUnchecked s) cand")
  case (Withheld why hold)
  then show ?thesis
    using assms(1,3) recordHold_standing [of e cand why _ "defer_run e cand why s" q]
    by (auto simp: try_candidate_def Let_def taken_def split: option.splits)
next
  case (Try t)
  let ?r = "candRunID cand" and ?budget = "tierBudget (tryTier t)"
  obtain res s1 where claim: "on_db (TryClaim (envFault e CClaim ?r) (\<lambda>_ _. Inr []) ?r (envClock e CClaim ?r) ?budget (tryFacts t)
      (tryReservation t)) s = (res, s1)" by (metis prod.exhaust)
  then have "taken (pollDB s1) q"
    using assms(3) TryClaim_taken by (fastforce simp: on_db_def split: prod.splits)
  moreover have "standing (pollDB s2) q = standing (pollDB s1) q"
    if "noticeDeferral e r cfg model rs b link detail history (recordHold e cand why budget (defer_run e cand why s1)) = (x, s2)"
    for r cfg model rs b link detail history why budget x s2
    using noticeDeferral_standing [of e r cfg model rs b link detail history "recordHold e cand why budget (defer_run e cand why s1)" q]
      recordHold_standing [of e cand why budget "defer_run e cand why s1" q] that by simp
  moreover have "standing (pollDB (recordHold e cand why budget (defer_run e cand why s1))) q = standing (pollDB s1) q" for why budget
    by (simp add: recordHold_standing)
  ultimately show ?thesis
    using assms(1) Try claim unfolding try_candidate_def Let_def taken_def
    by (auto split: sum.splits prod.splits bool.splits if_splits)
qed

text \<open>
  A walk's claims: each was made between two states of the walk, of a run not taken before, and is
  taken at its end, as everything taken at its start is; no run is claimed twice.
\<close>

definition walk_ok :: "int \<Rightarrow> config \<Rightarrow> env \<Rightarrow> walk_facts \<Rightarrow> poll_state \<Rightarrow> run_claim list \<Rightarrow> poll_state \<Rightarrow> bool" where
  "walk_ok cap c e w s claims s' \<longleftrightarrow>
     distinct (map claimRunID claims)
     \<and> (\<forall>cl \<in> set claims.
          (\<exists>s1 s2. store_steps cap s s1 \<and> claims_run c e w cl (pollDB s1) (pollDB s2) \<and> store_steps cap s2 s')
          \<and> \<not> taken (pollDB s) (claimRunID cl) \<and> taken (pollDB s') (claimRunID cl))
     \<and> (\<forall>q. taken (pollDB s) q \<longrightarrow> taken (pollDB s') q)"

lemma walk_ok_nil: "(\<And>q. taken (pollDB s) q \<Longrightarrow> taken (pollDB s') q) \<Longrightarrow> walk_ok cap c e w s [] s'"
  by (simp add: walk_ok_def)

lemma walk_ok_skip:
  assumes "walk_ok cap c e w s1 claims s'" and "store_steps cap s s1" and "\<And>q. taken (pollDB s) q \<Longrightarrow> taken (pollDB s1) q"
  shows "walk_ok cap c e w s claims s'"
  using assms unfolding walk_ok_def by (blast intro: store_steps_trans)

lemma walk_ok_claim:
  assumes "walk_ok cap c e w s1 claims s'" and "claims_run c e w cl (pollDB s) (pollDB s1)" and "ledger_inv (pollDB s)"
    and "store_steps cap s s1" and "store_steps cap s1 s'" and "\<And>q. taken (pollDB s) q \<Longrightarrow> taken (pollDB s1) q"
  shows "walk_ok cap c e w s (cl # claims) s'"
proof -
  note new = claims_run_taken [OF assms(2,3)]
  have "claimRunID cl \<notin> claimRunID ` set claims"
    using assms(1) new(1) by (auto simp: walk_ok_def)
  moreover have "\<exists>s1 s2. store_steps cap s s1 \<and> claims_run c e w cl (pollDB s1) (pollDB s2) \<and> store_steps cap s2 s'"
    using assms(2,5) by blast
  moreover have "taken (pollDB s') (claimRunID cl)"
    using assms(1) new(1) by (simp add: walk_ok_def)
  ultimately show ?thesis
    using walk_ok_skip [OF assms(1,4,6)] new(2) by (auto simp: walk_ok_def)
qed

lemma claim_walk_ok:
  assumes "claim_walk c e w cands noticed s = ((claims, err), s')" and "ledger_inv (pollDB s)" and "poll_cap c \<le> cap"
  shows "walk_ok cap c e w s claims s'"
  using assms(1,2)
proof (induction cands arbitrary: noticed s claims)
  case (Cons cand cands)
  obtain out noticed' s1 where one: "try_candidate c e w cand noticed s = (out, noticed', s1)" by (rule prod_cases3)
  have step: "store_steps cap s s1"
    using try_candidate_steps [OF assms(3), of s e w cand noticed] one by simp
  have inv1: "ledger_inv (pollDB s1)" using step Cons.prems(2) by (rule store_steps_inv)
  have kept: "taken (pollDB s) q \<Longrightarrow> taken (pollDB s1) q" for q by (rule try_candidate_taken [OF one Cons.prems(2)])
  show ?case
  proof (cases out)
    case (Inl err')
    then show ?thesis using Cons.prems(1) one kept walk_ok_nil by auto
  next
    case (Inr claimed)
    then obtain rest where run: "claim_walk c e w cands noticed' s1 = ((rest, err), s')"
      and claims: "claims = (case claimed of None \<Rightarrow> rest | Some cl \<Rightarrow> cl # rest)"
      using Cons.prems(1) one by (auto split: prod.splits)
    note rest = Cons.IH [OF run inv1]
    show ?thesis
    proof (cases claimed)
      case None
      then show ?thesis using walk_ok_skip [OF rest step kept] claims by simp
    next
      case (Some cl)
      have "store_steps cap s1 s'" using run claim_walk_steps [OF assms(3)] by (rule steps_result)
      from walk_ok_claim [OF rest try_candidate_claims [OF one [unfolded Inr Some]] Cons.prems(2) step this kept]
      show ?thesis using Some claims by simp
    qed
  qed
qed (auto intro: walk_ok_nil)

lemma walk_ok_cong:
  "pollDB s = pollDB t \<Longrightarrow> walk_ok cap c e w s claims s' \<longleftrightarrow> walk_ok cap c e w t claims s'"
  by (simp add: walk_ok_def store_steps_def)

lemma claim_phase_ok:
  assumes "claim_phase c e issues s = ((claims, err), s')" and "ledger_inv (pollDB s)" and "poll_cap c \<le> cap"
  shows "\<exists>w. walk_ok cap c e w s claims s' \<and> walkTripped w = breakerTripped e (pollDB s)"
proof -
  have none: "\<exists>w. walk_ok cap c e w s claims s' \<and> walkTripped w = breakerTripped e (pollDB s)"
    if "claims = []" "pollDB s' = pollDB s"
    using that by (intro exI [of _ "undefined\<lparr>walkTripped := breakerTripped e (pollDB s)\<rparr>"]) (simp add: walk_ok_nil)
  show ?thesis
  proof (cases "allowlistRead c")
    case False
    then show ?thesis using assms(1) none by (auto simp: claim_phase_def)
  next
    case True
    obtain prs reaches where read: "countOpenPRs e (cfgRepos c) = (prs, reaches)" by (metis prod.exhaust)
    let ?s = "s\<lparr>pollReach := reaches\<rparr>"
    show ?thesis
    proof (cases "Candidates (envCandidates e (pollDB s))")
      case (Inl err')
      then show ?thesis using assms(1) none True read by (auto simp: claim_phase_def admitClaims_def)
    next
      case (Inr cands)
      then obtain w where "claim_walk c e w cands [] ?s = ((claims, err), s')" "walkTripped w = breakerTripped e (pollDB s)"
        using assms(1) True read by (auto simp: claim_phase_def admitClaims_def Let_def)
      moreover have "walk_ok cap c e w ?s claims s' \<longleftrightarrow> walk_ok cap c e w s claims s'" by (rule walk_ok_cong) simp
      ultimately show ?thesis using claim_walk_ok [OF _ _ assms(3), of e w cands "[]" ?s claims err s'] assms(2) by auto
    qed
  qed
qed

section \<open>Starting the claims\<close>

lemma recordReach_standing: "standing (pollDB (recordReach e reaches s)) q = standing (pollDB s) q"
  by simp

lemma pollProjects_standing: "standing (pollDB (pollProjects e reaches s)) q = standing (pollDB s) q"
  by (auto simp: pollProjects_def Let_def recordClosed_def closed_standing split: sum.splits)

lemma Release_taken:
  assumes inv: "ledger_inv d" and "taken d r"
  shows "\<exists>d'. Release None r now d = (Inr (), d') \<and> (\<exists>row. claimable d' r row)"
proof -
  from assms(2) obtain row where row: "runs d r = Some row" by (auto simp: taken_def standing_def)
  have "\<exists>d'. Release None r now d = (Inr (), d')"
  proof (cases "ledger_reservation (readLedger d) r (rowAttempt row)")
    case None
    then show ?thesis using row by (simp add: Release_def run_transaction_def end_claim_def get_row_def)
  next
    case (Some p)
    then obtain key entry where p: "ledger_reservation (readLedger d) r (rowAttempt row) = Some (key, entry)"
      by (cases p) simp
    then show ?thesis
      using row row_and_drop [OF row reservation_Some_only(1) [OF inv row p]]
      by (simp add: Release_def run_transaction_def end_claim_def get_row_def)
  qed
  then show ?thesis using Release_frees [OF inv _ assms(2)] by blast
qed

lemma startTicket_standing [simp]: "standing (pollDB (startTicket e cl s)) q = standing (pollDB s) q"
  by (simp add: startTicket_def Let_def record_standing split: sum.splits)

lemma recordVerdict_standing [simp]: "standing (pollDB (recordVerdict e cl s)) q = standing (pollDB s) q"
  by (simp add: recordVerdict_def record_standing)

text \<open>Where a started run stands: claimed, or back in the queue when its dispatch was refused.\<close>

definition start_outcome :: "env \<Rightarrow> run_claim \<Rightarrow> db \<Rightarrow> bool" where
  "start_outcome e cl d \<longleftrightarrow>
     (if envDispatch e cl = None \<or> envFault e CRelease (claimRunID cl) \<noteq> None then taken d (claimRunID cl)
      else (\<exists>row. claimable d (claimRunID cl) row))"

lemma start_outcome_cong: "standing d (claimRunID cl) = standing d' (claimRunID cl) \<Longrightarrow> start_outcome e cl d = start_outcome e cl d'"
  by (simp add: start_outcome_def taken_def claimable_standing)

lemma start_run_effect:
  assumes inv: "ledger_inv (pollDB s)" and run: "start_run e cl s = (errs, s')"
  shows "q \<noteq> claimRunID cl \<Longrightarrow> standing (pollDB s') q = standing (pollDB s) q"
    and "taken (pollDB s) (claimRunID cl) \<Longrightarrow> start_outcome e cl (pollDB s')"
    and "filter starts (pollCalls s') = filter starts (pollCalls s) @ [DispatchRun cl]"
    and "pollDispatched s' = pollDispatched s @ (if envDispatch e cl = None then [claimRunID cl] else [])"
proof -
  define s1 where "s1 = call_outside (DispatchRun cl) (recordVerdict e cl (startTicket e cl s))"
  have st: "standing (pollDB s1) q = standing (pollDB s) q" for q by (simp add: s1_def)
  have inv1: "ledger_inv (pollDB s1)"
    using inv store_steps_inv [OF store_steps_trans [OF startTicket_steps recordVerdict_steps]] by (simp add: s1_def)
  have ticket: "filter starts (pollCalls (startTicket e cl s)) = filter starts (pollCalls s)" "pollDispatched (startTicket e cl s) = pollDispatched s"
    by (simp_all add: startTicket_def Let_def split: sum.splits)
  have calls: "filter starts (pollCalls s1) = filter starts (pollCalls s) @ [DispatchRun cl]" "pollDispatched s1 = pollDispatched s"
    by (simp_all add: s1_def recordVerdict_def ticket)
  let ?r = "claimRunID cl"
  have "(if envDispatch e cl = None then pollDB s' = pollDB s1
      else pollDB s' = snd (Release (envFault e CRelease ?r) ?r (envClock e CRelease ?r) (pollDB s1)))
    \<and> filter starts (pollCalls s') = filter starts (pollCalls s1)
    \<and> pollDispatched s' = pollDispatched s1 @ (if envDispatch e cl = None then [?r] else [])"
    using run by (auto simp: start_run_def dispatch_def Let_def s1_def [symmetric] on_db_def split: option.splits prod.splits sum.splits)
  then have db: "pollDB s' = (if envDispatch e cl = None then pollDB s1
      else snd (Release (envFault e CRelease ?r) ?r (envClock e CRelease ?r) (pollDB s1)))"
    and rest: "filter starts (pollCalls s') = filter starts (pollCalls s1)"
      "pollDispatched s' = pollDispatched s1 @ (if envDispatch e cl = None then [?r] else [])" by auto
  show "standing (pollDB s') q = standing (pollDB s) q" if "q \<noteq> ?r"
    using that db Release_standing [OF that inv1] st by simp
  show "start_outcome e cl (pollDB s')" if "taken (pollDB s) ?r"
  proof -
    have taken1: "taken (pollDB s1) ?r" using that st by (simp add: taken_def)
    show ?thesis
    proof (cases "envDispatch e cl = None")
      case False
      show ?thesis
      proof (cases "envFault e CRelease ?r")
        case None
        then show ?thesis using False db Release_taken [OF inv1 taken1, of "envClock e CRelease ?r"] by (auto simp: start_outcome_def)
      next
        case (Some err)
        then have "pollDB s' = pollDB s1" using False db by (simp add: Release_def run_transaction_def)
        with Some taken1 show ?thesis by (simp add: start_outcome_def)
      qed
    qed (use db taken1 in \<open>simp add: start_outcome_def\<close>)
  qed
  show "filter starts (pollCalls s') = filter starts (pollCalls s) @ [DispatchRun cl]"
    and "pollDispatched s' = pollDispatched s @ (if envDispatch e cl = None then [?r] else [])"
    using rest calls by simp_all
qed

lemma start_all_effect:
  assumes "ledger_inv (pollDB s)" and "each (start_run e) claims s = (errs, s')" and "distinct (map claimRunID claims)"
    and "\<And>cl. cl \<in> set claims \<Longrightarrow> taken (pollDB s) (claimRunID cl)"
  shows "(\<forall>cl \<in> set claims. start_outcome e cl (pollDB s'))
    \<and> (\<forall>q. q \<notin> claimRunID ` set claims \<longrightarrow> standing (pollDB s') q = standing (pollDB s) q)
    \<and> filter starts (pollCalls s') = filter starts (pollCalls s) @ map DispatchRun claims
    \<and> pollDispatched s' = pollDispatched s @ map claimRunID (filter (\<lambda>cl. envDispatch e cl = None) claims)"
  using assms
proof (induction claims arbitrary: s errs)
  case (Cons cl claims)
  obtain errs1 s1 rest where one: "start_run e cl s = (errs1, s1)" and more: "each (start_run e) claims s1 = (rest, s')"
    using Cons.prems(2) by (auto split: prod.splits)
  have inv1: "ledger_inv (pollDB s1)"
    using one start_run_steps Cons.prems(1) by (metis store_steps_inv steps_result)
  note eff = start_run_effect [OF Cons.prems(1) one]
  have others: "standing (pollDB s1) (claimRunID cl') = standing (pollDB s) (claimRunID cl')" if "cl' \<in> set claims" for cl'
    using that Cons.prems(3) by (intro eff(1)) (auto simp: image_iff)
  have "taken (pollDB s1) (claimRunID cl')" if "cl' \<in> set claims" for cl'
    using that others [OF that] Cons.prems(4) [of cl'] by (simp add: taken_def)
  note ih = Cons.IH [OF inv1 more _ this]
  have fresh: "claimRunID cl \<notin> claimRunID ` set claims" using Cons.prems(3) by simp
  have "start_outcome e cl (pollDB s')"
    using eff(2) Cons.prems(3,4) ih fresh start_outcome_cong [of "pollDB s'" cl "pollDB s1"] by simp
  then show ?case using ih eff Cons.prems(3) by auto
qed simp

end
