(* ===== verification/Poll_Starts.thy ===== *)
theory Poll_Starts
  imports Poll_Safety
begin

text \<open>
  What a whole poll starts, put together from its phases: the claims of its walk and nothing else, and
  none while the breaker is tripped.
\<close>

section \<open>The breaker before the walk\<close>

text \<open>Nothing a poll does before its walk reads the breaker changes it.\<close>

definition keeps_breaker :: "poll_state \<Rightarrow> poll_state \<Rightarrow> bool" where
  "keeps_breaker s s' \<longleftrightarrow> breaker (pollDB s') = breaker (pollDB s)"

lemma keeps_breaker_refl [simp, intro]: "keeps_breaker s s"
  by (simp add: keeps_breaker_def)

lemma keeps_breaker_trans: "keeps_breaker s t \<Longrightarrow> keeps_breaker t u \<Longrightarrow> keeps_breaker s u"
  by (simp add: keeps_breaker_def)

lemma keeps_breaker_fields [simp]:
  "keeps_breaker s (s'\<lparr>pollRejections := x\<rparr>) \<longleftrightarrow> keeps_breaker s s'" "keeps_breaker s (s'\<lparr>pollUnchecked := y\<rparr>) \<longleftrightarrow> keeps_breaker s s'"
  "keeps_breaker s (s'\<lparr>pollEnqueued := z\<rparr>) \<longleftrightarrow> keeps_breaker s s'"
  "keeps_breaker s (restoreTicket t st s') \<longleftrightarrow> keeps_breaker s s'"
  by (simp_all add: keeps_breaker_def)

lemma on_db_breaker: "on_db f s = (r, s') \<Longrightarrow> breaker (snd (f (pollDB s))) = breaker (pollDB s) \<Longrightarrow> keeps_breaker s s'"
  by (auto simp: on_db_def keeps_breaker_def split: prod.splits)

lemma on_row_breaker: "breaker (snd (run_transaction fault (on_row r missing f) d)) = breaker d"
  using run_transaction_cases [of fault "on_row r missing f" d] by (auto simp: on_row_Inr)

lemma op_breaker [simp]:
  "breaker (snd (Reject fault t rej d)) = breaker d"
  "breaker (snd (Enqueue fault q d)) = breaker d"
  "breaker (snd (UpdateQueuedPriority fault r rank d)) = breaker d"
  "breaker (snd (RefreshQueuedTicket fault q d)) = breaker d"
  "breaker (snd (StopRetried fault r reason detail now d)) = breaker d"
  "breaker (snd (RefreshRetriedModels fault r m d)) = breaker d"
  "breaker (snd (Raise fault n now d)) = breaker d"
       apply (auto simp: Reject_def Enqueue_def Raise_def create_notice_def put_notice_def run_transaction_def split: option.splits) [2]
     apply (simp_all add: UpdateQueuedPriority_def RefreshQueuedTicket_def StopRetried_def RefreshRetriedModels_def
      updateRetried_def on_row_breaker)
  by (auto simp: Raise_def create_notice_def put_notice_def run_transaction_def split: option.splits)

lemma requeue_breaker: "breaker (snd (RequeueTransient fault r now cls limit d)) = breaker d"
  unfolding RequeueTransient_def requeue_def
  by (rule run_transaction_keeps)
    (auto simp: requeue_body_def Let_def and_then_Inr dropReservations_def update_row_def update_ledger_def split: option.splits if_splits prod.splits)

lemma admit_all_breaker: "keeps_breaker s (snd (admit_all c e issues s))"
proof -
  have refuse: "keeps_breaker s (snd (refuse e rej s))" for rej s
    by (auto simp: refuse_def dest!: on_db_breaker split: prod.splits sum.splits)
  have models: "keeps_breaker s (snd (refreshRetriedModels c e issue r s))" for issue r s
    by (auto simp: refreshRetriedModels_def dest!: on_db_breaker intro: keeps_breaker_trans [OF _ refuse]
        split: option.splits sum.splits prod.splits bool.splits)
  have refresh: "keeps_breaker s (snd (refresh_queued c e issue q s))" for issue q s
    unfolding refresh_queued_def Let_def
    by (rule keeps_breaker_trans [OF _ models]) (simp add: keeps_breaker_def)
  have new: "keeps_breaker s (snd (enqueue_new e q s))" for q s
    by (auto simp: enqueue_new_def dest!: on_db_breaker split: prod.splits sum.splits)
  have one: "keeps_breaker s (snd (admit c e issue s))" for issue s
    using refuse refresh new by (auto simp: admit_def split: option.splits sum.splits)
  have "keeps_breaker s (snd (until_error (admit c e) issues s))"
  proof (induction issues arbitrary: s)
    case (Cons issue issues)
    show ?case using one [of s issue] keeps_breaker_trans [OF one [of s issue] Cons.IH] by (auto split: prod.splits option.splits)
  qed simp
  then show ?thesis by (simp add: admit_all_def)
qed

lemma requeueStopped_breaker: "keeps_breaker s (snd (requeueStopped e s))"
proof -
  have one: "keeps_breaker s (snd (requeue_stop e t s))" for t s
    by (auto simp: requeue_stop_def Let_def write_db_def requeue_breaker dest!: on_db_breaker split: prod.splits sum.splits)
  have "keeps_breaker s (snd (each (requeue_stop e) stops s))" for stops
  proof (induction stops arbitrary: s)
    case (Cons t stops)
    show ?case using keeps_breaker_trans [OF one [of s t] Cons.IH] by (auto split: prod.splits)
  qed simp
  then show ?thesis by (simp add: requeueStopped_def split: sum.splits)
qed

section \<open>What a poll starts\<close>

definition started :: "config \<Rightarrow> env \<Rightarrow> int \<Rightarrow> poll_state \<Rightarrow> run_claim list \<Rightarrow> poll_state \<Rightarrow> bool" where
  "started c e cap s claims s' \<longleftrightarrow>
     (\<exists>w s1 s2. store_steps cap s s1 \<and> keeps_breaker s s1 \<and> walk_ok cap c e w s1 claims s2
        \<and> walkTripped w = breakerTripped e (pollDB s1) \<and> store_steps cap s2 s')
     \<and> (\<forall>cl \<in> set claims. start_outcome e cl (pollDB s'))
     \<and> filter starts (pollCalls s') = filter starts (pollCalls s) @ map DispatchRun claims
     \<and> pollDispatched s' = pollDispatched s @ map claimRunID (filter (\<lambda>cl. envDispatch e cl = None) claims)"

lemma started_nothing:
  assumes "store_steps cap s s'" and "quiet s s'" and "keeps_breaker s s'"
  shows "started c e cap s [] s'"
  unfolding started_def
  by (intro conjI exI [of _ "undefined\<lparr>walkTripped := breakerTripped e (pollDB s')\<rparr>"] exI [of _ s'])
    (use assms in \<open>auto simp: walk_ok_def quiet_def\<close>)

lemma poll_started:
  assumes run: "poll c e s = (out, s')" and inv: "ledger_inv (pollDB s)" and cap: "poll_cap c \<le> cap"
  shows "\<exists>claims. started c e cap s claims s'"
proof (cases "envDelegated e")
  case (Inl err)
  then have "s' = s" using run by (simp add: poll_def)
  then show ?thesis using started_nothing [of cap s s] by auto
next
  case (Inr issues)
  obtain err s1 where 1: "(if allowlistRead c then admit_all c e issues s else (None, s)) = (err, s1)" by (metis prod.exhaust)
  have s1: "store_steps cap s s1" "quiet s s1" "keeps_breaker s s1"
    using 1 admit_all_steps [of cap s c e issues] admit_all_quiet [of s c e issues] admit_all_breaker [of s c e issues]
    by (auto split: if_splits)
  show ?thesis
  proof (cases err)
    case (Some x)
    then have "s' = s1" using run Inr 1 by (simp add: poll_def)
    then show ?thesis using started_nothing [OF s1] by blast
  next
    case None
    obtain errs2 s2 where 2: "requeueStopped e s1 = (errs2, s2)" by (metis prod.exhaust)
    obtain claims err3 s3 where 3: "claim_phase c e issues s2 = ((claims, err3), s3)" by (metis prod.exhaust)
    define s4 where "s4 = recordReach e (pollReach s3) s3"
    define s5 where "s5 = (if allowlistRead c then pollProjects e (pollReach s4) s4 else s4)"
    obtain errs6 where 6: "each (start_run e) claims s5 = (errs6, s')"
      using run Inr 1 None 2 3 unfolding s5_def s4_def by (auto simp: poll_def Let_def simp del: if_split split: prod.splits)
    have s2: "store_steps cap s s2" "quiet s s2" "keeps_breaker s s2"
      using 2 store_steps_trans [OF s1(1) requeueStopped_steps [of cap s1 e]] quiet_trans [OF s1(2) requeueStopped_quiet [of s1 e]]
        keeps_breaker_trans [OF s1(3) requeueStopped_breaker [of s1 e]] by auto
    have inv2: "ledger_inv (pollDB s2)" using s2(1) inv by (rule store_steps_inv)
    from claim_phase_ok [OF 3 inv2 cap] obtain w where w: "walk_ok cap c e w s2 claims s3"
      "walkTripped w = breakerTripped e (pollDB s2)" by blast
    have s3: "store_steps cap s2 s3" "quiet s2 s3"
      using 3 claim_phase_steps [OF cap, of s2 e issues] claim_phase_quiet [of s2 c e issues] by auto
    have s5: "store_steps cap s3 s5" "quiet s3 s5" "standing (pollDB s5) q = standing (pollDB s3) q" for q
      using store_steps_trans [OF store_steps_same pollProjects_steps] quiet_trans [OF recordReach_quiet pollProjects_quiet]
        recordReach_quiet
      by (auto simp: s5_def s4_def pollProjects_standing intro: store_steps_same)
    have inv5: "ledger_inv (pollDB s5)" using inv2 s3(1) s5(1) by (blast intro: store_steps_inv)
    have taken5: "taken (pollDB s5) (claimRunID cl)" if "cl \<in> set claims" for cl
      using w(1) that s5(3) by (simp add: walk_ok_def taken_def)
    have ids: "distinct (map claimRunID claims)" using w(1) by (simp add: walk_ok_def)
    note all = start_all_effect [OF inv5 6 ids taken5]
    have "store_steps cap s5 s'" by (rule each_result [OF 6 start_run_steps])
    then have "store_steps cap s3 s'" by (rule store_steps_trans [OF s5(1)])
    moreover have "quiet s s5" using s2(2) s3(2) s5(2) by (blast intro: quiet_trans)
    ultimately have "started c e cap s claims s'"
      using all s2 w unfolding started_def by (auto simp: quiet_def)
    then show ?thesis by blast
  qed
qed

lemma Poll_calls:
  assumes "envMissing e = []" and "poll c e (poll_start d) = (out, s0)"
  shows "quiet s0 (snd (Poll c e d))"
proof -
  obtain issues errs0 where out: "out = (issues, errs0)" by (cases out)
  obtain errs1 s1 where 1: "sweep_phase e (recordProjectNames e s0) = (errs1, s1)" by (metis prod.exhaust)
  obtain errs2 s2 where 2: "measureRewrites c e s1 = (errs2, s2)" by (metis prod.exhaust)
  obtain errs3 s3 where 3: "settleChecks e s2 = (errs3, s3)" by (metis prod.exhaust)
  obtain errs4 s4 where 4: "postDecisions c e s3 = (errs4, s4)" by (metis prod.exhaust)
  obtain errs5 s5 where 5: "noticeStuck e issues s4 = (errs5, s5)" by (metis prod.exhaust)
  obtain errs6 s6 where 6: "notices_phase e s5 = (errs6, s6)" by (metis prod.exhaust)
  have "quiet s0 (recordProjectNames e s0)" by (rule recordProjectNames_quiet)
  also have "quiet (recordProjectNames e s0) s1" using 1 sweep_phase_quiet by (rule quiet_result)
  also have "quiet s1 s2" using 2 measureRewrites_quiet by (rule quiet_result)
  also have "quiet s2 s3" using 3 settleChecks_quiet by (rule quiet_result)
  also have "quiet s3 s4" using 4 postDecisions_quiet by (rule quiet_result)
  also have "quiet s4 s5" using 5 noticeStuck_quiet by (rule quiet_result)
  also have "quiet s5 s6" using 6 notices_phase_quiet by (rule quiet_result)
  finally show ?thesis using assms out 1 2 3 4 5 6 by (simp add: Poll_def)
qed

text \<open>A tripped breaker holds every claim.\<close>

lemma started_tripped:
  assumes "started c e cap s claims s'" and "ledger_inv (pollDB s)" and "envFault e CBreaker [] \<noteq> None \<or> Tripped (pollDB s)"
  shows "claims = []"
proof (rule ccontr)
  assume "claims \<noteq> []"
  then obtain cl where cl: "cl \<in> set claims" by (cases claims) auto
  from assms(1) obtain w s1 s2 where s1: "store_steps cap s s1" "keeps_breaker s s1" "walk_ok cap c e w s1 claims s2"
    "walkTripped w = breakerTripped e (pollDB s1)" by (auto simp: started_def)
  from s1(3) cl obtain t :: poll_state and u :: poll_state where tu: "store_steps cap s1 t" "claims_run c e w cl (pollDB t) (pollDB u)"
    unfolding walk_ok_def by blast
  have "ledger_inv (pollDB t)" using assms(2) s1(1) tu(1) by (blast intro: store_steps_inv)
  from claims_run_taken(4) [OF tu(2) this] have "\<not> breakerTripped e (pollDB s1)" using s1(4) by simp
  with assms(3) s1(2) show False by (auto simp: breakerTripped_def Tripped_def keeps_breaker_def split: option.splits)
qed

lemma claims_run_try:
  "claims_run c e w cl d d' \<Longrightarrow>
     \<exists>fault query now cfg facts res why. TryClaim fault query (claimRunID cl) now cfg facts res d = (Inr (True, why), d')"
  unfolding claims_run_def by blast

lemma started_claim:
  assumes "started c e cap s claims s'" and "cl \<in> set claims"
  obtains t u :: poll_state and w where "store_steps cap s t" "claims_run c e w cl (pollDB t) (pollDB u)" "store_steps cap u s'"
proof -
  from assms(1) obtain w s1 s2 where s1: "store_steps cap s s1" "walk_ok cap c e w s1 claims s2" "store_steps cap s2 s'"
    by (auto simp: started_def)
  from s1(2) assms(2) obtain t u :: poll_state where "store_steps cap s1 t" "claims_run c e w cl (pollDB t) (pollDB u)" "store_steps cap u s2"
    unfolding walk_ok_def by blast
  then show ?thesis using that s1(1,3) store_steps_trans by blast
qed

end
