(* ===== verification/Run_Life.thy ===== *)
theory Run_Life
  imports Queue_System
begin

text \<open>
  What several operations of the store do to one run together: a claim and its release, a settlement
  applied twice, a requeue and the claim it leads to, a retry applied twice, and a question with its
  answer.
\<close>

section \<open>A claim and its release\<close>

lemma claimed_row:
  assumes "ledger_inv d" and "claimable d r row"
  shows "runs (claimed_db r row facts res now d) r = Some (apply_updates (claim_updates (readLedger d) row facts res now) row)"
  by (simp add: claimed_db_def)

lemma reserved_after_claim:
  assumes inv: "ledger_inv d" and row: "claimable d r row"
  shows "ledger_reservation (readLedger (claimed_db r row facts res now d)) r (rowAttempt row)
    = Some (reservationKey r (rowAttempt row) (resStage res), claim_entry row facts res now)"
proof -
  let ?d = "claimed_db r row facts res now d" and ?key = "reservationKey r (rowAttempt row) (resStage res)"
  have none: "held d (reservationKey r (rowAttempt row) st) = None" for st
    by (rule claim_key_new [OF inv row])
  have held: "map_of (Reservations (readLedger ?d)) k = (if k = ?key then Some (claim_entry row facts res now)
      else map_of (Reservations (readLedger d)) k)" for k
    by (simp add: claimed_ledger(1) [OF inv row])
  have keys: "reservedKeys (readLedger ?d) r (rowAttempt row) = [?key]"
  proof (cases "resStage res = StagePlan")
    case True
    have "reservationKey r (rowAttempt row) StageBuild \<noteq> reservationKey r (rowAttempt row) StagePlan"
      by (simp add: reservationKey_def stageKey_def planKeySuffix_def)
    then show ?thesis using True none [of StageBuild] by (simp add: reservedKeys_def held_keys_def held held_def)
  next
    case False
    have "reservationKey r (rowAttempt row) (resStage res) = reservationKey r (rowAttempt row) StageBuild"
      "reservationKey r (rowAttempt row) StagePlan \<noteq> reservationKey r (rowAttempt row) StageBuild"
      using False by (simp_all add: reservationKey_def stageKey_def planKeySuffix_def)
    then show ?thesis using none [of StagePlan] by (simp add: reservedKeys_def held_keys_def held held_def)
  qed
  show ?thesis using held [of ?key] by (simp add: ledger_reservation_def keys)
qed

lemma delete_snoc: "map_of m k = None \<Longrightarrow> AList.delete k (m @ [(k, v)]) = m"
  by (induction m) (auto split: if_splits)

lemma release_updates_row [simp]:
  "rowState (apply_updates (release_updates s now) row) = s"
  "rowAttempt (apply_updates (release_updates s now) row) = rowAttempt row"
  "hasEnded (apply_updates (release_updates s now) row) = hasEnded row"
  by (simp_all add: release_updates_def rowState_def rowAttempt_def hasEnded_def row_simps)

lemma claim_keeps_unended [simp]:
  "hasEnded (apply_updates (claim_updates l row facts res now) row') = hasEnded row'"
  by (simp add: claim_updates_def hasEnded_def row_simps)

lemma claim_then_release:
  assumes inv: "ledger_inv d" and row: "claimable d r row"
  shows "\<exists>row' d'. Release None r later (claimed_db r row facts res now d) = (Inr (), d')
    \<and> claimable d' r row' \<and> rowAttempt row' = rowAttempt row
    \<and> Reservations (readLedger d') = Reservations (readLedger d)
    \<and> (\<forall>q. q \<noteq> r \<longrightarrow> runs d' q = runs d q)"
proof -
  let ?c = "claimed_db r row facts res now d" and ?key = "reservationKey r (rowAttempt row) (resStage res)"
  let ?crow = "apply_updates (claim_updates (readLedger d) row facts res now) row"
  let ?s = "if resStage res = StageBuild then statePlanned else stateQueued"
  let ?row = "apply_updates (release_updates ?s later) ?crow"
  let ?d = "put_row r ?row (set_ledger (drop_key ?key (readLedger ?c)) ?c)"
  have crow: "runs ?c r = Some ?crow" by (rule claimed_row [OF inv row])
  have res: "ledger_reservation (readLedger ?c) r (rowAttempt ?crow) = Some (?key, claim_entry row facts res now)"
    using reserved_after_claim [OF inv row] by simp
  have heldc: "held ?c ?key = Some (claim_entry row facts res now)"
    using ledger_reservation_Some [OF res] by (simp add: held_def)
  have "Release None r later ?c = (Inr (), ?d)"
    using crow res row_and_drop [OF crow heldc]
    by (simp add: Release_def run_transaction_def end_claim_def get_row_def)
  moreover have "claimable ?d r ?row"
    using row by (auto simp: claimable_def rowState_def [symmetric])
  moreover have "Reservations (readLedger ?d) = Reservations (readLedger d)"
    using claim_key_new [OF inv row, of "resStage res"]
    by (simp add: claimed_ledger(2) [OF inv row] delete_snoc held_def)
  moreover have "runs ?d q = runs d q" if "q \<noteq> r" for q
    using that by (simp add: claimed_db_def)
  ultimately show ?thesis by (intro exI [of _ ?row] exI [of _ ?d]) simp
qed

section \<open>Settlements\<close>

lemma settle_second:
  assumes "settle_body recent r a st d = Inr (u, d')"
  shows "settle_body recent' r a st d' = Inr ((), d')"
proof -
  from assms have "held d' (settle_key r a st) = None"
    by (rule settle_body_cases) simp_all
  then show ?thesis by (simp add: settle_body_def Let_def held_def)
qed

lemma settle_effect:
  assumes "settle_body recent r a st d = Inr (u, d')"
  shows "held d' k = (if k = settle_key r a st then None else held d k)"
    and "ledgerN (readLedger d') = ledgerN (readLedger d)"
    and "q \<noteq> r \<Longrightarrow> runs d' q = runs d q"
    and "held d (settle_key r a st) = Some e \<Longrightarrow> entryStage e \<noteq> StagePlan \<Longrightarrow> runs d' = runs d"
  using assms by (auto elim!: settle_body_cases simp: held_def)

text \<open>A settled plan stage moves its reserved cost and minutes onto its row, once.\<close>

lemma planSettle_reads:
  "int_of (apply_updates (planSettle e row' @ us) row) planSpendMicrosField =
     int_of (apply_updates us (apply_updates (planSettle e row') row)) planSpendMicrosField"
  by (simp add: apply_updates_append)

lemma settle_plan_moves:
  assumes "settle_body recent r a st d = Inr (u, d')"
    and "held d (settle_key r a st) = Some e" and "entryStage e = StagePlan" and "runs d r = Some row"
  shows "\<exists>row'. runs d' r = Some row' \<and> rowState row' = statePlanned
    \<and> int_of row' planSpendMicrosField = int64 (int_of row planSpendMicrosField + ProviderCostMicros e)
    \<and> int_of row' planSpendMinutesField = int64 (int_of row planSpendMinutesField + entryRunnerMinutes e)"
  using assms(1)
proof (cases rule: settle_body_cases)
  case (plan row1 e1)
  then show ?thesis using assms(2,4)
    by (auto simp: planSettle_def rowState_def row_simps)
qed (use assms in simp_all)

section \<open>Requeues\<close>

text \<open>The deciders of the five requeues.\<close>

definition requeue_decider :: "decider \<Rightarrow> bool" where
  "requeue_decider dec \<longleftrightarrow>
     dec = Requeue_decide \<or> (\<exists>m. dec = RequeueAfterConflict_decide m)
     \<or> (\<exists>cls limit now. dec = RequeueTransient_decide cls limit now)
     \<or> (\<exists>req. dec = RetryWithNote_decide req)
     \<or> (\<exists>index replied ans. dec = Supersede_decide index replied ans)"

lemma requeue_decider_contract: "requeue_decider dec \<Longrightarrow> requeue_decision dec"
  unfolding requeue_decider_def
  using plain.requeue_decision_axioms conflict.requeue_decision_axioms transient.requeue_decision_axioms
    retry.requeue_decision_axioms supersede.requeue_decision_axioms by blast

context requeue_decision
begin

lemma requeue_then_claimable:
  assumes inv: "ledger_inv d" and ok: "requeue fault opts decide r now d = (Inr res, d')"
    and row: "runs d r = Some row"
  shows "\<exists>row'. claimable d' r row' \<and> rowAttempt row' = rowAttempt row + 1 \<and> holds_none d' r
    \<and> rowState row' = resState res \<and> resAttempt res = rowAttempt row + 1
    \<and> time_of row' queuedAtField = now \<and> row' claimedAtField = None \<and> \<not> cancelledRow row'"
proof -
  from ok have body: "requeue_body opts decide r now d = Inr (res, d')"
    by (simp add: requeue_def run_transaction_ok)
  from body obtain row1 state extra where r: "runs d r = Some row1" "decide row1 (rowAttempt row1 + 1) = Inr (state, extra)"
    "res = \<lparr>resState = state, resAttempt = rowAttempt row1 + 1, resTicketState = str row1 ticketStateField\<rparr>"
    "runs d' = runs (put_row r (requeued_row opts state extra row1 now) d)"
    by (rule requeue_ok)
  have "rowState (requeued_row opts state extra row1 now) \<in> {stateQueued, statePlanned}"
    using requeued_row_reads(1) [OF r(2)] returns [OF r(2)] by simp
  then show ?thesis
    using r row requeued_row_reads [OF r(2), of opts now] requeue_leaves(2) [OF inv body]
    by (intro exI [of _ "requeued_row opts state extra row1 now"]) (simp add: claimable_def rowState_def)
qed

end

section \<open>A retry applied twice\<close>

lemma retry_row_reads:
  assumes "RetryWithNote_decide req row attempt = Inr (state, extra)"
  shows "str (requeued_row opts state extra row now) operatorNoteField = Note req"
    and "str (requeued_row opts state extra row now) retriedByField = Actor req"
  using RetryWithNote_decide_Inr [OF assms]
  by (simp_all add: requeued_row_def supersedeUpdates_def row_simps)

lemma retry_refused_again:
  assumes "rowAttempt row = ExpectedAttempt req + 1" "str row operatorNoteField = Note req" "str row retriedByField = Actor req"
    and "runs d r = Some row"
  shows "requeue None opts (RetryWithNote_decide req) r now d = (Inl ErrRetryApplied, d)"
  using assms by (simp add: requeue_def run_transaction_def requeue_body_def RetryWithNote_decide_def)

lemma RetryWithNote_first:
  assumes "RetryWithNote fault r req now d = (Inr \<lparr>retryAttempt = a, Already = False\<rparr>, d')"
  obtains res where "\<not> blank (Note req)" "ValidNote (Note req)" "\<not> blank (Actor req)"
    "requeue fault \<lparr>keepNote = True, archive = True\<rparr> (RetryWithNote_decide req) r now d = (Inr res, d')"
    "a = resAttempt res"
  using assms by (auto simp: RetryWithNote_def split: if_splits prod.splits sum.splits)

lemma retry_twice:
  assumes "RetryWithNote fault r req now d = (Inr \<lparr>retryAttempt = a, Already = False\<rparr>, d')"
  shows "RetryWithNote None r req later d' = (Inr \<lparr>retryAttempt = a, Already = True\<rparr>, d')"
proof -
  from assms obtain res where noted: "\<not> blank (Note req)" "ValidNote (Note req)" "\<not> blank (Actor req)"
    and ok: "requeue fault \<lparr>keepNote = True, archive = True\<rparr> (RetryWithNote_decide req) r now d = (Inr res, d')"
    and a: "a = resAttempt res"
    by (rule RetryWithNote_first)
  from ok have "requeue_body \<lparr>keepNote = True, archive = True\<rparr> (RetryWithNote_decide req) r now d = Inr (res, d')"
    by (simp add: requeue_def run_transaction_ok)
  then obtain row state extra where row: "RetryWithNote_decide req row (rowAttempt row + 1) = Inr (state, extra)"
    and res: "res = \<lparr>resState = state, resAttempt = rowAttempt row + 1, resTicketState = str row ticketStateField\<rparr>"
    and d': "runs d' = runs (put_row r (requeued_row \<lparr>keepNote = True, archive = True\<rparr> state extra row now) d)"
    by (rule retry.requeue_ok)
  have a': "a = ExpectedAttempt req + 1" using a res RetryWithNote_decide_Inr(1) [OF row] by simp
  have "requeue None \<lparr>keepNote = True, archive = True\<rparr> (RetryWithNote_decide req) r later d' = (Inl ErrRetryApplied, d')"
    using RetryWithNote_decide_Inr(1) [OF row] retry.requeued_row_reads(2) [OF row] retry_row_reads [OF row] d'
    by (intro retry_refused_again) simp_all
  then show ?thesis using noted a' by (simp add: RetryWithNote_def)
qed

text \<open>The attempt a retry replaces is archived as its row stood, stamped with what replaced it.\<close>

lemma retry_archives:
  assumes "RetryWithNote fault r req now d = (Inr \<lparr>retryAttempt = a, Already = False\<rparr>, d')" and row: "runs d r = Some row"
  shows "attempts d' (r, rowAttempt row) = Some (archivedAttempt row a now)"
    and "f \<notin> {supersededByAttemptField, archivedAtField} \<Longrightarrow> archivedAttempt row a now f = row f"
proof -
  from assms(1) obtain res where
    ok: "requeue fault \<lparr>keepNote = True, archive = True\<rparr> (RetryWithNote_decide req) r now d = (Inr res, d')"
    and a: "a = resAttempt res"
    by (rule RetryWithNote_first)
  from ok have "requeue_body \<lparr>keepNote = True, archive = True\<rparr> (RetryWithNote_decide req) r now d = Inr (res, d')"
    by (simp add: requeue_def run_transaction_ok)
  then show "attempts d' (r, rowAttempt row) = Some (archivedAttempt row a now)"
    using row a by (rule_tac retry.requeue_ok) (auto simp: archive_attempt_def)
  show "f \<notin> {supersededByAttemptField, archivedAtField} \<Longrightarrow> archivedAttempt row a now f = row f"
    by (simp add: archivedAttempt_def apply_updates_untouched)
qed

section \<open>What an attempt settled for\<close>

definition carries_spend :: "doc \<Rightarrow> doc \<Rightarrow> bool" where
  "carries_spend row row' \<longleftrightarrow>
     int_of row' priorSettledCostField = int_of row settledProviderCostField
     \<and> int_of row' priorSettledMinutesField = int_of row settledRunnerMinutesField"

lemma supersede_updates_carry:
  assumes "extra = us @ supersedeUpdates row a pr b @ vs" and "touches vs \<inter> {priorSettledCostField, priorSettledMinutesField} = {}"
  shows "carries_spend row (requeued_row opts state extra row now)"
  using assms(2)
  by (simp add: carries_spend_def requeued_row_def assms(1) supersedeUpdates_def row_simps updated_untouched)

lemma decider_carries:
  "RequeueAfterConflict_decide m row a = Inr (state, extra) \<Longrightarrow> carries_spend row (requeued_row opts state extra row now)"
  "RetryWithNote_decide req row a = Inr (state, extra) \<Longrightarrow> carries_spend row (requeued_row opts state extra row now)"
  "Supersede_decide index replied ans row a = Inr (state, extra) \<Longrightarrow> carries_spend row (requeued_row opts state extra row now)"
proof -
  show "carries_spend row (requeued_row opts state extra row now)" if "RequeueAfterConflict_decide m row a = Inr (state, extra)"
    using that by (auto simp: RequeueAfterConflict_decide_def and_then_Inr carries_spend_def requeued_row_def row_simps split: if_splits)
  show "carries_spend row (requeued_row opts state extra row now)" if "RetryWithNote_decide req row a = Inr (state, extra)"
    using RetryWithNote_decide_Inr(8) [OF that]
    by (intro supersede_updates_carry [where vs = "[]" and us = "[(operatorNoteField, Put (VStr (Note req))),
        (operatorAssistedField, Put (VBool True)), (retriedByField, Put (VStr (Actor req)))]"]) auto
  show "carries_spend row (requeued_row opts state extra row now)" if "Supersede_decide index replied ans row a = Inr (state, extra)"
    using that unfolding Supersede_decide_def
    by (auto simp: Let_def split: if_splits sum.splits store_err.splits
        intro!: supersede_updates_carry [where us = "[(decisionsField, u)]" for u])
qed

text \<open>The plain and the transient requeue leave the fields of earlier spend as they were.\<close>

lemma decider_drops:
  assumes "dec = Requeue_decide \<or> dec = RequeueTransient_decide cls limit at'" and "dec row a = Inr (state, extra)"
    and "f \<in> {priorSettledCostField, priorSettledMinutesField}"
  shows "requeued_row opts state extra row now f = row f"
  using assms
  by (auto simp: Requeue_decide_def RequeueTransient_decide_def and_then_Inr requeued_row_def clearNote_def row_simps
      requeue_updates_def Let_def split: if_splits)

section \<open>A question and its answer\<close>

lemma suspend_then_answer:
  assumes inv: "ledger_inv d" and ok: "Suspend fault r dec url now d = (Inr (), d')"
    and row: "runs d r = Some row" "\<not> hasEnded row"
  shows "\<exists>row' d''. Answer None r ans later d' = (Inr (), d'') \<and> claimable d'' r row' \<and> holds_none d'' r
    \<and> entries_of row' decisionsField = entries_of row decisionsField @ [(new_entry dec now)\<lparr>answer := ans\<rparr>]"
proof -
  from Suspend_parks [OF inv ok] obtain row1 row2 where p: "runs d r = Some row1" "runs d' r = Some row2"
    "rowState row2 = stateWaiting" "entries_of row2 decisionsField = entries_of row1 decisionsField @ [new_entry dec now]"
    "holds_none d' r" "str row2 outcomeField = str row1 outcomeField" "str row2 stopReasonField = str row1 stopReasonField"
    by metis
  have "lastUnanswered (entries_of row2 decisionsField) = Some (length (entries_of row1 decisionsField))"
    unfolding p(4) by (rule lastUnanswered_snoc) (simp add: new_entry_def)
  moreover have "str row2 outcomeField = []" using p(1,6) row by (simp add: hasEnded_def)
  ultimately obtain row3 where a: "Answer None r ans later d' = (Inr (), put_row r row3 d')" "rowState row3 = stateQueued"
    "entries_of row3 decisionsField = (entries_of row2 decisionsField)[length (entries_of row1 decisionsField) :=
       (entries_of row2 decisionsField ! length (entries_of row1 decisionsField))\<lparr>answer := ans\<rparr>]"
    "\<not> hasEnded row3 = (str row2 stopReasonField = [])"
    using Answer_queues [OF p(2,3)] by blast
  have "claimable (put_row r row3 d') r row3"
    using a(2,4) p(1,7) row by (simp add: claimable_def rowState_def hasEnded_def)
  moreover have "holds_none (put_row r row3 d') r" using p(5) by (simp add: holds_none_def)
  moreover have "entries_of row3 decisionsField = entries_of row decisionsField @ [(new_entry dec now)\<lparr>answer := ans\<rparr>]"
    using a(3) p(1,4) row by simp
  ultimately show ?thesis using a(1) by blast
qed

section \<open>A sweep run twice\<close>

lemma sweep_leaves_none_overdue:
  assumes inv: "ledger_inv d" and listing: "lists_claimed listing d" and ok: "faultRun faults = (\<lambda>_. None)"
    and sweep: "SweepAbandoned faults listing now w d = ((out, errs), d')"
  shows "\<not> overdue now w d' r row"
proof
  assume over: "overdue now w d' r row"
  note exact = sweep_exact [OF inv listing sweep]
  obtain row0 where row0: "runs d r = Some row0" and row: "row = (if swept faults now w d r then abandoned_row now row0 else row0)"
    using over exact(1) [of r] by (auto simp: overdue_def)
  have not_swept: "\<not> swept faults now w d r" and "row = row0"
    using over row by (auto simp: overdue_def split: if_splits)
  have "held d' key = held d key" if key: "reservationRunID key = r" for key
  proof -
    have "\<not> releasable now w d key"
    proof
      assume "releasable now w d key"
      then obtain e where e: "held d key = Some e" and why: "rowState row0 \<noteq> stateClaimed \<or> hasEnded row0 \<or> entryAttempt e < rowAttempt row0"
        by (auto simp: releasable_def key row0)
      have "entryAttempt e = rowAttempt row0" using ledger_invD(3) [OF inv e] that row0 by (auto simp: booked_def)
      then show False using why over \<open>row = row0\<close> by (auto simp: overdue_def)
    qed
    then show ?thesis using exact(3) [of key] not_swept that by simp
  qed
  then have "ledger_reservation (readLedger d') r (rowAttempt row) = ledger_reservation (readLedger d) r (rowAttempt row)"
    by (intro ledger_reservation_cong ledger_invD(2) [OF inv row0]) (simp add: held_def)
  then have "overdue now w d r row"
    using over row0 \<open>row = row0\<close> by (simp add: overdue_def claim_stage_def)
  then show False using not_swept ok by (auto simp: swept_def)
qed

lemma sweep_twice:
  assumes inv: "ledger_inv d" and listing: "lists_claimed listing d" and ok: "faultRun faults = (\<lambda>_. None)"
    and sweep: "SweepAbandoned faults listing now w d = ((out, errs), d')"
    and again: "SweepAbandoned faults' listing now w d' = ((out', errs'), d'')" and listing': "lists_claimed listing d'"
  shows "out' = []" and "runs d'' = runs d'"
proof -
  have inv': "ledger_inv d'" using sweep.keeps [OF inv, of faults listing now w] sweep by simp
  have none: "\<not> swept faults' now w d' q" for q
    using sweep_leaves_none_overdue [OF inv listing ok sweep] by (auto simp: swept_def)
  show "out' = []" using sweep_exact(2) [OF inv' listing' again] none by simp
  show "runs d'' = runs d'"
  proof
    fix q show "runs d'' q = runs d' q"
      using sweep_exact(1) [OF inv' listing' again, of q] none by (cases "runs d' q") simp_all
  qed
qed

text \<open>A run that has ended, the one the sweep abandoned among them, can be requeued.\<close>

lemma ended_requeues:
  assumes row: "runs d r = Some row" "ended_for_good row"
  shows "\<exists>res d'. Requeue None r now d = (Inr res, d')"
proof -
  have "\<exists>state. requeueState row = Inr state" using row(2) by (simp add: requeueState_iff)
  then obtain state where state: "Requeue_decide row (rowAttempt row + 1) = Inr (state, [])"
    by (auto simp: Requeue_decide_def)
  let ?opts = "\<lparr>keepNote = False, archive = False\<rparr>"
  have "\<exists>p. requeue_body ?opts Requeue_decide r now d = Inr p"
    using row(1) state by (simp add: requeue_body_def Let_def update_row_present dropReservations_eq)
  then show ?thesis by (auto simp: Requeue_def requeue_def run_transaction_def)
qed

end
