(* ===== verification/Sample.thy ===== *)
theory Sample
  imports Run_Life
begin

text \<open>
  A small deployment to read the properties at: a budget with a weekly provider window, a model cap,
  a monthly cash ceiling and free runner minutes; a queued run; the facts of a poll that admits it;
  and the states the store's operations leave it in.
\<close>

definition sample_now :: time where "sample_now = 1000 * day"

definition sample_budget :: budget_config where
  "sample_budget = \<lparr>
     providerWindows = [\<lparr>windowName = ''week'', windowPeriod = 7 * day, windowCalendar = False, windowLimit = 20 * Dollar\<rparr>],
     modelCaps = [(''glm/flash'', \<lparr>windowName = ''flash-cap'', windowPeriod = day, windowCalendar = False, windowLimit = 9 * Dollar\<rparr>)],
     cash = \<lparr>windowName = ''cash'', windowPeriod = 0, windowCalendar = True, windowLimit = 5 * Dollar\<rparr>,
     runnerMinutesCeiling = \<lparr>freeMinutes = 100, ratePerMinute = 8000\<rparr>, providerFree = False\<rparr>"

definition sample_facts :: "store_err facts" where
  "sample_facts = \<lparr>factLimits = DefaultLimits, factTuning = DefaultTuning,
     factRelations = \<lparr>relKnown = False, relBlockedBy = [], relBlocks = [], relBlockedByOpen = []\<rparr>,
     factProviderHalted = False, factBreakerTripped = False, factOwnerPaused = False, factPeakHeld = False,
     factModel = ''glm/flash'', factOpenPRs = 1, factOpenPRsKnown = True, factDecisionMode = ''guided'',
     factHistory = Some (Inr [])\<rparr>"

definition sample_reservation :: reservation where
  "sample_reservation = \<lparr>resProviderCost = 2 * Dollar, resRunnerMinutes = 30, resStage = StageBuild, resFiles = [''a.go'']\<rparr>"

definition sample_row :: doc where
  "sample_row = apply_updates
     [(stateField, Put (VStr stateQueued)), (ticketIDField, Put (VStr ''FORGE-1'')), (repoField, Put (VStr ''owner/app'')),
      (sizeField, Put (VStr ''S'')), (planFilesField, Put (string_list [''a.go'']))] (\<lambda>_. None)"

definition sample_run :: string where "sample_run = ''FORGE-1''"

definition sample_db :: db where
  "sample_db = put_row sample_run sample_row empty_db"

definition no_query :: run_query where
  "no_query = (\<lambda>_ _. Inr [])"

definition sample_claimed :: db where
  "sample_claimed = claimed_db sample_run sample_row sample_facts sample_reservation sample_now sample_db"

lemma sample_inv: "ledger_inv sample_db"
  unfolding sample_db_def
  by (intro put_row_unreserved ledger_inv_empty absent_holds_none)
    (simp_all add: empty_db_def run_id_ok_def sample_run_def)

lemma sample_row_reads:
  "runs sample_db sample_run = Some sample_row" "rowState sample_row = stateQueued" "rowAttempt sample_row = 0"
  "\<not> hasEnded sample_row"
  by (simp_all add: sample_db_def sample_row_def rowState_def rowAttempt_def hasEnded_def row_simps)

definition sample_settled :: settled where
  "sample_settled = \<lparr>settledWindows = [0], settledModelCap = 0, settledCashCost = 0, settledCashMinutes = 0\<rparr>"

lemma sample_settledFor:
  "settledFor no_query sample_budget (factModel sample_facts) sample_now (factHistory sample_facts) = Inr sample_settled"
  by (simp add: settledFor_def sample_facts_def Sums_def History_windowSpend_def History_settledSince_def
      History_planSince_def sample_budget_def sample_settled_def Let_def)

lemma sample_try:
  "TryClaim None no_query sample_run sample_now sample_budget sample_facts sample_reservation sample_db
    = (Inr (True, []), sample_claimed)"
proof -
  have led: "readLedger sample_db = empty_ledger" by (simp add: sample_db_def readLedger_def empty_db_def)
  have adm: "Admit ((claim_input empty_ledger sample_row sample_budget sample_facts sample_reservation)\<lparr>inSettled := sample_settled\<rparr>)
      = (True, [])"
    by code_simp
  then have "HeldBeforeBudget (claim_input empty_ledger sample_row sample_budget sample_facts sample_reservation) = []"
    by (rule claim_admitted(1))
  moreover have "str sample_row stateField = stateQueued" using sample_row_reads(2) by (simp add: rowState_def)
  ultimately show ?thesis
    using adm sample_row_reads
    by (simp add: TryClaim_def run_transaction_def TryClaim_body_def Let_def led sample_settledFor sample_claimed_def claimed_db_def)
qed

section \<open>A run from its enqueuing on\<close>

definition sample_ticket :: ticket where
  "sample_ticket = \<lparr>tkID = sample_run, tkTitle = ''title'', tkBody = ''body'', tkSize = ''S'', tkSizedBy = ''linear-label'',
     tkFrontEnd = False\<rparr>"

definition sample_queued :: queued where
  "sample_queued = \<lparr>qRunID = sample_run, qTicket = sample_ticket, qRepo = ''owner/app'', qPrivate = True, qPriority = 2,
     qBlockedBy = [''FORGE-7''], qBlocks = [], qModels = no_labels, qAt = sample_now\<rparr>"

definition sample_start :: db where
  "sample_start = snd (Enqueue None sample_queued empty_db)"

definition sample_reached :: db where
  "sample_reached = snd (TryClaim None no_query sample_run sample_now sample_budget sample_facts sample_reservation sample_start)"

lemma split_result: "fst p = a \<Longrightarrow> p = (a, snd p)"
  by (cases p) simp

lemma sample_start_inv: "ledger_inv sample_start"
  unfolding sample_start_def by (rule Enqueue_keeps [OF _ ledger_inv_empty]) (simp add: sample_queued_def sample_run_def run_id_ok_def)

lemma sample_start_row:
  "runs sample_start sample_run = Some (apply_updates (enqueue_data sample_queued) no_doc)"
  by (simp add: sample_start_def Enqueue_def run_transaction_def empty_db_def sample_queued_def)

abbreviation sample_start_doc :: doc where
  "sample_start_doc \<equiv> apply_updates (enqueue_data sample_queued) no_doc"

lemmas sample_doc_simps = enqueue_data_def record_fields_def NewRecord_def put_fields_def no_doc_def sample_queued_def
  sample_ticket_def Let_def row_simps

definition sample_input :: "store_err admit_input" where
  "sample_input = \<lparr>inFacts = sample_facts, inN = 1, inInFlight = [],
     inCandidate = \<lparr>subjTicket = sample_run, subjRepo = ''owner/app'', subjSize = ''S'', subjBlockedBy = [''FORGE-7''],
       subjBlocks = [], subjBlockedByOpen = [], subjFiles = [], subjStage = StageBuild\<rparr>,
     inBudget = sample_budget, inReserved = \<lparr>totalProviderCost = 0, totalRunnerMinutes = 0\<rparr>, inSettled = no_settled,
     inReservation = sample_reservation\<rparr>"

lemma sample_start_input:
  "claim_input empty_ledger sample_start_doc sample_budget sample_facts sample_reservation = sample_input"
  by (simp add: claim_input_def sample_input_def claim_candidate_def row_subject_def sample_doc_simps ledger_concurrency_def
      empty_ledger_def inFlight_def reservedTotals_def sample_reservation_def)
    (simp add: sample_facts_def)

lemma sample_reached_claim:
  "TryClaim None no_query sample_run sample_now sample_budget sample_facts sample_reservation sample_start
    = (Inr (True, []), sample_reached)"
proof -
  have adm: "Admit (sample_input\<lparr>inSettled := sample_settled\<rparr>) = (True, [])" "HeldBeforeBudget sample_input = []"
    by code_simp+
  have led: "readLedger sample_start = empty_ledger"
    by (simp add: sample_start_def Enqueue_def run_transaction_def readLedger_def empty_db_def)
  show ?thesis
    unfolding sample_reached_def
    using adm sample_start_row enqueue_row(1,3) [of sample_queued] led
    by (intro split_result) (simp add: TryClaim_def run_transaction_def TryClaim_body_def Let_def sample_settledFor
        sample_start_input rowState_def update_row_present)
qed

lemma sample_reached_inv: "ledger_inv sample_reached"
  unfolding sample_reached_def by (rule TryClaim_keeps [OF sample_start_inv])

lemma sample_reachable: "reachable 20 sample_start" "reachable 20 sample_reached"
proof -
  show start: "reachable 20 sample_start"
    unfolding sample_start_def
    by (rule reachable.further [OF reachable.start step.enqueue]) (simp add: sample_queued_def sample_run_def run_id_ok_def)
  show "reachable 20 sample_reached"
    unfolding sample_reached_def
    by (rule reachable.further [OF start step.try_claim]) (simp add: sample_facts_def DefaultLimits_def)
qed

definition sample_key :: string where
  "sample_key = ''FORGE-1#a0''"

definition sample_entry :: reservation_entry where
  "sample_entry = \<lparr>ProviderCostMicros = 2 * Dollar, entryRunnerMinutes = 30, entryTicketID = sample_run, entryRepo = ''owner/app'',
     entrySize = ''S'', ClaimedAt = sample_now, entryAttempt = 0, entryStage = StageBuild, entryFiles = [''a.go'']\<rparr>"

lemma sample_reached_eq:
  "sample_reached = claimed_db sample_run sample_start_doc sample_facts sample_reservation sample_now sample_start"
  using TryClaim_claimed [OF sample_reached_claim] sample_start_row by (auto simp: claimable_def)

lemma sample_claimable: "claimable sample_start sample_run sample_start_doc"
  using sample_start_row enqueue_row(1,3) [of sample_queued] by (simp add: claimable_def rowState_def)

lemma sample_start_ledger: "readLedger sample_start = empty_ledger"
  by (simp add: sample_start_def Enqueue_def run_transaction_def readLedger_def empty_db_def)

lemma sample_held: "held sample_reached sample_key = Some sample_entry"
proof -
  have key: "reservationKey sample_run (rowAttempt sample_start_doc) StageBuild = sample_key"
    unfolding enqueue_row(2) by code_simp
  have entry: "claim_entry sample_start_doc sample_facts sample_reservation sample_now = sample_entry"
    using enqueue_row(2) [of sample_queued]
    by (simp add: claim_entry_def Let_def sample_entry_def sample_reservation_def)
      (simp add: sample_doc_simps claim_candidate_def row_subject_def sample_facts_def)
  show ?thesis
    unfolding sample_reached_eq held_def claimed_ledger(2) [OF sample_start_inv sample_claimable]
    by (simp add: sample_start_ledger empty_ledger_def key entry) (simp add: sample_reservation_def key)
qed

end
