(* ===== verification/Poll_Sample.thy ===== *)
theory Poll_Sample
  imports Poll_Starts Sample
begin

text \<open>
  A deployment one poll can be read at: one repository, one queued run with no ticket delegated
  any more, an open budget, and GitHub and Linear answering everything with nothing.
\<close>

definition sample_config :: config where
  "sample_config = \<lparr>cfgRepos = [''owner/app''], cfgBudget = sample_budget, cfgModel = ''glm/flash'', cfgPlanBudgets = [],
     cfgLimits = DefaultLimits, cfgTuning = DefaultTuning, cfgLastResort = [], cfgTwoStage = False, cfgDecisionTimeout = 0,
     cfgDecisionMode = ''guided''\<rparr>"

definition sample_env :: env where
  "sample_env = \<lparr>
     envClock = (\<lambda>_ _. sample_now), envFault = (\<lambda>_ _. None), printTable = (\<lambda>_. False), envDelegated = Inr [],
     envPlans = (\<lambda>_. Inr None), envPrivate = (\<lambda>_. Inr False),
     envCandidates = (\<lambda>_. Inr [(sample_run, sample_row)]), envTransient = (\<lambda>_ _. Inr []), envHistory = (\<lambda>_. Inr []),
     envOpenPRs = (\<lambda>_. Inr 1), envPullOpen = (\<lambda>_ _. Inr False), envPaused = Inr [], envPeakMode = Inr PeakAlways,
     envEstimate = (\<lambda>_. Inr \<lparr>estProviderCost = 2 * Dollar, estMinutes = 30\<rparr>),
     envEstimatePlan = (\<lambda>_. Inr \<lparr>estProviderCost = Dollar, estMinutes = 10\<rparr>), envHalted = (\<lambda>_. Inr False), envVerdict = None,
     recordsVerdicts = False, recordsHolds = False, recordsReach = False, envMissing = [],
     surcharge = (\<lambda>_. None), holdDay = (\<lambda>_. []),
     envSweepFaults = \<lparr>faultListing = None, faultRun = (\<lambda>_. None), faultKey = (\<lambda>_. None)\<rparr>,
     envClaimed = (\<lambda>_. Inr []), envRunReads = (\<lambda>_ _. Inr []), envClosed = (\<lambda>_. Inr ([], False)),
     envPull = (\<lambda>_ _. Inl OtherError), envCommits = (\<lambda>_ _. Inr []), envWithPR = (\<lambda>_. Inr []), envChecksExpired = (\<lambda>_. False),
     envParseURL = (\<lambda>_. None), envPullCommits = (\<lambda>_ _. Inr []), envRequired = (\<lambda>_. Inr []),
     envChecksOutcome = (\<lambda>_ _ _. Inr CheckPending), envWaiting = (\<lambda>_. Inr []), envUnposted = (\<lambda>_. Inr []), envReplied = (\<lambda>_. Inr []),
     envSession = (\<lambda>_. Inr []), envElicits = (\<lambda>_ _. False), envElicitsProvisional = (\<lambda>_ _ _. False), envSame = (=),
     envStuckWaiting = (\<lambda>_. Inr []), envStuckFinished = (\<lambda>_. Inr []), envStuckEnded = (\<lambda>_. Inr []),
     envPendingNotices = (\<lambda>_. []), envStaleNotices = (\<lambda>_ _. []), envPosterError = None, envPostError = (\<lambda>_. None),
     envPhasesReady = False, envListed = Inr [], envProjectIssues = (\<lambda>_. Inr []), envDelegates = (\<lambda>_. False), recordsClosed = False,
     envClosedFaults = (\<lambda>_. None), envMoved = (\<lambda>_. False), envInboxWindow = (\<lambda>_. Inr []), envProjectNames = None,
     envStartTicket = (\<lambda>_. Inr []), envDispatch = (\<lambda>_. None)\<rparr>"

lemma sample_cap: "poll_cap sample_config \<le> 20"
  by code_simp

section \<open>The poll claims and dispatches the queued run\<close>

text \<open>The sample deployment where GitHub answers a dispatch as \<open>f\<close> says.\<close>

definition sample_env_with :: "(run_claim \<Rightarrow> github_err option) \<Rightarrow> env" where
  "sample_env_with f = sample_env\<lparr>envDispatch := f\<rparr>"

lemma sample_env_reads [simp]:
  "envClock (sample_env_with f) = (\<lambda>_ _. sample_now)" "envFault (sample_env_with f) = (\<lambda>_ _. None)"
  "printTable (sample_env_with f) = (\<lambda>_. False)" "envDelegated (sample_env_with f) = Inr []"
  "envPlans (sample_env_with f) = (\<lambda>_. Inr None)" "envPrivate (sample_env_with f) = (\<lambda>_. Inr False)"
  "envCandidates (sample_env_with f) = (\<lambda>_. Inr [(sample_run, sample_row)])"
  "envTransient (sample_env_with f) = (\<lambda>_ _. Inr [])" "envHistory (sample_env_with f) = (\<lambda>_. Inr [])"
  "envOpenPRs (sample_env_with f) = (\<lambda>_. Inr 1)" "envPullOpen (sample_env_with f) = (\<lambda>_ _. Inr False)"
  "envPaused (sample_env_with f) = Inr []" "envPeakMode (sample_env_with f) = Inr PeakAlways"
  "envEstimate (sample_env_with f) = (\<lambda>_. Inr \<lparr>estProviderCost = 2 * Dollar, estMinutes = 30\<rparr>)"
  "envEstimatePlan (sample_env_with f) = (\<lambda>_. Inr \<lparr>estProviderCost = Dollar, estMinutes = 10\<rparr>)"
  "envHalted (sample_env_with f) = (\<lambda>_. Inr False)" "envVerdict (sample_env_with f) = None"
  "recordsVerdicts (sample_env_with f) = False" "recordsHolds (sample_env_with f) = False"
  "recordsReach (sample_env_with f) = False" "envMissing (sample_env_with f) = []"
  "surcharge (sample_env_with f) = (\<lambda>_. None)" "holdDay (sample_env_with f) = (\<lambda>_. [])"
  "envSweepFaults (sample_env_with f) = \<lparr>faultListing = None, faultRun = (\<lambda>_. None), faultKey = (\<lambda>_. None)\<rparr>"
  "envClaimed (sample_env_with f) = (\<lambda>_. Inr [])" "envRunReads (sample_env_with f) = (\<lambda>_ _. Inr [])"
  "envClosed (sample_env_with f) = (\<lambda>_. Inr ([], False))"
  "envPull (sample_env_with f) = (\<lambda>_ _. Inl OtherError)" "envCommits (sample_env_with f) = (\<lambda>_ _. Inr [])"
  "envWithPR (sample_env_with f) = (\<lambda>_. Inr [])" "envChecksExpired (sample_env_with f) = (\<lambda>_. False)"
  "envParseURL (sample_env_with f) = (\<lambda>_. None)" "envPullCommits (sample_env_with f) = (\<lambda>_ _. Inr [])"
  "envRequired (sample_env_with f) = (\<lambda>_. Inr [])"
  "envChecksOutcome (sample_env_with f) = (\<lambda>_ _ _. Inr CheckPending)"
  "envWaiting (sample_env_with f) = (\<lambda>_. Inr [])" "envUnposted (sample_env_with f) = (\<lambda>_. Inr [])"
  "envReplied (sample_env_with f) = (\<lambda>_. Inr [])" "envSession (sample_env_with f) = (\<lambda>_. Inr [])"
  "envElicits (sample_env_with f) = (\<lambda>_ _. False)"
  "envElicitsProvisional (sample_env_with f) = (\<lambda>_ _ _. False)" "envSame (sample_env_with f) = (=)"
  "envStuckWaiting (sample_env_with f) = (\<lambda>_. Inr [])" "envStuckFinished (sample_env_with f) = (\<lambda>_. Inr [])"
  "envStuckEnded (sample_env_with f) = (\<lambda>_. Inr [])" "envPendingNotices (sample_env_with f) = (\<lambda>_. [])"
  "envStaleNotices (sample_env_with f) = (\<lambda>_ _. [])" "envPosterError (sample_env_with f) = None"
  "envPostError (sample_env_with f) = (\<lambda>_. None)" "envPhasesReady (sample_env_with f) = False"
  "envListed (sample_env_with f) = Inr []" "envProjectIssues (sample_env_with f) = (\<lambda>_. Inr [])"
  "envDelegates (sample_env_with f) = (\<lambda>_. False)" "recordsClosed (sample_env_with f) = False"
  "envClosedFaults (sample_env_with f) = (\<lambda>_. None)" "envMoved (sample_env_with f) = (\<lambda>_. False)"
  "envInboxWindow (sample_env_with f) = (\<lambda>_. Inr [])" "envProjectNames (sample_env_with f) = None"
  "envStartTicket (sample_env_with f) = (\<lambda>_. Inr [])" "envDispatch (sample_env_with f) = f"
  by (simp_all add: sample_env_with_def sample_env_def)

lemma sample_reads: "answers_rows (envRunReads (sample_env_with f))"
  by (simp add: answers_rows_def)

definition sample_candidate :: run_candidate where
  "sample_candidate = candidate_of sample_run sample_row"

definition sample_walk :: walk_facts where
  "sample_walk = \<lparr>walkTripped = False, walkMode = PeakAlways, walkPRs = \<lparr>prCount = 1, prKnown = True\<rparr>,
     walkRelations = issue_relations [], walkLink = issue_link [], walkHistory = Inr []\<rparr>"

definition sample_attempt :: claim_try where
  "sample_attempt = \<lparr>tryStage = [], tryTier = \<lparr>tierBudget = sample_budget, tierPlan = ''glm'', tierModel = ''glm/flash''\<rparr>,
     tryReservation = \<lparr>resProviderCost = 2 * Dollar, resRunnerMinutes = 30, resStage = [], resFiles = [''a.go'']\<rparr>,
     tryFacts = sample_facts\<rparr>"

lemma sample_candidate_reads:
  "candRunID sample_candidate = sample_run" "candSize sample_candidate = ''S''" "candPrivate sample_candidate"
  "candModel sample_candidate = []" "candReviewModel sample_candidate = []" "candPlanModels sample_candidate = []"
  "candPlanFiles sample_candidate = [''a.go'']" "candSupersededPR sample_candidate = 0" "candStage sample_candidate = []"
  "candRepo sample_candidate = ''owner/app''"
  by code_simp+

lemma sample_prepare: "prepare_claim sample_config (sample_env_with f) sample_walk [] sample_candidate = Try sample_attempt"
proof -
  have "Provider ''glm/flash'' = ''glm''" by code_simp
  moreover have "Limits_OrDefault DefaultLimits = DefaultLimits" "Tuning_OrDefault DefaultTuning = DefaultTuning" by code_simp+
  moreover have "issue_relations [] sample_run = \<lparr>relKnown = False, relBlockedBy = [], relBlocks = [], relBlockedByOpen = []\<rparr>"
    by (simp add: issue_relations_def)
  ultimately show ?thesis
    by (simp add: prepare_claim_def Let_def stage_estimate_def claimStage_def sample_config_def sample_candidate_reads
        sample_walk_def sample_attempt_def sample_facts_def tierOf_def namedFree_def namedFreeModels_def str_or_def providerHalted_def
        paused_holds_def PeakHeld_def reviewWIPFor_def sample_budget_def StagePlan_def StageBuild_def)
qed

lemma sample_attempt_claims:
  "TryClaim None (\<lambda>_ _. Inr []) sample_run sample_now sample_budget sample_facts (tryReservation sample_attempt) sample_db
    = (Inr (True, []), claimed_db sample_run sample_row sample_facts (tryReservation sample_attempt) sample_now sample_db)"
proof -
  have led: "readLedger sample_db = empty_ledger" by (simp add: sample_db_def readLedger_def empty_db_def)
  have adm: "Admit ((claim_input empty_ledger sample_row sample_budget sample_facts (tryReservation sample_attempt))\<lparr>inSettled := sample_settled\<rparr>)
      = (True, [])"
    by code_simp
  then have "HeldBeforeBudget (claim_input empty_ledger sample_row sample_budget sample_facts (tryReservation sample_attempt)) = []"
    by (rule claim_admitted(1))
  moreover have "str sample_row stateField = stateQueued" using sample_row_reads(2) by (simp add: rowState_def)
  moreover have "settledFor (\<lambda>_ _. Inr []) sample_budget (factModel sample_facts) sample_now (factHistory sample_facts) = Inr sample_settled"
    using sample_settledFor by (simp add: no_query_def)
  ultimately show ?thesis
    using adm sample_row_reads by (simp add: TryClaim_def run_transaction_def TryClaim_body_def Let_def led claimed_db_def)
qed

text \<open>The poll up to its dispatches: one claim, the sample run's.\<close>

definition sample_claim :: run_claim where
  "sample_claim = \<lparr>claimRunID = sample_run, claimRepo = ''owner/app'', claimPriority = 0, claimVerdict = [], claimStageOf = [],
     claimAttempt = 0\<rparr>"

lemma sample_phase:
  "claim_phase sample_config (sample_env_with f) [] (poll_start sample_db) =
     (([sample_claim], None), (poll_start (claimed_db sample_run sample_row sample_facts (tryReservation sample_attempt) sample_now sample_db))
        \<lparr>pollReach := [classifyReach ''owner/app'' None sample_now]\<rparr>)"
proof -
  have claim: "claim_of (sample_env_with f) sample_candidate sample_attempt = sample_claim"
    using sample_candidate_reads by (simp add: claim_of_def sample_claim_def sample_attempt_def lookupVerdict_def)
      (code_simp)
  have attempt: "tierBudget (tryTier sample_attempt) = sample_budget" "tryFacts sample_attempt = sample_facts"
    by (simp_all add: sample_attempt_def)
  let ?reach = "[classifyReach ''owner/app'' None sample_now]"
  have repos: "cfgRepos sample_config = [''owner/app'']" by (simp add: sample_config_def)
  have prs: "countOpenPRs (sample_env_with f) (cfgRepos sample_config) = (\<lparr>prCount = 1, prKnown = True\<rparr>, ?reach)"
    by (simp add: countOpenPRs_def repos Let_def read_ok_def int64_id in_int64_def)
  have w: "\<lparr>walkTripped = breakerTripped (sample_env_with f) sample_db, walkMode = readPeakMode (Inr PeakAlways),
      walkPRs = \<lparr>prCount = 1, prKnown = True\<rparr>, walkRelations = issue_relations [], walkLink = issue_link [], walkHistory = Inr []\<rparr> = sample_walk"
    by (simp add: sample_walk_def breakerTripped_def Tripped_def sample_db_def empty_db_def readPeakMode_def Valid_mode_def)
  have cands: "Candidates (Inr [(sample_run, sample_row)]) = Inr [sample_candidate]"
    unfolding sample_candidate_def by code_simp
  let ?s = "poll_start sample_db\<lparr>pollReach := ?reach\<rparr>"
  have fields: "pollDB ?s = sample_db" "pollUnchecked ?s = []" by (simp_all add: poll_start_def)
  have tried: "try_candidate sample_config (sample_env_with f) sample_walk sample_candidate [] ?s =
      (Inr (Some sample_claim), [], ?s\<lparr>pollDB := claimed_db sample_run sample_row sample_facts (tryReservation sample_attempt)
         sample_now sample_db\<rparr>)"
    using sample_attempt_claims
    by (simp add: try_candidate_def fields sample_prepare Let_def on_db_def sample_candidate_reads claim attempt)
  show ?thesis
    by (simp add: claim_phase_def allowlistRead_def prs admitClaims_def Let_def cands w fields tried)
      (simp add: repos poll_start_def)
qed

lemma sample_attempt_inv:
  "ledger_inv (claimed_db sample_run sample_row sample_facts (tryReservation sample_attempt) sample_now sample_db)"
  using TryClaim_keeps [OF sample_inv, of None "\<lambda>_ _. Inr []" sample_run sample_now sample_budget sample_facts "tryReservation sample_attempt"]
  by (simp add: sample_attempt_claims)

text \<open>The whole poll dispatches the claim.\<close>

lemma sample_poll:
  "\<exists>out s. poll sample_config (sample_env_with f) (poll_start sample_db) = (out, s)
     \<and> DispatchRun sample_claim \<in> set (pollCalls s)"
proof -
  have same: "foldl (\<lambda>acc (cls :: string). and_then acc Inr) (Inr xs) cs = Inr xs" for xs :: "'a list" and cs
    by (induction cs) simp_all
  have none: "requeueStopped (sample_env_with f) s = ([], s)" for s
    by (simp add: requeueStopped_def TransientStops_def same)
  have all: "admit_all sample_config (sample_env_with f) [] s = (None, s)" for s
    by (simp add: admit_all_def)
  have listed: "allowlistRead sample_config" by (simp add: allowlistRead_def sample_config_def)
  let ?c = "poll_start (claimed_db sample_run sample_row sample_facts (tryReservation sample_attempt) sample_now sample_db)
        \<lparr>pollReach := [classifyReach ''owner/app'' None sample_now]\<rparr>"
  have quiet: "pollProjects (sample_env_with f) reaches s = s" "recordReach (sample_env_with f) reaches s = s" for reaches s
    by (simp_all add: pollProjects_def recordReach_def)
  obtain errs s where run: "start_run (sample_env_with f) sample_claim ?c = (errs, s)" by (metis prod.exhaust)
  have "ledger_inv (pollDB ?c)" using sample_attempt_inv by simp
  from start_run_effect(3) [OF this run] have "DispatchRun sample_claim \<in> set (filter starts (pollCalls s))" by simp
  then have "DispatchRun sample_claim \<in> set (pollCalls s)" by simp
  then show ?thesis
    by (simp add: poll_def listed all none sample_phase quiet Let_def run)
qed

section \<open>A ticket that builds and a project that starts\<close>

text \<open>
  A string of ASCII is its own runes; of printable ASCII with nothing to escape, its own JSON; and
  two fold to the same when they are the same in lower case.
\<close>

lemma runes_plain:
  assumes "list_all (\<lambda>c. byte c < 0x80) s"
  shows "runes s = map (\<lambda>c. (Some (byte c), [c])) s"
  using assms
proof (induction s)
  case Nil
  show ?case by (simp add: runes.simps)
next
  case (Cons c s)
  then show ?case by (subst runes.simps) (simp add: rune_value_def)
qed

lemma plain_string:
  assumes "list_all (\<lambda>c. 0x20 \<le> byte c \<and> byte c < 0x80 \<and> byte c \<noteq> 0x22 \<and> byte c \<noteq> 0x5C) s"
  shows "json_string s = CHR 0x22 # s @ [CHR 0x22]"
proof -
  have "list_all (\<lambda>c. byte c < 0x80) s" using assms by (simp add: list_all_iff)
  moreover have "concat (map json_rune (map (\<lambda>c. (Some (byte c), [c])) s)) = s"
    using assms by (induction s) (simp_all add: json_rune_def)
  ultimately show ?thesis by (simp add: json_string_def runes_plain)
qed

lemma EqualFold_plain:
  assumes "list_all (\<lambda>c. byte c < 0x80) a" and "list_all (\<lambda>c. byte c < 0x80) b"
  shows "EqualFold a b \<longleftrightarrow> to_lower a = to_lower b"
proof -
  have "concat (map fold_rune (map (\<lambda>c. (Some (byte c), [c])) s)) = to_lower s"
    if "list_all (\<lambda>c. byte c < 0x80) s" for s
    using that by (induction s) (auto simp: fold_rune_def to_lower_def)
  with assms show ?thesis by (simp add: EqualFold_def runes_plain)
qed

definition sample_issue :: issue where
  "sample_issue = \<lparr>isID = ''FORGE-2'', isUUID = ''u-2'', isURL = [], isTitle = ''[BE] x'', isBody = ''y'', isPriority = 2,
     isLabels = [''repo:owner/app'', ''size:s''], isStateType = ''unstarted'', isDelegatedTo = [], isProject = ''App'',
     isMilestone = \<lparr>msID = ''m1'', msName = ''One'', msSortOrder = 1\<rparr>, isBlockedBy = [], isBlocks = [], isBlockedByOpen = [],
     isBlockerStates = []\<rparr>"

lemma sample_labels:
  "\<not> EqualFold ''repo:owner/app'' ''area:fe''" "\<not> EqualFold ''size:s'' ''area:fe''"
  "\<not> EqualFold ''repo:owner/app'' holdLabel" "\<not> EqualFold ''size:s'' holdLabel"
  by (simp add: EqualFold_plain byte_def holdLabel_def, code_simp)+

lemma sample_repository: "repository (isLabels sample_issue) [''owner/app''] = Inr ''owner/app''"
  by (simp add: sample_issue_def repository_def repoPrefix_def cut_prefix_def EqualFold_def)

lemma sample_size: "ticketSize sample_issue = Inr (''S'', sizedByLabel)"
  by code_simp

lemma sample_issue_builds: "\<exists>q. build (\<lambda>_. False) [''owner/app''] sample_now sample_issue = Inr q"
proof -
  define u where "u = as_full (new_ticket sample_issue (''S'', sizedByLabel))"
  have "repository (isLabels sample_issue) [''owner/app''] = Inr ''owner/app''" by (rule sample_repository)
  moreover have "ticketSize sample_issue = Inr (''S'', sizedByLabel)" by (rule sample_size)
  moreover have "PriorityRank (isPriority sample_issue) = Inr 2" by code_simp
  moreover have "Validate (\<lambda>_. False) u = None"
  proof -
    have t: "tkID u = ''FORGE-2''" "tkTitle u = ''[BE] x''" "tkSize u = ''S''" "tkSizedBy u = sizedByLabel"
      "tkBody u = ''y''" "tkDecisions u = []" "tkNote u = []" "tkPlanFiles u = []"
      by (simp_all add: as_full_def new_ticket_def sample_issue_def ticket.defs u_def)
    have "MatchString ticketIDPattern ''FORGE-2''" "\<not> blank ''[BE] x''" "printable (\<lambda>_. False) ''[BE] x''"
      "printable (\<lambda>_. False) sizedByLabel" "\<not> blank ''y''" "utf8_valid ''y''"
      by code_simp+
    moreover have "''S'' \<in> set ticketSizes" "length sizedByLabel \<le> 64" "utf8_valid []"
      by (simp add: ticketSizes_def, simp add: sizedByLabel_def, code_simp)
    moreover from this(3) have "ValidNote []" by (simp add: ValidNote_def)
    moreover have "length (Encode u) \<le> 120"
    proof -
      have "tkFrontEnd u = False"
        using sample_labels by (simp add: as_full_def new_ticket_def ticket.defs sample_issue_def u_def FrontEndLabel_def)
      then show ?thesis by (simp add: Encode_def t json_field_def plain_string byte_def sizedByLabel_def)
    qed
    ultimately show ?thesis
      by (simp add: Validate_def t maxTicketIDBytes_def maxTicketTitleBytes_def maxSizedByBytes_def maxTicketBodyBytes_def
          maxEncodedTicketBytes_def)
  qed
  ultimately show ?thesis by (simp add: build_def Let_def u_def)
qed

definition sample_project :: phase_project where
  "sample_project = \<lparr>phRepository = ''owner/app'', phLinearProject = ''App'', phStartPhase = ''One'', phStartRequestedAt = sample_now\<rparr>"

definition sample_project_env :: env where
  "sample_project_env = sample_env\<lparr>envPhasesReady := True, envListed := Inr [sample_project], envProjectIssues := (\<lambda>_. Inr [sample_issue])\<rparr>"

lemma sample_project_view:
  "read_runs [''FORGE-2''] = Inr [] \<Longrightarrow> viewEligible (projectView read_runs sample_project [sample_issue] sample_now) = [sample_issue]
    \<and> snCurrent (viewSnapshot (projectView read_runs sample_project [sample_issue] sample_now)) = ''One''
    \<and> \<not> snUnreadable (viewSnapshot (projectView read_runs sample_project [sample_issue] sample_now))"
proof -
  assume read: "read_runs [''FORGE-2''] = Inr []"
  have ticket: "isID sample_issue = ''FORGE-2''" "isTitle sample_issue = ''[BE] x''" "isBody sample_issue = ''y''"
    "isLabels sample_issue = [''repo:owner/app'', ''size:s'']" "isStateType sample_issue = ''unstarted''" "isDelegatedTo sample_issue = []"
    "isProject sample_issue = ''App''" "isMilestone sample_issue = \<lparr>msID = ''m1'', msName = ''One'', msSortOrder = 1\<rparr>"
    by (simp_all add: sample_issue_def)
  have lane: "MatchString delegateLane ''[BE] x''" by code_simp
  have path: "\<not> contains (ReplaceAll workflowConstraint ''y'' '' '') workflowPath" by code_simp
  from lane path sample_size sample_repository have eligible: "phaseEligible sample_issue ''owner/app'' no_run"
    using sample_labels by (simp add: phaseEligible_def ticket unstartedStates_def no_run_def)
  have "phaseProgress [sample_issue] = ([\<lparr>ppName = ''One'', ppDone = 0, ppTotal = 1\<rparr>], ''One'')"
    by (simp add: phaseProgress_def count_issue_def counts_in_phase_def ticket stateTypeCanceled_def Let_def add_to_phase_def
        completed_def stateTypeCompleted_def)
  then show ?thesis
    using eligible read
    by (simp add: projectView_def Let_def sample_project_def EqualFold_def ticket open_tickets_def stateTypeCanceled_def stateTypeCompleted_def)
qed

lemma sample_project_calls:
  "DelegateIssue ''u-2'' \<in> set (pollCalls (pollProjects sample_project_env [classifyReach ''owner/app'' None sample_now] (poll_start empty_db)))"
proof -
  have read: "read_ticket_runs sample_project_env (pollDB (poll_start empty_db)) [''FORGE-2''] = Inr []"
    by code_simp
  have at: "envListed sample_project_env = Inr [sample_project]" "envProjectIssues sample_project_env = (\<lambda>_. Inr [sample_issue])"
    "envPhasesReady sample_project_env" "recordsClosed sample_project_env = False" "envClock sample_project_env = (\<lambda>_ _. sample_now)"
    by (simp_all add: sample_project_env_def sample_env_def)
  note view = sample_project_view [of "read_ticket_runs sample_project_env (pollDB (poll_start empty_db))", OF read]
  have reach: "reach_of [classifyReach ''owner/app'' None sample_now] ''owner/app'' = Some True"
    by (simp add: reach_of_def classifyReach_def Let_def)
  have proj: "phRepository sample_project = ''owner/app''" "phStartPhase sample_project = ''One''"
     "is_zero (phStartRequestedAt sample_project) = False" by (simp_all add: sample_project_def) code_simp
  have go: "start_refusal sample_project (projectView (read_ticket_runs sample_project_env (pollDB (poll_start empty_db))) sample_project
      [sample_issue] sample_now) (Some True) = []"
    using view by (simp add: start_refusal_def Let_def proj)
  have closed: "recordClosed sample_project_env issues now s = s" for issues now s by (simp add: recordClosed_def at)
  have "isUUID sample_issue = ''u-2''" by (simp add: sample_issue_def)
  then show ?thesis
    using view go by (simp add: pollProjects_def at start_pending_def startPhase_def proj reach go closed Let_def split: prod.splits bool.splits)
qed

end
