(* ===== verification/Notice_Polls.thy ===== *)
theory Notice_Polls
  imports Health
begin

text \<open>
  Polls that overlap and the notices they post (\<open>postNotices\<close> of \<open>internal/dispatcher/notice.go\<close> over the
  transactions of \<open>internal/store/breaker.go\<close>). A poll claims notices in one transaction and then settles each
  on its own, so the steps of several polls interleave; a notice a poll could not post is pending again at once.
  What is relied on is the comment on \<open>noticeLease\<close>: a poll settles its claim before the lease runs out, and
  the polls' clocks agree.
\<close>

section \<open>Polls step by step\<close>

text \<open>
  The store, when each poll claimed and which of its notices it has still to settle, the posts made, the latest
  first, each with whether it was recorded by \<open>NoticePosted\<close>, and the time.
\<close>

record posting =
  pstDB :: db
  pstSince :: "nat \<Rightarrow> time"
  pstHeld :: "nat \<Rightarrow> string list"
  pstPosts :: "(string \<times> bool) list"
  pstNow :: time

definition posting_start :: "db \<Rightarrow> time \<Rightarrow> posting" where
  "posting_start d now = \<lparr>pstDB = d, pstSince = (\<lambda>_. 0), pstHeld = (\<lambda>_. []), pstPosts = [], pstNow = now\<rparr>"

definition within_lease :: "posting \<Rightarrow> nat \<Rightarrow> time \<Rightarrow> bool" where
  "within_lease s p now \<longleftrightarrow> now \<le> pstSince s p + noticeLease"

definition settled_one :: "nat \<Rightarrow> string \<Rightarrow> db \<Rightarrow> time \<Rightarrow> posting \<Rightarrow> posting" where
  "settled_one p i d now s = s\<lparr>pstDB := d, pstHeld := (pstHeld s)(p := remove1 i (pstHeld s p)), pstNow := now\<rparr>"

inductive posting_step :: "(db \<Rightarrow> string list) \<Rightarrow> (time \<Rightarrow> db \<Rightarrow> string list) \<Rightarrow> posting \<Rightarrow> posting \<Rightarrow> bool" for pending stale where
  raised: "pstNow s \<le> now \<Longrightarrow>
    posting_step pending stale s (s\<lparr>pstDB := snd (Raise fault n raisedAt (pstDB s)), pstNow := now\<rparr>)"
| claimed: "pstNow s \<le> now \<Longrightarrow> pstHeld s p = [] \<Longrightarrow>
    Claim fault pending stale now (now - noticeLease) (pstDB s) = (Inr ns, d) \<Longrightarrow>
    posting_step pending stale s (s\<lparr>pstDB := d, pstSince := (pstSince s)(p := now),
      pstHeld := (pstHeld s)(p := map noticeID ns), pstNow := now\<rparr>)"
| posted: "pstNow s \<le> now \<Longrightarrow> i \<in> set (pstHeld s p) \<Longrightarrow> within_lease s p now \<Longrightarrow>
    NoticePosted fault i now (pstDB s) = (r, d) \<Longrightarrow>
    posting_step pending stale s ((settled_one p i d now s)\<lparr>pstPosts := (i, r = Inr ()) # pstPosts s\<rparr>)"
| refused: "pstNow s \<le> now \<Longrightarrow> i \<in> set (pstHeld s p) \<Longrightarrow> within_lease s p now \<Longrightarrow>
    posting_step pending stale s (settled_one p i (snd (Unclaim fault i (pstDB s))) now s)"

inductive posting_run :: "(db \<Rightarrow> string list) \<Rightarrow> (time \<Rightarrow> db \<Rightarrow> string list) \<Rightarrow> posting \<Rightarrow> posting \<Rightarrow> bool" for pending stale where
  begins: "posting_run pending stale s s"
| goes_on: "posting_run pending stale s t \<Longrightarrow> posting_step pending stale t u \<Longrightarrow> posting_run pending stale s u"

lemmas posting_runs = posting_run.begins posting_run.goes_on

section \<open>What a poll holds is its own\<close>

text \<open>Only a claimed notice has a claim's time; \<open>Raise\<close> writes none, and settling deletes it.\<close>

definition claims_timed :: "db \<Rightarrow> bool" where
  "claims_timed d \<longleftrightarrow> (\<forall>i n. notices d i = Some n \<longrightarrow> str n noticeStateField \<noteq> noticeClaimed \<longrightarrow> n claimedAtField = None)"

text \<open>The documented answers of the two queries, each notice once.\<close>

definition lists_once :: "(db \<Rightarrow> string list) \<Rightarrow> bool" where
  "lists_once query \<longleftrightarrow> (\<forall>d. distinct (query d))"

definition claimed_at :: "db \<Rightarrow> string \<Rightarrow> time \<Rightarrow> bool" where
  "claimed_at d i since \<longleftrightarrow> (\<exists>n. notices d i = Some n \<and> str n noticeStateField = noticeClaimed \<and> n claimedAtField = Some (VTime since))"

definition out_of_reach :: "db \<Rightarrow> string \<Rightarrow> bool" where
  "out_of_reach d i \<longleftrightarrow> (\<exists>n. notices d i = Some n \<and> str n noticeStateField = noticePosted \<and> n claimedAtField = None)"

definition held_apart :: "posting \<Rightarrow> bool" where
  "held_apart s \<longleftrightarrow> claims_timed (pstDB s) \<and> (\<forall>p. distinct (pstHeld s p))
     \<and> (\<forall>p. \<forall>i \<in> set (pstHeld s p). within_lease s p (pstNow s) \<longrightarrow> claimed_at (pstDB s) i (pstSince s p)
          \<and> (\<forall>q. q \<noteq> p \<longrightarrow> within_lease s q (pstNow s) \<longrightarrow> i \<notin> set (pstHeld s q)))
     \<and> (\<forall>i. (i, True) \<in> set (pstPosts s) \<longrightarrow> out_of_reach (pstDB s) i)"

lemma reach_apart: "claimed_at d i since \<Longrightarrow> \<not> out_of_reach d i"
  by (auto simp: claimed_at_def out_of_reach_def)

lemma same_doc: "notices d' i = notices d i \<Longrightarrow> claimed_at d' i since = claimed_at d i since \<and> out_of_reach d' i = out_of_reach d i"
  by (simp add: claimed_at_def out_of_reach_def)

text \<open>A claim takes nothing that is posted, nor what a poll holds within its lease.\<close>

lemma Claim_takes:
  assumes "lists_pending pending" "lists_stale stale" and "lists_once pending" "\<And>t. lists_once (stale t)"
    and claim: "Claim fault pending stale now before d = (Inr ns, d')" and timed: "claims_timed d"
  shows "distinct (map noticeID ns)"
    and "i \<in> set (map noticeID ns) \<Longrightarrow> claimed_at d' i now \<and> \<not> out_of_reach d i \<and> (\<forall>since. claimed_at d i since \<longrightarrow> since < before)"
    and "i \<notin> set (map noticeID ns) \<Longrightarrow> notices d' i = notices d i"
proof -
  have eff: "claim_each now (pending d @ stale before d) d = Inr (ns, d')" using claim by (simp add: Claim_def run_transaction_ok)
  note ids = claim_each_effect(1) [OF eff]
  have apart: "set (pending d) \<inter> set (stale before d) = {}"
    using assms(1,2) timed by (fastforce simp: lists_pending_def lists_stale_def claims_timed_def)
  show "distinct (map noticeID ns)" unfolding ids using assms(3,4) apart by (simp add: lists_once_def)
  show "notices d' i = notices d i" if "i \<notin> set (map noticeID ns)" using claim_each_effect(3) [OF eff] that by (simp only: ids)
  assume i: "i \<in> set (map noticeID ns)"
  then have "i \<in> set (pending d @ stale before d)" by (simp only: ids)
  with claim_each_effect(2) [OF eff this] assms(1,2)
  show "claimed_at d' i now \<and> \<not> out_of_reach d i \<and> (\<forall>since. claimed_at d i since \<longrightarrow> since < before)"
    by (fastforce simp: claimed_at_def out_of_reach_def lists_pending_def lists_stale_def)
qed

lemma raised_same:
  assumes "claims_timed d"
  shows "claims_timed (snd (Raise fault n raisedAt d))" and "notices d i \<noteq> None \<Longrightarrow> notices (snd (Raise fault n raisedAt d)) i = notices d i"
proof -
  have "noticeData n raisedAt claimedAtField = None" by (simp add: noticeData_def apply_updates_def)
  then show "claims_timed (snd (Raise fault n raisedAt d))"
    using assms by (auto simp: Raise_def create_notice_def claims_timed_def split: option.splits)
qed (auto simp: Raise_def create_notice_def split: option.splits)

text \<open>Settling a notice one way or the other leaves every other notice, and no claim's time on this one.\<close>

lemma settled_timed:
  assumes "claims_timed d"
  shows "claims_timed (snd (Unclaim fault i d))" and "claims_timed (snd (NoticePosted fault i now d))"
proof -
  have absent: "snd (Unclaim fault i d) = d" "snd (NoticePosted fault i now d) = d" if "notices d i = None"
    using that by (simp_all add: Unclaim_def NoticePosted_def run_transaction_def update_notice_def split: option.splits)
  have timed: "claims_timed d'" if "\<And>j. j \<noteq> i \<Longrightarrow> notices d' j = notices d j"
    "\<And>n. notices d' i = Some n \<Longrightarrow> notices d i = Some n \<or> n claimedAtField = None" for d'
    using assms that unfolding claims_timed_def by metis
  have here: "notices d i = Some n' \<or> n' claimedAtField = None"
    if "notices (snd (Unclaim fault i d)) i = Some n' \<or> notices (snd (NoticePosted fault i now d)) i = Some n'" for n'
  proof (cases "notices d i")
    case None
    with that absent show ?thesis by simp
  next
    case (Some n)
    have deleted: "apply_updates [(noticeStateField, Put (VStr noticePending)), (claimedAtField, Delete)] n claimedAtField = None"
      "apply_updates [(noticeStateField, Put (VStr noticePosted)), (postedAtField, Put (VTime now)), (claimedAtField, Delete)] n claimedAtField = None"
      by (simp_all add: apply_updates_def)
    show ?thesis
    proof (cases fault)
      case None
      with that settle_notice(1) [OF Some] settle_notice(2) [OF Some, of now] deleted show ?thesis by (metis option.inject)
    next
      case fault: (Some e)
      with that settle_notice(3,4) [OF Some] show ?thesis using Some by (metis option.inject)
    qed
  qed
  show "claims_timed (snd (Unclaim fault i d))" 
  proof (rule timed)
    show "notices (snd (Unclaim fault i d)) j = notices d j" if "j \<noteq> i" for j using settle_notice_other(1) that by metis
  qed (rule here, rule disjI1)
  show "claims_timed (snd (NoticePosted fault i now d))" 
  proof (rule timed)
    show "notices (snd (NoticePosted fault i now d)) j = notices d j" if "j \<noteq> i" for j using settle_notice_other(2) that by metis
  qed (rule here, rule disjI2)
qed

lemma posted_out_of_reach: "NoticePosted fault i now d = (Inr (), d') \<Longrightarrow> out_of_reach d' i"
proof -
  assume ok: "NoticePosted fault i now d = (Inr (), d')"
  have "notices d i \<noteq> None"
  proof
    assume "notices d i = None"
    with ok show False by (simp add: NoticePosted_def run_transaction_def update_notice_def split: option.splits)
  qed
  then obtain n where n: "notices d i = Some n" by blast
  from ok have "fault = None" by (cases fault) (simp_all add: NoticePosted_def run_transaction_def)
  with ok settle_notice(2) [OF n, of now] show "out_of_reach d' i" by (simp add: out_of_reach_def row_simps)
qed

lemma held_kept:
  assumes "held_apart s" and "pstNow s \<le> now" and "j \<in> set (pstHeld s q)" and "within_lease s q now"
  shows "claimed_at (pstDB s) j (pstSince s q)" and "p \<noteq> q \<Longrightarrow> within_lease s p now \<Longrightarrow> j \<notin> set (pstHeld s p)"
proof -
  have "within_lease s x (pstNow s)" if "within_lease s x now" for x using that assms(2) by (simp add: within_lease_def)
  note live = this
  from assms(1) have "\<forall>p. \<forall>i \<in> set (pstHeld s p). within_lease s p (pstNow s) \<longrightarrow> claimed_at (pstDB s) i (pstSince s p)
      \<and> (\<forall>q. q \<noteq> p \<longrightarrow> within_lease s q (pstNow s) \<longrightarrow> i \<notin> set (pstHeld s q))" by (simp add: held_apart_def)
  with live assms(3,4) show "claimed_at (pstDB s) j (pstSince s q)" and "p \<noteq> q \<Longrightarrow> within_lease s p now \<Longrightarrow> j \<notin> set (pstHeld s p)"
    by blast+
qed

lemma settled_apart:
  assumes "held_apart s" and "pstNow s \<le> now" and "i \<in> set (pstHeld s p)" and "within_lease s p now"
    and "claims_timed d" and "\<And>j. j \<noteq> i \<Longrightarrow> notices d j = notices (pstDB s) j"
  shows "held_apart (settled_one p i d now s)"
  unfolding held_apart_def
proof (intro conjI allI ballI impI)
  have dist: "distinct (pstHeld s q)" for q using assms(1) by (simp add: held_apart_def)
  fix q
  show "distinct (pstHeld (settled_one p i d now s) q)" using dist by (simp add: settled_one_def)
  fix j assume j: "j \<in> set (pstHeld (settled_one p i d now s) q)" "within_lease (settled_one p i d now s) q (pstNow (settled_one p i d now s))"
  then have live: "within_lease s q now" by (simp add: settled_one_def within_lease_def)
  from j(1) have mem: "j \<in> set (pstHeld s q)" using set_remove1_subset [of i "pstHeld s p"] by (auto simp: settled_one_def split: if_splits)
  have "j \<noteq> i"
  proof (cases "q = p")
    case True
    with j(1) dist show ?thesis by (auto simp: settled_one_def)
  next
    case False
    with held_kept(2) [OF assms(1,2,3,4) _ live] mem show ?thesis by auto
  qed
  with held_kept(1) [OF assms(1,2) mem live] assms(6) same_doc [of d j "pstDB s"]
  show "claimed_at (pstDB (settled_one p i d now s)) j (pstSince (settled_one p i d now s) q)" by (simp add: settled_one_def)
  fix x assume "x \<noteq> q" "within_lease (settled_one p i d now s) x (pstNow (settled_one p i d now s))"
  with held_kept(2) [OF assms(1,2) mem live, of x] show "j \<notin> set (pstHeld (settled_one p i d now s) x)"
    by (auto simp: settled_one_def within_lease_def dest: notin_set_remove1)
next
  fix j assume "(j, True) \<in> set (pstPosts (settled_one p i d now s))"
  with assms(1) have reach: "out_of_reach (pstDB s) j" by (simp add: settled_one_def held_apart_def)
  with reach_apart held_kept(1) [OF assms(1,2,3,4)] have "j \<noteq> i" by blast
  with reach assms(6) same_doc [of d j "pstDB s"] show "out_of_reach (pstDB (settled_one p i d now s)) j" by (simp add: settled_one_def)
qed (use assms(5) in \<open>simp add: settled_one_def\<close>)

text \<open>Each step keeps the polls apart.\<close>

lemma posting_step_apart:
  assumes "lists_pending pending" "lists_stale stale" "lists_once pending" "\<And>t. lists_once (stale t)"
    and "posting_step pending stale s t" and apart: "held_apart s"
  shows "held_apart t"
  using assms(5)
proof cases
  case (raised now fault n raisedAt)
  have timed: "claims_timed (pstDB s)" using apart by (simp add: held_apart_def)
  have known: "notices (pstDB s) i \<noteq> None" if "claimed_at (pstDB s) i since \<or> out_of_reach (pstDB s) i" for i since
    using that by (auto simp: claimed_at_def out_of_reach_def)
  have same: "notices (snd (Raise fault n raisedAt (pstDB s))) i = notices (pstDB s) i"
    if "claimed_at (pstDB s) i since \<or> out_of_reach (pstDB s) i" for i since
    using raised_same(2) [OF timed known [OF that]] .
  show ?thesis
    unfolding held_apart_def
  proof (intro conjI allI ballI impI)
    fix q j assume "j \<in> set (pstHeld t q)" "within_lease t q (pstNow t)"
    then have j: "j \<in> set (pstHeld s q)" "within_lease s q now" by (simp_all add: raised(1) within_lease_def)
    note held = held_kept [OF apart raised(2) j]
    show "claimed_at (pstDB t) j (pstSince t q)" using held(1) same_doc [OF same [OF disjI1 [OF held(1)]]] by (simp add: raised(1))
    fix x assume "x \<noteq> q" "within_lease t x (pstNow t)"
    with held(2) [of x] show "j \<notin> set (pstHeld t x)" by (simp add: raised(1) within_lease_def)
  next
    fix i assume "(i, True) \<in> set (pstPosts t)"
    with apart have "out_of_reach (pstDB s) i" by (simp add: raised(1) held_apart_def)
    with same_doc [OF same [OF disjI2]] show "out_of_reach (pstDB t) i" by (simp add: raised(1))
  qed (use apart raised_same(1) [OF timed] in \<open>simp_all add: raised(1) held_apart_def\<close>)
next
  case (claimed now p fault ns d)
  have timed: "claims_timed (pstDB s)" using apart by (simp add: held_apart_def)
  note takes = Claim_takes [OF assms(1-4) claimed(4) timed]
  have free: "j \<notin> set (map noticeID ns)" if "j \<in> set (pstHeld s q)" "within_lease s q now" for j q
  proof
    assume "j \<in> set (map noticeID ns)"
    from takes(2) [OF this] held_kept(1) [OF apart claimed(2) that] have "pstSince s q < now - noticeLease" by blast
    with that(2) show False by (simp add: within_lease_def)
  qed
  show ?thesis
    unfolding held_apart_def
  proof (intro conjI allI ballI impI)
    show "claims_timed (pstDB t)"
      using timed takes(2,3) unfolding claimed(1) claims_timed_def claimed_at_def by simp (metis option.inject)
  next
    fix q show "distinct (pstHeld t q)" using takes(1) apart by (simp add: claimed(1) held_apart_def)
  next
    fix q j assume j: "j \<in> set (pstHeld t q)" "within_lease t q (pstNow t)"
    then have mem: "q \<noteq> p \<Longrightarrow> j \<in> set (pstHeld s q) \<and> within_lease s q now" by (simp add: claimed(1) within_lease_def)
    show "claimed_at (pstDB t) j (pstSince t q)"
    proof (cases "q = p")
      case True
      with j(1) takes(2) [of j] show ?thesis by (simp add: claimed(1))
    next
      case False
      with mem free have "j \<notin> set (map noticeID ns)" by blast
      with held_kept(1) [OF apart claimed(2)] mem False same_doc [OF takes(3)] show ?thesis by (simp add: claimed(1))
    qed
    fix x assume x: "x \<noteq> q" "within_lease t x (pstNow t)"
    then have live: "x \<noteq> p \<Longrightarrow> within_lease s x now" by (simp add: claimed(1) within_lease_def)
    show "j \<notin> set (pstHeld t x)"
    proof (cases "q = p")
      case True
      with j(1) x live free [of j x] show ?thesis by (auto simp: claimed(1))
    next
      case False
      with mem free [of j q] held_kept(2) [OF apart claimed(2), of j q x] x live show ?thesis by (auto simp: claimed(1))
    qed
  next
    fix i assume "(i, True) \<in> set (pstPosts t)"
    with apart have reach: "out_of_reach (pstDB s) i" by (simp add: claimed(1) held_apart_def)
    with takes(2) [of i] have "i \<notin> set (map noticeID ns)" by blast
    with reach same_doc [OF takes(3)] show "out_of_reach (pstDB t) i" by (simp add: claimed(1))
  qed
next
  case (posted now i p fault r d)
  have timed: "claims_timed (pstDB s)" using apart by (simp add: held_apart_def)
  have d: "d = snd (NoticePosted fault i now (pstDB s))" using posted(5) by simp
  have "held_apart (settled_one p i d now s)"
    using settled_timed(2) [OF timed] settle_notice_other(2) unfolding d
    by (intro settled_apart [OF apart posted(2-4)]) simp_all
  moreover have "out_of_reach d i" if "r = Inr ()" using posted_out_of_reach posted(5) that by blast
  ultimately show ?thesis by (auto simp: held_apart_def posted(1) settled_one_def within_lease_def)
next
  case (refused now i p fault)
  have timed: "claims_timed (pstDB s)" using apart by (simp add: held_apart_def)
  show ?thesis
    unfolding refused(1) using settled_timed(1) [OF timed] settle_notice_other(1)
    by (intro settled_apart [OF apart refused(2-4)]) simp_all
qed

text \<open>No notice is posted again after a post of it that was recorded.\<close>

fun posted_once :: "(string \<times> bool) list \<Rightarrow> bool" where
  "posted_once [] = True"
| "posted_once ((i, recorded) # earlier) = ((i, True) \<notin> set earlier \<and> posted_once earlier)"

lemma posted_once_split: "posted_once (later @ (i, True) # earlier) \<Longrightarrow> i \<notin> fst ` set later"
  by (induction later) force+

lemma posting_run_apart:
  assumes "lists_pending pending" "lists_stale stale" "lists_once pending" "\<And>t. lists_once (stale t)"
    and "posting_run pending stale s t" and "held_apart s" "posted_once (pstPosts s)"
  shows "held_apart t \<and> posted_once (pstPosts t)"
  using assms(5-7)
proof (induction rule: posting_run.induct)
  case (goes_on s t u)
  then have t: "held_apart t" "posted_once (pstPosts t)" by simp_all
  have "posted_once (pstPosts u)"
    using goes_on(2)
  proof cases
    case (posted now i p fault r d)
    have "(i, True) \<notin> set (pstPosts t)"
      using held_kept(1) [OF t(1) posted(2-4)] reach_apart t(1) by (auto simp: held_apart_def)
    with t(2) show ?thesis by (simp add: posted(1))
  qed (use t(2) in \<open>simp_all add: settled_one_def\<close>)
  with posting_step_apart [OF assms(1-4) goes_on(2) t(1)] show ?case by simp
qed simp

lemma starts_apart: "held_apart (posting_start empty_db now)" "posted_once (pstPosts (posting_start empty_db now))"
  by (simp_all add: held_apart_def posting_start_def claims_timed_def empty_db_def)

section \<open>The code's own order is one of the runs\<close>

text \<open>A poll that settles its notices one by one, as \<open>post_each\<close> does, takes the steps above.\<close>

lemma post_each_run:
  assumes "pstHeld s p = map noticeID ns" and "within_lease s p (pstNow s)"
  shows "\<exists>t. posting_run pending stale s t \<and> pstHeld t p = [] \<and> pstNow t = pstNow s
    \<and> pstDB t = snd (post_each posts faults (\<lambda>_. pstNow s) ns (pstDB s))
    \<and> map fst (pstPosts t) = rev (map noticeID (fst (post_each posts faults (\<lambda>_. pstNow s) ns (pstDB s)))) @ map fst (pstPosts s)"
  using assms
proof (induction ns arbitrary: s)
  case Nil
  then show ?case by (intro exI [of _ s]) (simp add: posting_run.begins)
next
  case (Cons n ns)
  let ?i = "noticeID n" and ?d = "pstDB s" and ?now = "pstNow s"
  obtain u where step: "posting_step pending stale s u" and held: "pstHeld u p = map noticeID ns"
    and since: "pstSince u = pstSince s" "pstNow u = ?now"
    and db: "pstDB u = (if posts n then snd (NoticePosted (faults ?i) ?i ?now ?d) else snd (Unclaim (faults ?i) ?i ?d))"
    and sent: "map fst (pstPosts u) = (if posts n then [?i] else []) @ map fst (pstPosts s)"
  proof (cases "posts n")
    case True
    obtain r d where r: "NoticePosted (faults ?i) ?i ?now ?d = (r, d)" by (rule prod.exhaust)
    show thesis
      by (rule that [OF posting_step.posted [OF order_refl _ Cons.prems(2) r]]) (use Cons.prems True r in \<open>simp_all add: settled_one_def\<close>)
  next
    case False
    show thesis
      by (rule that [OF posting_step.refused [OF order_refl _ Cons.prems(2), where fault = "faults ?i" and i = ?i]])
        (use Cons.prems False in \<open>simp_all add: settled_one_def\<close>)
  qed
  have "within_lease u p (pstNow u)" using Cons.prems(2) since by (simp add: within_lease_def)
  from Cons.IH [OF held this] obtain t where t: "posting_run pending stale u t" "pstHeld t p = []" "pstNow t = ?now"
    "pstDB t = snd (post_each posts faults (\<lambda>_. ?now) ns (pstDB u))"
    "map fst (pstPosts t) = rev (map noticeID (fst (post_each posts faults (\<lambda>_. ?now) ns (pstDB u)))) @ map fst (pstPosts u)"
    unfolding since by blast
  have "posting_run pending stale s t" using t(1) step
  proof (induction rule: posting_run.induct)
    case (goes_on s' t' u')
    then show ?case by (blast intro: posting_run.goes_on)
  qed (blast intro: posting_runs)
  with t(2-5) db sent show ?case by (intro exI [of _ t]) (simp add: case_prod_beta)
qed

end
