(* ===== verification/Run_Ending.thy ===== *)
theory Run_Ending
  imports Rewrite_Store Tickets
begin

text \<open>
  How a run's build ends (\<open>internal/runner/record.go\<close>, \<open>summary.go\<close>, \<open>build.go\<close>, \<open>harness.go\<close>,
  \<open>transient.go\<close> and \<open>escalation.go\<close>): its phases, outcomes and stop reasons, the endings the record
  job accepts of a build, and what each is told apart by.
\<close>

section \<open>Phases\<close>

definition PhaseProjection :: string where "PhaseProjection = ''projection''"
definition PhaseWorktree :: string where "PhaseWorktree = ''worktree''"
definition PhaseAgentStart :: string where "PhaseAgentStart = ''agent-start''"
definition PhasePlan :: string where "PhasePlan = ''plan''"
definition PhaseCommit :: string where "PhaseCommit = ''commit''"
definition PhasePR :: string where "PhasePR = ''pr''"

lemmas phase_defs = PhaseProjection_def PhaseWorktree_def PhaseAgentStart_def PhasePlan_def PhaseBuild_def
  PhaseReview_def PhaseCommit_def PhasePR_def

definition KnownPhase :: "string \<Rightarrow> bool" where
  "KnownPhase p \<longleftrightarrow> p \<in> set [PhaseProjection, PhaseWorktree, PhaseAgentStart, PhasePlan, PhaseBuild, PhaseReview, PhaseCommit, PhasePR]"

text \<open>The phases a build runs.\<close>

definition buildPhases :: "string list" where
  "buildPhases = [PhaseProjection, PhaseWorktree, PhaseAgentStart, PhasePlan, PhaseBuild, PhaseReview, PhaseCommit]"

section \<open>Stop reasons\<close>

definition StopProjectionMissing :: string where "StopProjectionMissing = ''projection-missing''"
definition StopProjectionInvalid :: string where "StopProjectionInvalid = ''projection-invalid''"
definition StopProjectionRead :: string where "StopProjectionRead = ''projection-read''"
definition StopWorktree :: string where "StopWorktree = ''worktree''"
definition StopAgentContainer :: string where "StopAgentContainer = ''agent-container''"
definition StopAgentExit :: string where "StopAgentExit = ''agent-exit''"
definition StopCompletions :: string where "StopCompletions = ''completions-upload''"
definition StopCommit :: string where "StopCommit = ''commit''"
definition StopNoBuildRecord :: string where "StopNoBuildRecord = ''no-build-record''"
definition StopModelInvalid :: string where "StopModelInvalid = ''model-invalid''"
definition StopAgentTimeout :: string where "StopAgentTimeout = ''agent-timeout''"
definition StopGitTampered :: string where "StopGitTampered = ''git-tampered''"
definition StopHeadMoved :: string where "StopHeadMoved = ''head-moved''"
definition StopSecretInBranch :: string where "StopSecretInBranch = ''secret-in-branch''"
definition StopPanic :: string where "StopPanic = ''panic''"
definition StopPRJob :: string where "StopPRJob = ''pr-job''"
definition StopRebaseConflict :: string where "StopRebaseConflict = ''rebase-conflict''"
definition StopSummaryInvalid :: string where "StopSummaryInvalid = ''summary-invalid''"
definition StopSummaryUnreadable :: string where "StopSummaryUnreadable = ''summary-unreadable''"
definition StopSetup :: string where "StopSetup = ''setup''"
definition StopRecordMissing :: string where "StopRecordMissing = ''record-missing''"
definition StopTicketMissing :: string where "StopTicketMissing = ''ticket-missing''"
definition StopTicketNotDelivered :: string where "StopTicketNotDelivered = ''ticket-not-delivered''"
definition StopIdentityMismatch :: string where "StopIdentityMismatch = ''identity-mismatch''"
definition StopAllowanceExhausted :: string where "StopAllowanceExhausted = ''allowance-exhausted''"
definition StopPlanInvalid :: string where "StopPlanInvalid = ''plan-invalid''"
definition StopChecksRun :: string where "StopChecksRun = ''checks-run''"
definition StopRunBudget :: string where "StopRunBudget = ''run-budget''"
definition StopReviewInvalid :: string where "StopReviewInvalid = ''review-invalid''"
definition StopCredentialAbsent :: string where "StopCredentialAbsent = ''credential-absent''"
definition StopWorkflowChange :: string where "StopWorkflowChange = ''workflow-change''"
definition StopPlanStageFailed :: string where "StopPlanStageFailed = ''plan-stage-failed''"
definition StopAgentNoProgress :: string where "StopAgentNoProgress = ''agent-no-progress''"
definition StopFormatterOutsideDiff :: string where "StopFormatterOutsideDiff = ''formatter-outside-diff''"

lemmas stop_defs = StopProjectionMissing_def StopProjectionInvalid_def StopProjectionRead_def StopWorktree_def StopAgentContainer_def StopAgentExit_def StopCompletions_def StopCommit_def StopNoBuildRecord_def StopModelInvalid_def StopAgentTimeout_def StopGitTampered_def StopHeadMoved_def StopSecretInBranch_def StopPanic_def StopPRJob_def StopRebaseConflict_def StopSummaryInvalid_def StopSummaryUnreadable_def StopSetup_def StopRecordMissing_def StopTicketMissing_def StopTicketNotDelivered_def StopIdentityMismatch_def StopAllowanceExhausted_def StopPlanInvalid_def StopChecksRun_def StopRunBudget_def StopReviewInvalid_def StopModelUnavailable_def StopCredentialAbsent_def StopWorkflowChange_def StopPlanStageFailed_def StopWaitingOnOwner_def StopAgentNoProgress_def StopFormatterOutsideDiff_def StopModelRefused_def

lemmas outcome_defs = OutcomeBuilt_def OutcomePROpened_def OutcomeNoChanges_def OutcomeStopped_def OutcomeAgentFailed_def
  OutcomeInfraFailure_def OutcomeBudgetStop_def

text \<open>A stop: its outcome, its reason and the text of its error.\<close>

record stop_error =
  stopOutcome :: string
  stopReason :: string
  stopText :: string

definition stopWith :: "string \<Rightarrow> string \<Rightarrow> string \<Rightarrow> stop_error" where
  "stopWith outcome reason err = \<lparr>stopOutcome = outcome, stopReason = reason, stopText = err\<rparr>"

lemma stopWith_simps [simp]:
  "stopOutcome (stopWith r1 r2 t) = r1" "stopReason (stopWith r1 r2 t) = r2" "stopText (stopWith r1 r2 t) = t"
  by (simp_all add: stopWith_def)

text \<open>A build stopped for one of these still commits the edits it left.\<close>

definition keepsWork :: "string \<Rightarrow> bool" where
  "keepsWork reason \<longleftrightarrow> reason = StopRunBudget \<or> reason = StopAgentTimeout \<or> reason = StopAgentNoProgress"

definition movesToNextModel :: "string \<Rightarrow> bool" where
  "movesToNextModel reason \<longleftrightarrow> reason = StopModelUnavailable \<or> reason = StopAllowanceExhausted"

definition keptWorkDetail :: "stop_error \<Rightarrow> string" where
  "keptWorkDetail s = ''the build stopped before it finished ('' @ stopReason s @ ''), so this holds only the edits it had made: ''
     @ stopText s"

section \<open>The endings of a build\<close>

type_synonym ending = "string \<times> string \<times> string"

definition panicEndings :: "ending list" where
  "panicEndings = map (\<lambda>p. (OutcomeInfraFailure, StopPanic, p)) buildPhases"

definition buildEndings :: "ending list" where
  "buildEndings = [
     (OutcomeInfraFailure, StopSetup, []),
     (OutcomeStopped, StopIdentityMismatch, []),
     (OutcomeStopped, StopTicketMissing, []),
     (OutcomeStopped, StopTicketNotDelivered, []),
     (OutcomeStopped, StopModelInvalid, PhaseProjection),
     (OutcomeStopped, StopCredentialAbsent, PhaseProjection),
     (OutcomeStopped, StopProjectionMissing, PhaseProjection),
     (OutcomeStopped, StopProjectionInvalid, PhaseProjection),
     (OutcomeInfraFailure, StopProjectionRead, PhaseProjection),
     (OutcomeInfraFailure, StopWorktree, PhaseWorktree),
     (OutcomeInfraFailure, StopAgentContainer, PhaseAgentStart),
     (OutcomeStopped, StopProjectionMissing, PhasePlan),
     (OutcomeStopped, StopProjectionInvalid, PhasePlan),
     (OutcomeInfraFailure, StopProjectionRead, PhasePlan),
     (OutcomeInfraFailure, StopCompletions, PhasePlan),
     (OutcomeInfraFailure, StopAgentContainer, PhasePlan),
     (OutcomeAgentFailed, StopAgentTimeout, PhasePlan),
     (OutcomeAgentFailed, StopAgentExit, PhasePlan),
     (OutcomeStopped, StopPlanInvalid, PhasePlan),
     (OutcomeStopped, StopWorkflowChange, PhasePlan),
     (OutcomeStopped, StopRunBudget, PhasePlan),
     (OutcomeBudgetStop, StopAllowanceExhausted, PhasePlan),
     (OutcomeInfraFailure, StopModelUnavailable, PhasePlan),
     (OutcomeInfraFailure, StopCompletions, PhaseBuild),
     (OutcomeInfraFailure, StopAgentContainer, PhaseBuild),
     (OutcomeAgentFailed, StopAgentTimeout, PhaseBuild),
     (OutcomeAgentFailed, StopAgentExit, PhaseBuild),
     (OutcomeAgentFailed, StopAgentNoProgress, PhaseBuild),
     (OutcomeBudgetStop, StopAllowanceExhausted, PhaseBuild),
     (OutcomeInfraFailure, StopModelUnavailable, PhaseBuild),
     (OutcomeInfraFailure, StopChecksRun, PhaseBuild),
     (OutcomeStopped, StopFormatterOutsideDiff, PhaseBuild),
     (OutcomeStopped, StopRunBudget, PhaseBuild),
     (OutcomeStopped, StopFormatterOutsideDiff, PhaseReview),
     (OutcomeStopped, StopGitTampered, PhaseCommit),
     (OutcomeStopped, StopHeadMoved, PhaseCommit),
     (OutcomeInfraFailure, StopCommit, PhaseCommit),
     (OutcomeStopped, StopSecretInBranch, PhaseCommit),
     (OutcomeStopped, StopWorkflowChange, PhaseCommit),
     (OutcomeNoChanges, [], PhaseCommit),
     (OutcomeBuilt, [], PhaseCommit)] @ panicEndings"

section \<open>Agent failures\<close>

text \<open>
  The class of a failed agent run by the phrases in its stderr, \<open>allowance\<close> and \<open>availability\<close> the
  configured ones.
\<close>

definition classifyMarkers :: "string list \<Rightarrow> string list \<Rightarrow> string \<Rightarrow> string \<times> string" where
  "classifyMarkers allowance availability stderrTail =
     (let low = to_lower stderrTail in
      if list_ex (contains low) allowance then (OutcomeBudgetStop, StopAllowanceExhausted)
      else if list_ex (contains low) availability then (OutcomeInfraFailure, StopModelUnavailable)
      else (OutcomeAgentFailed, StopAgentExit))"

text \<open>The exit codes of docker failing to run an agent at all.\<close>

definition dockerCannotRun :: "int \<Rightarrow> bool" where
  "dockerCannotRun code \<longleftrightarrow> 125 \<le> code \<and> code \<le> 127"

text \<open>How a run of an agent failed: whether its context was cancelled, and its exit code when it has one.\<close>

record run_failure =
  failText :: string
  failCancelled :: bool
  failExit :: "int option"

definition failedToRun :: "bool \<Rightarrow> run_failure \<Rightarrow> bool" where
  "failedToRun in_container err \<longleftrightarrow> in_container \<and> (case failExit err of None \<Rightarrow> False | Some code \<Rightarrow> dockerCannotRun code)"

definition endedByOurStop :: "run_failure \<Rightarrow> bool \<Rightarrow> bool" where
  "endedByOurStop err delivered \<longleftrightarrow>
     delivered \<and> (failCancelled err \<or> (case failExit err of None \<Rightarrow> False | Some code \<Rightarrow> code \<in> {-1, 137, 143}))"

section \<open>Harnesses\<close>

definition LicenceOpenSource :: string where "LicenceOpenSource = ''open-source''"

text \<open>A harness: \<open>hsReady plan\<close> is why it may not run the plan, if anything.\<close>

record harness =
  hsName :: string
  hsLicence :: string
  hsReady :: "string \<Rightarrow> string option"

datatype refused =
    NotReady string
  | NotLicensed string string string
  | NoHarness string
  | NoneConfigured string

text \<open>The error's words, \<open>table\<close> the print table of \<open>%q\<close>.\<close>

definition refusal_text :: "(nat \<Rightarrow> bool) \<Rightarrow> refused \<Rightarrow> string" where
  "refusal_text table r = (case r of
     NotReady why \<Rightarrow> why
   | NotLicensed licence name plan \<Rightarrow>
       ''harness '' @ Quote table name @ '' is '' @ (if licence = [] then ''not open-source'' else licence) @ '' and plan ''
       @ Quote table plan @ '' has not opted it in (runner plan-optin -provider '' @ plan @ '' -harness '' @ name @ '')''
   | NoHarness plan \<Rightarrow> ''no harness is configured for plan '' @ Quote table plan
   | NoneConfigured plan \<Rightarrow> ''plan '' @ Quote table plan @ '' names no configured harness'')"

definition harnessNamed :: "harness list \<Rightarrow> string \<Rightarrow> harness option" where
  "harnessNamed hs name = find (\<lambda>h. hsName h = name) hs"

definition licenceRefusal :: "string \<Rightarrow> string \<Rightarrow> string \<Rightarrow> (string \<Rightarrow> string \<Rightarrow> bool) option \<Rightarrow> refused option" where
  "licenceRefusal licence name plan opted =
     (if licence = LicenceOpenSource then None
      else if (case opted of None \<Rightarrow> False | Some f \<Rightarrow> f plan name) then None
      else Some (NotLicensed licence name plan))"

fun pick_from :: "harness list \<Rightarrow> (string \<Rightarrow> string \<Rightarrow> bool) option \<Rightarrow> string \<Rightarrow> string list \<Rightarrow> refused option \<Rightarrow> refused + harness" where
  "pick_from hs opted plan [] first =
     Inl (case first of Some r \<Rightarrow> r | None \<Rightarrow> NoneConfigured plan)"
| "pick_from hs opted plan (name # names) first =
     (case harnessNamed hs name of
        None \<Rightarrow> pick_from hs opted plan names first
      | Some h \<Rightarrow>
        (case licenceRefusal (hsLicence h) name plan opted of
           Some why \<Rightarrow> pick_from hs opted plan names (if first = None then Some why else first)
         | None \<Rightarrow>
           (case hsReady h plan of
              Some why \<Rightarrow> pick_from hs opted plan names (if first = None then Some (NotReady why) else first)
            | None \<Rightarrow> Inr h)))"

definition pickHarness :: "harness list \<Rightarrow> (string \<Rightarrow> string list) \<Rightarrow> string \<Rightarrow> (string \<Rightarrow> string \<Rightarrow> bool) option \<Rightarrow> refused + harness" where
  "pickHarness hs order plan opted =
     (if order plan = [] then Inl (NoHarness plan)
      else pick_from hs opted plan (order plan) None)"

definition routedHarness :: "harness list \<Rightarrow> (string \<Rightarrow> string list) \<Rightarrow> string \<Rightarrow> harness option" where
  "routedHarness hs order plan =
     (case List.map_filter (harnessNamed hs) (order plan) of [] \<Rightarrow> None | h # _ \<Rightarrow> Some h)"

record router =
  rtHarnesses :: "harness list"
  rtOrder :: "string \<Rightarrow> string list"
  rtOptIn :: "(string \<Rightarrow> string \<Rightarrow> bool) option"
  rtContained :: bool
  rtAllowance :: "string list"
  rtAvailability :: "string list"

definition route :: "router \<Rightarrow> string \<Rightarrow> refused + harness" where
  "route r model = pickHarness (rtHarnesses r) (rtOrder r) (Provider model) (rtOptIn r)"

definition Classify :: "router \<Rightarrow> string \<Rightarrow> string \<Rightarrow> run_failure \<Rightarrow> string \<times> string" where
  "Classify r model stderrTail err =
     (case (case route r model of Inr h \<Rightarrow> Some h | Inl _ \<Rightarrow> routedHarness (rtHarnesses r) (rtOrder r) (Provider model)) of
        None \<Rightarrow> (OutcomeAgentFailed, StopAgentExit)
      | Some h \<Rightarrow>
        if failedToRun (rtContained r) err then (OutcomeInfraFailure, StopAgentContainer)
        else classifyMarkers (rtAllowance r) (rtAvailability r) stderrTail)"

definition HarnessFor :: "router \<Rightarrow> string \<Rightarrow> string" where
  "HarnessFor r model = (case route r model of Inl _ \<Rightarrow> [] | Inr h \<Rightarrow> hsName h)"

text \<open>The tail of the stderr file, when it could be read.\<close>

definition classifyAgentFailure :: "router \<Rightarrow> string \<Rightarrow> string option \<Rightarrow> run_failure \<Rightarrow> string \<times> string" where
  "classifyAgentFailure r model stderrTail err =
     (case stderrTail of None \<Rightarrow> (OutcomeAgentFailed, StopAgentExit) | Some tail' \<Rightarrow> Classify r model tail' err)"

text \<open>The four ways an agent's own failure is classified.\<close>

definition agentFailures :: "(string \<times> string) list" where
  "agentFailures = [(OutcomeAgentFailed, StopAgentExit), (OutcomeBudgetStop, StopAllowanceExhausted),
     (OutcomeInfraFailure, StopModelUnavailable), (OutcomeInfraFailure, StopAgentContainer)]"

lemma classifyAgentFailure_cases: "classifyAgentFailure r model stderrTail err \<in> set agentFailures"
  by (auto simp: classifyAgentFailure_def Classify_def classifyMarkers_def agentFailures_def Let_def split: option.splits)

text \<open>A harness that may run a plan is one the plan names, licensed or opted in, and ready; the first such.\<close>

definition usable :: "harness list \<Rightarrow> (string \<Rightarrow> string \<Rightarrow> bool) option \<Rightarrow> string \<Rightarrow> string \<Rightarrow> bool" where
  "usable hs opted plan name \<longleftrightarrow>
     (\<exists>h. harnessNamed hs name = Some h \<and> licenceRefusal (hsLicence h) name plan opted = None \<and> hsReady h plan = None)"

lemma pick_from_usable:
  "pick_from hs opted plan names first = Inr h \<Longrightarrow>
     \<exists>before after. names = before @ hsName h # after \<and> list_all (\<lambda>n. \<not> usable hs opted plan n) before
       \<and> usable hs opted plan (hsName h)"
proof (induction names arbitrary: first)
  case (Cons name names)
  show ?case
  proof (cases "usable hs opted plan name")
    case True
    with Cons.prems have "harnessNamed hs name = Some h" by (auto simp: usable_def)
    moreover from this have "hsName h = name" by (auto simp: harnessNamed_def find_Some_iff)
    ultimately show ?thesis using True by (intro exI [of _ "[]"] exI [of _ names]) simp
  next
    case False
    then obtain first' where "pick_from hs opted plan names first' = Inr h"
      using Cons.prems by (auto simp: usable_def split: option.splits)
    with Cons.IH obtain before after where "names = before @ hsName h # after"
      "list_all (\<lambda>n. \<not> usable hs opted plan n) before" "usable hs opted plan (hsName h)" by blast
    with False show ?thesis by (intro exI [of _ "name # before"] exI [of _ after]) simp
  qed
qed simp

lemma pick_from_none:
  "pick_from hs opted plan names first = Inl why \<Longrightarrow> list_all (\<lambda>n. \<not> usable hs opted plan n) names"
  by (induction names arbitrary: first) (auto simp: usable_def split: option.splits)

section \<open>What a record tells apart\<close>

definition jobLogStops :: "string list" where
  "jobLogStops = [StopSetup, StopWorktree, StopPRJob, StopNoBuildRecord, StopSummaryUnreadable]"

definition ReadsJobLog :: "string \<Rightarrow> bool" where
  "ReadsJobLog reason \<longleftrightarrow> reason \<in> set jobLogStops"

definition breakerStops :: "string list" where
  "breakerStops = [StopCredentialAbsent, StopIdentityMismatch, StopAllowanceExhausted]"

text \<open>Whether the owner is told of the stop, and whether it trips the breaker.\<close>

definition Systemic :: "string \<Rightarrow> bool \<times> bool" where
  "Systemic reason = (let trips = reason \<in> set breakerStops in (trips \<or> reason = StopModelUnavailable, trips))"

definition escalates :: "string \<Rightarrow> string \<Rightarrow> bool" where
  "escalates phase outcome \<longleftrightarrow> phase = PhaseBuild \<and> outcome = OutcomeAgentFailed"

definition checkGates :: "string list" where
  "checkGates = [''gofmt'', ''vet'', ''golangci-lint'', ''test'']"

definition gateUnnamed :: string where "gateUnnamed = ''check''"

definition FailedGate :: "string \<Rightarrow> string" where
  "FailedGate reported =
     (if reported = [] \<or> reported = ''none'' then [] else if reported \<in> set checkGates then reported else gateUnnamed)"

end
