(* ===== verification/Run_Texts.thy ===== *)
theory Run_Texts
  imports Run_Ending
begin

text \<open>
  What a run reads out of its agents' final messages (\<open>internal/runner/commitmsg.go\<close>, \<open>plan.go\<close>,
  \<open>review.go\<close> and \<open>decision.go\<close>): the fenced blocks, the commit message, the plan's file list or its
  decision, and the review's findings.
\<close>

section \<open>Fenced blocks\<close>

text \<open>
  The blocks of the pattern \<open>(?s)```name\s*\n(.*?)```\<close>, in order: a header, then the text up to the next
  fence. White space holds no back quote, so the fence a header's block ends at is the same whichever line
  end the header's white space is taken to, and a header with no fence after it is the last.
\<close>

definition fence :: string where "fence = replicate 3 (CHR 0x60)"

definition block_header :: "string \<Rightarrow> re" where
  "block_header name = cats [lit (fence @ name), Star (one_of perl_space), lit [CHR 0x0A]]"

lemma cut_shorter:
  assumes "cut s sep = (before, after, True)" and "sep \<noteq> []"
  shows "length after < length s"
  using assms by (induction s arbitrary: before) (auto split: if_splits prod.splits dest: prefix_length_le)

function blocks_from :: "string \<Rightarrow> string \<Rightarrow> string list" where
  "blocks_from name s =
     (case search (block_header name) [] s of
        None \<Rightarrow> []
      | Some m \<Rightarrow>
        let rest = snd (matchEnd m) in
        if length rest \<ge> length s then []
        else case cut rest fence of
            (content, after, found) \<Rightarrow> if found then content # blocks_from name after else [])"
  by pat_completeness auto
termination
  by (relation "measure (\<lambda>(_, s). length s)") (auto simp: fence_def dest!: cut_shorter [OF sym])

declare blocks_from.simps [simp del]

text \<open>The last block.\<close>

definition last_block :: "string \<Rightarrow> string \<Rightarrow> string option" where
  "last_block name text' = (case rev (blocks_from name text') of [] \<Rightarrow> None | b # _ \<Rightarrow> Some b)"

section \<open>Lines, paragraphs and fields\<close>

definition trim_right :: "string \<Rightarrow> string" where
  "trim_right s = rev (strip (map rev space_runes) (rev s))"

text \<open>\<open>strings.ReplaceAll\<close> of the two bytes of a DOS line end.\<close>

fun unix_lines :: "string \<Rightarrow> string" where
  "unix_lines (a # b # s) = (if a = CHR 0x0D \<and> b = CHR 0x0A then CHR 0x0A # unix_lines s else a # unix_lines (b # s))"
| "unix_lines s = s"

definition flush :: "string list \<Rightarrow> string list \<Rightarrow> string list" where
  "flush out cur = (if cur = [] then out else out @ [join newline cur])"

fun group_lines :: "string list \<Rightarrow> string list \<Rightarrow> string list \<Rightarrow> string list" where
  "group_lines [] out cur = flush out cur"
| "group_lines (l # ls) out cur =
     (let l' = trim_right l in
      if blank l' then group_lines ls (flush out cur) [] else group_lines ls out (cur @ [l']))"

definition paragraphs :: "string \<Rightarrow> string list" where
  "paragraphs s = group_lines (split_char (CHR 0x0A) (unix_lines s)) [] []"

text \<open>\<open>strings.Fields\<close>: the words between white space, in one pass over the runes.\<close>

fun fields_of :: "string list \<Rightarrow> string \<Rightarrow> string list" where
  "fields_of [] cur = (if cur = [] then [] else [cur])"
| "fields_of (r # rs) cur =
     (if r \<in> set space_runes then (if cur = [] then fields_of rs [] else cur # fields_of rs []) else fields_of rs (cur @ r))"

definition Fields :: "string \<Rightarrow> string list" where
  "Fields s = fields_of (map snd (runes s)) []"

definition has_prefix :: "string \<Rightarrow> string \<Rightarrow> bool" where
  "has_prefix s p \<longleftrightarrow> prefix p s"

section \<open>The commit message\<close>

definition maxCommitSubjectRunes :: nat where "maxCommitSubjectRunes = 72"

record commit_message =
  msgSubject :: string
  msgSummary :: string
  msgBody :: string

definition no_message :: commit_message where
  "no_message = \<lparr>msgSubject = [], msgSummary = [], msgBody = []\<rparr>"

definition CommitMessage_Text :: "commit_message \<Rightarrow> string" where
  "CommitMessage_Text m = msgSubject m @ newline @ newline @ msgBody m"

definition ParseCommitMessage :: "(nat \<Rightarrow> bool) \<Rightarrow> string \<Rightarrow> string \<Rightarrow> commit_message option" where
  "ParseCommitMessage table text' ticketID =
     (case last_block ''commit-message'' text' of
        None \<Rightarrow> None
      | Some b \<Rightarrow>
        let paras = paragraphs b in
        if length paras < 3 then None
        else
          let subject = paras ! 0; summary = join '' '' (Fields (paras ! 1)); body = join (newline @ newline) (drop 2 paras) in
          if contains subject newline \<or> \<not> printable table subject then None
          else if \<not> MatchString conventionalPrefix subject then None
          else if \<not> contains subject ticketID then None
          else if length (runes subject) > maxCommitSubjectRunes then None
          else if has_prefix summary ''- '' \<or> \<not> printable table summary then None
          else if \<not> list_ex (\<lambda>l. has_prefix l ''- '') (split_char (CHR 0x0A) body) then None
          else Some \<lparr>msgSubject = subject, msgSummary = summary, msgBody = body\<rparr>)"

definition adopt :: "(nat \<Rightarrow> bool) \<Rightarrow> string \<Rightarrow> string \<Rightarrow> commit_message \<Rightarrow> commit_message" where
  "adopt table text' ticketID m = (case ParseCommitMessage table text' ticketID of Some parsed \<Rightarrow> parsed | None \<Rightarrow> m)"

definition titleTag :: re where
  "titleTag = cats [TextStart, lit ''['', Group 1 (plus (Byte (\<lambda>c. is_upper c \<or> is_lower c))), lit '']'', Star (one_of perl_space)]"

definition laneTypes :: "(string \<times> string) list" where
  "laneTypes = [(''INFRA'', ''chore''), (''OPS'', ''chore'')]"

text \<open>The package most of the files are under, the first of those in alphabetical order.\<close>

definition package_of :: "string \<Rightarrow> string option" where
  "package_of f =
     (let parts = split_char (CHR ''/'') f in
      if length parts \<ge> 3 \<and> (hd parts = ''internal'' \<or> hd parts = ''cmd'') then Some (parts ! 1) else None)"

definition package_counts :: "string list \<Rightarrow> (string \<times> nat) list" where
  "package_counts files =
     foldl (\<lambda>m p. AList.update p (Suc (case map_of m p of None \<Rightarrow> 0 | Some n \<Rightarrow> n)) m) [] (List.map_filter package_of files)"

definition better_package :: "(string \<times> nat) list \<Rightarrow> string \<Rightarrow> string \<times> nat \<Rightarrow> string" where
  "better_package counts best p =
     (let n = (case map_of counts best of None \<Rightarrow> 0 | Some k \<Rightarrow> k) in
      if snd p > n \<or> snd p = n \<and> fst p < best then fst p else best)"

definition topPackage :: "string list \<Rightarrow> string" where
  "topPackage files = (let counts = package_counts files in foldl (better_package counts) [] counts)"

text \<open>\<open>unicode.ToLower\<close> of the first rune, \<open>low\<close> its table past ASCII; an invalid first byte becomes the replacement.\<close>

definition lowerFirst :: "(string \<Rightarrow> string) \<Rightarrow> string \<Rightarrow> string" where
  "lowerFirst low s =
     (case runes s of
        [] \<Rightarrow> rune_error
      | (None, bs) # _ \<Rightarrow> rune_error @ drop (length bs) s
      | (Some v, bs) # _ \<Rightarrow> (if v < 0x80 then to_lower bs else low bs) @ drop (length bs) s)"

definition FallbackCommitMessage :: "(string \<Rightarrow> string) \<Rightarrow> full_ticket \<Rightarrow> string list \<Rightarrow> commit_message" where
  "FallbackCommitMessage low t files =
     (if MatchString conventionalPrefix (tkTitle t)
      then \<lparr>msgSubject = Subject t, msgSummary = tkTitle t, msgBody = tkBody t\<rparr>
      else
        case (case FindSubmatch titleTag (tkTitle t) of
            None \<Rightarrow> (tkTitle t, ''feat'')
          | Some m \<Rightarrow> (drop (length (matchText m)) (tkTitle t),
              case map_of laneTypes (ToUpper (group m 1)) of None \<Rightarrow> ''feat'' | Some lt \<Rightarrow> lt)) of
          (rest, commitType) \<Rightarrow>
            let summary = (if rest = [] then tkTitle t else rest); scope = topPackage files;
                start = commitType @ (if scope \<noteq> [] then ''('' @ scope @ '')'' else [])
            in \<lparr>msgSubject = start @ '': '' @ tkID t @ '' '' @ lowerFirst low summary, msgSummary = summary, msgBody = tkBody t\<rparr>)"

section \<open>Paths\<close>

definition repoRelative :: "string \<Rightarrow> bool" where
  "repoRelative f \<longleftrightarrow> \<not> (f = [] \<or> CHR 0x00 \<in> set f \<or> has_prefix f ''/'') \<and> ''..'' \<notin> set (split_char (CHR ''/'') f)"

text \<open>\<open>path.Clean\<close>, on the parts of a path.\<close>

fun clean_parts :: "bool \<Rightarrow> string list \<Rightarrow> string list \<Rightarrow> string list" where
  "clean_parts rooted [] out = rev out"
| "clean_parts rooted (p # ps) out =
     (if p = [] \<or> p = ''.'' then clean_parts rooted ps out
      else if p = ''..'' then
        (if out \<noteq> [] \<and> hd out \<noteq> ''..'' then clean_parts rooted ps (tl out)
         else if rooted then clean_parts rooted ps out else clean_parts rooted ps (p # out))
      else clean_parts rooted ps (p # out))"

definition path_Clean :: "string \<Rightarrow> string" where
  "path_Clean f =
     (let rooted = has_prefix f ''/''; parts = clean_parts rooted (split_char (CHR ''/'') f) [] in
      if rooted then CHR ''/'' # join ''/'' parts else if parts = [] then ''.'' else join ''/'' parts)"

definition workflowDir :: string where "workflowDir = ''.github/workflows''"

definition workflowFiles :: "string list \<Rightarrow> string list" where
  "workflowFiles paths = filter (\<lambda>p. let c = path_Clean p in c = workflowDir \<or> has_prefix c (workflowDir @ ''/'')) paths"

definition workflowChange :: "string list \<Rightarrow> string" where
  "workflowChange files = ''touches files under '' @ workflowDir @ ''/, which the run cannot push: '' @ join '', '' files"

definition OutOfPlanFiles :: "string list \<Rightarrow> string list \<Rightarrow> string list" where
  "OutOfPlanFiles edited planned = filter (\<lambda>f. f \<notin> set planned) edited"

section \<open>The plan\<close>

definition errPlanFiles :: string where
  "errPlanFiles = ''plan agent's response carries no valid plan-files list''"

fun plan_lines :: "(nat \<Rightarrow> bool) \<Rightarrow> string list \<Rightarrow> string + string list" where
  "plan_lines table [] = Inr []"
| "plan_lines table (l # ls) =
     (let l' = trim_space l in
      if l' = [] then plan_lines table ls
      else if \<not> repoRelative l'
      then Inl (errPlanFiles @ '': '' @ Quote table (truncate_text l' logErrorLimit) @ '' is not a repository-relative path'')
      else and_then (plan_lines table ls) (\<lambda>fs. Inr (l' # fs)))"

definition parsePlanFiles :: "(nat \<Rightarrow> bool) \<Rightarrow> string \<Rightarrow> string + string list" where
  "parsePlanFiles table text' =
     (case last_block ''plan-files'' text' of
        None \<Rightarrow> Inl errPlanFiles
      | Some b \<Rightarrow> and_then (plan_lines table (split_char (CHR 0x0A) b)) (\<lambda>fs. if fs = [] then Inl errPlanFiles else Inr fs))"

definition decisionContextLimit :: nat where "decisionContextLimit = 200"
definition decisionValueLimit :: nat where "decisionValueLimit = 80"
definition decisionCostLimit :: nat where "decisionCostLimit = 80"
definition decisionContextLines :: nat where "decisionContextLines = 3"
definition decisionOptionMin :: nat where "decisionOptionMin = 2"
definition decisionOptionMax :: nat where "decisionOptionMax = 4"

fun context_breaches :: "(nat \<Rightarrow> bool) \<Rightarrow> nat \<Rightarrow> string list \<Rightarrow> string list" where
  "context_breaches table n [] = []"
| "context_breaches table n (l # ls) =
     (case checkDecisionText table (''context line '' @ itoa (int n)) l decisionContextLimit of None \<Rightarrow> [] | Some e \<Rightarrow> [e])
     @ context_breaches table (n + 1) ls"

fun option_breaches :: "(nat \<Rightarrow> bool) \<Rightarrow> nat \<Rightarrow> decision_option list \<Rightarrow> string list" where
  "option_breaches table n [] = []"
| "option_breaches table n (c # cs) =
     (let name = ''option '' @ itoa (int n) in
      List.map_filter id [checkDecisionText table (name @ '' label'') (optLabel c) decisionLabelLimit,
        checkDecisionText table (name @ '' value'') (optValue c) decisionValueLimit,
        checkDecisionText table (name @ '' cost'') (optCost c) decisionCostLimit])
     @ option_breaches table (n + 1) cs"

definition boundBreaches :: "(nat \<Rightarrow> bool) \<Rightarrow> decision \<Rightarrow> string list" where
  "boundBreaches table d =
     (case checkDecisionText table ''question'' (question d) decisionQuestionLimit of None \<Rightarrow> [] | Some e \<Rightarrow> [e])
     @ (if length (contextLines d) > decisionContextLines
        then [errDecisionInvalid @ '': context is over '' @ itoa (int decisionContextLines) @ '' lines''] else [])
     @ context_breaches table 1 (contextLines d)
     @ (if length (options d) < decisionOptionMin \<or> length (options d) > decisionOptionMax
        then [errDecisionInvalid @ '': '' @ itoa (int (length (options d))) @ '' options, want '' @ itoa (int decisionOptionMin)
          @ '' to '' @ itoa (int decisionOptionMax)] else [])
     @ option_breaches table 1 (options d)"

text \<open>A plan's reply that is no plan: its words, and the bounds a decision broke, which may be corrected.\<close>

datatype plan_error = PlanError string | DecisionBounds "string list"

fun plan_error_text :: "plan_error \<Rightarrow> string" where
  "plan_error_text (PlanError why) = why"
| "plan_error_text (DecisionBounds breaches) = (case breaches of [] \<Rightarrow> [] | b # _ \<Rightarrow> b)"

fun breaksDecisionBound :: "plan_error \<Rightarrow> bool" where
  "breaksDecisionBound (PlanError _) = False"
| "breaksDecisionBound (DecisionBounds _) = True"

definition Decision_Check :: "(nat \<Rightarrow> bool) \<Rightarrow> decision \<Rightarrow> plan_error option" where
  "Decision_Check table d = (let bs = boundBreaches table d in if bs \<noteq> [] then Some (DecisionBounds bs) else None)"

text \<open>\<open>decode\<close> reads the block's JSON, or says why it is not one decision and nothing more.\<close>

definition parseDecision :: "(nat \<Rightarrow> bool) \<Rightarrow> (string \<Rightarrow> string + decision) \<Rightarrow> string \<Rightarrow> plan_error + decision" where
  "parseDecision table decode raw =
     (case decode raw of
        Inl why \<Rightarrow> Inl (PlanError (errDecisionInvalid @ '': '' @ why))
      | Inr d \<Rightarrow> (case Decision_Check table d of Some e \<Rightarrow> Inl e | None \<Rightarrow> Inr d))"

datatype plan_artifact = PlanFiles "string list" | PlanDecision decision

definition parsePlanArtifacts :: "(nat \<Rightarrow> bool) \<Rightarrow> (string \<Rightarrow> string + decision) \<Rightarrow> string \<Rightarrow> bool \<Rightarrow> plan_error + plan_artifact" where
  "parsePlanArtifacts table decode text' guided =
     (case last_block ''plan-decision'' text' of
        None \<Rightarrow> (case parsePlanFiles table text' of Inl why \<Rightarrow> Inl (PlanError why) | Inr fs \<Rightarrow> Inr (PlanFiles fs))
      | Some raw \<Rightarrow>
        if guided \<and> blocks_from ''plan-files'' text' \<noteq> []
        then Inl (PlanError (errPlanFiles @ '': the plan carries both a file list and a decision''))
        else if \<not> guided then Inl (PlanError (errDecisionInvalid @ '': this phase cannot ask the owner a decision''))
        else (case parseDecision table decode raw of Inl e \<Rightarrow> Inl e | Inr d \<Rightarrow> Inr (PlanDecision d)))"

section \<open>The review\<close>

definition errReviewFindings :: string where
  "errReviewFindings = ''review agent's response carries no valid review-findings block''"

definition ParseReviewFindings :: "string \<Rightarrow> string + string" where
  "ParseReviewFindings text' =
     (case last_block ''review-findings'' text' of None \<Rightarrow> Inl errReviewFindings | Some b \<Rightarrow> Inr (trim_space b))"

section \<open>What is read is well formed\<close>

lemma plan_lines_relative:
  "plan_lines table ls = Inr fs \<Longrightarrow> list_all repoRelative fs"
  by (induction ls arbitrary: fs) (auto simp: Let_def and_then_Inr split: if_splits)

lemma parsePlanFiles_relative:
  assumes "parsePlanFiles table text' = Inr fs"
  shows "fs \<noteq> []" "list_all repoRelative fs"
  using assms plan_lines_relative by (auto simp: parsePlanFiles_def and_then_Inr split: option.splits if_splits)

lemma parsePlanArtifacts_files:
  "parsePlanArtifacts table decode text' guided = Inr (PlanFiles fs) \<Longrightarrow> fs \<noteq> [] \<and> list_all repoRelative fs"
  using parsePlanFiles_relative [of table text' fs] by (auto simp: parsePlanArtifacts_def split: option.splits if_splits sum.splits)

lemma parsePlanArtifacts_decision:
  "parsePlanArtifacts table decode text' guided = Inr (PlanDecision d) \<Longrightarrow> guided \<and> boundBreaches table d = []"
  by (auto simp: parsePlanArtifacts_def parseDecision_def Decision_Check_def Let_def split: option.splits if_splits sum.splits)

lemma ParseCommitMessage_ok:
  assumes "ParseCommitMessage table text' ticketID = Some m"
  shows "printable table (msgSubject m)" "contains (msgSubject m) ticketID" "MatchString conventionalPrefix (msgSubject m)"
    "length (runes (msgSubject m)) \<le> 72" "printable table (msgSummary m)"
    "\<exists>l \<in> set (split_char (CHR 0x0A) (msgBody m)). prefix ''- '' l"
  using assms by (auto simp: ParseCommitMessage_def Let_def maxCommitSubjectRunes_def has_prefix_def list_ex_iff
      split: option.splits if_splits)

end
