(* ===== verification/Run_Findings.thy ===== *)
theory Run_Findings
  imports Go_Runes
begin

text \<open>
  The findings of a run's pre-open review and how it left each (\<open>internal/runner/loop.go\<close>, with the
  bounds of \<open>summary.go\<close>): the rows the pull request publishes.
\<close>

section \<open>Findings\<close>

record pending_finding =
  pfKey :: string
  pfText :: string
  pfStable :: bool

record review_finding =
  rfFinding :: string
  rfResolution :: string

definition line_end :: string where "line_end = [CHR 0x0A]"

definition findingsText :: "pending_finding list \<Rightarrow> string" where
  "findingsText fs = join line_end (map pfText fs)"

text \<open>Each line of the review's block is a finding of its own key.\<close>

definition reviewPending :: "string \<Rightarrow> pending_finding list" where
  "reviewPending findings =
     List.map_filter (\<lambda>l. let l' = trim_space l in
       if l' = [] then None else Some \<lparr>pfKey = l', pfText = l', pfStable = False\<rparr>) (split_char (CHR 0x0A) findings)"

definition findingKeys :: "pending_finding list \<Rightarrow> string list" where
  "findingKeys fs = map pfKey fs"

definition noFixRound :: nat where "noFixRound = 0"

definition stillOpenText :: string where "stillOpenText = ''still open''"

definition stillOpenAfter :: "nat \<Rightarrow> string" where
  "stillOpenAfter fixRound = ''still open after round '' @ itoa (int fixRound)"

definition fixedIn :: "nat \<Rightarrow> string" where
  "fixedIn fixRound = ''fixed in round '' @ itoa (int fixRound)"

definition findingResolution :: "string \<Rightarrow> string list \<Rightarrow> nat \<Rightarrow> bool \<Rightarrow> string" where
  "findingResolution key stillOpen fixRound rechecked =
     (if key \<in> set stillOpen \<or> fixRound = noFixRound then stillOpenText
      else if rechecked then fixedIn fixRound
      else ''addressed in round '' @ itoa (int fixRound) @ '', not re-checked'')"

definition resolveFindings :: "pending_finding list \<Rightarrow> string list \<Rightarrow> nat \<Rightarrow> bool \<Rightarrow> review_finding list" where
  "resolveFindings pending stillOpen fixRound rechecked =
     map (\<lambda>f. \<lparr>rfFinding = pfText f, rfResolution = findingResolution (pfKey f) stillOpen fixRound rechecked\<rparr>) pending"

text \<open>One fix round and the re-check that followed it.\<close>

record fix_round =
  frRound :: nat
  frIssued :: "pending_finding list"
  frOpen :: "pending_finding list"
  frRechecked :: bool

section \<open>The rows\<close>

text \<open>The findings some round was given, each key once, in the order it was first given.\<close>

definition issue_finding :: "pending_finding list \<Rightarrow> pending_finding \<Rightarrow> pending_finding list" where
  "issue_finding issued f = (if pfKey f \<in> set (findingKeys issued) then issued else issued @ [f])"

definition all_issued :: "fix_round list \<Rightarrow> pending_finding list" where
  "all_issued rounds = foldl issue_finding [] (concat (map frIssued rounds))"

text \<open>How a round leaves a finding it was given; \<open>final\<close> says it is the last of several.\<close>

definition round_resolution :: "fix_round \<Rightarrow> bool \<Rightarrow> pending_finding \<Rightarrow> string" where
  "round_resolution r final f =
     (let res = findingResolution (pfKey f) (findingKeys (frOpen r)) (frRound r) (frRechecked r);
          reworded = list_ex (\<lambda>g. \<not> pfStable g) (frOpen r) in
      if \<not> pfStable f \<and> reworded \<and> res = fixedIn (frRound r)
      then ''addressed in round '' @ itoa (int (frRound r)) @ ''; the re-review still reported findings''
      else if res = stillOpenText \<and> frRechecked r \<and> final then stillOpenAfter (frRound r)
      else res)"

text \<open>The resolutions by key, each round overwriting the ones before it.\<close>

definition settle_round :: "bool \<Rightarrow> (string \<times> string) list \<Rightarrow> fix_round \<times> bool \<Rightarrow> (string \<times> string) list" where
  "settle_round several res r =
     foldl (\<lambda>m f. AList.update (pfKey f) (round_resolution (fst r) (snd r \<and> several) f) m) res (frIssued (fst r))"

definition marked_last :: "fix_round list \<Rightarrow> (fix_round \<times> bool) list" where
  "marked_last rounds = zip rounds (map (\<lambda>i. Suc i = length rounds) [0..<length rounds])"

definition resolutions :: "fix_round list \<Rightarrow> (string \<times> string) list" where
  "resolutions rounds = foldl (settle_round (length rounds > 1)) [] (marked_last rounds)"

text \<open>The findings a re-check made that no round was given, as the rows list them.\<close>

definition add_open :: "bool \<Rightarrow> nat \<Rightarrow> string list \<times> review_finding list \<Rightarrow> pending_finding \<Rightarrow> string list \<times> review_finding list" where
  "add_open several round acc f = (case acc of (seen, rows) \<Rightarrow>
     if pfKey f \<in> set seen then (seen, rows)
     else (pfKey f # seen, rows @ [\<lparr>rfFinding = pfText f, rfResolution = (if several then stillOpenAfter round else stillOpenText)\<rparr>]))"

definition open_rows :: "string list \<Rightarrow> fix_round list \<Rightarrow> review_finding list" where
  "open_rows seen rounds =
     snd (foldl (\<lambda>acc r. foldl (add_open (length rounds > 1) (frRound r)) acc (frOpen r)) (seen, []) rounds)"

definition issued_row :: "(string \<times> string) list \<Rightarrow> pending_finding \<Rightarrow> review_finding" where
  "issued_row res f = \<lparr>rfFinding = pfText f, rfResolution = (case map_of res (pfKey f) of None \<Rightarrow> [] | Some r \<Rightarrow> r)\<rparr>"

definition maxReviewFindings :: nat where "maxReviewFindings = 24"
definition maxFindingBytes :: nat where "maxFindingBytes = 512"

definition capFindings :: "review_finding list \<Rightarrow> review_finding list" where
  "capFindings fs = map (\<lambda>f. \<lparr>rfFinding = truncate_text (rfFinding f) maxFindingBytes,
     rfResolution = truncate_text (rfResolution f) maxFindingBytes\<rparr>) (take maxReviewFindings fs)"

definition review_rows :: "fix_round list \<Rightarrow> review_finding list" where
  "review_rows rounds =
     map (issued_row (resolutions rounds)) (all_issued rounds) @ open_rows (findingKeys (all_issued rounds)) rounds"

definition reviewRows :: "fix_round list \<Rightarrow> review_finding list" where
  "reviewRows rounds = capFindings (review_rows rounds)"

section \<open>Every finding has one row, and what it says\<close>

lemma findingKeys_simps [simp]: "findingKeys [] = []" "findingKeys (f # fs) = pfKey f # findingKeys fs"
  "findingKeys (fs @ gs) = findingKeys fs @ findingKeys gs"
  by (simp_all add: findingKeys_def)

lemma issue_keys: "set (findingKeys (foldl issue_finding acc fs)) = set (findingKeys acc) \<union> set (findingKeys fs)"
  by (induction fs arbitrary: acc) (auto simp: issue_finding_def)

lemma issue_distinct: "distinct (findingKeys acc) \<Longrightarrow> distinct (findingKeys (foldl issue_finding acc fs))"
  by (induction fs arbitrary: acc) (auto simp: issue_finding_def)

lemma all_issued_keys:
  "distinct (findingKeys (all_issued rounds))"
  "set (findingKeys (all_issued rounds)) = (\<Union>r \<in> set rounds. set (findingKeys (frIssued r)))"
  using issue_distinct [of "[]" "concat (map frIssued rounds)"] issue_keys [of "[]" "concat (map frIssued rounds)"]
  by (auto simp: all_issued_def findingKeys_def)

lemma update_all_map:
  "map_of (foldl (\<lambda>m f. AList.update (key f) (val f) m) res fs) k =
     (case filter (\<lambda>f. key f = k) fs of [] \<Rightarrow> map_of res k | gs \<Rightarrow> Some (val (last gs)))"
proof (induction fs rule: rev_induct)
  case (snoc f fs)
  then show ?case by (auto simp: update_conv' split: list.splits)
qed simp

lemma marked_last_snoc: "marked_last (rounds @ [r]) = map (\<lambda>q. (q, False)) rounds @ [(r, True)]"
  by (rule nth_equalityI) (auto simp: marked_last_def nth_append)

text \<open>The resolution of a finding the last round was given is that of the last of its key.\<close>

lemma resolutions_last:
  assumes "f \<in> set (frIssued r)"
  shows "\<exists>g. pfKey g = pfKey f \<and> map_of (resolutions (rounds @ [r])) (pfKey f) = Some (round_resolution r (rounds \<noteq> []) g)"
proof -
  let ?gs = "filter (\<lambda>g. pfKey g = pfKey f) (frIssued r)"
  have some: "?gs \<noteq> []" using assms by (auto simp: filter_empty_conv)
  then have "last ?gs \<in> set ?gs" by (rule last_in_set)
  then have "pfKey (last ?gs) = pfKey f" by simp
  moreover have "map_of (resolutions (rounds @ [r])) (pfKey f) = Some (round_resolution r (rounds \<noteq> []) (last ?gs))"
    using some by (simp add: resolutions_def marked_last_snoc settle_round_def update_all_map split: list.split)
  ultimately show ?thesis by blast
qed

lemma add_open_pair:
  "add_open several round (seen, rows) f = (if pfKey f \<in> set seen then (seen, rows)
     else (pfKey f # seen, rows @ [\<lparr>rfFinding = pfText f, rfResolution = (if several then stillOpenAfter round else stillOpenText)\<rparr>]))"
  by (simp add: add_open_def)

lemma add_open_keeps:
  "foldl (add_open several round) (seen, rows) fs = (seen', rows') \<Longrightarrow>
     set seen' = set seen \<union> set (findingKeys fs) \<and> (\<exists>more. rows' = rows @ more)"
proof (induction fs arbitrary: seen rows)
  case (Cons f fs)
  show ?case
  proof (cases "pfKey f \<in> set seen")
    case True
    with Cons show ?thesis by (auto simp: add_open_pair)
  next
    case False
    then have "foldl (add_open several round) (pfKey f # seen,
        rows @ [\<lparr>rfFinding = pfText f, rfResolution = (if several then stillOpenAfter round else stillOpenText)\<rparr>]) fs = (seen', rows')"
      using Cons.prems by (simp add: add_open_pair)
    from Cons.IH [OF this] show ?thesis by auto
  qed
qed simp

text \<open>A key a re-check made for the first time gets a row that says it is open, with the first text it came with.\<close>

lemma add_open_new:
  assumes "f \<in> set fs" and "pfKey f \<notin> set seen"
    and "foldl (add_open several round) (seen, rows) fs = (seen', rows')"
  shows "\<exists>g \<in> set fs. pfKey g = pfKey f
    \<and> \<lparr>rfFinding = pfText g, rfResolution = (if several then stillOpenAfter round else stillOpenText)\<rparr> \<in> set rows'"
  using assms
proof (induction fs arbitrary: seen rows)
  case (Cons g fs)
  let ?row = "\<lparr>rfFinding = pfText g, rfResolution = (if several then stillOpenAfter round else stillOpenText)\<rparr>"
  show ?case
  proof (cases "pfKey g = pfKey f")
    case True
    then have "foldl (add_open several round) (pfKey g # seen, rows @ [?row]) fs = (seen', rows')"
      using Cons.prems by (simp add: add_open_pair)
    from add_open_keeps [OF this] True show ?thesis by auto
  next
    case False
    then have f: "f \<in> set fs" using Cons.prems(1) by auto
    show ?thesis
    proof (cases "pfKey g \<in> set seen")
      case True
      then show ?thesis using Cons.prems Cons.IH [OF f] by (simp add: add_open_pair)
    next
      case new: False
      have "pfKey f \<notin> set (pfKey g # seen)" using False Cons.prems(2) by auto
      moreover have "foldl (add_open several round) (pfKey g # seen, rows @ [?row]) fs = (seen', rows')"
        using Cons.prems(3) new by (simp add: add_open_pair)
      ultimately have "\<exists>h \<in> set fs. pfKey h = pfKey f
          \<and> \<lparr>rfFinding = pfText h, rfResolution = (if several then stillOpenAfter round else stillOpenText)\<rparr> \<in> set rows'"
        by (rule Cons.IH [OF f])
      then show ?thesis by (meson list.set_intros(2))
    qed
  qed
qed simp

lemma stillOpen_not_fixed [simp]: "stillOpenText \<noteq> fixedIn n" "fixedIn n \<noteq> stillOpenText"
  by (simp_all add: stillOpenText_def fixedIn_def)

text \<open>A finding an earlier round was given or saw reported, and the last one was not given.\<close>

definition resurfaced :: "fix_round list \<Rightarrow> fix_round \<Rightarrow> pending_finding \<Rightarrow> bool" where
  "resurfaced rounds r f \<longleftrightarrow>
     pfKey f \<notin> set (findingKeys (frIssued r)) \<and> (\<exists>q \<in> set rounds. pfKey f \<in> set (findingKeys (frIssued q)) \<union> set (findingKeys (frOpen q)))"

text \<open>What a finding of the last re-check reads as, before the rows are cut.\<close>

lemma open_row:
  assumes "f \<in> set (frOpen r)" and "frRechecked r" and "\<not> resurfaced rounds r f"
  shows "\<exists>g \<in> set (all_issued (rounds @ [r])) \<union> set (frOpen r). pfKey g = pfKey f
    \<and> \<lparr>rfFinding = pfText g, rfResolution = (if rounds = [] then stillOpenText else stillOpenAfter (frRound r))\<rparr> \<in> set (review_rows (rounds @ [r]))"
proof (cases "pfKey f \<in> set (findingKeys (frIssued r))")
  case True
  then obtain f' where f': "f' \<in> set (frIssued r)" "pfKey f' = pfKey f" by (auto simp: findingKeys_def)
  have "pfKey f \<in> set (findingKeys (frOpen r))" using assms(1) by (simp add: findingKeys_def)
  then have res: "round_resolution r (rounds \<noteq> []) g = (if rounds = [] then stillOpenText else stillOpenAfter (frRound r))"
    if "pfKey g = pfKey f" for g
    using assms(2) that by (simp add: round_resolution_def findingResolution_def Let_def)
  from resolutions_last [OF f'(1), of rounds] f'(2) res
  have last: "map_of (resolutions (rounds @ [r])) (pfKey f) = Some (if rounds = [] then stillOpenText else stillOpenAfter (frRound r))"
    by auto
  have "pfKey f \<in> set (findingKeys (all_issued (rounds @ [r])))" using True by (simp add: all_issued_keys)
  then obtain h where h: "h \<in> set (all_issued (rounds @ [r]))" "pfKey h = pfKey f" by (auto simp: findingKeys_def)
  have "issued_row (resolutions (rounds @ [r])) h \<in> set (review_rows (rounds @ [r]))" using h by (simp add: review_rows_def)
  with h last show ?thesis by (intro bexI [of _ h]) (simp_all add: issued_row_def)
next
  case False
  let ?several = "length (rounds @ [r]) > 1" and ?keys = "findingKeys (all_issued (rounds @ [r]))"
  let ?go = "\<lambda>acc q. foldl (add_open ?several (frRound q)) acc (frOpen q)"
  have not_before: "pfKey f \<notin> set (findingKeys (frIssued q)) \<union> set (findingKeys (frOpen q))" if "q \<in> set rounds" for q
    using assms(3) False that by (auto simp: resurfaced_def)
  have "pfKey f \<notin> set ?keys" using not_before False by (auto simp: all_issued_keys)
  obtain seen rows where before: "foldl ?go (?keys, []) rounds = (seen, rows)" by (rule prod.exhaust)
  have seen: "set (fst (foldl ?go (ks, rs) qs)) = set ks \<union> (\<Union>q \<in> set qs. set (findingKeys (frOpen q)))" for ks rs qs
  proof (induction qs arbitrary: ks rs)
    case (Cons q qs)
    obtain ks' rs' where go: "?go (ks, rs) q = (ks', rs')" by (rule prod.exhaust)
    show ?case using Cons [of ks' rs'] add_open_keeps [OF go] go by auto
  qed simp
  have "pfKey f \<notin> set seen"
    using seen [of ?keys "[]" rounds] before not_before \<open>pfKey f \<notin> set ?keys\<close> by auto
  obtain seen' rows' where last: "?go (seen, rows) r = (seen', rows')" by (rule prod.exhaust)
  have "open_rows ?keys (rounds @ [r]) = rows'" using before last by (simp add: open_rows_def)
  then have rows: "set rows' \<subseteq> set (review_rows (rounds @ [r]))" by (simp add: review_rows_def)
  from add_open_new [OF assms(1) \<open>pfKey f \<notin> set seen\<close> last] obtain g where g: "g \<in> set (frOpen r)" "pfKey g = pfKey f"
    "\<lparr>rfFinding = pfText g, rfResolution = (if ?several then stillOpenAfter (frRound r) else stillOpenText)\<rparr> \<in> set rows'" by blast
  with rows show ?thesis by (intro bexI [of _ g]) auto
qed

text \<open>What the rows say of a finding left open is short, so the cut leaves it.\<close>

lemma ascii_valid: "list_all (\<lambda>c. byte c < 0x80) s \<Longrightarrow> utf8_valid s"
  unfolding utf8_valid_byte by (induction s) (auto simp: utf8_bytes.simps [of "x # xs" for x xs] utf8_bytes.simps [of "[]"])

lemma itoa_nat_length: "n < 10 ^ Suc k \<Longrightarrow> length (itoa_nat n) \<le> Suc k"
proof (induction k arbitrary: n)
  case 0
  then show ?case by (subst itoa_nat.simps) simp
next
  case (Suc k)
  have "n div 10 < 10 ^ Suc k" using Suc.prems by (simp add: less_mult_imp_div_less mult.commute)
  from Suc.IH [OF this] show ?case by (subst itoa_nat.simps) simp
qed

lemma still_open_kept:
  assumes "n < 2 ^ 63"
  shows "truncate_text stillOpenText maxFindingBytes = stillOpenText"
    and "truncate_text (stillOpenAfter n) maxFindingBytes = stillOpenAfter n"
proof -
  have digits: "list_all (\<lambda>c. byte c < 0x80) (itoa_nat n)"
    using itoa_nat_digits [of n] by (auto simp: list_all_iff is_digit_def byte_def)
  have "n < 10 ^ Suc 18" using assms by simp
  from itoa_nat_length [OF this] have len: "length (itoa_nat n) \<le> 19" by simp
  show "truncate_text stillOpenText maxFindingBytes = stillOpenText"
    by (rule truncate_short) (rule ascii_valid, simp_all add: stillOpenText_def maxFindingBytes_def byte_def)
  show "truncate_text (stillOpenAfter n) maxFindingBytes = stillOpenAfter n"
    using digits len by (intro truncate_short ascii_valid) (simp_all add: stillOpenAfter_def itoa_def maxFindingBytes_def byte_def)
qed

text \<open>
  C40: What the last re-check of a review reports reads as open in its row of the pull request, whatever else the
  rounds were given or reported, with two exceptions: a finding an earlier round had and the last was not given,
  and one of rounds with more rows than the 24 the pull request publishes. The row carries the finding's text, cut at
  512 bytes, as it first came under its key. A round's number is an \<open>int\<close>.
\<close>

theorem open_reads_open:
  assumes "f \<in> set (frOpen r)" and "frRechecked r" and "\<not> resurfaced rounds r f"
    and "length (review_rows (rounds @ [r])) \<le> maxReviewFindings" and "frRound r < 2 ^ 63"
  shows "\<exists>row \<in> set (reviewRows (rounds @ [r])). \<exists>g \<in> set (all_issued (rounds @ [r])) \<union> set (frOpen r).
     pfKey g = pfKey f \<and> rfFinding row = truncate_text (pfText g) maxFindingBytes
     \<and> rfResolution row = (if rounds = [] then stillOpenText else stillOpenAfter (frRound r))"
proof -
  from open_row [OF assms(1-3)] obtain g where g: "g \<in> set (all_issued (rounds @ [r])) \<union> set (frOpen r)" "pfKey g = pfKey f"
    and row: "\<lparr>rfFinding = pfText g, rfResolution = (if rounds = [] then stillOpenText else stillOpenAfter (frRound r))\<rparr>
      \<in> set (review_rows (rounds @ [r]))" by blast
  have "\<lparr>rfFinding = truncate_text (pfText g) maxFindingBytes,
      rfResolution = truncate_text (if rounds = [] then stillOpenText else stillOpenAfter (frRound r)) maxFindingBytes\<rparr> \<in> set (reviewRows (rounds @ [r]))"
    unfolding reviewRows_def capFindings_def take_all [OF assms(4)] set_map by (rule image_eqI [OF _ row]) simp
  moreover have "truncate_text (if rounds = [] then stillOpenText else stillOpenAfter (frRound r)) maxFindingBytes
      = (if rounds = [] then stillOpenText else stillOpenAfter (frRound r))" using still_open_kept [OF assms(5)] by simp
  ultimately show ?thesis using g by (metis review_finding.select_convs)
qed

text \<open>A finding a round fixed and a later re-check reports again keeps the row that says it is fixed.\<close>

lemma marked_last_two: "marked_last [q, r] = [(q, False), (r, True)]"
  using marked_last_snoc [of "[q]" r] by simp

definition guard_a :: pending_finding where "guard_a = \<lparr>pfKey = ''a'', pfText = ''a'', pfStable = True\<rparr>"
definition guard_b :: pending_finding where "guard_b = \<lparr>pfKey = ''b'', pfText = ''b'', pfStable = True\<rparr>"
definition round_two :: fix_round where
  "round_two = \<lparr>frRound = 2, frIssued = [guard_a, guard_b], frOpen = [guard_b], frRechecked = True\<rparr>"
definition round_three :: fix_round where
  "round_three = \<lparr>frRound = 3, frIssued = [guard_b], frOpen = [guard_a], frRechecked = True\<rparr>"

lemma guard_keys [simp]: "pfKey guard_a = ''a''" "pfKey guard_b = ''b''" "pfStable guard_a" "pfStable guard_b"
  by (simp_all add: guard_a_def guard_b_def)

lemma round_two_resolution:
  "round_resolution round_two several guard_a = fixedIn 2"
  "\<not> several \<Longrightarrow> round_resolution round_two several guard_b = stillOpenText"
  "round_resolution round_three several guard_b = fixedIn 3"
  by (simp_all add: round_resolution_def findingResolution_def round_two_def round_three_def noFixRound_def)

lemma resurfaced_resolutions:
  "resolutions [round_two, round_three] = [(''a'', fixedIn 2), (''b'', fixedIn 3)]"
  by (simp add: resolutions_def marked_last_two settle_round_def round_two_resolution)
    (simp add: round_two_def round_three_def round_two_resolution [unfolded round_two_def round_three_def])

lemma resurfaced_issued: "all_issued [round_two, round_three] = [guard_a, guard_b]"
  by (simp add: all_issued_def issue_finding_def round_two_def round_three_def)

lemma resurfaced_reads_fixed:
  "review_rows [round_two, round_three]
   = [\<lparr>rfFinding = pfText guard_a, rfResolution = fixedIn 2\<rparr>, \<lparr>rfFinding = pfText guard_b, rfResolution = fixedIn 3\<rparr>]"
  by (simp add: review_rows_def resurfaced_resolutions resurfaced_issued open_rows_def issued_row_def add_open_def)
    (simp add: round_two_def round_three_def add_open_def)

theorem open_reads_open_witness:
  "\<exists>row \<in> set (reviewRows ([] @ [round_two])). rfResolution row = stillOpenText"
proof -
  have "length (review_rows ([] @ [round_two])) \<le> maxReviewFindings"
    by (simp add: review_rows_def all_issued_def issue_finding_def open_rows_def add_open_def round_two_def maxReviewFindings_def)
  from open_reads_open [OF _ _ _ this, of guard_b] show ?thesis
    by (auto simp: round_two_def resurfaced_def)
qed

end
