(* ===== verification/Run_Usage.thy ===== *)
theory Run_Usage
  imports Run_Texts Run_Findings Peak_Hours
begin

text \<open>
  What a run reads of an agent's event stream (\<open>internal/runner/events.go\<close>, \<open>progress.go\<close> and the metering
  of \<open>build.go\<close>, priced by \<open>internal/providers/config.go\<close>), and the summary it is written into
  (\<open>summary.go\<close>). The JSON decoder is the language's: a line is what each of the three decodings of the
  code makes of it.
\<close>

section \<open>Events\<close>

record usage =
  usInput :: int
  usOutput :: int
  usReasoning :: int
  usCacheRead :: int
  usCacheWrite :: int
  usCost :: rat
  usSteps :: int

definition no_usage :: usage where
  "no_usage = \<lparr>usInput = 0, usOutput = 0, usReasoning = 0, usCacheRead = 0, usCacheWrite = 0, usCost = 0, usSteps = 0\<rparr>"

record tool_use =
  toolName :: string
  toolPath :: string

record event =
  evType :: string
  evInput :: int
  evOutput :: int
  evReasoning :: int
  evCacheRead :: int
  evCacheWrite :: int
  evCost :: rat
  evTime :: int
  evTools :: "tool_use list"
  evContext :: int

text \<open>
  A line as an event, as a text part and as an event that names a session: \<open>None\<close> where the line does
  not decode. A line over \<open>maxEventLine\<close> ends every scan; it says whether its first 4096 bytes name a step.
\<close>

record frame =
  frEvent :: "event option"
  frText :: "(string \<times> string) option"
  frSession :: "string option"

datatype stream_line = Line frame | TooLong bool

definition StepFinish :: string where "StepFinish = ''step_finish''"

fun scanned :: "stream_line list \<Rightarrow> frame list" where
  "scanned [] = []"
| "scanned (Line f # ls) = f # scanned ls"
| "scanned (TooLong named # ls) = []"

definition scan_error :: "stream_line list \<Rightarrow> string option" where
  "scan_error ls = (if list_ex (\<lambda>l. case l of TooLong _ \<Rightarrow> True | Line _ \<Rightarrow> False) ls
     then Some ''reading events: bufio.Scanner: token too long'' else None)"

definition scanEvents :: "stream_line list \<Rightarrow> event list" where
  "scanEvents ls = List.map_filter frEvent (scanned ls)"

definition step_events :: "stream_line list \<Rightarrow> event list" where
  "step_events ls = filter (\<lambda>e. evType e = StepFinish) (scanEvents ls)"

definition stepUsage :: "event \<Rightarrow> usage" where
  "stepUsage e = \<lparr>usInput = evInput e, usOutput = evOutput e, usReasoning = evReasoning e, usCacheRead = evCacheRead e,
     usCacheWrite = evCacheWrite e, usCost = evCost e, usSteps = 1\<rparr>"

section \<open>Rates\<close>

record rates =
  rateInput :: rat
  rateOutput :: rat
  rateCacheRead :: rat
  rateCacheWrite :: rat
  ratePeak :: "peak option"

definition Rates_At :: "rates \<Rightarrow> time \<Rightarrow> rates" where
  "Rates_At r t =
     (let flat = r\<lparr>ratePeak := None\<rparr> in
      case ratePeak r of None \<Rightarrow> flat
      | Some p \<Rightarrow>
        if \<not> is_zero t \<and> \<not> Covers p t then flat
        else let m = peakMultiplier p in
          \<lparr>rateInput = float64 (rateInput r * m), rateOutput = float64 (rateOutput r * m),
            rateCacheRead = float64 (rateCacheRead r * m), rateCacheWrite = float64 (rateCacheWrite r * m), ratePeak = None\<rparr>)"

definition float_mult :: "int \<Rightarrow> rat \<Rightarrow> rat" where
  "float_mult n r = float64 (float64 (of_int n) * r)"

definition CostUSD :: "rates \<Rightarrow> int \<Rightarrow> int \<Rightarrow> int \<Rightarrow> int \<Rightarrow> rat" where
  "CostUSD r input output cacheRead cacheWrite =
     float64 (float64 (float64 (float64 (float_mult input (rateInput r) + float_mult output (rateOutput r))
       + float_mult cacheRead (rateCacheRead r)) + float_mult cacheWrite (rateCacheWrite r)) / 1000000)"

definition UnixMilli :: "int \<Rightarrow> time" where "UnixMilli ms = 719162 * day + ms * 1000000"

text \<open>A step priced from the plan's rates, an untimed one at peak.\<close>

definition priced :: "rates option \<Rightarrow> event \<Rightarrow> usage" where
  "priced rs e = (case rs of None \<Rightarrow> stepUsage e
     | Some r \<Rightarrow> (stepUsage e)\<lparr>usCost := CostUSD (Rates_At r (if evTime e \<noteq> 0 then UnixMilli (evTime e) else 0))
         (evInput e) (evOutput e) (evCacheRead e) (evCacheWrite e)\<rparr>)"

definition add_usage :: "usage \<Rightarrow> usage \<Rightarrow> usage" where
  "add_usage u s = \<lparr>usInput = int64 (usInput u + usInput s), usOutput = int64 (usOutput u + usOutput s),
     usReasoning = int64 (usReasoning u + usReasoning s), usCacheRead = int64 (usCacheRead u + usCacheRead s),
     usCacheWrite = int64 (usCacheWrite u + usCacheWrite s), usCost = float64 (usCost u + usCost s),
     usSteps = int64 (usSteps u + usSteps s)\<rparr>"

definition sumUsage :: "stream_line list \<Rightarrow> rates option \<Rightarrow> usage" where
  "sumUsage ls rs = foldl add_usage no_usage (map (priced rs) (step_events ls))"

definition RequestUsage :: "stream_line list \<Rightarrow> usage list" where
  "RequestUsage ls = map stepUsage (step_events ls)"

definition FinalText :: "stream_line list \<Rightarrow> string" where
  "FinalText ls = (if scan_error ls \<noteq> None then []
     else foldl (\<lambda>t f. case frText f of Some (ty, s) \<Rightarrow> if ty = ''text'' then s else t | None \<Rightarrow> t) [] (scanned ls))"

definition SessionID :: "stream_line list \<Rightarrow> string" where
  "SessionID ls = (case List.map_filter (\<lambda>f. case frSession f of Some s \<Rightarrow> if s = [] then None else Some s | None \<Rightarrow> None) (scanned ls) of
     [] \<Rightarrow> [] | s # _ \<Rightarrow> s)"

text \<open>\<open>ratesFor\<close> is the plan's rate card for a model.\<close>

definition meterUsage :: "(string \<Rightarrow> rates option) \<Rightarrow> stream_line list \<Rightarrow> string \<Rightarrow> string + usage" where
  "meterUsage ratesFor ls model =
     (case scan_error ls of Some err \<Rightarrow> Inl err | None \<Rightarrow> Inr (sumUsage ls (ratesFor model)))"

section \<open>The summary\<close>

record build_step =
  bsPhase :: string
  bsRound :: int
  bsModel :: string
  bsHarness :: string
  bsDetail :: string
  bsTokens :: usage
  bsDurationMS :: int
  bsObject :: string
  bsPeak :: int
  bsAt :: time

record phase_cache =
  pcFirstFresh :: int
  pcFirstCached :: int
  pcShare :: rat

record fix_round_cost =
  fcRound :: int
  fcTokens :: usage
  fcDurationMS :: int

record diff_lines =
  dlAdded :: int
  dlRemoved :: int

record summary =
  smOutcome :: string
  smStopReason :: string
  smStopDetail :: string
  smPhase :: string
  smSteps :: "build_step list"
  smEditedFiles :: "string list"
  smDiffLines :: diff_lines
  smDurations :: "(string \<times> int) list"
  smRuleStackSHA :: string
  smBranch :: string
  smUsageWarning :: string
  smCache :: "(string \<times> phase_cache) list"
  smReady :: bool
  smLoopDetail :: string
  smCommitSubject :: string
  smCommitBody :: string
  smPRSummary :: string
  smStartedAt :: time
  smReadFiles :: "string list"
  smPeakContext :: int
  smFindings :: "review_finding list"
  smSecondRound :: "fix_round_cost option"

definition new_summary :: "time \<Rightarrow> summary" where
  "new_summary started = \<lparr>smOutcome = [], smStopReason = [], smStopDetail = [], smPhase = [], smSteps = [], smEditedFiles = [],
     smDiffLines = \<lparr>dlAdded = 0, dlRemoved = 0\<rparr>, smDurations = [], smRuleStackSHA = [], smBranch = [], smUsageWarning = [],
     smCache = [], smReady = False, smLoopDetail = [], smCommitSubject = [], smCommitBody = [], smPRSummary = [],
     smStartedAt = started, smReadFiles = [], smPeakContext = 0, smFindings = [], smSecondRound = None\<rparr>"

definition stopDetailLimit :: nat where "stopDetailLimit = 2048"
definition maxEditedFiles :: nat where "maxEditedFiles = 200"
definition maxPathBytes :: nat where "maxPathBytes = 512"

definition SetupSummary :: "string \<Rightarrow> time \<Rightarrow> summary" where
  "SetupSummary err now = (new_summary now)\<lparr>smOutcome := OutcomeInfraFailure, smStopReason := StopSetup,
     smStopDetail := truncate_text err stopDetailLimit\<rparr>"

definition StoppedSummary :: "string \<Rightarrow> string \<Rightarrow> time \<Rightarrow> summary" where
  "StoppedSummary reason err now = (new_summary now)\<lparr>smOutcome := OutcomeStopped, smStopReason := reason,
     smStopDetail := truncate_text err stopDetailLimit\<rparr>"

definition hasStep :: "build_step list \<Rightarrow> string \<Rightarrow> bool" where
  "hasStep steps phase \<longleftrightarrow> list_ex (\<lambda>s. bsPhase s = phase) steps"

definition completionsObject :: "string \<Rightarrow> string \<Rightarrow> int \<Rightarrow> string" where
  "completionsObject attemptID phase rnd = ''completions/'' @ attemptID @ ''-'' @ phase @ ''-'' @ itoa rnd @ ''.jsonl''"

definition capFiles :: "string list \<Rightarrow> string list" where
  "capFiles files = map (\<lambda>f. truncate_text f maxPathBytes) (take maxEditedFiles files)"

definition merge_path :: "string list \<Rightarrow> string \<Rightarrow> string list" where
  "merge_path paths p =
     (let p' = truncate_text p maxPathBytes in if \<not> repoRelative p' \<or> p' \<in> set paths then paths else paths @ [p'])"

definition mergePaths :: "string list \<Rightarrow> string list \<Rightarrow> string list" where
  "mergePaths paths added = foldl merge_path paths added"

definition addUsageWarning :: "string \<Rightarrow> summary \<Rightarrow> summary" where
  "addUsageWarning w sm = sm\<lparr>smUsageWarning := if smUsageWarning sm = [] then w else smUsageWarning sm @ ''; '' @ w\<rparr>"

section \<open>The prompt cache\<close>

definition CachedShare :: "int \<Rightarrow> int \<Rightarrow> rat" where
  "CachedShare fresh cached =
     (let total = int64 (fresh + cached) in
      if total > 0 then float64 (float64 (of_int cached) / float64 (of_int total)) else 0)"

definition recordPhaseCache :: "string \<Rightarrow> usage list \<Rightarrow> summary \<Rightarrow> summary" where
  "recordPhaseCache phase requests sm =
     (case requests of [] \<Rightarrow> sm
      | r # _ \<Rightarrow>
        let first = (case map_of (smCache sm) phase of Some c \<Rightarrow> (pcFirstFresh c, pcFirstCached c)
                     | None \<Rightarrow> (usInput r, usCacheRead r));
            own = filter (\<lambda>st. bsPhase st = phase) (smSteps sm);
            fresh = foldl (\<lambda>n st. int64 (n + usInput (bsTokens st))) 0 own;
            cached = foldl (\<lambda>n st. int64 (n + usCacheRead (bsTokens st))) 0 own in
        sm\<lparr>smCache := AList.update phase
          \<lparr>pcFirstFresh = fst first, pcFirstCached = snd first, pcShare = CachedShare fresh cached\<rparr> (smCache sm)\<rparr>)"

definition PhaseCacheNone :: string where "PhaseCacheNone = ''none''"
definition PhaseCacheNotRecorded :: string where "PhaseCacheNotRecorded = ''not recorded''"

text \<open>The first request's share and the phase's, or the word that stands in for them.\<close>

definition phaseCacheFigures :: "(string \<times> phase_cache) list \<Rightarrow> string \<Rightarrow> string + rat \<times> rat" where
  "phaseCacheFigures cache phase =
     (case map_of cache phase of
        None \<Rightarrow> Inl (if cache = [] then PhaseCacheNotRecorded else PhaseCacheNone)
      | Some c \<Rightarrow>
        if int64 (pcFirstFresh c + pcFirstCached c) = 0 then Inl PhaseCacheNotRecorded
        else Inr (CachedShare (pcFirstFresh c) (pcFirstCached c), pcShare c))"

definition percentShare :: "rat \<Rightarrow> string" where
  "percentShare share = itoa (round_half_even (float64 (share * 100))) @ ''%''"

definition PhaseCacheCell :: "(string \<times> phase_cache) list \<Rightarrow> string \<Rightarrow> string" where
  "PhaseCacheCell cache phase = (case phaseCacheFigures cache phase of Inl word \<Rightarrow> word
     | Inr (first, whole) \<Rightarrow> percentShare first @ '' first, '' @ percentShare whole @ '' phase'')"

definition PhaseCacheFirstShare :: "(string \<times> phase_cache) list \<Rightarrow> string \<Rightarrow> rat option" where
  "PhaseCacheFirstShare cache phase = (case phaseCacheFigures cache phase of Inl _ \<Rightarrow> None | Inr (first, _) \<Rightarrow> Some first)"

section \<open>Progress\<close>

definition DEFAULT_NO_PROGRESS_STEPS :: nat where "DEFAULT_NO_PROGRESS_STEPS = 60"

definition toolRead :: string where "toolRead = ''read''"

definition fileChangingTools :: "string list" where
  "fileChangingTools = [''edit'', ''write'', ''patch'', ''multiedit'', ''apply_patch'', ''ast_edit'']"

record agent_progress =
  apReads :: "string list"
  apNoProgress :: nat
  apPeak :: int

definition no_progress :: agent_progress where
  "no_progress = \<lparr>apReads = [], apNoProgress = 0, apPeak = 0\<rparr>"

definition contextTokens :: "event \<Rightarrow> int" where
  "contextTokens e = (if evContext e \<noteq> 0 then evContext e else int64 (evInput e + evCacheRead e))"

definition observe_read :: "string list \<Rightarrow> tool_use \<Rightarrow> string list" where
  "observe_read reads t =
     (if toolName t = toolRead \<and> toolPath t \<noteq> [] \<and> toolPath t \<notin> set reads \<and> length reads < maxEditedFiles
      then reads @ [toolPath t] else reads)"

definition changes_file :: "event \<Rightarrow> bool" where
  "changes_file e \<longleftrightarrow> list_ex (\<lambda>t. toolName t \<noteq> toolRead \<and> toolName t \<in> set fileChangingTools) (evTools e)"

definition observe_step :: "agent_progress \<Rightarrow> event \<Rightarrow> agent_progress" where
  "observe_step p e =
     (if evType e \<noteq> StepFinish then p
      else \<lparr>apReads = foldl observe_read (apReads p) (evTools e),
            apNoProgress = (if changes_file e then 0 else Suc (apNoProgress p)),
            apPeak = (if contextTokens e > apPeak p then contextTokens e else apPeak p)\<rparr>)"

definition stalled :: "agent_progress \<Rightarrow> string \<Rightarrow> bool" where
  "stalled p phase \<longleftrightarrow> phase = PhaseBuild \<and> DEFAULT_NO_PROGRESS_STEPS \<le> apNoProgress p"

definition stalledDetail :: "agent_progress \<Rightarrow> string" where
  "stalledDetail p = ''no file change in '' @ itoa (int (apNoProgress p)) @ '' steps (peak context '' @ itoa (apPeak p) @ '' tokens)''"

definition readProgress :: "stream_line list \<Rightarrow> summary \<Rightarrow> agent_progress \<times> summary" where
  "readProgress ls sm =
     (let p = foldl observe_step no_progress (scanEvents ls) in
      case scan_error ls of
        Some err \<Rightarrow> (p, addUsageWarning err sm)
      | None \<Rightarrow>
        let steps = (if smSteps sm = [] then [] else butlast (smSteps sm) @ [(last (smSteps sm))\<lparr>bsPeak := apPeak p\<rparr>]) in
        (p, sm\<lparr>smReadFiles := mergePaths (smReadFiles sm) (apReads p), smSteps := steps,
              smPeakContext := foldl (\<lambda>m st. max m (bsPeak st)) (max (smPeakContext sm) (apPeak p)) steps\<rparr>))"

text \<open>The tap reads the stream as it is written, one line after another, and stops a build phase that stalls.\<close>

record tap =
  tpProgress :: agent_progress
  tpStopped :: bool
  tpSteps :: nat

definition new_tap :: tap where "new_tap = \<lparr>tpProgress = no_progress, tpStopped = False, tpSteps = 0\<rparr>"

definition tap_line :: "string \<Rightarrow> tap \<Rightarrow> stream_line \<Rightarrow> tap" where
  "tap_line phase t l = (case l of
     TooLong named \<Rightarrow>
       if named then t\<lparr>tpProgress := (tpProgress t)\<lparr>apNoProgress := 0\<rparr>, tpSteps := Suc (tpSteps t)\<rparr> else t
   | Line f \<Rightarrow>
     (case frEvent f of None \<Rightarrow> t
      | Some e \<Rightarrow>
        let p = observe_step (tpProgress t) e in
        \<lparr>tpProgress = p, tpStopped = (tpStopped t \<or> stalled p phase),
          tpSteps = (if evType e = StepFinish then Suc (tpSteps t) else tpSteps t)\<rparr>))"

definition didStop :: "string \<Rightarrow> stream_line list \<Rightarrow> bool" where
  "didStop phase ls = tpStopped (foldl (tap_line phase) new_tap ls)"

section \<open>What the readers agree on\<close>

lemma scan_error_scanned: "scan_error ls = None \<Longrightarrow> ls = map Line (scanned ls)"
  by (induction ls rule: scanned.induct) (auto simp: scan_error_def split: if_splits)

lemma foldl_int64_from: "foldl (\<lambda>acc x. int64 (acc + f x)) a xs = (if xs = [] then a else int64 (a + sum_list (map f xs)))"
  by (cases xs) (simp_all add: foldl_int64 add.assoc)

lemma foldl_add_usage:
  "usInput (foldl add_usage u us) = foldl (\<lambda>n s. int64 (n + usInput s)) (usInput u) us"
  "usOutput (foldl add_usage u us) = foldl (\<lambda>n s. int64 (n + usOutput s)) (usOutput u) us"
  "usCacheRead (foldl add_usage u us) = foldl (\<lambda>n s. int64 (n + usCacheRead s)) (usCacheRead u) us"
  "usSteps (foldl add_usage u us) = foldl (\<lambda>n s. int64 (n + usSteps s)) (usSteps u) us"
  by (induction us arbitrary: u) (simp_all add: add_usage_def)

lemma sumUsage_tokens:
  "usInput (sumUsage ls rs) = int64 (\<Sum>u\<leftarrow>RequestUsage ls. usInput u)"
  "usOutput (sumUsage ls rs) = int64 (\<Sum>u\<leftarrow>RequestUsage ls. usOutput u)"
  "usCacheRead (sumUsage ls rs) = int64 (\<Sum>u\<leftarrow>RequestUsage ls. usCacheRead u)"
  "usSteps (sumUsage ls rs) = int64 (int (length (RequestUsage ls)))"
proof -
  have p: "usInput (priced rs e) = evInput e" "usOutput (priced rs e) = evOutput e"
    "usCacheRead (priced rs e) = evCacheRead e" "usSteps (priced rs e) = 1" for e
    by (simp_all add: priced_def stepUsage_def split: option.splits)
  show "usInput (sumUsage ls rs) = int64 (\<Sum>u\<leftarrow>RequestUsage ls. usInput u)"
    "usOutput (sumUsage ls rs) = int64 (\<Sum>u\<leftarrow>RequestUsage ls. usOutput u)"
    "usCacheRead (sumUsage ls rs) = int64 (\<Sum>u\<leftarrow>RequestUsage ls. usCacheRead u)"
    "usSteps (sumUsage ls rs) = int64 (int (length (RequestUsage ls)))"
    by (simp_all add: sumUsage_def RequestUsage_def foldl_add_usage foldl_int64_from no_usage_def stepUsage_def p
        map_concat o_def sum_list_triv)
qed

lemma merge_path_keeps:
  "distinct paths \<and> list_all repoRelative paths \<Longrightarrow> distinct (merge_path paths p) \<and> list_all repoRelative (merge_path paths p)"
  by (auto simp: merge_path_def Let_def)

lemma mergePaths_keeps:
  "distinct paths \<and> list_all repoRelative paths \<Longrightarrow>
     distinct (mergePaths paths added) \<and> list_all repoRelative (mergePaths paths added)"
  by (induction added arbitrary: paths) (simp_all add: mergePaths_def merge_path_keeps)

text \<open>The count of steps without a change is the length of the stream's last run of them.\<close>

definition idle_run :: "event list \<Rightarrow> nat" where
  "idle_run es = length (takeWhile (\<lambda>e. \<not> changes_file e) (rev (filter (\<lambda>e. evType e = StepFinish) es)))"

lemma takeWhile_rev_snoc: "takeWhile P (rev (xs @ [x])) = (if P x then x # takeWhile P (rev xs) else [])"
  by simp

lemma observed_idle: "apNoProgress (foldl observe_step no_progress es) = idle_run es"
  by (induction es rule: rev_induct) (simp_all add: idle_run_def no_progress_def observe_step_def)

lemma observe_read_bound: "length reads \<le> maxEditedFiles \<Longrightarrow> length (foldl observe_read reads ts) \<le> maxEditedFiles"
  by (induction ts arbitrary: reads) (simp_all add: observe_read_def)

lemma observed_reads_bound: "length (apReads p) \<le> maxEditedFiles \<Longrightarrow> length (apReads (foldl observe_step p es)) \<le> maxEditedFiles"
  by (induction es arbitrary: p) (simp_all add: observe_step_def observe_read_bound)

text \<open>The tap stops a run exactly when some part of it, from its start, is stalled.\<close>

lemma tap_events:
  "list_all (\<lambda>l. case l of TooLong _ \<Rightarrow> False | Line _ \<Rightarrow> True) ls \<Longrightarrow>
     tpProgress (foldl (tap_line phase) t ls) = foldl observe_step (tpProgress t) (scanEvents ls)"
proof (induction ls arbitrary: t)
  case (Cons l ls)
  then show ?case
    by (cases l) (auto simp: tap_line_def scanEvents_def List.map_filter_simps Let_def split: option.splits)
qed (simp add: scanEvents_def)

lemma tap_stopped_mono: "tpStopped t \<Longrightarrow> tpStopped (foldl (tap_line phase) t ls)"
proof (induction ls arbitrary: t)
  case (Cons l ls)
  then show ?case by (cases l) (auto simp: tap_line_def Let_def split: option.splits)
qed simp

text \<open>
  C39: The runner stops a stream it can read while it runs exactly when the phase is the build's and at some point the
  last DEFAULT_NO_PROGRESS_STEPS steps finished without one changing a file.
\<close>

theorem didStop_idle:
  assumes "scan_error ls = None"
  shows "didStop phase ls \<longleftrightarrow>
     phase = PhaseBuild \<and> (\<exists>n \<le> length (scanEvents ls). DEFAULT_NO_PROGRESS_STEPS \<le> idle_run (take n (scanEvents ls)))"
  using assms
proof (induction ls rule: rev_induct)
  case Nil
  then show ?case by (simp add: didStop_def new_tap_def scanEvents_def idle_run_def DEFAULT_NO_PROGRESS_STEPS_def)
next
  case (snoc l ls)
  have lines: "list_all (\<lambda>l. case l of TooLong _ \<Rightarrow> False | Line _ \<Rightarrow> True) ls"
    using snoc.prems by (auto simp: scan_error_def list_all_iff list_ex_iff split: if_splits stream_line.splits)
  have ok: "scan_error ls = None" using snoc.prems by (simp add: scan_error_def split: if_splits)
  obtain f where l: "l = Line f" using snoc.prems by (cases l) (auto simp: scan_error_def)
  have split: "scanned (ls @ [Line f]) = scanned ls @ [f]"
    using lines by (induction ls rule: scanned.induct) auto
  have progress: "tpProgress (foldl (tap_line phase) new_tap ls) = foldl observe_step no_progress (scanEvents ls)"
    using tap_events [OF lines] by (simp add: new_tap_def)
  show ?case
  proof (cases "frEvent f")
    case None
    then have "scanEvents (ls @ [l]) = scanEvents ls" by (simp add: scanEvents_def l split List.map_filter_def)
    moreover have "didStop phase (ls @ [l]) = didStop phase ls" using None by (simp add: didStop_def tap_line_def l)
    ultimately show ?thesis using snoc.IH [OF ok] by simp
  next
    case (Some e)
    then have grown: "scanEvents (ls @ [l]) = scanEvents ls @ [e]" by (simp add: scanEvents_def l split List.map_filter_def)
    have "didStop phase (ls @ [l]) \<longleftrightarrow> didStop phase ls \<or> stalled (foldl observe_step no_progress (scanEvents ls @ [e])) phase"
      using Some by (simp add: didStop_def tap_line_def l progress Let_def)
    also have "\<dots> \<longleftrightarrow> didStop phase ls \<or> phase = PhaseBuild \<and> DEFAULT_NO_PROGRESS_STEPS \<le> idle_run (scanEvents ls @ [e])"
      by (simp only: stalled_def observed_idle)
    finally show ?thesis unfolding snoc.IH [OF ok] grown by (auto simp: le_Suc_eq)
  qed
qed

text \<open>Sixty steps that only read.\<close>

definition idle_step :: event where
  "idle_step = \<lparr>evType = StepFinish, evInput = 1, evOutput = 1, evReasoning = 0, evCacheRead = 0, evCacheWrite = 0, evCost = 0, evTime = 0,
     evTools = [\<lparr>toolName = toolRead, toolPath = ''a.go''\<rparr>], evContext = 0\<rparr>"

definition idle_line :: stream_line where
  "idle_line = Line \<lparr>frEvent = Some idle_step, frText = None, frSession = None\<rparr>"

theorem didStop_idle_witness:
  "scan_error (replicate 60 idle_line) = None \<and> didStop PhaseBuild (replicate 60 idle_line) \<and> \<not> didStop PhaseReview (replicate 60 idle_line)"
proof -
  have none: "scan_error (replicate 60 idle_line) = None" by (simp add: scan_error_def list_ex_iff idle_line_def)
  have "DEFAULT_NO_PROGRESS_STEPS \<le> idle_run (take 60 (scanEvents (replicate 60 idle_line)))"
    and "length (scanEvents (replicate 60 idle_line)) = 60" by code_simp+
  moreover have "PhaseReview \<noteq> PhaseBuild" by (simp add: PhaseReview_def PhaseBuild_def)
  ultimately show ?thesis using didStop_idle [OF none] none by (metis order_refl)
qed

end
