(* ===== verification/Run_Agent.thy ===== *)
theory Run_Agent
  imports Run_Usage Poll_Measure
begin

text \<open>
  The build's environment, the state it threads, and one agent call (\<open>runAgent\<close> and \<open>runAgentInOrder\<close> of
  \<open>internal/runner/build.go\<close>, with the budgets of \<open>loop.go\<close>).

  A build is a program over git, the agents, the checks and a clock. What each of these answers is a
  function of the calls made so far, so the ans may differ every time and may depend on all that went
  before; the state keeps those calls in order, with the summary and the commit message the build fills in.
\<close>

section \<open>Calls and answers\<close>

record agent_call =
  acPhase :: string
  acRound :: int
  acModel :: string
  acSession :: string
  acRules :: string
  acDetail :: string
  acTimeout :: duration

datatype run_call =
    ClockRead
  | ReadObject string
  | AddTree
  | ProbeAgent
  | CreateFiles string int
  | AgentRun agent_call string
  | Upload string
  | ReadDirty
  | ReadPending
  | RunChecks "string list"
  | RunFormat string
  | ReadDiff
  | ReadAdded
  | ScanFile string "int list"
  | ReadSource string
  | WriteSource string string
  | TestPackage string duration
  | VerifyTree
  | CommitTree string
  | CountLines
  | SearchSecret string
  | ReadTouched
  | BundleTree string

type_synonym log_of_calls = "run_call list"

text \<open>What a run of an agent leaves: its stream, its error, and how its contexts stood when it returned.\<close>

record agent_run =
  arStream :: "stream_line list"
  arError :: "run_failure option"
  arTimedOut :: bool
  arDelivered :: bool
  arStderr :: "string option"

datatype object_read = Found string | ObjectMissing | Unreadable string

datatype tree_state = TreeKept | Tampered string | HeadMoved string | TreeUnread string

datatype secret_search = NoSecret | SecretFound string | SearchFailed string

text \<open>A guard: its file, package, line and header, and the bytes its condition occupies.\<close>

record guard =
  gdFile :: string
  gdPkg :: string
  gdLine :: nat
  gdHeader :: string
  gdFrom :: nat
  gdTo :: nat

text \<open>A package's tests: whether they failed and what they printed, or why they could not run; and whether the probe's time ran out.\<close>

record test_run =
  trResult :: "string + bool \<times> string"
  trTimedOut :: bool

text \<open>
  \<open>bePrint\<close> is the print table, \<open>beLower\<close> \<open>unicode.ToLower\<close> past ASCII, \<open>beDecision\<close> the decoder of a
  decision, \<open>beDuration\<close> the words of a duration, \<open>beRates\<close> the plans' rate cards. \<open>beFormat\<close>,
  \<open>beTests\<close> and \<open>beProbe\<close> are \<open>None\<close> when the build has no such dependency. \<open>beGuards\<close> is Go's parser:
  the guards of a file that start on the lines, \<open>None\<close> for a file it cannot read or parse.
\<close>

record build_env =
  bePrint :: "nat \<Rightarrow> bool"
  beLower :: "string \<Rightarrow> string"
  beDecision :: "string \<Rightarrow> string + decision"
  beDuration :: "duration \<Rightarrow> string"
  beRates :: "string \<Rightarrow> rates option"
  beRouter :: router
  bePlanRouter :: router
  beReviewRouter :: router
  beNow :: "log_of_calls \<Rightarrow> time"
  beObject :: "log_of_calls \<Rightarrow> object_read"
  beAddTree :: "log_of_calls \<Rightarrow> string option"
  beProbe :: "(log_of_calls \<Rightarrow> string option) option"
  beFiles :: "log_of_calls \<Rightarrow> string option"
  beAgent :: "log_of_calls \<Rightarrow> agent_run"
  beUpload :: "log_of_calls \<Rightarrow> string option"
  beDirty :: "log_of_calls \<Rightarrow> string + bool"
  bePending :: "log_of_calls \<Rightarrow> string + string list"
  beChecks :: "log_of_calls \<Rightarrow> string + string \<times> string"
  beFormat :: "(log_of_calls \<Rightarrow> string option) option"
  beDiff :: "log_of_calls \<Rightarrow> string + string"
  beAdded :: "log_of_calls \<Rightarrow> string + (string \<times> int list) list"
  beGuards :: "log_of_calls \<Rightarrow> guard list option"
  beTests :: "(log_of_calls \<Rightarrow> test_run) option"
  beRead :: "log_of_calls \<Rightarrow> string + string"
  beWrite :: "log_of_calls \<Rightarrow> string option"
  beVerify :: "log_of_calls \<Rightarrow> tree_state"
  beCommit :: "log_of_calls \<Rightarrow> string + string list"
  beLines :: "log_of_calls \<Rightarrow> string + diff_lines"
  beSecret :: "log_of_calls \<Rightarrow> secret_search"
  beTouched :: "log_of_calls \<Rightarrow> string + string list"
  beBundle :: "log_of_calls \<Rightarrow> string option"

section \<open>Programs\<close>

record build_state =
  bdLog :: log_of_calls
  bdSum :: summary
  bdMsg :: commit_message

type_synonym 'a program = "build_state \<Rightarrow> (stop_error + 'a) \<times> build_state"

definition ret :: "'a \<Rightarrow> 'a program" where "ret a s = (Inr a, s)"

definition halt :: "string \<Rightarrow> string \<Rightarrow> string \<Rightarrow> 'a program" where
  "halt outcome reason err s = (Inl (stopWith outcome reason err), s)"

definition andThen :: "'a program \<Rightarrow> ('a \<Rightarrow> 'b program) \<Rightarrow> 'b program" where
  "andThen m f s = (case m s of (Inl err, s') \<Rightarrow> (Inl err, s') | (Inr a, s') \<Rightarrow> f a s')"

definition handle :: "'a program \<Rightarrow> (stop_error \<Rightarrow> 'b program) \<Rightarrow> ('a \<Rightarrow> 'b program) \<Rightarrow> 'b program" where
  "handle m g f s = (case m s of (Inl err, s') \<Rightarrow> g err s' | (Inr a, s') \<Rightarrow> f a s')"

definition ask :: "run_call \<Rightarrow> (log_of_calls \<Rightarrow> 'a) \<Rightarrow> 'a program" where
  "ask c ans s = (let calls = bdLog s @ [c] in (Inr (ans calls), s\<lparr>bdLog := calls\<rparr>))"

definition on_sum :: "(summary \<Rightarrow> summary) \<Rightarrow> unit program" where
  "on_sum g s = (Inr (), s\<lparr>bdSum := g (bdSum s)\<rparr>)"

definition read_sum :: "(summary \<Rightarrow> 'a) \<Rightarrow> 'a program" where
  "read_sum g s = (Inr (g (bdSum s)), s)"

definition on_msg :: "(commit_message \<Rightarrow> commit_message) \<Rightarrow> unit program" where
  "on_msg g s = (Inr (), s\<lparr>bdMsg := g (bdMsg s)\<rparr>)"

definition read_msg :: "commit_message program" where
  "read_msg s = (Inr (bdMsg s), s)"

definition require :: "string \<Rightarrow> string \<Rightarrow> string option \<Rightarrow> unit program" where
  "require outcome reason fault = (case fault of None \<Rightarrow> ret () | Some err \<Rightarrow> halt outcome reason err)"

definition demand :: "string \<Rightarrow> string \<Rightarrow> string + 'a \<Rightarrow> 'a program" where
  "demand outcome reason r = (case r of Inl err \<Rightarrow> halt outcome reason err | Inr a \<Rightarrow> ret a)"

section \<open>Budgets\<close>

definition defaultAgentTimeout :: duration where "defaultAgentTimeout = 50 * minute"
definition nfr1RunCap :: duration where "nfr1RunCap = 90 * minute"
definition nfr1BuildBudget :: duration where "nfr1BuildBudget = 60 * minute"
definition nfr1ReviewBudget :: duration where "nfr1ReviewBudget = 25 * minute"
definition nfr1CommitReserve :: duration where "nfr1CommitReserve = 5 * minute"

definition RunStagePlanning :: string where "RunStagePlanning = ''planning''"
definition RunStageBuilding :: string where "RunStageBuilding = ''building''"

definition RunLimitMinutes :: "string \<Rightarrow> int" where
  "RunLimitMinutes stage = (if stage = RunStagePlanning then nfr1BuildBudget div minute else nfr1RunCap div minute)"

definition effectiveAgentTimeout :: "duration \<Rightarrow> duration" where
  "effectiveAgentTimeout configured = (if configured \<le> 0 then defaultAgentTimeout else configured)"

definition withinBudget :: "time \<Rightarrow> time \<Rightarrow> duration \<Rightarrow> bool" where
  "withinBudget started now budget \<longleftrightarrow> now - started < budget"

text \<open>A round's own deadline, \<open>None\<close> when the stage has nothing left.\<close>

definition roundTimeout :: "duration \<Rightarrow> time \<Rightarrow> time \<Rightarrow> duration \<Rightarrow> duration option" where
  "roundTimeout configured started now budget =
     (let remaining = budget - (now - started); upper = effectiveAgentTimeout configured in
      if remaining \<le> 0 then None else if remaining < upper then Some remaining else Some upper)"

definition stageBudgetSpent :: "string \<Rightarrow> duration \<Rightarrow> string" where
  "stageBudgetSpent stage budget = ''the '' @ stage @ '' stage's '' @ itoa (budget div minute) @ ''-minute budget was spent''"

text \<open>\<open>Duration.Milliseconds\<close> drops the rest toward zero.\<close>

definition milliseconds :: "duration \<Rightarrow> int" where
  "milliseconds d = (if d < 0 then - ((- d) div 1000000) else d div 1000000)"

section \<open>One agent call\<close>

record build_config =
  bcAttemptID :: string
  bcTempDir :: string
  bcPointer :: string
  bcModel :: string
  bcPlanModels :: "string list"
  bcReviewModels :: "string list"
  bcAgentTimeout :: duration
  bcSecrets :: "string list"
  bcAccount :: string
  bcOwner :: string
  bcGitHubToken :: bool
  bcTicket :: full_ticket
  bcGuided :: bool

definition stderr_object :: "string \<Rightarrow> string \<Rightarrow> int \<Rightarrow> string" where
  "stderr_object attemptID phase rnd = fst (cut_suffix (completionsObject attemptID phase rnd) ''.jsonl'') @ ''.stderr.log''"

definition upload :: "build_env \<Rightarrow> string \<Rightarrow> unit program" where
  "upload e name = andThen (ask (Upload name) (beUpload e))
     (\<lambda>r. require OutcomeInfraFailure StopCompletions (map_option (\<lambda>err. ''uploading '' @ name @ '': '' @ err) r))"

text \<open>The step of the call, once its events are uploaded, and what the summary takes from them.\<close>

definition metered_call :: "build_env \<Rightarrow> build_config \<Rightarrow> agent_call \<Rightarrow> router \<Rightarrow> stream_line list \<Rightarrow> time \<Rightarrow> time \<Rightarrow> summary \<Rightarrow> summary" where
  "metered_call e c call agent ls started finished sm =
     (let usage = meterUsage (beRates e) ls (acModel call);
          sm1 = (case usage of Inl err \<Rightarrow> addUsageWarning err sm | Inr _ \<Rightarrow> sm);
          sm2 = (if acRound call > 1 \<and> SessionID ls = [] then addUsageWarning (''round '' @ itoa (acRound call)
                   @ '' reported no session id: continuity with earlier rounds may be lost'') sm1 else sm1);
          step = \<lparr>bsPhase = acPhase call, bsRound = acRound call, bsModel = acModel call, bsHarness = HarnessFor agent (acModel call),
                   bsDetail = truncate_text (acDetail call) stopDetailLimit,
                   bsTokens = (case usage of Inl _ \<Rightarrow> no_usage | Inr u \<Rightarrow> u),
                   bsDurationMS = milliseconds (finished - started),
                   bsObject = completionsObject (bcAttemptID c) (acPhase call) (acRound call), bsPeak = 0, bsAt = started\<rparr>;
          sm3 = snd (readProgress ls (sm2\<lparr>smSteps := smSteps sm2 @ [step]\<rparr>)) in
      recordPhaseCache (acPhase call) (RequestUsage ls) sm3)"

definition agent_verdict :: "build_env \<Rightarrow> agent_call \<Rightarrow> router \<Rightarrow> duration \<Rightarrow> agent_run \<Rightarrow> (string \<times> string) program" where
  "agent_verdict e call agent timeout r =
     (let ls = arStream r; own_stop = didStop (acPhase call) ls; p = foldl observe_step no_progress (scanEvents ls);
          failed = (case arError r of None \<Rightarrow> None
                    | Some err \<Rightarrow> if \<not> own_stop \<or> \<not> endedByOurStop err (arDelivered r) then Some err else None) in
      if arTimedOut r then halt OutcomeAgentFailed StopAgentTimeout (''agent exceeded '' @ beDuration e timeout)
      else case failed of
        Some err \<Rightarrow>
          (case classifyAgentFailure agent (acModel call) (arStderr r) err of (outcome, reason) \<Rightarrow> halt outcome reason (failText err))
      | None \<Rightarrow>
          if own_stop \<or> stalled p (acPhase call) then halt OutcomeAgentFailed StopAgentNoProgress (stalledDetail p)
          else ret (FinalText ls, SessionID ls))"

definition runAgent :: "build_env \<Rightarrow> build_config \<Rightarrow> agent_call \<Rightarrow> router \<Rightarrow> string \<Rightarrow> (string \<times> string) program" where
  "runAgent e c call agent prompt =
     andThen (ask ClockRead (beNow e)) (\<lambda>started.
     andThen (ask (CreateFiles (acPhase call) (acRound call)) (beFiles e)) (\<lambda>created.
     andThen (require OutcomeInfraFailure StopCompletions created) (\<lambda>_.
     let timeout = (if acTimeout call \<le> 0 then defaultAgentTimeout else acTimeout call) in
     andThen (ask (AgentRun call prompt) (beAgent e)) (\<lambda>r.
     andThen (upload e (completionsObject (bcAttemptID c) (acPhase call) (acRound call))) (\<lambda>_.
     andThen (upload e (stderr_object (bcAttemptID c) (acPhase call) (acRound call))) (\<lambda>_.
     andThen (ask ClockRead (beNow e)) (\<lambda>finished.
     andThen (on_sum (metered_call e c call agent (arStream r) started finished)) (\<lambda>_.
     agent_verdict e call agent timeout r))))))))"

section \<open>The models in order\<close>

text \<open>
  Why an order ended without an ans. An order of no models ends in a nil dereference; every list the
  build passes has been validated to hold one.
\<close>

definition exhausted :: "string \<Rightarrow> stop_error option \<Rightarrow> 'a program" where
  "exhausted first stop = (case stop of
     None \<Rightarrow> halt OutcomeInfraFailure StopPanic ''runtime error: invalid memory address or nil pointer dereference''
   | Some s \<Rightarrow>
     if stopReason s = StopAllowanceExhausted
     then halt OutcomeBudgetStop StopAllowanceExhausted (''allowance order for '' @ first @ '' exhausted: '' @ stopOutcome s @ '' ('' @ stopReason s @ ''): '' @ stopText s)
     else halt OutcomeInfraFailure StopModelUnavailable (''availability order for '' @ first @ '' exhausted: '' @ stopOutcome s @ '' ('' @ stopReason s @ ''): '' @ stopText s))"

text \<open>\<open>left\<close> is what the stage leaves a model past the first, \<open>rnd\<close> the round the next attempt runs as.\<close>

fun models_in_order :: "build_env \<Rightarrow> build_config \<Rightarrow> agent_call \<Rightarrow> router \<Rightarrow> string \<Rightarrow> duration option program \<Rightarrow> string \<Rightarrow> stop_error option
    \<Rightarrow> int \<Rightarrow> string list \<Rightarrow> (string \<times> string \<times> int) program" where
  "models_in_order e c call agent prompt left first stop rnd [] = exhausted first stop"
| "models_in_order e c call agent prompt left first stop rnd (model # models) =
     andThen (if stop = None then ret (Some (acTimeout call)) else left) (\<lambda>timeout.
       case timeout of
         None \<Rightarrow> exhausted first stop
       | Some t \<Rightarrow>
         handle (runAgent e c (call\<lparr>acModel := model, acRound := rnd, acTimeout := t\<rparr>) agent prompt)
           (\<lambda>err. if movesToNextModel (stopReason err)
              then models_in_order e c call agent prompt left first (Some err) (rnd + (if models = [] then 0 else 1)) models
              else (\<lambda>s. (Inl err, s)))
           (\<lambda>(ans, session). ret (ans, session, rnd)))"

definition runAgentInOrder :: "build_env \<Rightarrow> build_config \<Rightarrow> agent_call \<Rightarrow> string list \<Rightarrow> router \<Rightarrow> string \<Rightarrow> time \<Rightarrow> duration
    \<Rightarrow> (string \<times> string \<times> int) program" where
  "runAgentInOrder e c call models agent prompt started budget =
     models_in_order e c call agent prompt
       (andThen (ask ClockRead (beNow e)) (\<lambda>now. ret (roundTimeout (bcAgentTimeout c) started now budget)))
       (case models of [] \<Rightarrow> [] | m # _ \<Rightarrow> m) None (acRound call) models"

end
