(* ===== verification/Run_Loop.thy ===== *)
theory Run_Loop
  imports Run_Agent
begin

text \<open>
  The loops of a build before it commits (\<open>internal/runner/loop.go\<close>, \<open>guards.go\<close>, \<open>checks.go\<close> and the
  prompts of \<open>commitmsg.go\<close> and \<open>review.go\<close>): the build and its checks, the scan of the guards a diff
  adds, and the review with its fix rounds.
\<close>

section \<open>Prompts\<close>

definition para :: string where "para = newline @ newline"

definition code_block :: "string \<Rightarrow> string \<Rightarrow> string" where
  "code_block name body = fence @ name @ newline @ body @ fence"

definition commitMessageInstruction :: string where
  "commitMessageInstruction = ''End your final response with exactly one fenced code block giving the commit ''
     @ ''message for the whole change so far: a conventional-commit subject of at most '' @ itoa (int maxCommitSubjectRunes)
     @ '' characters that names the '' @ ''ticket's id, a blank line, one sentence summarising the change for the pull request, a blank line, then one ''
     @ [CHR 0x60] @ ''- '' @ [CHR 0x60] @ '' bullet per thing that changed:'' @ para
     @ code_block ''commit-message'' (''feat(runner): ABC-1 add the widget'' @ para @ ''One sentence summarising the change.'' @ para
         @ ''- first thing that changed'' @ newline @ ''- second thing that changed'' @ newline)"

definition withCommitInstruction :: "string \<Rightarrow> string" where
  "withCommitInstruction prompt = prompt @ para @ commitMessageInstruction"

definition checkFeedbackLimit :: nat where "checkFeedbackLimit = 8192"

definition checkFeedbackPrompt :: "string \<Rightarrow> string \<Rightarrow> string" where
  "checkFeedbackPrompt gate output = ''The '' @ [CHR 0x60] @ gate @ [CHR 0x60] @ '' check failed. Fix it and make no other change.''
     @ para @ fence @ newline @ truncate_text output checkFeedbackLimit @ newline @ fence"

definition fixPrompt :: "string \<Rightarrow> string" where
  "fixPrompt findings = ''A review of this change found the following. Address it and make no unrelated change.'' @ para @ findings"

definition checkGiveUpDetail :: "string \<Rightarrow> string \<Rightarrow> int \<Rightarrow> string" where
  "checkGiveUpDetail gate output rounds = ''checks: '' @ gate @ '' still failing after '' @ itoa rounds @ '' round(s)''
     @ para @ truncate_text output checkFeedbackLimit"

definition reviewFailureDetail :: "string \<Rightarrow> string" where
  "reviewFailureDetail err = ''review: '' @ truncate_text err checkFeedbackLimit"

definition detailParts :: "string list \<Rightarrow> string" where
  "detailParts parts = join ''; '' (filter (\<lambda>p. p \<noteq> []) parts)"

definition reviewFindingsBlockInstruction :: string where
  "reviewFindingsBlockInstruction = ''End your final response with a fenced code block named review-findings: ''
     @ ''leave it empty if the diff satisfies the ticket, or list every finding worth fixing, one per line, if it does not:'' @ para
     @ code_block ''review-findings'' []"

definition preOpenReviewInstruction :: string where
  "preOpenReviewInstruction = ''Review the diff above against the ticket's acceptance criteria, and the code ''
     @ ''around it. Do not edit any files; read and search the repository as much as you need.'' @ para
     @ ''Besides the diff itself, report:'' @ para
     @ ''- anything outside the diff the change leaves wrong: a caller that still assumes the old behaviour, a test ''
     @ ''name or doc that now describes something else, an assertion pinned to a value the change moved.'' @ newline
     @ ''- code the diff adds after an early return, where the return skips it for the cases the ticket is about.'' @ newline
     @ ''- every rule in force for this run '' @ [CHR 0xE2, CHR 0x80, CHR 0x94] @ '' the conventions in your instructions ''
     @ [CHR 0xE2, CHR 0x80, CHR 0x94] @ '' that the diff breaks.'' @ newline
     @ ''- every fail-closed path the diff adds that no test exercises.'' @ para @ reviewFindingsBlockInstruction"

definition reviewPrompt :: "string \<Rightarrow> full_ticket \<Rightarrow> string \<Rightarrow> string" where
  "reviewPrompt diff t instruction = ''## Diff under review'' @ para @ fence @ ''diff'' @ newline @ diff @ newline @ fence @ para
     @ ''## Ticket'' @ para @ Ticket_Text t @ para @ instruction"

definition PreOpenReviewPrompt :: "string \<Rightarrow> full_ticket \<Rightarrow> string" where
  "PreOpenReviewPrompt diff t = reviewPrompt diff t preOpenReviewInstruction"

definition buildOrder :: "build_config \<Rightarrow> string list" where
  "buildOrder c = bcModel c # fallbackModels (bcModel c)"

section \<open>Checks\<close>

definition checksDuration :: string where "checksDuration = ''checks''"

definition add_duration :: "string \<Rightarrow> int \<Rightarrow> summary \<Rightarrow> summary" where
  "add_duration key ms sm = sm\<lparr>smDurations :=
     AList.update key (int64 ((case map_of (smDurations sm) key of None \<Rightarrow> 0 | Some n \<Rightarrow> n) + ms)) (smDurations sm)\<rparr>"

definition isFormatGate :: "string \<Rightarrow> bool" where
  "isFormatGate gate \<longleftrightarrow> gate = ''gofmt'' \<or> gate = ''web-fmt-check''"

definition pending_files :: "build_env \<Rightarrow> string list program" where
  "pending_files e = andThen (ask ReadPending (bePending e)) (demand OutcomeInfraFailure StopChecksRun)"

definition timedChecks :: "build_env \<Rightarrow> (string \<times> string) program" where
  "timedChecks e =
     andThen (pending_files e) (\<lambda>changed.
     andThen (ask ClockRead (beNow e)) (\<lambda>started.
     andThen (ask (RunChecks changed) (beChecks e)) (\<lambda>r.
     andThen (ask ClockRead (beNow e)) (\<lambda>finished.
     andThen (on_sum (add_duration checksDuration (milliseconds (finished - started)))) (\<lambda>_.
     demand OutcomeInfraFailure StopChecksRun r)))))"

definition formatInPlace :: "build_env \<Rightarrow> (log_of_calls \<Rightarrow> string option) \<Rightarrow> string \<Rightarrow> unit program" where
  "formatInPlace e run gate =
     andThen (pending_files e) (\<lambda>before_files.
     andThen (ask ClockRead (beNow e)) (\<lambda>started.
     andThen (ask (RunFormat gate) run) (\<lambda>fault.
     andThen (require OutcomeInfraFailure StopChecksRun fault) (\<lambda>_.
     andThen (ask ClockRead (beNow e)) (\<lambda>finished.
     andThen (on_sum (add_duration checksDuration (milliseconds (finished - started)))) (\<lambda>_.
     andThen (pending_files e) (\<lambda>after_files.
     let outside = filter (\<lambda>p. p \<notin> set before_files) after_files in
     if outside \<noteq> []
     then halt OutcomeStopped StopFormatterOutsideDiff
       (''the '' @ gate @ '' formatter changed files outside the run's diff: '' @ join '', '' outside)
     else ret ())))))))"

definition unformatted :: "string list \<Rightarrow> nat" where
  "unformatted formatted = card ({''gofmt'', ''web-fmt-check''} - set formatted)"

lemma unformatted_less: "isFormatGate gate \<Longrightarrow> gate \<notin> set formatted \<Longrightarrow> unformatted (gate # formatted) < unformatted formatted"
  unfolding unformatted_def isFormatGate_def by (rule psubset_card_mono) auto

text \<open>The checks, a failing format gate fixed in place and the checks run again, each such gate once.\<close>

function checks_formatted :: "build_env \<Rightarrow> string list \<Rightarrow> (string \<times> string) program" where
  "checks_formatted e formatted s =
     (case timedChecks e s of
        (Inl err, s1) \<Rightarrow> (Inl err, s1)
      | (Inr (gate, output), s1) \<Rightarrow>
        (case beFormat e of
           None \<Rightarrow> (Inr (gate, output), s1)
         | Some run \<Rightarrow>
           if \<not> isFormatGate gate \<or> gate \<in> set formatted then (Inr (gate, output), s1)
           else (case formatInPlace e run gate s1 of
                   (Inl err, s2) \<Rightarrow> (Inl err, s2)
                 | (Inr _, s2) \<Rightarrow> checks_formatted e (gate # formatted) s2)))"
  by pat_completeness auto
termination
  by (relation "measure (\<lambda>(_, formatted, _). unformatted formatted)") (auto simp: unformatted_less)

declare checks_formatted.simps [simp del]

definition checksFormatted :: "build_env \<Rightarrow> (string \<times> string) program" where
  "checksFormatted e = checks_formatted e []"

section \<open>The build and its checks\<close>

definition checkLoopMaxRounds :: nat where "checkLoopMaxRounds = 3"

definition build_budget :: "build_env \<Rightarrow> build_config \<Rightarrow> duration option program" where
  "build_budget e c = andThen (read_sum smStartedAt) (\<lambda>started. andThen (ask ClockRead (beNow e))
     (\<lambda>now. ret (roundTimeout (bcAgentTimeout c) started now nfr1BuildBudget)))"

text \<open>A round of the build agent: its session and the round it ran under; its commit message replaces the one before.\<close>

definition build_round :: "build_env \<Rightarrow> build_config \<Rightarrow> agent_call \<Rightarrow> string \<Rightarrow> time \<Rightarrow> duration \<Rightarrow> (string \<times> int) program" where
  "build_round e c call prompt started budget =
     andThen (runAgentInOrder e c call (buildOrder c) (beRouter e) (withCommitInstruction prompt) started budget) (\<lambda>(ans, session, rnd).
     andThen (on_msg (adopt (bePrint e) ans (tkID (bcTicket c)))) (\<lambda>_. ret (session, rnd)))"

text \<open>What a loop leaves: whether the checks passed, why not, the session and the round it ended on.\<close>

fun check_rounds :: "build_env \<Rightarrow> build_config \<Rightarrow> string \<Rightarrow> string \<Rightarrow> int \<Rightarrow> nat \<Rightarrow> (bool \<times> string \<times> string \<times> int) program" where
  "check_rounds e c rules session rnd left =
     andThen (checksFormatted e) (\<lambda>(gate, output).
       if gate = [] then ret (True, [], session, rnd)
       else andThen (build_budget e c) (\<lambda>timeout.
         case (left, timeout) of
           (Suc n, Some t) \<Rightarrow>
             andThen (read_sum smStartedAt) (\<lambda>started.
             andThen (build_round e c
                \<lparr>acPhase = PhaseBuild, acRound = rnd + 1, acModel = bcModel c, acSession = session, acRules = rules, acDetail = gate, acTimeout = t\<rparr>
                (checkFeedbackPrompt gate output) started nfr1BuildBudget) (\<lambda>(session', rnd').
             check_rounds e c rules session' rnd' n))
         | _ \<Rightarrow> ret (False, checkGiveUpDetail gate output rnd, session, rnd)))"

declare check_rounds.simps [simp del]

definition runCheckLoop :: "build_env \<Rightarrow> build_config \<Rightarrow> string \<Rightarrow> string \<Rightarrow> (bool \<times> string \<times> string \<times> int) program" where
  "runCheckLoop e c rules prompt =
     andThen (build_budget e c) (\<lambda>timeout.
     case timeout of
       None \<Rightarrow> halt OutcomeStopped StopRunBudget (stageBudgetSpent ''build'' nfr1BuildBudget)
     | Some t \<Rightarrow>
       andThen (read_sum smStartedAt) (\<lambda>started.
       andThen (build_round e c
          \<lparr>acPhase = PhaseBuild, acRound = 1, acModel = bcModel c, acSession = [], acRules = rules, acDetail = [], acTimeout = t\<rparr>
          prompt started nfr1BuildBudget) (\<lambda>(session, rnd).
       andThen (ask ReadDirty (beDirty e)) (\<lambda>r.
       andThen (demand OutcomeInfraFailure StopChecksRun r) (\<lambda>dirty.
       if \<not> dirty then ret (False, [], session, rnd)
       else check_rounds e c rules session rnd (checkLoopMaxRounds - 1))))))"

section \<open>Guards\<close>

definition guardScanMax :: nat where "guardScanMax = 5"
definition guardProbeTimeout :: duration where "guardProbeTimeout = 5 * minute"

definition guard_key :: "guard \<Rightarrow> string" where
  "guard_key g = gdFile g @ [CHR 0x00] @ gdHeader g"

definition guardFinding :: "guard \<Rightarrow> string" where
  "guardFinding g = ''guard at '' @ gdFile g @ '':'' @ itoa (int (gdLine g)) @ '' can be removed and every test in '' @ gdPkg g @ '' still passes''"

definition path_Dir :: "string \<Rightarrow> string" where
  "path_Dir name = path_Clean (rev (dropWhile (\<lambda>ch. ch \<noteq> CHR ''/'') (rev name)))"

definition guardPackage :: "string \<Rightarrow> string" where
  "guardPackage name = (let dir = path_Dir name in if dir = ''.'' then ''.'' else ''./'' @ dir)"

definition isGoSource :: "string \<Rightarrow> bool" where
  "isGoSource name \<longleftrightarrow> suffix ''.go'' name \<and> \<not> suffix ''_test.go'' name"

definition breakGuard :: "string \<Rightarrow> guard \<Rightarrow> string" where
  "breakGuard src g = take (gdFrom g) src @ ''false && ('' @ take (gdTo g - gdFrom g) (drop (gdFrom g) src) @ '')'' @ drop (gdTo g) src"

fun scan_files :: "build_env \<Rightarrow> (string \<times> int list) list \<Rightarrow> guard list program" where
  "scan_files e [] = ret []"
| "scan_files e ((name, lines) # files) =
     andThen (ask (ScanFile name lines) (beGuards e)) (\<lambda>found.
     andThen (scan_files e files) (\<lambda>rest. ret ((case found of None \<Rightarrow> [] | Some gs \<Rightarrow> gs) @ rest)))"

definition changedGuards :: "build_env \<Rightarrow> (string \<times> int list) list \<Rightarrow> guard list program" where
  "changedGuards e added = scan_files e (sort_key fst (filter (\<lambda>p. isGoSource (fst p)) added))"

definition position :: "guard \<Rightarrow> string" where
  "position g = gdFile g @ '':'' @ itoa (int (gdLine g))"

definition probe_result :: "test_run \<Rightarrow> bool" where
  "probe_result r = (case trResult r of Inl _ \<Rightarrow> False
     | Inr (failed, output) \<Rightarrow> \<not> trTimedOut r \<and> \<not> (failed \<and> contains output ''[build failed]'') \<and> \<not> failed)"

definition probeGuard :: "build_env \<Rightarrow> (log_of_calls \<Rightarrow> test_run) \<Rightarrow> guard \<Rightarrow> duration \<Rightarrow> bool program" where
  "probeGuard e run g left =
     andThen (ask (ReadSource (gdFile g)) (beRead e)) (\<lambda>src.
     case src of
       Inl _ \<Rightarrow> ret False
     | Inr body \<Rightarrow>
       andThen (ask (WriteSource (gdFile g) (breakGuard body g)) (beWrite e)) (\<lambda>fault.
       andThen (require OutcomeInfraFailure StopChecksRun (map_option (\<lambda>err. ''breaking the guard at '' @ position g @ '': '' @ err) fault)) (\<lambda>_.
       andThen (ask (TestPackage (gdPkg g) (min guardProbeTimeout left)) run) (\<lambda>r.
       andThen (ask (WriteSource (gdFile g) body) (beWrite e)) (\<lambda>unrestored.
       andThen (require OutcomeInfraFailure StopChecksRun (map_option (\<lambda>err. ''restoring '' @ gdFile g @ '': '' @ err) unrestored)) (\<lambda>_.
       ret (probe_result r)))))))"

fun probe_guards :: "build_env \<Rightarrow> (log_of_calls \<Rightarrow> test_run) \<Rightarrow> time \<Rightarrow> duration \<Rightarrow> guard list \<Rightarrow> pending_finding list program" where
  "probe_guards e run started budget [] = ret []"
| "probe_guards e run started budget (g # gs) =
     andThen (ask ClockRead (beNow e)) (\<lambda>now.
     if \<not> withinBudget started now budget then ret []
     else andThen (probeGuard e run g (budget - (now - started))) (\<lambda>uncovered.
       andThen (probe_guards e run started budget gs) (\<lambda>rest.
       ret (if uncovered then \<lparr>pfKey = guard_key g, pfText = guardFinding g, pfStable = True\<rparr> # rest else rest))))"

definition scanGuards :: "build_env \<Rightarrow> time \<Rightarrow> duration \<Rightarrow> pending_finding list program" where
  "scanGuards e started budget =
     (case beTests e of
        None \<Rightarrow> ret []
      | Some run \<Rightarrow>
        andThen (ask ReadAdded (beAdded e)) (\<lambda>r.
        andThen (demand OutcomeInfraFailure StopChecksRun r) (\<lambda>added.
        andThen (changedGuards e added) (\<lambda>guards. probe_guards e run started budget (take guardScanMax guards)))))"

section \<open>The review\<close>

definition maxFixRounds :: nat where "maxFixRounds = 2"

definition reviewPass :: "build_env \<Rightarrow> build_config \<Rightarrow> int \<Rightarrow> string \<Rightarrow> duration \<Rightarrow> time \<Rightarrow> duration \<Rightarrow> string program" where
  "reviewPass e c rnd rules timeout started budget =
     andThen (ask ReadDiff (beDiff e)) (\<lambda>r.
     andThen (demand OutcomeInfraFailure StopChecksRun r) (\<lambda>diff.
     andThen (runAgentInOrder e c
        \<lparr>acPhase = PhaseReview, acRound = rnd, acModel = hd (bcReviewModels c), acSession = [], acRules = rules, acDetail = [], acTimeout = timeout\<rparr>
        (bcReviewModels c) (beReviewRouter e) (PreOpenReviewPrompt diff (bcTicket c)) started budget) (\<lambda>(ans, _, _).
     demand OutcomeStopped StopReviewInvalid (ParseReviewFindings ans))))"

definition lastFixRoundCost :: "summary \<Rightarrow> fix_round_cost" where
  "lastFixRoundCost sm = (let st = last (smSteps sm) in \<lparr>fcRound = bsRound st, fcTokens = bsTokens st, fcDurationMS = bsDurationMS st\<rparr>)"

definition set_findings :: "fix_round list \<Rightarrow> summary \<Rightarrow> summary" where
  "set_findings rounds sm = sm\<lparr>smFindings := reviewRows rounds\<rparr>"

definition fix_checks_detail :: "string \<times> string \<Rightarrow> string" where
  "fix_checks_detail r = (case r of (gate, output) \<Rightarrow>
     if gate = [] then [] else ''checks: '' @ gate @ '' failing after the fix round'' @ para @ truncate_text output checkFeedbackLimit)"

text \<open>How the loop ends once no further fix round runs.\<close>

definition review_left_open :: "pending_finding list \<Rightarrow> fix_round list \<Rightarrow> pending_finding list \<Rightarrow> string \<Rightarrow> (bool \<times> string) program" where
  "review_left_open pending rounds findings checks =
     (if rounds = []
      then andThen (on_sum (\<lambda>sm. sm\<lparr>smFindings := capFindings (resolveFindings pending [] noFixRound False)\<rparr>)) (\<lambda>_.
        ret (False, ''findings open: '' @ findingsText pending @ '' (fix round skipped: '' @ stageBudgetSpent ''review'' nfr1ReviewBudget @ '')''))
      else andThen (on_sum (set_findings rounds)) (\<lambda>_.
        ret (False, detailParts [''findings open: '' @ findingsText findings, checks])))"

text \<open>
  What follows a fix round and its checks: the guards probed again and, within the budget, the diff reviewed
  again. \<open>again\<close> is the next fix round, given what is still open.
\<close>

definition recheck :: "build_env \<Rightarrow> build_config \<Rightarrow> string \<Rightarrow> time \<Rightarrow> fix_round list \<Rightarrow> pending_finding list \<Rightarrow> string \<Rightarrow> int
    \<Rightarrow> (fix_round list \<Rightarrow> pending_finding list \<Rightarrow> (bool \<times> string) program) \<Rightarrow> (bool \<times> string) program" where
  "recheck e c rules started rounds findings checks rnd again =
     andThen (scanGuards e started nfr1ReviewBudget) (\<lambda>surviving.
     andThen (ask ClockRead (beNow e)) (\<lambda>now.
     case roundTimeout (bcAgentTimeout c) started now nfr1ReviewBudget of
       None \<Rightarrow>
         andThen (on_sum (set_findings (rounds @ [\<lparr>frRound = nat rnd, frIssued = findings, frOpen = [], frRechecked = False\<rparr>]))) (\<lambda>_.
         ret (False, detailParts [''findings addressed by a fix round, not re-reviewed: '' @ findingsText findings
           @ '' ('' @ stageBudgetSpent ''review'' nfr1ReviewBudget @ '')'', checks]))
     | Some timeout \<Rightarrow>
         andThen (reviewPass e c rnd rules timeout started nfr1ReviewBudget) (\<lambda>remaining.
         let still = surviving @ reviewPending remaining;
             rounds' = rounds @ [\<lparr>frRound = nat rnd, frIssued = findings, frOpen = still, frRechecked = True\<rparr>] in
         if still = [] then andThen (on_sum (set_findings rounds')) (\<lambda>_. ret (checks = [], checks))
         else again rounds' still)))"

text \<open>\<open>rounds\<close> are the fix rounds so far, \<open>findings\<close> what the next one is given.\<close>

fun fix_rounds :: "build_env \<Rightarrow> build_config \<Rightarrow> string \<Rightarrow> time \<Rightarrow> pending_finding list \<Rightarrow> fix_round list \<Rightarrow> pending_finding list
    \<Rightarrow> string \<Rightarrow> string \<Rightarrow> int \<Rightarrow> nat \<Rightarrow> (bool \<times> string) program" where
  "fix_rounds e c rules started pending rounds findings checks session rnd 0 = review_left_open pending rounds findings checks"
| "fix_rounds e c rules started pending rounds findings checks session rnd (Suc n) =
     andThen (ask ClockRead (beNow e)) (\<lambda>now.
     case roundTimeout (bcAgentTimeout c) started now nfr1ReviewBudget of
       None \<Rightarrow> review_left_open pending rounds findings checks
     | Some t \<Rightarrow>
       andThen (build_round e c
          \<lparr>acPhase = PhaseBuild, acRound = rnd + 1, acModel = bcModel c, acSession = session, acRules = rules,
            acDetail = findingsText findings, acTimeout = t\<rparr>
          (fixPrompt (findingsText findings)) started nfr1ReviewBudget) (\<lambda>(session', rnd').
       andThen (on_sum (\<lambda>sm. if Suc n < maxFixRounds then sm\<lparr>smSecondRound := Some (lastFixRoundCost sm)\<rparr> else sm)) (\<lambda>_.
       andThen (checksFormatted e) (\<lambda>r.
       recheck e c rules started rounds findings (fix_checks_detail r) rnd' (\<lambda>rounds' still.
         fix_rounds e c rules started pending rounds' still (fix_checks_detail r) session' rnd' n)))))"

definition runReview :: "build_env \<Rightarrow> build_config \<Rightarrow> string \<Rightarrow> string \<Rightarrow> int \<Rightarrow> (bool \<times> string) program" where
  "runReview e c rules session buildRound =
     andThen (read_sum smStartedAt) (\<lambda>built.
     andThen (scanGuards e built nfr1BuildBudget) (\<lambda>guards.
     andThen (ask ClockRead (beNow e)) (\<lambda>started.
     andThen (reviewPass e c 1 rules (min (effectiveAgentTimeout (bcAgentTimeout c)) nfr1ReviewBudget) started nfr1ReviewBudget) (\<lambda>found.
     let pending = guards @ reviewPending found in
     if pending = [] then ret (True, [])
     else fix_rounds e c rules started pending [] pending [] session buildRound maxFixRounds))))"

end
