(* ===== verification/Run_Build.thy ===== *)
theory Run_Build
  imports Run_Loop
begin

text \<open>
  A whole build (\<open>Build\<close>, \<open>commitWork\<close> and \<open>runPlanPhase\<close> of \<open>internal/runner/build.go\<close>, \<open>PlanStage\<close> of
  \<open>plan_stage.go\<close>, with \<open>identity.go\<close>, \<open>projection.go\<close>, \<open>prompt.go\<close> and the plan's prompts of \<open>plan.go\<close>).
\<close>

section \<open>Identity\<close>

definition ErrIdentityMismatch :: string where "ErrIdentityMismatch = ''identity mismatch''"

definition CheckAccount :: "string \<Rightarrow> string \<Rightarrow> string option" where
  "CheckAccount account owner =
     (if account = [] then Some (ErrIdentityMismatch @ '': WINGMAN_ACCOUNT is not set'')
      else if owner = [] then Some (ErrIdentityMismatch @ '': GITHUB_REPOSITORY_OWNER is not set'')
      else if \<not> EqualFold account owner then Some (ErrIdentityMismatch @ '': WINGMAN_ACCOUNT does not own the repository'')
      else None)"

definition CheckModel :: "build_config \<Rightarrow> string option" where
  "CheckModel c = (case CheckAccount (bcAccount c) (bcOwner c) of
     Some err \<Rightarrow> Some err
   | None \<Rightarrow> if bcGitHubToken c then Some (ErrIdentityMismatch @ '': the model's job holds a GitHub token'') else None)"

section \<open>Projections\<close>

definition buildProjectionFile :: string where "buildProjectionFile = ''projection-build.md''"
definition planProjectionFile :: string where "planProjectionFile = ''projection-plan.md''"

definition sha_ok :: "string \<Rightarrow> bool" where
  "sha_ok s \<longleftrightarrow> length s = 40 \<and> list_all (\<lambda>ch. is_digit ch \<or> 97 \<le> byte ch \<and> byte ch \<le> 102) s"

datatype projection_error = ProjectionMissing string | PointerInvalid string | ProjectionFault string

record projection =
  prSHA :: string
  prText :: string

definition readRequired :: "build_env \<Rightarrow> string \<Rightarrow> (projection_error + string) program" where
  "readRequired e name = andThen (ask (ReadObject name) (beObject e)) (\<lambda>r. ret (case r of
     Found s \<Rightarrow> Inr s
   | ObjectMissing \<Rightarrow> Inl (ProjectionMissing (''projection object missing: '' @ name))
   | Unreadable err \<Rightarrow> Inl (ProjectionFault (''reading '' @ name @ '': '' @ err))))"

definition fetchProjection :: "build_env \<Rightarrow> string \<Rightarrow> string \<Rightarrow> (projection_error + projection) program" where
  "fetchProjection e pointer file =
     andThen (readRequired e pointer) (\<lambda>r.
     case r of
       Inl err \<Rightarrow> ret (Inl err)
     | Inr raw \<Rightarrow>
       let sha = trim_space raw in
       if \<not> sha_ok sha then ret (Inl (PointerInvalid (pointer @ '': projection pointer is not a commit sha'')))
       else andThen (readRequired e (''projections/'' @ sha @ ''/'' @ file)) (\<lambda>r'.
         case r' of Inl err \<Rightarrow> ret (Inl err) | Inr body \<Rightarrow> ret (Inr \<lparr>prSHA = sha, prText = body\<rparr>)))"

definition projection_stop :: "projection_error \<Rightarrow> 'a program" where
  "projection_stop err = (case err of
     ProjectionMissing why \<Rightarrow> halt OutcomeStopped StopProjectionMissing why
   | PointerInvalid why \<Rightarrow> halt OutcomeStopped StopProjectionInvalid why
   | ProjectionFault why \<Rightarrow> halt OutcomeInfraFailure StopProjectionRead why)"

definition FetchProjection :: "build_env \<Rightarrow> build_config \<Rightarrow> string \<Rightarrow> projection program" where
  "FetchProjection e c file = andThen (fetchProjection e (bcPointer c) file)
     (\<lambda>r. case r of Inl err \<Rightarrow> projection_stop err | Inr p \<Rightarrow> ret p)"

definition ticketSentinel :: string where "ticketSentinel = ''<<<TICKET>>>''"

definition errSentinel :: string where
  "errSentinel = ''projection must be rules followed by exactly one trailing ticket sentinel''"

definition RenderPromptParts :: "string \<Rightarrow> full_ticket \<Rightarrow> string + string \<times> string" where
  "RenderPromptParts projection t = (case cut projection ticketSentinel of (head, rest, found) \<Rightarrow>
     if \<not> found \<or> blank head \<or> \<not> blank rest then Inl errSentinel else Inr (head, Ticket_Text t @ rest))"

section \<open>The plan phase\<close>

definition em_dash :: string where "em_dash = [CHR 0xE2, CHR 0x80, CHR 0x94]"

definition planFileListInstruction :: string where
  "planFileListInstruction = ''Do not edit any files or run any shell commands: this phase is planning only.'' @ para
     @ ''End your final response with a fenced code block listing every file you plan to add or change, ''
     @ ''one repository-relative path per line and nothing else in the block. Include the test file ''
     @ ''alongside each source file you expect it to need '' @ em_dash @ '' if the build edits a file this list does not ''
     @ ''name, its PR opens as a draft that lists those files:'' @ para
     @ code_block ''plan-files'' (''path/one.go'' @ newline @ ''path/one_test.go'' @ newline @ ''path/two.go'' @ newline)"

definition planDecisionInstruction :: string where
  "planDecisionInstruction = ''But if '' @ em_dash @ '' and only if '' @ em_dash @ '' you need a decision you may not take alone, end your final response ''
     @ ''with a fenced decision block instead of the file list. A decision is yours to ask only when it is outward-facing ''
     @ ''(it reaches a third party), irreversible (it cannot be undone), a security choice, or scope (what the work includes ''
     @ ''or leaves out). Do not ask about a local choice you can settle yourself from the repository and the evidence in front ''
     @ ''of you '' @ em_dash @ '' a reversible, in-repo decision is yours to make. When you ask, keep to these bounds, which the plan's ''
     @ ''re-check enforces: one question of at most '' @ itoa (int decisionQuestionLimit) @ '' bytes on one line; ''
     @ ''at most '' @ itoa (int decisionContextLines) @ '' lines of context, each at most '' @ itoa (int decisionContextLimit)
     @ '' bytes on one line; '' @ itoa (int decisionOptionMin) @ '' to '' @ itoa (int decisionOptionMax)
     @ '' options, each needing a non-empty label, value and cost of at most '' @ itoa (int decisionLabelLimit) @ '', ''
     @ itoa (int decisionValueLimit) @ '' and '' @ itoa (int decisionCostLimit) @ '' bytes, each on one line. Put your recommendation first:'' @ para
     @ code_block ''plan-decision'' (
         (let q = [CHR 0x22] @ ellipsis @ [CHR 0x22] in
          ''{'' @ [CHR 0x22] @ ''question'' @ [CHR 0x22] @ '': '' @ q @ '', '' @ [CHR 0x22] @ ''context'' @ [CHR 0x22] @ '': ['' @ q @ '', '' @ q @ ''], ''
          @ [CHR 0x22] @ ''options'' @ [CHR 0x22] @ '': [{'' @ [CHR 0x22] @ ''label'' @ [CHR 0x22] @ '': '' @ q @ '', ''
          @ [CHR 0x22] @ ''value'' @ [CHR 0x22] @ '': '' @ q @ '', '' @ [CHR 0x22] @ ''cost'' @ [CHR 0x22] @ '': '' @ q @ ''}]}'') @ newline)"

definition PlanPrompt :: "string \<Rightarrow> full_ticket \<Rightarrow> bool \<Rightarrow> string + string \<times> string" where
  "PlanPrompt projection t guided = and_then (RenderPromptParts projection t) (\<lambda>(rules, ticket).
     Inr (rules, ticket @ para @ planFileListInstruction @ (if guided then para @ planDecisionInstruction else [])))"

definition decisionBreaches :: "plan_error \<Rightarrow> string list" where
  "decisionBreaches err = (case err of PlanError why \<Rightarrow> [why] | DecisionBounds breaches \<Rightarrow> breaches)"

definition planDecisionCorrectionPrompt :: "plan_error \<Rightarrow> string" where
  "planDecisionCorrectionPrompt err = ''The plan-decision block you ended with broke the plan re-check's bounds:'' @ para
     @ join newline (map (\<lambda>b. ''- '' @ b) (decisionBreaches err)) @ para @ ''Reply with the corrected decision block and nothing else.''"

definition budget_or_stop :: "build_env \<Rightarrow> build_config \<Rightarrow> duration program" where
  "budget_or_stop e c = andThen (build_budget e c) (\<lambda>timeout. case timeout of
     None \<Rightarrow> halt OutcomeStopped StopRunBudget (stageBudgetSpent ''build'' nfr1BuildBudget)
   | Some t \<Rightarrow> ret t)"

definition plan_call :: "int \<Rightarrow> string \<Rightarrow> string \<Rightarrow> string \<Rightarrow> duration \<Rightarrow> agent_call" where
  "plan_call rnd model session rules t =
     \<lparr>acPhase = PhasePlan, acRound = rnd, acModel = model, acSession = session, acRules = rules, acDetail = [], acTimeout = t\<rparr>"

definition plan_order :: "build_env \<Rightarrow> build_config \<Rightarrow> agent_call \<Rightarrow> string list \<Rightarrow> string \<Rightarrow> (string \<times> string \<times> int) program" where
  "plan_order e c call models prompt = andThen (read_sum smStartedAt) (\<lambda>started.
     runAgentInOrder e c call models (bePlanRouter e) prompt started nfr1BuildBudget)"

text \<open>The reply judged, a decision that broke a bound corrected in one more round of the same session.\<close>

definition judged_plan :: "build_env \<Rightarrow> build_config \<Rightarrow> string \<Rightarrow> string \<times> string \<times> int \<Rightarrow> (plan_error + plan_artifact) program" where
  "judged_plan e c rules replied = (case replied of (ans, session, rnd) \<Rightarrow>
     case parsePlanArtifacts (bePrint e) (beDecision e) ans (bcGuided c) of
       Inr a \<Rightarrow> ret (Inr a)
     | Inl err \<Rightarrow>
       if \<not> breaksDecisionBound err then ret (Inl err)
       else
         andThen (budget_or_stop e c) (\<lambda>t.
         let models = drop (nat (rnd - 1)) (bcPlanModels c) in
         andThen (plan_order e c (plan_call (rnd + 1) (hd models) session rules t) models (planDecisionCorrectionPrompt err)) (\<lambda>(ans', _, _).
         ret (parsePlanArtifacts (bePrint e) (beDecision e) ans' (bcGuided c)))))"

text \<open>A plan that touches a workflow file stops the run.\<close>

definition plan_verdict :: "plan_error + plan_artifact \<Rightarrow> plan_artifact program" where
  "plan_verdict r = (case r of
     Inl err \<Rightarrow> halt OutcomeStopped StopPlanInvalid (plan_error_text err)
   | Inr (PlanDecision d) \<Rightarrow> ret (PlanDecision d)
   | Inr (PlanFiles files) \<Rightarrow>
       if workflowFiles files \<noteq> [] then halt OutcomeStopped StopWorkflowChange (workflowChange (workflowFiles files))
       else ret (PlanFiles files))"

definition runPlanPhase :: "build_env \<Rightarrow> build_config \<Rightarrow> plan_artifact program" where
  "runPlanPhase e c =
     andThen (FetchProjection e c planProjectionFile) (\<lambda>p.
     andThen (demand OutcomeStopped StopProjectionInvalid (PlanPrompt (prText p) (bcTicket c) (bcGuided c))) (\<lambda>(rules, prompt).
     andThen (budget_or_stop e c) (\<lambda>t.
     andThen (plan_order e c (plan_call 1 (hd (bcPlanModels c)) [] rules t) (bcPlanModels c) prompt) (\<lambda>replied.
     andThen (judged_plan e c rules replied) plan_verdict))))"

section \<open>The commit\<close>

definition bundleName :: string where "bundleName = ''wingman.bundle''"
definition localBranch :: string where "localBranch = BranchPrefix @ ''wt''"

definition BranchName :: "string \<Rightarrow> string \<Rightarrow> string" where
  "BranchName segment attemptID = BranchPrefix @ segment @ ''-'' @ attemptID"

fun check_secrets :: "build_env \<Rightarrow> string list \<Rightarrow> unit program" where
  "check_secrets e [] = ret ()"
| "check_secrets e (secret # secrets) =
     andThen (ask (SearchSecret secret) (beSecret e)) (\<lambda>r. case r of
       SecretFound err \<Rightarrow> halt OutcomeStopped StopSecretInBranch err
     | SearchFailed err \<Rightarrow> halt OutcomeInfraFailure StopCommit err
     | NoSecret \<Rightarrow> check_secrets e secrets)"

definition verified :: "tree_state \<Rightarrow> unit program" where
  "verified v = (case v of
     TreeKept \<Rightarrow> ret ()
   | Tampered err \<Rightarrow> halt OutcomeStopped StopGitTampered err
   | HeadMoved err \<Rightarrow> halt OutcomeStopped StopHeadMoved err
   | TreeUnread err \<Rightarrow> halt OutcomeInfraFailure StopCommit err)"

definition committed :: "commit_message \<Rightarrow> string list \<Rightarrow> summary \<Rightarrow> summary" where
  "committed msg files sm = sm\<lparr>smCommitSubject := msgSubject msg, smCommitBody := msgBody msg, smPRSummary := msgSummary msg,
     smEditedFiles := files\<rparr>"

definition commit_faults :: "string + 'a \<Rightarrow> 'a program" where
  "commit_faults = demand OutcomeInfraFailure StopCommit"

text \<open>The message to commit under: the agent's own, or the one the ticket and the files give.\<close>

definition final_message :: "build_env \<Rightarrow> build_config \<Rightarrow> commit_message program" where
  "final_message e c = andThen read_msg (\<lambda>msg.
     if msgSubject msg \<noteq> [] then ret msg
     else andThen (ask ReadPending (bePending e)) (\<lambda>r. andThen (commit_faults r) (\<lambda>pending.
       ret (FallbackCommitMessage (beLower e) (bcTicket c) pending))))"

text \<open>The bundle of a branch in which no secret is found, and the workflow files the branch touches.\<close>

definition bundle_branch :: "build_env \<Rightarrow> build_config \<Rightarrow> (string option \<times> string list) program" where
  "bundle_branch e c =
     andThen (check_secrets e (bcSecrets c)) (\<lambda>_.
     andThen (ask ReadTouched (beTouched e)) (\<lambda>r.
     andThen (commit_faults r) (\<lambda>touched.
     let bundle = path_Clean (bcTempDir c @ ''/'' @ bundleName) in
     andThen (ask (BundleTree bundle) (beBundle e)) (\<lambda>fault.
     andThen (require OutcomeInfraFailure StopCommit fault) (\<lambda>_.
     ret (Some bundle, workflowFiles touched))))))"

text \<open>Once committed: \<open>None\<close> when the commit held no file.\<close>

definition measure_commit :: "build_env \<Rightarrow> build_config \<Rightarrow> string list \<Rightarrow> string list \<Rightarrow> (string option \<times> string list) program" where
  "measure_commit e c planFiles files =
     (if files = [] then ret (None, [])
      else
       andThen (ask CountLines (beLines e)) (\<lambda>r.
       andThen (commit_faults r) (\<lambda>lines.
       andThen (on_sum (\<lambda>sm. sm\<lparr>smDiffLines := lines\<rparr>)) (\<lambda>_.
       andThen (on_sum (\<lambda>sm. if tkSize (bcTicket c) \<noteq> ''S'' \<and> OutOfPlanFiles files planFiles \<noteq> [] then sm\<lparr>smReady := False\<rparr> else sm)) (\<lambda>_.
       bundle_branch e c)))))"

definition commitWork :: "build_env \<Rightarrow> build_config \<Rightarrow> string list \<Rightarrow> (string option \<times> string list) program" where
  "commitWork e c planFiles =
     andThen (ask VerifyTree (beVerify e)) (\<lambda>v.
     andThen (verified v) (\<lambda>_.
     andThen (final_message e c) (\<lambda>msg.
     andThen (ask (CommitTree (CommitMessage_Text msg)) (beCommit e)) (\<lambda>r.
     andThen (commit_faults r) (\<lambda>files.
     andThen (on_sum (committed msg files)) (\<lambda>_.
     measure_commit e c planFiles files))))))"

section \<open>The build\<close>

record build_result =
  brBranch :: string
  brBundle :: string
  brChanged :: bool
  brLoopDetail :: string

text \<open>One phase, with its duration.\<close>

definition timed :: "build_env \<Rightarrow> string \<Rightarrow> 'a program \<Rightarrow> 'a program" where
  "timed e phase m s =
     (case andThen (on_sum (\<lambda>sm. sm\<lparr>smPhase := phase\<rparr>)) (\<lambda>_. ask ClockRead (beNow e)) s of
        (Inl err, s1) \<Rightarrow> (Inl err, s1)
      | (Inr started, s1) \<Rightarrow>
        (case m s1 of (r, s2) \<Rightarrow>
         case ask ClockRead (beNow e) s2 of
           (Inl err, s3) \<Rightarrow> (Inl err, s3)
         | (Inr finished, s3) \<Rightarrow>
           (r, s3\<lparr>bdSum := (bdSum s3)\<lparr>smDurations := AList.update phase (milliseconds (finished - started)) (smDurations (bdSum s3))\<rparr>\<rparr>)))"

text \<open>Every model the run names passes its harness's gate.\<close>

fun gate_models :: "build_env \<Rightarrow> router \<Rightarrow> string list \<Rightarrow> unit program" where
  "gate_models e r [] = ret ()"
| "gate_models e r (m # ms) =
     (case route r m of
        Inr _ \<Rightarrow> gate_models e r ms
      | Inl (NotReady why) \<Rightarrow> halt OutcomeStopped StopCredentialAbsent why
      | Inl why \<Rightarrow> halt OutcomeStopped StopModelInvalid (refusal_text (bePrint e) why))"

text \<open>Once the models are well formed: their gates, then the projection and its prompt.\<close>

definition gated_projection :: "build_env \<Rightarrow> build_config \<Rightarrow> (string \<times> string) program" where
  "gated_projection e c =
     andThen (gate_models e (beRouter e) (bcModel c # bcReviewModels c @ (if tkSize (bcTicket c) \<noteq> ''S'' then bcPlanModels c else []))) (\<lambda>_.
     andThen (FetchProjection e c buildProjectionFile) (\<lambda>p.
     andThen (on_sum (\<lambda>sm. sm\<lparr>smRuleStackSHA := prSHA p\<rparr>)) (\<lambda>_.
     demand OutcomeStopped StopProjectionInvalid (RenderPromptParts (prText p) (bcTicket c)))))"

definition projection_phase :: "build_env \<Rightarrow> build_config \<Rightarrow> (string \<times> string) program" where
  "projection_phase e c =
     andThen (require OutcomeStopped StopModelInvalid (if ValidModel (bcModel c) then None else Some ''model is not provider/model'')) (\<lambda>_.
     andThen (require OutcomeStopped StopModelInvalid
       (if tkSize (bcTicket c) \<noteq> ''S'' then ValidatePlanModels (bePrint e) (bcPlanModels c) else None)) (\<lambda>_.
     andThen (require OutcomeStopped StopModelInvalid (ValidateReviewModels (bePrint e) (bcReviewModels c) (bcModel c))) (\<lambda>_.
     gated_projection e c)))"

definition push_branch :: "build_config \<Rightarrow> string" where
  "push_branch c = BranchName (BranchSegment (bcTicket c)) (bcAttemptID c)"

definition worktree_phase :: "build_env \<Rightarrow> build_config \<Rightarrow> unit program" where
  "worktree_phase e c =
     andThen (ask AddTree (beAddTree e)) (\<lambda>fault.
     andThen (require OutcomeInfraFailure StopWorktree fault) (\<lambda>_.
     on_sum (\<lambda>sm. sm\<lparr>smBranch := push_branch c\<rparr>)))"

definition start_phase :: "build_env \<Rightarrow> unit program" where
  "start_phase e = (case beProbe e of
     None \<Rightarrow> ret ()
   | Some probe \<Rightarrow> timed e PhaseAgentStart (andThen (ask ProbeAgent probe) (require OutcomeInfraFailure StopAgentContainer)))"

definition plan_phase :: "build_env \<Rightarrow> build_config \<Rightarrow> string list program" where
  "plan_phase e c =
     (if tkSize (bcTicket c) = ''S'' then ret []
      else if tkPlanFiles (bcTicket c) \<noteq> [] then ret (tkPlanFiles (bcTicket c))
      else timed e PhasePlan (andThen (runPlanPhase e c) (\<lambda>a. ret (case a of PlanFiles fs \<Rightarrow> fs | PlanDecision _ \<Rightarrow> []))))"

definition with_ending :: "string \<Rightarrow> string \<Rightarrow> string \<Rightarrow> summary \<Rightarrow> summary" where
  "with_ending outcome reason err sm = sm\<lparr>smOutcome := outcome, smStopReason := reason, smStopDetail := truncate_text err stopDetailLimit\<rparr>"

definition in_build_phase :: "summary \<Rightarrow> summary" where
  "in_build_phase sm = sm\<lparr>smPhase := PhaseBuild\<rparr>"

definition stop_again :: "stop_error \<Rightarrow> 'a program" where
  "stop_again err s = (Inl err, s)"

text \<open>A stopped build that left edits commits and bundles them, keeping its stop.\<close>

definition keep_work :: "build_env \<Rightarrow> build_config \<Rightarrow> string list \<Rightarrow> stop_error \<Rightarrow> build_result program" where
  "keep_work e c planFiles err =
     (if \<not> keepsWork (stopReason err) then stop_again err
      else andThen (ask ReadPending (bePending e)) (\<lambda>r.
        case r of
          Inl _ \<Rightarrow> stop_again err
        | Inr [] \<Rightarrow> stop_again err
        | Inr _ \<Rightarrow>
          andThen (timed e PhaseCommit (commitWork e c planFiles)) (\<lambda>(bundle, wf).
          case bundle of
            None \<Rightarrow> andThen (on_sum in_build_phase) (\<lambda>_. stop_again err)
          | Some b \<Rightarrow>
            if wf \<noteq> []
            then andThen (on_sum (with_ending OutcomeStopped StopWorkflowChange (workflowChange wf))) (\<lambda>_.
              ret \<lparr>brBranch = push_branch c, brBundle = b, brChanged = True, brLoopDetail = []\<rparr>)
            else
              andThen (on_sum (\<lambda>sm. (with_ending (stopOutcome err) (stopReason err) (stopText err) (in_build_phase sm))
                \<lparr>smLoopDetail := truncate_text (keptWorkDetail err) stopDetailLimit\<rparr>)) (\<lambda>_.
              ret \<lparr>brBranch = push_branch c, brBundle = b, brChanged = True, brLoopDetail = keptWorkDetail err\<rparr>))))"

text \<open>A review that fails leaves a draft; only a formatter out of the run's diff stops the build.\<close>

definition review_phase :: "build_env \<Rightarrow> build_config \<Rightarrow> string \<Rightarrow> string \<Rightarrow> int \<Rightarrow> (bool \<times> string) program" where
  "review_phase e c rules session rnd =
     timed e PhaseReview (handle (runReview e c rules session rnd)
       (\<lambda>err. if stopReason err = StopFormatterOutsideDiff then stop_again err else ret (False, reviewFailureDetail (stopText err)))
       ret)"

definition commit_phase :: "build_env \<Rightarrow> build_config \<Rightarrow> string list \<Rightarrow> (string option) program" where
  "commit_phase e c planFiles =
     timed e PhaseCommit (andThen (commitWork e c planFiles) (\<lambda>(bundle, wf).
       case bundle of
         None \<Rightarrow> andThen (on_sum (\<lambda>sm. sm\<lparr>smOutcome := OutcomeNoChanges\<rparr>)) (\<lambda>_. ret None)
       | Some b \<Rightarrow>
         andThen (on_sum (\<lambda>sm. if wf = [] then sm\<lparr>smOutcome := OutcomeBuilt\<rparr>
           else (with_ending OutcomeStopped StopWorkflowChange (workflowChange wf) sm)\<lparr>smReady := False\<rparr>)) (\<lambda>_. ret (Some b))))"

definition finish_build :: "build_env \<Rightarrow> build_config \<Rightarrow> string \<Rightarrow> string list \<Rightarrow> bool \<times> string \<times> string \<times> int \<Rightarrow> build_result program" where
  "finish_build e c rules planFiles loop = (case loop of (checksOK, detail, session, rnd) \<Rightarrow>
     andThen (if checksOK then review_phase e c rules session rnd else ret (False, detail)) (\<lambda>(ready, loopDetail).
     andThen (on_sum (\<lambda>sm. sm\<lparr>smReady := ready, smLoopDetail := truncate_text loopDetail stopDetailLimit\<rparr>)) (\<lambda>_.
     andThen (commit_phase e c planFiles) (\<lambda>bundle.
     ret \<lparr>brBranch = push_branch c, brBundle = (case bundle of None \<Rightarrow> [] | Some b \<Rightarrow> b), brChanged = (bundle \<noteq> None), brLoopDetail = loopDetail\<rparr>))))"

definition build_phases :: "build_env \<Rightarrow> build_config \<Rightarrow> build_result program" where
  "build_phases e c =
     andThen (timed e PhaseProjection (projection_phase e c)) (\<lambda>(rules, prompt).
     andThen (timed e PhaseWorktree (worktree_phase e c)) (\<lambda>_.
     andThen (start_phase e) (\<lambda>_.
     andThen (plan_phase e c) (\<lambda>planFiles.
     handle (timed e PhaseBuild (runCheckLoop e c rules prompt))
       (keep_work e c planFiles) (finish_build e c rules planFiles)))))"

definition build_body :: "build_env \<Rightarrow> build_config \<Rightarrow> build_result program" where
  "build_body e c =
     andThen (require OutcomeStopped StopIdentityMismatch (CheckModel c)) (\<lambda>_.
     andThen (require OutcomeStopped StopTicketMissing (Validate (bePrint e) (bcTicket c))) (\<lambda>_.
     build_phases e c))"

text \<open>The build's result or stop, and the summary it reports. The first clock reading is the run's start.\<close>

definition build_start :: "build_env \<Rightarrow> build_state" where
  "build_start e = \<lparr>bdLog = [ClockRead], bdSum = new_summary (beNow e [ClockRead]), bdMsg = no_message\<rparr>"

definition report_stop :: "stop_error + 'a \<Rightarrow> summary \<Rightarrow> summary" where
  "report_stop r sm = (case r of Inl err \<Rightarrow> with_ending (stopOutcome err) (stopReason err) (stopText err) sm | Inr _ \<Rightarrow> sm)"

definition Build :: "build_env \<Rightarrow> build_config \<Rightarrow> (stop_error + build_result) \<times> build_state" where
  "Build e c = (case build_body e c (build_start e) of (r, s) \<Rightarrow> (r, s\<lparr>bdSum := report_stop r (bdSum s)\<rparr>))"

section \<open>The plan stage\<close>

record plan_stage_result =
  psFiles :: "string list"
  psBase :: string
  psModel :: string
  psDecision :: "decision option"

definition planModel :: "summary \<Rightarrow> string" where
  "planModel sm = (case filter (\<lambda>st. bsPhase st = PhasePlan) (rev (smSteps sm)) of [] \<Rightarrow> [] | st # _ \<Rightarrow> bsModel st)"

text \<open>\<open>head\<close> is the repository's HEAD commit. A build with a probe plans in a worktree of its own.\<close>

definition plan_stage_body :: "build_env \<Rightarrow> build_config \<Rightarrow> string + string \<Rightarrow> plan_stage_result program" where
  "plan_stage_body e c head_sha =
     andThen (require OutcomeStopped StopIdentityMismatch (CheckModel c)) (\<lambda>_.
     andThen (require OutcomeStopped StopTicketMissing (Validate (bePrint e) (bcTicket c))) (\<lambda>_.
     andThen (require OutcomeStopped StopPlanInvalid (if tkSize (bcTicket c) = ''S'' then Some ''an S ticket is never plan-staged'' else None)) (\<lambda>_.
     andThen (require OutcomeStopped StopModelInvalid (ValidatePlanModels (bePrint e) (bcPlanModels c))) (\<lambda>_.
     andThen (gate_models e (bePlanRouter e) (bcPlanModels c)) (\<lambda>_.
     andThen (demand OutcomeInfraFailure StopWorktree head_sha) (\<lambda>base.
     andThen (case beProbe e of None \<Rightarrow> ret ()
       | Some probe \<Rightarrow>
         andThen (ask AddTree (beAddTree e)) (\<lambda>fault.
         andThen (require OutcomeInfraFailure StopWorktree fault) (\<lambda>_.
         andThen (ask ClockRead (beNow e)) (\<lambda>_.
         andThen (ask ProbeAgent probe) (\<lambda>refused.
         andThen (require OutcomeInfraFailure StopAgentContainer refused) (\<lambda>_.
         andThen (ask ClockRead (beNow e)) (\<lambda>_. ret ()))))))) (\<lambda>_.
     andThen (ask ClockRead (beNow e)) (\<lambda>started.
     andThen (on_sum (\<lambda>_. new_summary started)) (\<lambda>_.
     andThen (runPlanPhase e c) (\<lambda>a.
     andThen (read_sum planModel) (\<lambda>model.
     ret (case a of
       PlanFiles fs \<Rightarrow> \<lparr>psFiles = fs, psBase = base, psModel = model, psDecision = None\<rparr>
     | PlanDecision d \<Rightarrow> \<lparr>psFiles = [], psBase = base, psModel = model, psDecision = Some d\<rparr>))))))))))))"

definition PlanStage :: "build_env \<Rightarrow> build_config \<Rightarrow> string + string \<Rightarrow> (stop_error + plan_stage_result) \<times> build_state" where
  "PlanStage e c head_sha = plan_stage_body e c head_sha \<lparr>bdLog = [], bdSum = new_summary 0, bdMsg = no_message\<rparr>"

end
