(* ===== verification/Run_Wp.thy ===== *)
theory Run_Wp
  imports Run_Build
begin

text \<open>
  Reasoning about a build's programs: the weakest precondition of each way they are put together, and the
  invariants a program keeps when its parts do.
\<close>

section \<open>Weakest preconditions\<close>

definition wp :: "'a program \<Rightarrow> ('a \<Rightarrow> build_state \<Rightarrow> bool) \<Rightarrow> (stop_error \<Rightarrow> build_state \<Rightarrow> bool) \<Rightarrow> build_state \<Rightarrow> bool" where
  "wp m Q E s = (case m s of (Inl err, s') \<Rightarrow> E err s' | (Inr a, s') \<Rightarrow> Q a s')"

lemma wp_mono:
  assumes "wp m R F s" and "\<And>a s'. R a s' \<Longrightarrow> Q a s'" and "\<And>err s'. F err s' \<Longrightarrow> E err s'"
  shows "wp m Q E s"
  using assms by (auto simp: wp_def split: prod.splits sum.splits)

lemma wp_simps [simp]:
  "wp (ret a) Q E s = Q a s"
  "wp (halt outcome reason err) Q' E s = E (stopWith outcome reason err) s"
  "wp (stop_again stop) Q' E s = E stop s"
  "wp (ask c f) Q E s = Q (f (bdLog s @ [c])) (s\<lparr>bdLog := bdLog s @ [c]\<rparr>)"
  "wp (on_sum g) Qu E s = Qu () (s\<lparr>bdSum := g (bdSum s)\<rparr>)"
  "wp (read_sum r) Q E s = Q (r (bdSum s)) s"
  "wp (on_msg h) Qu E s = Qu () (s\<lparr>bdMsg := h (bdMsg s)\<rparr>)"
  "wp read_msg Qm E s = Qm (bdMsg s) s"
  by (simp_all add: wp_def ret_def halt_def stop_again_def ask_def on_sum_def read_sum_def on_msg_def read_msg_def Let_def)

lemma wp_andThen [simp]: "wp (andThen m f) Q E s = wp m (\<lambda>a. wp (f a) Q E) E s"
  by (simp add: wp_def andThen_def split: prod.splits sum.splits)

lemma wp_handle [simp]: "wp (handle m g f) Q E s = wp m (\<lambda>a. wp (f a) Q E) (\<lambda>err. wp (g err) Q E) s"
  by (simp add: wp_def handle_def split: prod.splits sum.splits)

lemma wp_require [simp]:
  "wp (require outcome reason fault) Q E s = (case fault of None \<Rightarrow> Q () s | Some err \<Rightarrow> E (stopWith outcome reason err) s)"
  by (simp add: require_def split: option.splits)

lemma wp_demand [simp]:
  "wp (demand outcome reason r) Q E s = (case r of Inr a \<Rightarrow> Q a s | Inl err \<Rightarrow> E (stopWith outcome reason err) s)"
  by (simp add: demand_def split: sum.splits)

lemma wp_if: "wp (if b then m else n) Q E s = (if b then wp m Q E s else wp n Q E s)"
  by simp

lemma wp_TrueI: "wp m (\<lambda>_ _. True) (\<lambda>_ _. True) s"
  by (simp add: wp_def split: prod.splits sum.splits)

lemma wp_conj:
  "wp m (\<lambda>a s. Q a s \<and> Q' a s) (\<lambda>err s. E err s \<and> E' err s) s \<longleftrightarrow> wp m Q E s \<and> wp m Q' E' s"
  by (auto simp: wp_def split: prod.splits sum.splits)

lemma wp_both:
  "wp m Q E s \<Longrightarrow> wp m Q' E' s \<Longrightarrow> (\<And>a s. Q a s \<Longrightarrow> Q' a s \<Longrightarrow> R a s) \<Longrightarrow> (\<And>err s. E err s \<Longrightarrow> E' err s \<Longrightarrow> F err s) \<Longrightarrow> wp m R F s"
  by (auto simp: wp_def split: prod.splits sum.splits)

lemma wp_Inr: "wp m Q E s \<Longrightarrow> m s = (Inr a, s') \<Longrightarrow> Q a s'"
  by (simp add: wp_def)

lemma wp_Inl: "wp m Q E s \<Longrightarrow> m s = (Inl err, s') \<Longrightarrow> E err s'"
  by (simp add: wp_def)

text \<open>Inside a phase, and once it is over.\<close>

definition enter :: "build_env \<Rightarrow> string \<Rightarrow> build_state \<Rightarrow> build_state" where
  "enter e phase s = s\<lparr>bdSum := (bdSum s)\<lparr>smPhase := phase\<rparr>, bdLog := bdLog s @ [ClockRead]\<rparr>"

definition leave :: "build_env \<Rightarrow> string \<Rightarrow> time \<Rightarrow> build_state \<Rightarrow> build_state" where
  "leave e phase started s = s\<lparr>bdLog := bdLog s @ [ClockRead], bdSum := (bdSum s)\<lparr>smDurations :=
     AList.update phase (milliseconds (beNow e (bdLog s @ [ClockRead]) - started)) (smDurations (bdSum s))\<rparr>\<rparr>"

lemma wp_timed:
  "wp (timed e phase m) Q E s = (let started = beNow e (bdLog s @ [ClockRead]) in
     wp m (\<lambda>a s'. Q a (leave e phase started s')) (\<lambda>err s'. E err (leave e phase started s')) (enter e phase s))"
  by (simp add: wp_def timed_def enter_def leave_def on_sum_def ask_def andThen_def Let_def split: prod.splits sum.splits)

section \<open>Invariants\<close>

text \<open>A program that keeps \<open>P\<close>, and whose stops are among \<open>F\<close>.\<close>

definition keeps :: "(build_state \<Rightarrow> bool) \<Rightarrow> (stop_error \<Rightarrow> bool) \<Rightarrow> 'a program \<Rightarrow> bool" where
  "keeps P F m \<longleftrightarrow> (\<forall>s. P s \<longrightarrow> wp m (\<lambda>_. P) (\<lambda>err s'. P s' \<and> F err) s)"

lemma keepsI: "(\<And>s. P s \<Longrightarrow> wp m (\<lambda>_. P) (\<lambda>err s'. P s' \<and> F err) s) \<Longrightarrow> keeps P F m"
  by (simp add: keeps_def)

lemma keepsD: "keeps P F m \<Longrightarrow> P s \<Longrightarrow> wp m (\<lambda>_. P) (\<lambda>err s'. P s' \<and> F err) s"
  by (simp add: keeps_def)

lemma keeps_wp:
  "keeps P F m \<Longrightarrow> P s \<Longrightarrow> (\<And>a s'. P s' \<Longrightarrow> Q a s') \<Longrightarrow> (\<And>err s'. P s' \<Longrightarrow> F err \<Longrightarrow> E err s') \<Longrightarrow> wp m Q E s"
  by (drule (1) keepsD, erule wp_mono) auto

named_theorems keeps_intros \<open>a program keeps an invariant when its parts do\<close>

lemma keeps_ret [keeps_intros]: "keeps P F (ret a)"
  by (simp add: keeps_def)

lemma keeps_halt [keeps_intros]: "F (stopWith outcome reason t) \<Longrightarrow> keeps P F (halt outcome reason t)"
  by (simp add: keeps_def)

lemma keeps_stop_again [keeps_intros]: "F err \<Longrightarrow> keeps P F (stop_again err)"
  by (simp add: keeps_def)

lemma keeps_andThen [keeps_intros]: "keeps P F m \<Longrightarrow> (\<And>a. keeps P F (f a)) \<Longrightarrow> keeps P F (andThen m f)"
  by (auto simp: keeps_def elim!: wp_mono)

lemma keeps_handle: "keeps P G m \<Longrightarrow> (\<And>err. G err \<Longrightarrow> keeps P F (g err)) \<Longrightarrow> (\<And>a. keeps P F (f a)) \<Longrightarrow> keeps P F (handle m g f)"
  by (auto simp: keeps_def elim!: wp_mono)

lemma keeps_ask: "(\<And>s. P s \<Longrightarrow> P (s\<lparr>bdLog := bdLog s @ [c]\<rparr>)) \<Longrightarrow> keeps P F (ask c f)"
  by (simp add: keeps_def)

lemma keeps_on_sum: "(\<And>s. P s \<Longrightarrow> P (s\<lparr>bdSum := g (bdSum s)\<rparr>)) \<Longrightarrow> keeps P F (on_sum g)"
  by (simp add: keeps_def)

lemma keeps_on_msg: "(\<And>s. P s \<Longrightarrow> P (s\<lparr>bdMsg := g (bdMsg s)\<rparr>)) \<Longrightarrow> keeps P F (on_msg g)"
  by (simp add: keeps_def)

lemma keeps_read [keeps_intros]: "keeps P F (read_sum g)" "keeps P F read_msg"
  by (simp_all add: keeps_def)

lemma keeps_require [keeps_intros]: "(\<And>t. F (stopWith outcome reason t)) \<Longrightarrow> keeps P F (require outcome reason fault)"
  by (simp add: keeps_def split: option.splits)

lemma keeps_demand [keeps_intros]: "(\<And>t. F (stopWith outcome reason t)) \<Longrightarrow> keeps P F (demand outcome reason r)"
  by (simp add: keeps_def split: sum.splits)

lemma keeps_if [keeps_intros]: "(b \<Longrightarrow> keeps P F m) \<Longrightarrow> (\<not> b \<Longrightarrow> keeps P F n) \<Longrightarrow> keeps P F (if b then m else n)"
  by simp

lemma keeps_let [keeps_intros]: "keeps P F (f a) \<Longrightarrow> keeps P F (let x = a in f x)"
  by simp

lemma keeps_option [keeps_intros]:
  "(x = None \<Longrightarrow> keeps P F m) \<Longrightarrow> (\<And>a. x = Some a \<Longrightarrow> keeps P F (f a)) \<Longrightarrow> keeps P F (case x of None \<Rightarrow> m | Some a \<Rightarrow> f a)"
  by (cases x) simp_all

lemma keeps_sum [keeps_intros]:
  "(\<And>b. x = Inl b \<Longrightarrow> keeps P F (g b)) \<Longrightarrow> (\<And>a. x = Inr a \<Longrightarrow> keeps P F (f a)) \<Longrightarrow> keeps P F (case x of Inl b \<Rightarrow> g b | Inr a \<Rightarrow> f a)"
  by (cases x) simp_all

lemma keeps_prod [keeps_intros]: "(\<And>a b. x = (a, b) \<Longrightarrow> keeps P F (f a b)) \<Longrightarrow> keeps P F (case x of (a, b) \<Rightarrow> f a b)"
  by (cases x) simp_all

lemma keeps_timed:
  assumes "keeps P F m" and "\<And>s. P s \<Longrightarrow> P (enter e phase s)" and "\<And>s t. P s \<Longrightarrow> P (leave e phase t s)"
  shows "keeps P F (timed e phase m)"
proof (rule keepsI)
  fix s assume "P s"
  from keepsD [OF assms(1) assms(2) [OF this]] show "wp (timed e phase m) (\<lambda>_. P) (\<lambda>err s'. P s' \<and> F err) s"
    unfolding wp_timed Let_def by (rule wp_mono) (simp_all add: assms(3))
qed

lemma keeps_checks_formatted:
  assumes "keeps P F (timedChecks e)" and "\<And>run gate. keeps P F (formatInPlace e run gate)"
  shows "keeps P F (checks_formatted e formatted)"
proof (rule keepsI)
  fix s assume "P s"
  then show "wp (checks_formatted e formatted) (\<lambda>_. P) (\<lambda>err s'. P s' \<and> F err) s" using assms
  proof (induction e formatted s rule: checks_formatted.induct)
    case (1 e formatted s)
    note checked = keepsD [OF 1(3,2)]
    obtain r s1 where r: "timedChecks e s = (r, s1)" by (cases "timedChecks e s")
    show ?case
    proof (cases r)
      case (Inl err)
      then show ?thesis using r wp_Inl [OF checked] by (simp add: wp_def checks_formatted.simps [of e formatted s])
    next
      case (Inr go)
      obtain gate out where go: "go = (gate, out)" by (cases go)
      have h1: "P s1" using r wp_Inr [OF checked] Inr by simp
      show ?thesis
      proof (cases "\<exists>run. beFormat e = Some run \<and> isFormatGate gate \<and> gate \<notin> set formatted")
        case False
        then show ?thesis using r Inr go h1
          by (auto simp: wp_def checks_formatted.simps [of e formatted s] split: option.splits)
      next
        case True
        then obtain run where run: "beFormat e = Some run" "isFormatGate gate" "gate \<notin> set formatted" by blast
        note fixed = keepsD [OF 1(4) h1, of run gate]
        obtain r2 s2 where r2: "formatInPlace e run gate s1 = (r2, s2)" by (cases "formatInPlace e run gate s1")
        show ?thesis
        proof (cases r2)
          case (Inl err)
          then show ?thesis using r \<open>r = Inr go\<close> go run r2 wp_Inl [OF fixed]
            by (simp add: wp_def checks_formatted.simps [of e formatted s])
        next
          case unit: (Inr u)
          have "P s2" using r2 wp_Inr [OF fixed] unit by simp
          then have "wp (checks_formatted e (gate # formatted)) (\<lambda>_. P) (\<lambda>err s'. P s' \<and> F err) s2"
            using 1(1) [OF r [symmetric] Inr go [symmetric] run(1) _ r2 [symmetric] unit] run 1(3,4) by simp
          then show ?thesis using r Inr go run r2 unit by (simp add: wp_def checks_formatted.simps [of e formatted s])
        qed
      qed
    qed
  qed
qed

lemma keeps_weaken: "keeps P G m \<Longrightarrow> (\<And>err. G err \<Longrightarrow> F err) \<Longrightarrow> keeps P F m"
  by (auto simp: keeps_def elim!: wp_mono)

end
