(* ===== verification/Run_Calls.thy ===== *)
theory Run_Calls
  imports Run_Wp
begin

text \<open>
  What a build's calls keep: an invariant of the calls made so far, kept by every part of the build that
  makes only calls it allows. The parts that run agents, run the checks, write files and bundle say which
  calls they make; the others are plain.
\<close>

section \<open>Plain calls\<close>

fun plain :: "run_call \<Rightarrow> bool" where
  "plain (AgentRun _ _) = False"
| "plain (RunChecks _) = False"
| "plain (RunFormat _) = False"
| "plain (WriteSource _ _) = False"
| "plain (TestPackage _ _) = False"
| "plain (VerifyTree) = False"
| "plain (SearchSecret _) = False"
| "plain (BundleTree _) = False"
| "plain _ = True"

text \<open>The calls of the checks, and those of the guard scan.\<close>

fun runs_checks :: "run_call \<Rightarrow> bool" where
  "runs_checks (RunChecks _) = True"
| "runs_checks (RunFormat _) = True"
| "runs_checks _ = False"

fun runs_probe :: "run_call \<Rightarrow> bool" where
  "runs_probe (WriteSource _ _) = True"
| "runs_probe (TestPackage _ _) = True"
| "runs_probe _ = False"

definition any_stop :: "stop_error \<Rightarrow> bool" where "any_stop err \<longleftrightarrow> True"

lemma any_stop: "any_stop err"
  by (simp add: any_stop_def)

text \<open>The agent calls of a phase.\<close>

definition agent_calls :: "string \<Rightarrow> run_call set" where
  "agent_calls phase = {AgentRun call prompt | call prompt. acPhase call = phase}"

lemma agent_callsI: "acPhase call = phase \<Longrightarrow> AgentRun call prompt \<in> agent_calls phase"
  by (auto simp: agent_calls_def)

locale call_invariant =
  fixes P :: "build_state \<Rightarrow> bool" and allowed :: "run_call \<Rightarrow> bool"
  assumes call: "P s \<Longrightarrow> allowed c \<Longrightarrow> P (s\<lparr>bdLog := bdLog s @ [c]\<rparr>)"
    and summary: "P s \<Longrightarrow> P (s\<lparr>bdSum := sm\<rparr>)"
    and message: "P s \<Longrightarrow> P (s\<lparr>bdMsg := msg\<rparr>)"
    and plain_allowed: "plain c \<Longrightarrow> allowed c"
begin

lemma calls: "allowed c \<Longrightarrow> keeps P F (ask c f)"
  by (rule keeps_ask) (rule call)

lemma plain_calls: "plain c \<Longrightarrow> keeps P F (ask c f)"
  by (rule calls) (rule plain_allowed)

lemma sums: "keeps P F (on_sum g)"
  by (rule keeps_on_sum) (rule summary)

lemma msgs: "keeps P F (on_msg g)"
  by (rule keeps_on_msg) (rule message)

lemmas basics = keeps_intros any_stop sums msgs plain_calls

lemma entered: "P s \<Longrightarrow> P (enter e phase s)"
  using call [OF summary, of s ClockRead "(bdSum s)\<lparr>smPhase := phase\<rparr>"] plain_allowed [of ClockRead] by (simp add: enter_def)

lemma left_phase: "P s \<Longrightarrow> P (leave e phase t s)"
  using summary [OF call, of s ClockRead] plain_allowed [of ClockRead] by (simp add: leave_def)

lemma phases: "keeps P F m \<Longrightarrow> keeps P F (timed e phase m)"
  by (rule keeps_timed) (auto intro: entered left_phase)

lemma agents:
  assumes "\<And>prompt. allowed (AgentRun call prompt)"
  shows "keeps P any_stop (runAgent e c call agent prompt)"
  unfolding runAgent_def upload_def agent_verdict_def
  by (intro basics calls assms) (simp_all add: case_prod_beta split: option.splits)

lemma stops: "keeps P any_stop (exhausted first stop)"
  unfolding exhausted_def by (intro keeps_intros any_stop)

lemma orders:
  assumes "\<And>call' prompt. acPhase call' = acPhase call \<Longrightarrow> allowed (AgentRun call' prompt)" and "keeps P any_stop left"
  shows "keeps P any_stop (models_in_order e c call agent prompt left first stop rnd models)"
proof (induction models arbitrary: stop rnd)
  case Nil
  then show ?case by (simp add: stops)
next
  case (Cons m ms)
  have again: "keeps P any_stop (\<lambda>s. (Inl err, s))" for err :: stop_error
    using keeps_stop_again [of any_stop err P, OF any_stop] by (simp add: stop_again_def [abs_def])
  show ?case
    unfolding models_in_order.simps
    by (intro keeps_andThen keeps_if keeps_option keeps_prod keeps_ret keeps_handle [where G = any_stop] assms(2) stops agents
        Cons.IH again assms(1) any_stop) simp_all
qed

lemma in_order:
  assumes "\<And>call' prompt. acPhase call' = acPhase call \<Longrightarrow> allowed (AgentRun call' prompt)"
  shows "keeps P any_stop (runAgentInOrder e c call models agent prompt started budget)"
  unfolding runAgentInOrder_def by (rule orders [OF assms]) (simp, intro basics, simp)

lemma checked:
  assumes "\<And>d. runs_checks d \<Longrightarrow> allowed d"
  shows "keeps P any_stop (checksFormatted e)"
proof -
  have "keeps P any_stop (timedChecks e)"
    unfolding timedChecks_def pending_files_def by (intro basics calls [where c = "RunChecks f" for f] assms) simp_all
  moreover have "keeps P any_stop (formatInPlace e run gate)" for run gate
    unfolding formatInPlace_def pending_files_def by (intro basics calls [where c = "RunFormat f" for f] assms) simp_all
  ultimately show ?thesis unfolding checksFormatted_def by (rule keeps_checks_formatted)
qed

lemma budgets: "keeps P any_stop (build_budget e c)" "keeps P any_stop (budget_or_stop e c)"
  unfolding budget_or_stop_def build_budget_def by (intro basics; simp)+

lemma projections: "keeps P any_stop (FetchProjection e c file)"
proof -
  have "keeps P any_stop (projection_stop err)" for err :: projection_error
    unfolding projection_stop_def by (cases err) (simp_all add: keeps_halt any_stop)
  then show ?thesis unfolding FetchProjection_def fetchProjection_def readRequired_def by (intro basics) simp_all
qed

lemma planned:
  assumes "\<And>call prompt. acPhase call = PhasePlan \<Longrightarrow> allowed (AgentRun call prompt)"
  shows "keeps P any_stop (runPlanPhase e c)"
proof -
  have order: "keeps P any_stop (plan_order e c (plan_call rnd model session rules t) models prompt)" for rnd model session rules t models prompt
    unfolding plan_order_def by (intro basics in_order) (rule assms, simp add: plan_call_def)
  have "keeps P any_stop (judged_plan e c rules replied)" for rules replied
    unfolding judged_plan_def by (intro basics budgets order)
  moreover have "keeps P any_stop (plan_verdict r)" for r
    unfolding plan_verdict_def
    by (intro keeps_sum keeps_halt any_stop) (simp split: plan_artifact.splits, intro allI impI conjI keeps_intros any_stop)
  ultimately show ?thesis
    unfolding runPlanPhase_def by (intro basics projections budgets order) simp_all
qed

lemma built:
  assumes "\<And>call prompt. acPhase call = PhaseBuild \<Longrightarrow> allowed (AgentRun call prompt)"
  shows "acPhase call = PhaseBuild \<Longrightarrow> keeps P any_stop (build_round e c call prompt started budget)"
  unfolding build_round_def by (intro basics in_order) (simp add: assms)

lemma rounds:
  assumes "\<And>call prompt. acPhase call = PhaseBuild \<Longrightarrow> allowed (AgentRun call prompt)" and "\<And>d. runs_checks d \<Longrightarrow> allowed d"
  shows "keeps P any_stop (check_rounds e c rules session rnd left)"
proof (induction left arbitrary: session rnd)
  case 0
  show ?case by (subst check_rounds.simps, simp only: prod.case nat.case) (intro basics checked budgets assms)
next
  case (Suc n)
  show ?case
    by (subst check_rounds.simps, simp only: prod.case nat.case) (intro basics checked budgets built Suc.IH assms, simp_all)
qed

lemma looped:
  assumes "\<And>call prompt. acPhase call = PhaseBuild \<Longrightarrow> allowed (AgentRun call prompt)" and "\<And>d. runs_checks d \<Longrightarrow> allowed d"
  shows "keeps P any_stop (runCheckLoop e c rules prompt)"
  unfolding runCheckLoop_def by (intro basics budgets built rounds assms) simp_all

lemma scan_each: "keeps P any_stop (scan_files e files)"
proof (induction e files rule: scan_files.induct)
  case (2 e name lines files)
  show ?case unfolding scan_files.simps by (intro basics 2) simp
qed (simp add: keeps_intros)

lemma probed:
  assumes "\<And>d. runs_probe d \<Longrightarrow> allowed d"
  shows "keeps P any_stop (probe_guards e run started budget gs)"
proof (induction gs)
  case (Cons g gs)
  show ?case unfolding probe_guards.simps probeGuard_def by (intro basics calls [where c = "WriteSource f t" for f t] calls [where c = "TestPackage p d" for p d] assms Cons) simp_all
qed (simp add: keeps_intros)

lemma scanned_guards:
  assumes "\<And>d. runs_probe d \<Longrightarrow> allowed d"
  shows "keeps P any_stop (scanGuards e started budget)"
  unfolding scanGuards_def changedGuards_def by (intro basics scan_each probed assms) simp_all

lemma passed:
  assumes "\<And>call prompt. acPhase call = PhaseReview \<Longrightarrow> allowed (AgentRun call prompt)"
  shows "keeps P any_stop (reviewPass e c rnd rules timeout started budget)"
  unfolding reviewPass_def by (intro basics in_order) (simp_all add: assms)

lemma left_open: "keeps P any_stop (review_left_open pending rnds findings checks)"
  unfolding review_left_open_def by (intro basics)

lemma rechecked:
  assumes "\<And>call prompt. acPhase call = PhaseReview \<Longrightarrow> allowed (AgentRun call prompt)" and "\<And>d. runs_probe d \<Longrightarrow> allowed d"
    and "\<And>rounds' still. keeps P any_stop (again rounds' still)"
  shows "keeps P any_stop (recheck e c rules started rnds findings checks rnd again)"
  unfolding recheck_def by (intro basics scanned_guards passed assms) simp_all

lemma fixed:
  assumes "\<And>call prompt. acPhase call \<in> {PhaseBuild, PhaseReview} \<Longrightarrow> allowed (AgentRun call prompt)"
    and "\<And>d. runs_checks d \<Longrightarrow> allowed d" and "\<And>d. runs_probe d \<Longrightarrow> allowed d"
  shows "keeps P any_stop (fix_rounds e c rules started pending rnds findings checks session rnd n)"
proof (induction n arbitrary: rnds findings checks session rnd)
  case 0
  show ?case unfolding fix_rounds.simps by (rule left_open)
next
  case (Suc n)
  show ?case unfolding fix_rounds.simps
    by (intro basics left_open built checked rechecked Suc.IH assms) simp_all
qed

lemma reviewed:
  assumes "\<And>call prompt. acPhase call \<in> {PhaseBuild, PhaseReview} \<Longrightarrow> allowed (AgentRun call prompt)"
    and "\<And>d. runs_checks d \<Longrightarrow> allowed d" and "\<And>d. runs_probe d \<Longrightarrow> allowed d"
  shows "keeps P any_stop (runReview e c rules session rnd)"
  unfolding runReview_def by (intro basics scanned_guards passed fixed assms) simp_all

lemma searched:
  assumes "\<And>secret. allowed (SearchSecret secret)"
  shows "keeps P any_stop (check_secrets e secrets)"
proof (induction secrets)
  case (Cons secret secrets)
  have "keeps P any_stop (case r of SecretFound err \<Rightarrow> halt OutcomeStopped StopSecretInBranch err
     | SearchFailed err \<Rightarrow> halt OutcomeInfraFailure StopCommit err | NoSecret \<Rightarrow> check_secrets e secrets)" for r
    using Cons by (cases r) (simp_all add: keeps_halt [OF any_stop])
  then show ?case unfolding check_secrets.simps by (intro keeps_andThen calls assms)
qed (simp add: keeps_intros)

lemma commits:
  assumes "allowed VerifyTree" "\<And>secret. allowed (SearchSecret secret)" "\<And>bundle. allowed (BundleTree bundle)"
  shows "keeps P any_stop (commitWork e c planFiles)"
proof -
  have "keeps P any_stop (verified v)" for v
    unfolding verified_def by (cases v) (simp_all add: keeps_ret keeps_halt any_stop)
  moreover have "keeps P any_stop (final_message e c)"
    unfolding final_message_def commit_faults_def by (intro basics) simp_all
  ultimately show ?thesis
    unfolding commitWork_def measure_commit_def bundle_branch_def commit_faults_def by (intro basics calls searched assms) simp_all
qed

end

end
