(* ===== verification/Run_Endings.thy ===== *)
theory Run_Endings
  imports Run_Calls
begin

text \<open>
  How a build ends: what each part of the build leaves of the summary, and that the summary a build reports
  is one the record job accepts.
\<close>

section \<open>What a part keeps\<close>

text \<open>The outcome, reason, phase and branch of the summary, and the phases whose agent has left a step.\<close>

definition view :: "summary \<Rightarrow> string \<times> string \<times> string \<times> string" where
  "view sm = (smOutcome sm, smStopReason sm, smPhase sm, smBranch sm)"

definition stepped :: "string set \<Rightarrow> summary \<Rightarrow> bool" where
  "stepped H sm \<longleftrightarrow> (\<forall>phase \<in> H. hasStep (smSteps sm) phase)"

text \<open>No build agent has run.\<close>

definition unbuilt :: "log_of_calls \<Rightarrow> bool" where
  "unbuilt calls \<longleftrightarrow> list_all (\<lambda>c. case c of AgentRun call _ \<Rightarrow> acPhase call \<noteq> PhaseBuild | _ \<Rightarrow> True) calls"

definition holds :: "string \<times> string \<times> string \<times> string \<Rightarrow> string set \<Rightarrow> build_state \<Rightarrow> bool" where
  "holds k H s \<longleftrightarrow> view (bdSum s) = k \<and> stepped H (bdSum s)"

lemma holds_simps [simp]:
  "holds k H (s\<lparr>bdLog := l\<rparr>) = holds k H s"
  "holds k H (s\<lparr>bdMsg := m\<rparr>) = holds k H s"
  by (simp_all add: holds_def)

lemma view_simps [simp]:
  "view (addUsageWarning w sm) = view sm" "view (recordPhaseCache p us sm) = view sm"
  "view (sm\<lparr>smSteps := st\<rparr>) = view sm" "view (sm\<lparr>smDurations := du\<rparr>) = view sm"
  "view (sm\<lparr>smSecondRound := sr\<rparr>) = view sm" "view (sm\<lparr>smFindings := fi\<rparr>) = view sm"
  "view (sm\<lparr>smReadFiles := rf\<rparr>) = view sm" "view (sm\<lparr>smPeakContext := pk\<rparr>) = view sm"
  "view (sm\<lparr>smReady := rd\<rparr>) = view sm" "view (sm\<lparr>smLoopDetail := ld\<rparr>) = view sm"
  "view (sm\<lparr>smDiffLines := dl\<rparr>) = view sm" "view (sm\<lparr>smRuleStackSHA := sh\<rparr>) = view sm"
  "view (committed msg files sm) = view sm" "view (add_duration key ms sm) = view sm" "view (set_findings rounds sm) = view sm"
  by (auto simp: view_def addUsageWarning_def recordPhaseCache_def committed_def add_duration_def set_findings_def Let_def split: list.splits)

lemma steps_simps [simp]:
  "smSteps (addUsageWarning w sm) = smSteps sm" "smSteps (recordPhaseCache p us sm) = smSteps sm"
  "smSteps (committed msg files sm) = smSteps sm" "smSteps (add_duration key ms sm) = smSteps sm" "smSteps (set_findings rounds sm) = smSteps sm"
  by (auto simp: addUsageWarning_def recordPhaseCache_def committed_def add_duration_def set_findings_def Let_def split: list.splits)

lemma hasStep_append [simp]:
  "hasStep (xs @ ys) p \<longleftrightarrow> hasStep xs p \<or> hasStep ys p" "hasStep [] p = False" "hasStep (st # xs) p \<longleftrightarrow> bsPhase st = p \<or> hasStep xs p"
  by (simp_all add: hasStep_def)

lemma readProgress_view: "view (snd (readProgress ls sm)) = view sm"
  by (simp add: readProgress_def Let_def split: option.splits)

lemma readProgress_steps: "hasStep (smSteps (snd (readProgress ls sm))) p = hasStep (smSteps sm) p"
proof -
  have "hasStep (butlast xs @ [last xs\<lparr>bsPeak := n\<rparr>]) p = hasStep xs p" if "xs \<noteq> []" for xs n
    using that by (induction xs rule: rev_induct) (simp_all add: hasStep_def)
  then show ?thesis by (auto simp: readProgress_def Let_def hasStep_def split: option.splits)
qed

lemma metered_call_view [simp]: "view (metered_call e c call agent ls t1 t2 sm) = view sm"
  by (simp add: metered_call_def Let_def readProgress_view split: sum.splits)

lemma metered_steps [simp]:
  "hasStep (smSteps (metered_call e c call agent ls t1 t2 sm)) p \<longleftrightarrow> hasStep (smSteps sm) p \<or> p = acPhase call"
  by (auto simp: metered_call_def Let_def readProgress_steps split: sum.splits)

lemma holds_metered:
  "holds k H s \<Longrightarrow> holds k (insert (acPhase call) H) (s\<lparr>bdSum := metered_call e c call agent ls t1 t2 (bdSum s)\<rparr>)"
  by (simp add: holds_def stepped_def)

lemma holds_mono: "holds k H s \<Longrightarrow> G \<subseteq> H \<Longrightarrow> holds k G s"
  by (auto simp: holds_def stepped_def)

lemma holds_sum:
  "holds k H s \<Longrightarrow> view (g (bdSum s)) = view (bdSum s) \<Longrightarrow> smSteps (g (bdSum s)) = smSteps (bdSum s) \<Longrightarrow> holds k H (s\<lparr>bdSum := g (bdSum s)\<rparr>)"
  by (simp add: holds_def stepped_def)

section \<open>An agent's stops\<close>

definition agent_stops :: "string \<Rightarrow> (string \<times> string) list" where
  "agent_stops phase = (OutcomeAgentFailed, StopAgentTimeout) # agentFailures
     @ (if phase = PhaseBuild then [(OutcomeAgentFailed, StopAgentNoProgress)] else [])"

text \<open>A stop of an agent call: its events were not uploaded, or it left its step and failed as an agent does.\<close>

definition agent_stop :: "string \<times> string \<times> string \<times> string \<Rightarrow> string set \<Rightarrow> string \<Rightarrow> stop_error \<Rightarrow> build_state \<Rightarrow> bool" where
  "agent_stop k H phase err s \<longleftrightarrow>
     holds k H s \<and> stopOutcome err = OutcomeInfraFailure \<and> stopReason err = StopCompletions
     \<or> holds k (insert phase H) s \<and> (stopOutcome err, stopReason err) \<in> set (agent_stops phase)"

lemma didStop_build:
  assumes "didStop phase ls"
  shows "phase = PhaseBuild"
proof -
  have keep: "\<not> tpStopped t \<Longrightarrow> phase \<noteq> PhaseBuild \<Longrightarrow> \<not> tpStopped (foldl (tap_line phase) t ls)" for t
    by (induction ls arbitrary: t) (auto simp: tap_line_def stalled_def Let_def split: stream_line.splits option.splits)
  show ?thesis using assms keep [of new_tap] by (auto simp: didStop_def new_tap_def)
qed

lemma agent_verdict_wp:
  assumes "holds k (insert (acPhase call) H) s" and "\<And>a s. holds k (insert (acPhase call) H) s \<Longrightarrow> Q a s"
    and "\<And>err s. agent_stop k H (acPhase call) err s \<Longrightarrow> E err s"
  shows "wp (agent_verdict e call agent timeout r) Q E s"
proof -
  have stop: "E (stopWith outcome reason t) s" if "(outcome, reason) \<in> set (agent_stops (acPhase call))" for outcome reason t
    using assms(1,3) that by (simp add: agent_stop_def)
  have late: "E (stopWith OutcomeAgentFailed StopAgentTimeout t) s" for t
    by (rule stop) (simp add: agent_stops_def)
  have idle: "acPhase call = PhaseBuild \<Longrightarrow> E (stopWith OutcomeAgentFailed StopAgentNoProgress t) s" for t
    by (rule stop) (simp add: agent_stops_def)
  have failed: "classifyAgentFailure a m t err = (outcome, reason) \<Longrightarrow> E (stopWith outcome reason t') s" for a m t err outcome reason t'
    using classifyAgentFailure_cases [of a m t err] by (intro stop) (simp add: agent_stops_def)
  show ?thesis
    using assms(1,2) late idle failed
    by (auto simp: agent_verdict_def Let_def stalled_def dest: didStop_build split: option.splits prod.splits)
qed

lemma runAgent_wp:
  assumes "holds k H s" and "\<And>a s. holds k (insert (acPhase call) H) s \<Longrightarrow> Q a s"
    and "\<And>err s. agent_stop k H (acPhase call) err s \<Longrightarrow> E err s"
  shows "wp (runAgent e c call agent prompt) Q E s"
proof -
  have lost: "E (stopWith OutcomeInfraFailure StopCompletions t) (s\<lparr>bdLog := l\<rparr>)" for t l
    using assms(1) by (intro assms(3)) (simp add: agent_stop_def)
  have verdict: "wp (agent_verdict e call agent t r) Q E (s\<lparr>bdLog := l, bdSum := metered_call e c call agent ls t1 t2 (bdSum s)\<rparr>)" for t r l ls t1 t2
    using holds_metered [of k H "s\<lparr>bdLog := l\<rparr>" call e c agent ls t1 t2] assms by (intro agent_verdict_wp) simp_all
  show ?thesis using lost verdict by (simp add: runAgent_def upload_def Let_def split: option.splits)
qed

lemma agent_stop_mono: "agent_stop k (insert phase H) phase err s \<Longrightarrow> agent_stop k H phase err s"
  by (auto simp: agent_stop_def intro: holds_mono)

lemma exhausted_wp:
  assumes "holds k (insert phase H) s" and "movesToNextModel (stopReason err)" and "\<And>err s. agent_stop k H phase err s \<Longrightarrow> E err s"
  shows "wp (exhausted first (Some err)) Q E s"
  using assms by (auto simp: exhausted_def agent_stop_def agent_stops_def agentFailures_def)

lemma models_in_order_wp:
  assumes "holds k (case stop of None \<Rightarrow> H | Some err \<Rightarrow> insert (acPhase call) H) s"
    and "case stop of None \<Rightarrow> models \<noteq> [] | Some err \<Rightarrow> movesToNextModel (stopReason err)"
    and left: "\<And>s R. (\<And>t l. R t (s\<lparr>bdLog := l\<rparr>)) \<Longrightarrow> wp left R E s"
    and good: "\<And>a s. holds k (insert (acPhase call) H) s \<Longrightarrow> Q a s"
    and bad: "\<And>err s. agent_stop k H (acPhase call) err s \<Longrightarrow> E err s"
  shows "wp (models_in_order e c call agent prompt left first stop rnd models) Q E s"
  using assms(1,2)
proof (induction models arbitrary: stop rnd s)
  case Nil
  then obtain err where "stop = Some err" by (auto split: option.splits)
  with Nil show ?case using bad by (auto intro: exhausted_wp)
next
  case (Cons m ms)
  let ?H = "case stop of None \<Rightarrow> H | Some err \<Rightarrow> insert (acPhase call) H"
  let ?attempt = "\<lambda>timeout. case timeout of None \<Rightarrow> exhausted first stop
     | Some t \<Rightarrow> handle (runAgent e c (call\<lparr>acModel := m, acRound := rnd, acTimeout := t\<rparr>) agent prompt)
         (\<lambda>err. if movesToNextModel (stopReason err)
            then models_in_order e c call agent prompt left first (Some err) (rnd + (if ms = [] then 0 else 1)) ms
            else (\<lambda>s. (Inl err, s)))
         (\<lambda>(ans, session). ret (ans, session, rnd))"
  have moves: "stopReason err = StopCompletions \<Longrightarrow> \<not> movesToNextModel (stopReason err)" for err
    by (simp add: movesToNextModel_def StopCompletions_def StopModelUnavailable_def StopAllowanceExhausted_def)
  have tried: "wp (?attempt (Some t)) Q E s'" if "holds k ?H s'" for t s'
  proof -
    have *: "holds k H s'" using that by (rule holds_mono) (auto split: option.splits)
    show ?thesis
      unfolding option.case wp_handle
    proof (rule runAgent_wp [OF *])
      fix a s1 assume "holds k (insert (acPhase (call\<lparr>acModel := m, acRound := rnd, acTimeout := t\<rparr>)) H) s1"
      then show "wp (case a of (ans, session) \<Rightarrow> ret (ans, session, rnd)) Q E s1" using good by (cases a) simp
    next
      fix err s1 assume "agent_stop k H (acPhase (call\<lparr>acModel := m, acRound := rnd, acTimeout := t\<rparr>)) err s1"
      then have stop: "agent_stop k H (acPhase call) err s1" by simp
      show "wp (if movesToNextModel (stopReason err)
            then models_in_order e c call agent prompt left first (Some err) (rnd + (if ms = [] then 0 else 1)) ms
            else (\<lambda>s. (Inl err, s))) Q E s1"
      proof (cases "movesToNextModel (stopReason err)")
        case True
        then have "holds k (insert (acPhase call) H) s1" using stop moves by (auto simp: agent_stop_def)
        then show ?thesis using True Cons.IH [of "Some err" s1] by simp
      next
        case False
        then show ?thesis using bad [OF stop] by (simp add: wp_def)
      qed
    qed
  qed
  have out: "wp (?attempt None) Q E s'" if "holds k ?H s'" "stop \<noteq> None" for s'
    using that Cons.prems(2) bad by (auto intro: exhausted_wp)
  show ?case
  proof (cases stop)
    case None
    then show ?thesis using tried [OF Cons.prems(1), of "acTimeout call"] by (simp split del: if_split)
  next
    case (Some err)
    have "wp left (\<lambda>t. wp (?attempt t) Q E) E s"
    proof (rule left)
      fix t l
      have "holds k ?H (s\<lparr>bdLog := l\<rparr>)" using Cons.prems(1) by simp
      then show "wp (?attempt t) Q E (s\<lparr>bdLog := l\<rparr>)" using tried out Some by (cases t) (blast, metis (no_types, lifting))
    qed
    from this [unfolded Some] show ?thesis by (simp add: Some split del: if_split)
  qed
qed

lemma runAgentInOrder_wp:
  assumes "holds k H s" and "models \<noteq> []" and "\<And>a s. holds k (insert (acPhase call) H) s \<Longrightarrow> Q a s"
    and "\<And>err s. agent_stop k H (acPhase call) err s \<Longrightarrow> E err s"
  shows "wp (runAgentInOrder e c call models agent prompt started budget) Q E s"
  unfolding runAgentInOrder_def
  by (rule models_in_order_wp [where k = k and H = H]) (use assms in auto)

section \<open>The checks\<close>

definition check_stops :: "(string \<times> string) list" where
  "check_stops = [(OutcomeInfraFailure, StopChecksRun), (OutcomeStopped, StopFormatterOutsideDiff)]"

definition stops_in :: "(string \<times> string) list \<Rightarrow> stop_error \<Rightarrow> bool" where
  "stops_in l err \<longleftrightarrow> (stopOutcome err, stopReason err) \<in> set l"

lemma holds_duration [simp]: "holds k H (s\<lparr>bdSum := add_duration key ms (bdSum s)\<rparr>) = holds k H s"
  by (simp add: holds_def stepped_def)

lemma holds_log_duration [simp]:
  "holds k H (s\<lparr>bdLog := l, bdSum := add_duration key ms (bdSum s)\<rparr>) = holds k H s"
  by (simp add: holds_def stepped_def)

lemma holds_ask [keeps_intros]: "keeps (holds k H) F (ask c f)"
  by (rule keeps_ask) simp

lemma holds_msg [keeps_intros]: "keeps (holds k H) F (on_msg g)"
  by (rule keeps_on_msg) simp

lemma holds_on_sum [keeps_intros]:
  "(\<And>sm. view (g sm) = view sm \<and> smSteps (g sm) = smSteps sm) \<Longrightarrow> keeps (holds k H) F (on_sum g)"
  by (rule keeps_on_sum) (simp add: holds_def stepped_def)

lemma checksFormatted_keeps: "keeps (holds k H) (stops_in check_stops) (checksFormatted e)"
proof -
  have "keeps (holds k H) (stops_in check_stops) (timedChecks e)"
    unfolding timedChecks_def pending_files_def by (intro keeps_intros) (simp_all add: stops_in_def check_stops_def)
  moreover have "keeps (holds k H) (stops_in check_stops) (formatInPlace e run gate)" for run gate
    unfolding formatInPlace_def pending_files_def by (intro keeps_intros) (simp_all add: stops_in_def check_stops_def)
  ultimately show ?thesis unfolding checksFormatted_def by (rule keeps_checks_formatted)
qed

lemma checksFormatted_wp:
  assumes "holds k H s" and "\<And>a s. holds k H s \<Longrightarrow> Q a s" and "\<And>err s. holds k H s \<Longrightarrow> stops_in check_stops err \<Longrightarrow> E err s"
  shows "wp (checksFormatted e) Q E s"
  using assms by (rule keeps_wp [OF checksFormatted_keeps])

section \<open>The build loop\<close>

definition build_stops :: "(string \<times> string) list" where
  "build_stops = (OutcomeInfraFailure, StopCompletions) # agent_stops PhaseBuild @ check_stops"

definition work_stop :: "string \<times> string \<times> string \<times> string \<Rightarrow> string set \<Rightarrow> string \<Rightarrow> (string \<times> string) list \<Rightarrow> stop_error \<Rightarrow> build_state \<Rightarrow> bool" where
  "work_stop k H phase stops err s \<longleftrightarrow> holds k H s \<and> stops_in stops err
     \<and> (stopOutcome err \<in> {OutcomeAgentFailed, OutcomeBudgetStop} \<longrightarrow> hasStep (smSteps (bdSum s)) phase)"

lemma agent_stop_work:
  "agent_stop k H phase err s \<Longrightarrow> set ((OutcomeInfraFailure, StopCompletions) # agent_stops phase) \<subseteq> set stops \<Longrightarrow>
     work_stop k H phase stops err s"
  by (auto simp: agent_stop_def work_stop_def stops_in_def outcome_defs intro: holds_mono) (simp_all add: holds_def stepped_def)

lemma check_stop_work: "holds k H s \<Longrightarrow> stops_in check_stops err \<Longrightarrow> set check_stops \<subseteq> set stops \<Longrightarrow> work_stop k H phase stops err s"
  by (auto simp: work_stop_def stops_in_def check_stops_def outcome_defs)

lemma work_stop_mono: "work_stop k H phase stops err s \<Longrightarrow> G \<subseteq> H \<Longrightarrow> work_stop k G phase stops err s"
  by (auto simp: work_stop_def intro: holds_mono)

lemma build_agent_stop: "agent_stop k H PhaseBuild err s \<Longrightarrow> work_stop k H PhaseBuild build_stops err s"
  by (erule agent_stop_work) (auto simp: build_stops_def)

lemma build_check_stop:
  "holds k (insert PhaseBuild H) s \<Longrightarrow> stops_in check_stops err \<Longrightarrow> work_stop k H PhaseBuild build_stops err s"
  by (rule work_stop_mono [OF check_stop_work, of k "insert PhaseBuild H"]) (auto simp: build_stops_def)

lemma build_round_wp:
  assumes "holds k H s" and "acPhase call = PhaseBuild" and "\<And>a s. holds k (insert PhaseBuild H) s \<Longrightarrow> Q a s"
    and "\<And>err s. work_stop k H PhaseBuild build_stops err s \<Longrightarrow> E err s"
  shows "wp (build_round e c call prompt started budget) Q E s"
proof -
  have "buildOrder c \<noteq> []" by (simp add: buildOrder_def)
  show ?thesis
    unfolding build_round_def wp_andThen
  proof (rule runAgentInOrder_wp [OF assms(1) \<open>buildOrder c \<noteq> []\<close>])
    fix a s assume "holds k (insert (acPhase call) H) s"
    then show "wp (case a of (ans, session, rnd) \<Rightarrow> andThen (on_msg (adopt (bePrint e) ans (tkID (bcTicket c)))) (\<lambda>_. ret (session, rnd))) Q E s"
      using assms(2,3) by (cases a) simp
  next
    fix err s assume "agent_stop k H (acPhase call) err s"
    then show "E err s" using assms(2,4) by (intro assms(4) build_agent_stop) simp
  qed
qed

lemma check_rounds_wp:
  assumes "holds k (insert PhaseBuild H) s" and good: "\<And>a s. holds k (insert PhaseBuild H) s \<Longrightarrow> Q a s"
    and bad: "\<And>err s. work_stop k H PhaseBuild build_stops err s \<Longrightarrow> E err s"
  shows "wp (check_rounds e c rules session rnd left) Q E s"
  using assms(1)
proof (induction left arbitrary: session rnd s)
  case 0
  have "wp (checksFormatted e) (\<lambda>_. holds k (insert PhaseBuild H)) E s"
    by (rule checksFormatted_wp [OF 0]) (auto intro!: bad build_check_stop)
  then show ?case
    by (simp add: check_rounds.simps) (erule wp_mono, auto simp: build_budget_def wp_if intro!: good split: prod.splits option.splits)
next
  case (Suc n)
  have "wp (checksFormatted e) (\<lambda>_. holds k (insert PhaseBuild H)) E s"
    by (rule checksFormatted_wp [OF Suc.prems]) (auto intro!: bad build_check_stop)
  moreover have "wp (build_round e c \<lparr>acPhase = PhaseBuild, acRound = rnd + 1, acModel = bcModel c, acSession = session, acRules = rules,
        acDetail = gate, acTimeout = t\<rparr> prompt started nfr1BuildBudget)
      (\<lambda>a. wp (case a of (session', rnd') \<Rightarrow> check_rounds e c rules session' rnd' n) Q E) E s'"
    if "holds k (insert PhaseBuild H) s'" for gate t prompt started s'
    by (rule build_round_wp [OF that]) (auto intro!: Suc.IH bad work_stop_mono [of k "insert PhaseBuild H"] split: prod.splits)
  ultimately show ?case
    by (subst check_rounds.simps, simp)
      (erule wp_mono, auto simp: build_budget_def wp_if intro!: good split: prod.splits option.splits)
qed

text \<open>The loop stops on the budget only before any round, so before any build agent runs.\<close>

definition unstarted :: "string \<times> string \<times> string \<times> string \<Rightarrow> string set \<Rightarrow> log_of_calls \<Rightarrow> stop_error \<Rightarrow> build_state \<Rightarrow> bool" where
  "unstarted k H l err s \<longleftrightarrow> holds k H s \<and> stopOutcome err = OutcomeStopped \<and> stopReason err = StopRunBudget \<and> bdLog s = l @ [ClockRead]"

lemma runCheckLoop_wp:
  assumes "holds k H s" and good: "\<And>a s. holds k (insert PhaseBuild H) s \<Longrightarrow> Q a s"
    and bad: "\<And>err s. work_stop k H PhaseBuild build_stops err s \<Longrightarrow> E err s"
    and none: "\<And>err s'. unstarted k H (bdLog s) err s' \<Longrightarrow> E err s'"
  shows "wp (runCheckLoop e c rules prompt) Q E s"
proof -
  have round: "wp (build_round e c \<lparr>acPhase = PhaseBuild, acRound = 1, acModel = bcModel c, acSession = [], acRules = rules,
        acDetail = [], acTimeout = t\<rparr> prompt started nfr1BuildBudget)
      (\<lambda>a. wp (case a of (session, rnd) \<Rightarrow> andThen (ask ReadDirty (beDirty e)) (\<lambda>r.
         andThen (demand OutcomeInfraFailure StopChecksRun r) (\<lambda>dirty.
         if \<not> dirty then ret (False, [], session, rnd) else check_rounds e c rules session rnd (checkLoopMaxRounds - 1)))) Q E) E s'"
    if "holds k H s'" for t started s'
  proof (rule build_round_wp [OF that])
    fix a s assume h: "holds k (insert PhaseBuild H) s"
    have fault: "E (stopWith OutcomeInfraFailure StopChecksRun t) (s\<lparr>bdLog := l\<rparr>)" for t l
      using h by (intro bad build_check_stop) (auto simp: stops_in_def check_stops_def)
    have rounds: "wp (check_rounds e c rules session rnd left) Q E (s\<lparr>bdLog := l\<rparr>)" for session rnd left l
      using h by (intro check_rounds_wp [OF _ good bad]) auto
    show "wp (case a of (session, rnd) \<Rightarrow> andThen (ask ReadDirty (beDirty e)) (\<lambda>r.
         andThen (demand OutcomeInfraFailure StopChecksRun r) (\<lambda>dirty.
         if \<not> dirty then ret (False, [], session, rnd) else check_rounds e c rules session rnd (checkLoopMaxRounds - 1)))) Q E s"
      using fault rounds good h by (simp add: wp_if split: prod.splits sum.splits)
  qed (auto intro: bad)
  show ?thesis
    using round none assms(1) by (simp add: runCheckLoop_def build_budget_def unstarted_def split: option.splits)
qed

section \<open>The review\<close>

text \<open>A review stops for the formatter only as the formatter does.\<close>

definition review_stop :: "stop_error \<Rightarrow> bool" where
  "review_stop err \<longleftrightarrow> (stopReason err = StopFormatterOutsideDiff \<longrightarrow> stopOutcome err = OutcomeStopped)"

lemma agent_stops_not_formatter: "(a, StopFormatterOutsideDiff) \<notin> set (agent_stops phase)"
  by (simp add: agent_stops_def agentFailures_def stop_defs)

lemma agent_review_stop: "agent_stop k H phase err s \<Longrightarrow> review_stop err"
  using agent_stops_not_formatter [of "stopOutcome err" phase]
  by (auto simp: agent_stop_def review_stop_def) (simp_all add: stop_defs)

lemma check_review_stop: "stops_in check_stops err \<Longrightarrow> review_stop err"
  by (auto simp: review_stop_def stops_in_def check_stops_def stop_defs)

lemma other_review_stop [simp]:
  "review_stop (stopWith outcome StopChecksRun t)" "review_stop (stopWith outcome StopReviewInvalid t)"
  by (simp_all add: review_stop_def stop_defs)

lemma review_agent [keeps_intros]:
  assumes "models \<noteq> []"
  shows "keeps (holds k H) review_stop (runAgentInOrder e c call models agent prompt started budget)"
  by (rule keepsI, rule runAgentInOrder_wp [OF _ assms])
    (auto intro: holds_mono agent_review_stop simp: agent_stop_def)

lemma review_build_round [keeps_intros]: "keeps (holds k H) review_stop (build_round e c call prompt started budget)"
  unfolding build_round_def by (intro keeps_intros) (simp add: buildOrder_def)

lemma review_checks [keeps_intros]: "keeps (holds k H) review_stop (checksFormatted e)"
  by (rule keeps_weaken [OF checksFormatted_keeps check_review_stop])

lemma review_scan_files [keeps_intros]: "keeps (holds k H) review_stop (scan_files e files)"
  by (induction e files rule: scan_files.induct) (simp_all, (intro keeps_intros; assumption?)+)

lemma review_probe [keeps_intros]: "keeps (holds k H) review_stop (probeGuard e run g left)"
  unfolding probeGuard_def by (intro keeps_intros) simp_all

lemma review_probes [keeps_intros]: "keeps (holds k H) review_stop (probe_guards e run started budget gs)"
  by (induction gs) (simp_all, (intro keeps_intros; assumption?)+)

lemma review_scan [keeps_intros]: "keeps (holds k H) review_stop (scanGuards e started budget)"
  unfolding scanGuards_def changedGuards_def by (intro keeps_intros) simp_all

lemma review_pass [keeps_intros]:
  "bcReviewModels c \<noteq> [] \<Longrightarrow> keeps (holds k H) review_stop (reviewPass e c rnd rules timeout started budget)"
  unfolding reviewPass_def by (intro keeps_intros) simp_all

lemma review_open [keeps_intros]: "keeps (holds k H) review_stop (review_left_open pending rounds findings checks)"
  unfolding review_left_open_def by (intro keeps_intros) simp_all

lemma review_recheck [keeps_intros]:
  "bcReviewModels c \<noteq> [] \<Longrightarrow> (\<And>rounds' still. keeps (holds k H) review_stop (again rounds' still)) \<Longrightarrow>
     keeps (holds k H) review_stop (recheck e c rules started rounds findings checks rnd again)"
  unfolding recheck_def by (intro keeps_intros) simp_all

lemma review_fix_rounds [keeps_intros]:
  "bcReviewModels c \<noteq> [] \<Longrightarrow> keeps (holds k H) review_stop (fix_rounds e c rules started pending rounds findings checks session rnd n)"
proof (induction n arbitrary: rounds findings checks session rnd)
  case 0
  then show ?case by (simp add: keeps_intros)
next
  case (Suc n)
  show ?case unfolding fix_rounds.simps by (intro keeps_intros Suc.IH) (simp_all add: Suc.prems)
qed

lemma review_keeps: "bcReviewModels c \<noteq> [] \<Longrightarrow> keeps (holds k H) review_stop (runReview e c rules session rnd)"
  unfolding runReview_def by (intro keeps_intros) simp_all

section \<open>The plan\<close>

definition plan_stops :: "(string \<times> string) list" where
  "plan_stops = [(OutcomeStopped, StopProjectionMissing), (OutcomeStopped, StopProjectionInvalid), (OutcomeInfraFailure, StopProjectionRead),
     (OutcomeStopped, StopRunBudget), (OutcomeStopped, StopPlanInvalid), (OutcomeStopped, StopWorkflowChange),
     (OutcomeInfraFailure, StopCompletions)] @ agent_stops PhasePlan"

lemma plan_agent_stop: "agent_stop k H PhasePlan err s \<Longrightarrow> work_stop k H PhasePlan plan_stops err s"
  by (erule agent_stop_work) (auto simp: plan_stops_def)

lemma plan_own_stop:
  "holds k H s \<Longrightarrow> (outcome, reason) \<in> set (take 6 plan_stops) \<Longrightarrow> work_stop k H PhasePlan plan_stops (stopWith outcome reason t) s"
  by (auto simp: work_stop_def stops_in_def plan_stops_def outcome_defs)

text \<open>The round an order answers in is one of its own.\<close>

lemma models_in_order_round:
  "wp (models_in_order e c call agent prompt left first stop rnd models)
     (\<lambda>(_, _, r) _. rnd \<le> r \<and> r < rnd + int (length models)) (\<lambda>_ _. True) s"
proof (induction models arbitrary: stop rnd s)
  case Nil
  show ?case by (simp add: exhausted_def wp_def halt_def split: option.splits)
next
  case (Cons m ms)
  have ih: "wp (models_in_order e c call agent prompt left first stop (rnd + (if ms = [] then 0 else 1)) ms)
     (\<lambda>(_, _, r) _. rnd \<le> r \<and> r < rnd + int (length (m # ms))) (\<lambda>_ _. True) s" for stop s
    by (rule wp_mono [OF Cons.IH]) (auto split: if_splits)
  have T: "wp (n :: 'b program) (\<lambda>_ _. True) (\<lambda>_ _. True) s" for n s by (rule wp_TrueI)
  show ?case
    unfolding models_in_order.simps wp_andThen
  proof (rule wp_mono [OF T])
    fix t s'
    show "wp (case t of None \<Rightarrow> exhausted first stop
       | Some t \<Rightarrow> handle (runAgent e c (call\<lparr>acModel := m, acRound := rnd, acTimeout := t\<rparr>) agent prompt)
           (\<lambda>err. if movesToNextModel (stopReason err)
              then models_in_order e c call agent prompt left first (Some err) (rnd + (if ms = [] then 0 else 1)) ms
              else (\<lambda>s. (Inl err, s)))
           (\<lambda>(ans, session). ret (ans, session, rnd)))
         (\<lambda>(_, _, r) _. rnd \<le> r \<and> r < rnd + int (length (m # ms))) (\<lambda>_ _. True) s'"
    proof (cases t)
      case None
      then show ?thesis by (simp add: exhausted_def wp_def halt_def split: option.splits)
    next
      case (Some d)
      have branch: "wp (if movesToNextModel (stopReason err)
              then models_in_order e c call agent prompt left first (Some err) (rnd + (if ms = [] then 0 else 1)) ms
              else (\<lambda>s. (Inl err, s))) (\<lambda>(_, _, r) _. rnd \<le> r \<and> r < rnd + int (length (m # ms))) (\<lambda>_ _. True) s" for err s
        using ih [of "Some err" s] by (cases "movesToNextModel (stopReason err)") (simp_all only: if_True if_False, simp add: wp_def)
      show ?thesis unfolding Some option.case wp_handle
        by (rule wp_mono [OF T]; (rule branch)?; auto split: prod.splits)
    qed
  qed simp
qed

lemma plan_order_wp:
  assumes "holds k H s" and "models \<noteq> []" and "acPhase call = PhasePlan"
    and good: "\<And>ans session r s. holds k (insert PhasePlan H) s \<Longrightarrow> acRound call \<le> r \<Longrightarrow> r < acRound call + int (length models) \<Longrightarrow> Q (ans, session, r) s"
    and bad: "\<And>err s. work_stop k H PhasePlan plan_stops err s \<Longrightarrow> E err s"
  shows "wp (plan_order e c call models prompt) Q E s"
proof -
  have kept: "wp (runAgentInOrder e c call models (bePlanRouter e) prompt started nfr1BuildBudget)
     (\<lambda>_. holds k (insert PhasePlan H)) (work_stop k H PhasePlan plan_stops) s" for started
    by (rule runAgentInOrder_wp [OF assms(1,2)]) (auto simp: assms(3) intro: plan_agent_stop)
  have bound: "wp (runAgentInOrder e c call models (bePlanRouter e) prompt started nfr1BuildBudget)
     (\<lambda>(_, _, r) _. acRound call \<le> r \<and> r < acRound call + int (length models)) (\<lambda>_ _. True) s" for started
    unfolding runAgentInOrder_def by (rule models_in_order_round)
  have "wp (runAgentInOrder e c call models (bePlanRouter e) prompt started nfr1BuildBudget) Q E s" for started
    using kept [of started] bound [of started] good bad by (auto simp: wp_def split: prod.splits sum.splits)
  then show ?thesis by (simp add: plan_order_def)
qed

lemma budget_or_stop_wp:
  assumes "holds k H s" and "\<And>t s. holds k H s \<Longrightarrow> Q t s" and "\<And>err s. work_stop k H PhasePlan plan_stops err s \<Longrightarrow> E err s"
  shows "wp (budget_or_stop e c) Q E s"
proof -
  have "E (stopWith OutcomeStopped StopRunBudget t) (s\<lparr>bdLog := l\<rparr>)" for t l
    using assms(1) by (intro assms(3) plan_own_stop) (simp_all add: plan_stops_def)
  then show ?thesis using assms(1,2) by (simp add: budget_or_stop_def build_budget_def split: option.splits)
qed

lemma judged_plan_wp:
  assumes "holds k H s" and "1 \<le> rnd" and "rnd < 1 + int (length (bcPlanModels c))"
    and good: "\<And>a s. holds k H s \<Longrightarrow> Q a s" and bad: "\<And>err s. work_stop k H PhasePlan plan_stops err s \<Longrightarrow> E err s"
  shows "wp (judged_plan e c rules (ans, session, rnd)) Q E s"
proof -
  let ?models = "drop (nat (rnd - 1)) (bcPlanModels c)"
  have models: "?models \<noteq> []" using assms(2,3) by simp
  have round: "wp (plan_order e c (plan_call (rnd + 1) (hd ?models) session rules t) ?models prompt) Q' E s'"
    if "holds k H s'" and "\<And>a s. holds k H s \<Longrightarrow> Q' a s" for t prompt Q' s'
    by (rule plan_order_wp [OF that(1) models]) (auto simp: plan_call_def intro!: that(2) bad intro: holds_mono)
  show ?thesis
    using good [OF assms(1)]
    by (auto simp: judged_plan_def Let_def wp_if intro!: budget_or_stop_wp [OF assms(1)] round good bad split: sum.splits prod.splits)
qed

lemma projection_stop_wp:
  assumes "holds k H s" and "\<And>err s. work_stop k H PhasePlan plan_stops err s \<Longrightarrow> E err s"
  shows "wp (projection_stop err) Q E s"
  by (cases err) (auto simp: projection_stop_def plan_stops_def intro!: assms(2) plan_own_stop [OF assms(1)])

lemma FetchProjection_wp:
  assumes "holds k H s" and "\<And>p s. holds k H s \<Longrightarrow> Q p s" and bad: "\<And>err s'. holds k H s' \<Longrightarrow> wp (projection_stop err) Q E s'"
  shows "wp (FetchProjection e c file) Q E s"
  using assms by (auto simp: FetchProjection_def fetchProjection_def readRequired_def Let_def wp_if split: object_read.splits)

lemma runPlanPhase_wp:
  assumes "holds k H s" and models: "bcPlanModels c \<noteq> []"
    and good: "\<And>a s. holds k H s \<Longrightarrow> Q a s" and bad: "\<And>err s. work_stop k H PhasePlan plan_stops err s \<Longrightarrow> E err s"
  shows "wp (runPlanPhase e c) Q E s"
proof -
  have own: "E (stopWith OutcomeStopped StopPlanInvalid t) s'" "E (stopWith OutcomeStopped StopWorkflowChange t) s'"
    "E (stopWith OutcomeStopped StopProjectionInvalid t) s'" if "holds k H s'" for t s'
    by (intro bad plan_own_stop that; simp add: plan_stops_def)+
  have judged: "wp (judged_plan e c rules replied) (\<lambda>r. wp (plan_verdict r) Q E) E s'"
    if "holds k H s'" "1 \<le> rnd" "rnd < 1 + int (length (bcPlanModels c))" "replied = (ans, session, rnd)" for rules ans session rnd s' replied
    unfolding that(4)
    by (rule judged_plan_wp [OF that(1-3)]) (auto simp: plan_verdict_def wp_if intro!: own good intro: bad split: sum.splits plan_artifact.splits)
  have ordered: "wp (plan_order e c (plan_call 1 (hd (bcPlanModels c)) [] rules t) (bcPlanModels c) prompt)
      (\<lambda>replied. wp (andThen (judged_plan e c rules replied) plan_verdict) Q E) E s'" if "holds k H s'" for rules t prompt s'
    by (rule plan_order_wp [OF that models]) (auto simp: plan_call_def intro!: judged intro: bad holds_mono)
  show ?thesis
    unfolding runPlanPhase_def wp_andThen
    by (rule FetchProjection_wp [OF assms(1)])
      (auto intro!: own budget_or_stop_wp [of k H] ordered projection_stop_wp [of k H] intro: bad split: sum.splits prod.splits)
qed

section \<open>The commit\<close>

definition commit_stops :: "(string \<times> string) list" where
  "commit_stops = [(OutcomeStopped, StopGitTampered), (OutcomeStopped, StopHeadMoved), (OutcomeInfraFailure, StopCommit),
     (OutcomeStopped, StopSecretInBranch)]"

lemma commit_stop_simps [simp]:
  "stops_in commit_stops (stopWith OutcomeStopped StopGitTampered t)" "stops_in commit_stops (stopWith OutcomeStopped StopHeadMoved t)"
  "stops_in commit_stops (stopWith OutcomeInfraFailure StopCommit t)" "stops_in commit_stops (stopWith OutcomeStopped StopSecretInBranch t)"
  by (simp_all add: stops_in_def commit_stops_def)

lemma commit_secrets [keeps_intros]: "keeps (holds k H) (stops_in commit_stops) (check_secrets e secrets)"
proof (induction secrets)
  case (Cons secret secrets)
  have "keeps (holds k H) (stops_in commit_stops) (case r of SecretFound err \<Rightarrow> halt OutcomeStopped StopSecretInBranch err
     | SearchFailed err \<Rightarrow> halt OutcomeInfraFailure StopCommit err | NoSecret \<Rightarrow> check_secrets e secrets)" for r
    using Cons by (cases r) (simp_all add: keeps_halt)
  then show ?case unfolding check_secrets.simps by (intro keeps_intros)
qed (simp add: keeps_intros)

lemma commit_keeps: "keeps (holds k H) (stops_in commit_stops) (commitWork e c planFiles)"
proof -
  have "keeps (holds k H) (stops_in commit_stops) (verified v)" for v
    unfolding verified_def by (cases v) (simp_all add: keeps_intros)
  moreover have "keeps (holds k H) (stops_in commit_stops) (final_message e c)"
    unfolding final_message_def commit_faults_def by (intro keeps_intros) simp_all
  ultimately show ?thesis
    unfolding commitWork_def measure_commit_def bundle_branch_def commit_faults_def by (intro keeps_intros) simp_all
qed

section \<open>The endings of a build\<close>

text \<open>What \<open>validate\<close> asks of an ending first: that it is a build's, and names its branch and its agent's step.\<close>

definition known_ending :: "summary \<Rightarrow> bool" where
  "known_ending sm \<longleftrightarrow> (smOutcome sm, smStopReason sm, smPhase sm) \<in> set buildEndings"

definition names_branch :: "summary \<Rightarrow> bool" where
  "names_branch sm \<longleftrightarrow> (smPhase sm \<in> {PhasePlan, PhaseBuild, PhaseReview, PhaseCommit} \<longrightarrow> smBranch sm \<noteq> [])"

definition names_step :: "summary \<Rightarrow> bool" where
  "names_step sm \<longleftrightarrow> (smPhase sm = PhaseCommit \<or> smOutcome sm = OutcomeAgentFailed \<or> smOutcome sm = OutcomeBudgetStop \<longrightarrow>
     hasStep (smSteps sm) (if smPhase sm = PhaseCommit then PhaseBuild else smPhase sm))"

definition accepted_ending :: "summary \<Rightarrow> bool" where
  "accepted_ending sm \<longleftrightarrow> known_ending sm \<and> names_branch sm \<and> names_step sm"

text \<open>Until a build agent has run, the worktree is as it was checked out: no other agent may edit.\<close>

definition fresh_tree :: "build_env \<Rightarrow> bool" where
  "fresh_tree e \<longleftrightarrow> (\<forall>calls files. unbuilt calls \<longrightarrow> bePending e calls = Inr files \<longrightarrow> files = [])"

definition accepts :: "string \<times> string \<times> string \<times> string \<Rightarrow> build_step list \<Rightarrow> bool" where
  "accepts k steps \<longleftrightarrow> (case k of (outcome, reason, phase, branch) \<Rightarrow>
     (outcome, reason, phase) \<in> set buildEndings
     \<and> (phase \<in> {PhasePlan, PhaseBuild, PhaseReview, PhaseCommit} \<longrightarrow> branch \<noteq> [])
     \<and> (phase = PhaseCommit \<longrightarrow> hasStep steps PhaseBuild)
     \<and> (phase \<noteq> PhaseCommit \<and> outcome \<in> {OutcomeAgentFailed, OutcomeBudgetStop} \<longrightarrow> hasStep steps phase))"

lemma accepted_accepts: "accepted_ending sm \<longleftrightarrow> accepts (view sm) (smSteps sm)"
  by (auto simp: accepted_ending_def accepts_def view_def known_ending_def names_branch_def names_step_def split: if_splits)

lemma report_stop_view [simp]:
  "view (report_stop (Inl err) sm) = (stopOutcome err, stopReason err, smPhase sm, smBranch sm)"
  "smSteps (report_stop (Inl err) sm) = smSteps sm" "report_stop (Inr a) sm = sm"
  by (simp_all add: view_def report_stop_def with_ending_def)

lemma accepted_stop:
  assumes "holds (o0, r0, phase, branch) H s" and "accepts (stopOutcome err, stopReason err, phase, branch) (smSteps (bdSum s))"
  shows "accepted_ending (report_stop (Inl err) (bdSum s))"
  unfolding accepted_accepts report_stop_view using assms by (simp add: holds_def view_def)

lemma push_branch_name: "push_branch c \<noteq> []"
  by (simp add: push_branch_def BranchName_def BranchPrefix_def)

lemma holds_enter: "holds (o0, r0, p, b) H s \<Longrightarrow> holds (o0, r0, phase, b) H (enter e phase s)"
  by (simp add: holds_def enter_def view_def stepped_def)

lemma holds_leave [simp]: "holds k H (leave e phase t s) = holds k H s"
  by (simp add: holds_def leave_def view_def stepped_def)

lemma leave_sum [simp]: "smSteps (bdSum (leave e phase t s)) = smSteps (bdSum s)" "view (bdSum (leave e phase t s)) = view (bdSum s)"
  by (simp_all add: leave_def view_def)

lemma unbuilt_snoc: "unbuilt (l @ [c]) \<longleftrightarrow> unbuilt l \<and> c \<notin> agent_calls PhaseBuild"
  by (cases c) (auto simp: unbuilt_def agent_calls_def)

text \<open>No build agent runs before the build phase.\<close>

interpretation before_build: call_invariant "\<lambda>s. unbuilt (bdLog s)" "\<lambda>c. c \<notin> agent_calls PhaseBuild"
proof
  fix c assume "plain c"
  then show "c \<notin> agent_calls PhaseBuild" by (cases c) (auto simp: agent_calls_def)
qed (simp_all add: unbuilt_snoc)

section \<open>Each phase\<close>

text \<open>A build that has stopped nowhere yet, its branch \<open>b\<close>.\<close>

definition going :: "string \<Rightarrow> build_state \<Rightarrow> bool" where
  "going b s \<longleftrightarrow> (\<exists>phase. holds ([], [], phase, b) {} s) \<and> unbuilt (bdLog s)"

lemma going_timed:
  assumes "going b s" and "keeps (\<lambda>s. unbuilt (bdLog s)) any_stop m"
    and "\<And>s. holds ([], [], phase, b) {} s \<Longrightarrow> wp m (\<lambda>a s. Q a \<and> (\<exists>p. holds ([], [], p, b') {} s))
      (\<lambda>err s. holds ([], [], phase, b) {} s \<and> accepted_ending (report_stop (Inl err) (bdSum s))) s"
  shows "wp (timed e phase m) (\<lambda>a s. Q a \<and> going b' s) (\<lambda>err s. accepted_ending (report_stop (Inl err) (bdSum s))) s"
proof -
  from assms(1) have h: "holds ([], [], phase, b) {} (enter e phase s)" and u: "unbuilt (bdLog (enter e phase s))"
    by (auto simp: going_def intro: holds_enter before_build.entered)
  have leave: "accepted_ending (report_stop (Inl err) (bdSum (leave e phase t s)))"
    if "accepted_ending (report_stop (Inl err) (bdSum s))" for err t s
    using that by (simp add: accepted_accepts leave_def)
  show ?thesis
    unfolding wp_timed Let_def
    by (rule wp_both [OF assms(3) [OF h] keepsD [OF assms(2) u]]) (auto simp: going_def intro: before_build.left_phase leave)
qed

text \<open>The projection: what it checks holds when it ends, and it stops as the projection's endings say.\<close>

definition projection_stops :: "(string \<times> string) list" where
  "projection_stops = [(OutcomeStopped, StopModelInvalid), (OutcomeStopped, StopCredentialAbsent), (OutcomeStopped, StopProjectionMissing),
     (OutcomeStopped, StopProjectionInvalid), (OutcomeInfraFailure, StopProjectionRead)]"

definition models_named :: "build_config \<Rightarrow> bool" where
  "models_named c \<longleftrightarrow> bcReviewModels c \<noteq> [] \<and> (tkSize (bcTicket c) \<noteq> ''S'' \<longrightarrow> bcPlanModels c \<noteq> [])"

lemma validated_nonempty:
  "ValidatePlanModels table ms = None \<Longrightarrow> ms \<noteq> []" "ValidateReviewModels table ms m = None \<Longrightarrow> ms \<noteq> []"
  by (auto simp: ValidatePlanModels_def ValidateReviewModels_def validateModelList_def split: option.splits)

lemma gates_keep: "keeps (holds k H) (stops_in projection_stops) (gate_models e r ms)"
proof (induction ms)
  case (Cons m ms)
  show ?case
    using Cons by (simp split: sum.splits refused.splits) (auto intro!: keeps_halt simp: stops_in_def projection_stops_def)
qed (simp add: keeps_intros)

lemma fetch_keeps: "keeps (holds k H) (stops_in projection_stops) (FetchProjection e c file)"
proof -
  have "keeps (holds k H) (stops_in projection_stops) (projection_stop err)" for err :: projection_error
    unfolding projection_stop_def by (cases err) (auto intro!: keeps_halt simp: stops_in_def projection_stops_def)
  then show ?thesis unfolding FetchProjection_def fetchProjection_def readRequired_def by (intro keeps_intros) auto
qed

lemma projection_phase_wp:
  assumes "holds ([], [], PhaseProjection, []) {} s"
  shows "wp (projection_phase e c) (\<lambda>_ s. models_named c \<and> (\<exists>p. holds ([], [], p, []) {} s))
     (\<lambda>err s. holds ([], [], PhaseProjection, []) {} s \<and> accepted_ending (report_stop (Inl err) (bdSum s))) s"
proof -
  let ?k = "([], [], PhaseProjection, [])"
  have stop: "accepted_ending (report_stop (Inl err) (bdSum s))" if "holds ?k {} s" "stops_in projection_stops err" for err s
    using that by (auto simp: stops_in_def projection_stops_def accepts_def buildEndings_def outcome_defs phase_defs intro!: accepted_stop)
  have rest: "keeps (holds ?k {}) (stops_in projection_stops) (gated_projection e c)"
    unfolding gated_projection_def by (intro keeps_intros gates_keep fetch_keeps) (simp_all add: stops_in_def projection_stops_def)
  have named: "models_named c" if "ValidateReviewModels (bePrint e) (bcReviewModels c) (bcModel c) = None"
    "(if tkSize (bcTicket c) \<noteq> ''S'' then ValidatePlanModels (bePrint e) (bcPlanModels c) else None) = None"
    using that by (auto simp: models_named_def dest: validated_nonempty split: if_splits)
  have own: "accepted_ending (report_stop (Inl (stopWith OutcomeStopped StopModelInvalid t)) (bdSum s))" for t
    using assms by (intro stop) (simp_all add: stops_in_def projection_stops_def)
  show ?thesis
    using own assms named stop by (auto simp: projection_phase_def intro!: keeps_wp [OF rest assms] split: option.splits)
qed

lemma projection_unbuilt: "keeps (\<lambda>s. unbuilt (bdLog s)) any_stop (projection_phase e c)"
proof -
  have "keeps (\<lambda>s. unbuilt (bdLog s)) any_stop (gate_models e r ms)" for r ms
    by (induction ms) (auto simp: keeps_ret split: sum.splits refused.splits intro!: keeps_halt any_stop)
  then show ?thesis
    unfolding projection_phase_def gated_projection_def by (intro before_build.basics before_build.projections)
qed

lemma worktree_phase_wp:
  assumes "holds ([], [], PhaseWorktree, []) {} s"
  shows "wp (worktree_phase e c) (\<lambda>_ s. True \<and> (\<exists>p. holds ([], [], p, push_branch c) {} s))
     (\<lambda>err s. holds ([], [], PhaseWorktree, []) {} s \<and> accepted_ending (report_stop (Inl err) (bdSum s))) s"
proof -
  have "accepted_ending (report_stop (Inl (stopWith OutcomeInfraFailure StopWorktree t)) (bdSum s))" for t
    by (rule accepted_stop [OF assms]) (simp add: accepts_def buildEndings_def outcome_defs phase_defs)
  then show ?thesis
    using assms by (auto simp: worktree_phase_def holds_def view_def stepped_def split: option.splits)
qed

lemma probe_wp:
  assumes "holds ([], [], PhaseAgentStart, b) {} s"
  shows "wp (andThen (ask ProbeAgent probe) (require OutcomeInfraFailure StopAgentContainer)) (\<lambda>_ s. True \<and> (\<exists>p. holds ([], [], p, b) {} s))
     (\<lambda>err s. holds ([], [], PhaseAgentStart, b) {} s \<and> accepted_ending (report_stop (Inl err) (bdSum s))) s"
proof -
  have "accepted_ending (report_stop (Inl (stopWith OutcomeInfraFailure StopAgentContainer t)) (bdSum s))" for t
    by (rule accepted_stop [OF assms]) (simp add: accepts_def buildEndings_def outcome_defs phase_defs)
  then show ?thesis using assms by (auto split: option.splits)
qed

lemma start_phase_wp:
  assumes "going b s"
  shows "wp (start_phase e) (\<lambda>_. going b) (\<lambda>err s. accepted_ending (report_stop (Inl err) (bdSum s))) s"
proof (cases "beProbe e")
  case (Some probe)
  have "keeps (\<lambda>s. unbuilt (bdLog s)) any_stop (andThen (ask ProbeAgent probe) (require OutcomeInfraFailure StopAgentContainer))"
    by (intro before_build.basics) simp
  then show ?thesis
    using going_timed [OF assms _ probe_wp, of probe e] by (auto simp: start_phase_def Some elim!: wp_mono)
qed (use assms in \<open>simp add: start_phase_def\<close>)

lemma plan_work_stop:
  assumes "work_stop ([], [], PhasePlan, b) {} PhasePlan plan_stops err s" and "b \<noteq> []"
  shows "accepted_ending (report_stop (Inl err) (bdSum s))"
proof (rule accepted_stop)
  show "holds ([], [], PhasePlan, b) {} s" using assms(1) by (simp add: work_stop_def)
  have "(stopOutcome err, stopReason err, PhasePlan) \<in> set buildEndings"
    using assms(1)
    by (auto simp: work_stop_def stops_in_def plan_stops_def agent_stops_def agentFailures_def buildEndings_def
        PhasePlan_def PhaseBuild_def split: if_splits)
  moreover have "PhasePlan \<noteq> PhaseCommit" by (simp add: phase_defs)
  ultimately show "accepts (stopOutcome err, stopReason err, PhasePlan, b) (smSteps (bdSum s))"
    using assms by (auto simp: accepts_def work_stop_def)
qed

lemma plan_phase_wp:
  assumes "going b s" and "b \<noteq> []" and "models_named c"
  shows "wp (plan_phase e c) (\<lambda>_. going b) (\<lambda>err s. accepted_ending (report_stop (Inl err) (bdSum s))) s"
proof -
  let ?m = "andThen (runPlanPhase e c) (\<lambda>a. ret (case a of PlanFiles fs \<Rightarrow> fs | PlanDecision _ \<Rightarrow> []))"
  have "wp (timed e PhasePlan ?m) (\<lambda>a s. True \<and> going b s) (\<lambda>err s. accepted_ending (report_stop (Inl err) (bdSum s))) s"
    if "tkSize (bcTicket c) \<noteq> ''S''"
  proof (rule going_timed [OF assms(1)])
    show "keeps (\<lambda>s. unbuilt (bdLog s)) any_stop ?m"
      by (intro before_build.basics before_build.planned) (auto simp: agent_calls_def PhasePlan_def PhaseBuild_def)
    fix s assume h: "holds ([], [], PhasePlan, b) {} s"
    have "bcPlanModels c \<noteq> []" using assms(3) that by (simp add: models_named_def)
    then show "wp ?m (\<lambda>a s. True \<and> (\<exists>p. holds ([], [], p, b) {} s))
        (\<lambda>err s. holds ([], [], PhasePlan, b) {} s \<and> accepted_ending (report_stop (Inl err) (bdSum s))) s"
      unfolding wp_andThen
      by (rule runPlanPhase_wp [OF h]) (auto intro: plan_work_stop [OF _ assms(2)] simp: work_stop_def)
  qed
  then show ?thesis using assms(1) by (auto simp: plan_phase_def elim: wp_mono)
qed

section \<open>The build phase and what follows it\<close>

lemma build_work_stop:
  assumes "work_stop ([], [], PhaseBuild, b) {} PhaseBuild build_stops err s" and "b \<noteq> []"
  shows "accepted_ending (report_stop (Inl err) (bdSum s))"
proof (rule accepted_stop)
  show "holds ([], [], PhaseBuild, b) {} s" using assms(1) by (simp add: work_stop_def)
  have "(stopOutcome err, stopReason err, PhaseBuild) \<in> set buildEndings"
    using assms(1)
    by (auto simp: work_stop_def stops_in_def build_stops_def check_stops_def agent_stops_def agentFailures_def buildEndings_def)
  moreover have "PhaseBuild \<noteq> PhaseCommit" by (simp add: phase_defs)
  ultimately show "accepts (stopOutcome err, stopReason err, PhaseBuild, b) (smSteps (bdSum s))"
    using assms by (auto simp: accepts_def work_stop_def)
qed

lemma kept_has_step:
  assumes "work_stop k {} PhaseBuild build_stops err s" and "keepsWork (stopReason err)"
  shows "holds k {PhaseBuild} s \<and> stopOutcome err = OutcomeAgentFailed"
proof -
  have "(stopOutcome err, stopReason err) \<in> {(OutcomeAgentFailed, StopAgentTimeout), (OutcomeAgentFailed, StopAgentNoProgress)}"
    using assms
    by (auto simp: work_stop_def stops_in_def build_stops_def check_stops_def agent_stops_def agentFailures_def keepsWork_def stop_defs)
  then show ?thesis using assms(1) by (auto simp: work_stop_def holds_def stepped_def)
qed

lemma commit_accepts:
  assumes "holds (o0, r0, PhaseCommit, b) {PhaseBuild} s" and "stops_in commit_stops err" and "b \<noteq> []"
  shows "accepted_ending (report_stop (Inl err) (bdSum s))"
  using assms
  by (intro accepted_stop [OF assms(1)]) (auto simp: accepts_def stops_in_def commit_stops_def buildEndings_def holds_def stepped_def)

lemma commit_accepted:
  assumes "holds (outcome, reason, PhaseCommit, b) {PhaseBuild} s" and "b \<noteq> []"
    and "(outcome, reason) \<in> {(OutcomeStopped, StopWorkflowChange), (OutcomeNoChanges, []), (OutcomeBuilt, [])}"
  shows "accepted_ending (bdSum s)"
  using assms by (auto simp: accepted_accepts accepts_def buildEndings_def holds_def stepped_def)

end
