(* ===== verification/Run_Sample.thy ===== *)
theory Run_Sample
  imports Run_Wp
begin

text \<open>
  A build on concrete answers: one harness, an agent that edits a file and names its commit, checks that pass
  and a review that finds nothing. The properties of a build are applied to it.
\<close>

definition sample_harness :: harness where
  "sample_harness = \<lparr>hsName = ''omp'', hsLicence = LicenceOpenSource, hsReady = (\<lambda>_. None)\<rparr>"

definition sample_router :: router where
  "sample_router = \<lparr>rtHarnesses = [sample_harness], rtOrder = (\<lambda>_. [''omp'']), rtOptIn = None, rtContained = False,
     rtAllowance = [], rtAvailability = []\<rparr>"

definition sample_step :: event where
  "sample_step = \<lparr>evType = StepFinish, evInput = 10, evOutput = 5, evReasoning = 0, evCacheRead = 0, evCacheWrite = 0, evCost = 0, evTime = 0,
     evTools = [\<lparr>toolName = ''edit'', toolPath = ''a.go''\<rparr>], evContext = 0\<rparr>"

definition sample_text :: "string \<Rightarrow> frame" where
  "sample_text t = \<lparr>frEvent = None, frText = Some (''text'', t), frSession = Some ''s1''\<rparr>"

definition sample_reply :: "string \<Rightarrow> string" where
  "sample_reply phase = (if phase = PhaseReview then fence @ ''review-findings'' @ newline @ fence else ''done'')"

definition sample_stream :: "string \<Rightarrow> stream_line list" where
  "sample_stream phase = [Line \<lparr>frEvent = Some sample_step, frText = None, frSession = None\<rparr>, Line (sample_text (sample_reply phase))]"

definition sample_agent :: "log_of_calls \<Rightarrow> agent_run" where
  "sample_agent calls = \<lparr>arStream = sample_stream (case last calls of AgentRun call _ \<Rightarrow> acPhase call | _ \<Rightarrow> []),
     arError = None, arTimedOut = False, arDelivered = False, arStderr = None\<rparr>"

definition sample_pending_files :: "log_of_calls \<Rightarrow> string + string list" where
  "sample_pending_files calls = Inr (if list_ex (\<lambda>c. case c of AgentRun call _ \<Rightarrow> acPhase call = PhaseBuild | _ \<Rightarrow> False) calls then [''a.go''] else [])"

definition sample_build_env :: build_env where
  "sample_build_env = \<lparr>bePrint = (\<lambda>_. True), beLower = (\<lambda>s. s), beDecision = (\<lambda>_. Inl []), beDuration = (\<lambda>_. ''50m0s''),
     beRates = (\<lambda>_. None), beRouter = sample_router, bePlanRouter = sample_router, beReviewRouter = sample_router,
     beNow = (\<lambda>_. 1000000000),
     beObject = (\<lambda>calls. Found (case last calls of ReadObject name \<Rightarrow> if length name < 30 then replicate 40 (CHR ''a'') else ''rules'' @ para @ ticketSentinel | _ \<Rightarrow> [])),
     beAddTree = (\<lambda>_. None), beProbe = None, beFiles = (\<lambda>_. None), beAgent = sample_agent, beUpload = (\<lambda>_. None),
     beDirty = (\<lambda>_. Inr True), bePending = sample_pending_files, beChecks = (\<lambda>_. Inr ([], [])), beFormat = None,
     beDiff = (\<lambda>_. Inr ''+x''), beAdded = (\<lambda>_. Inr []), beGuards = (\<lambda>_. None), beTests = None, beRead = (\<lambda>_. Inl []),
     beWrite = (\<lambda>_. None), beVerify = (\<lambda>_. TreeKept), beCommit = (\<lambda>_. Inr [''a.go'']), beLines = (\<lambda>_. Inr \<lparr>dlAdded = 1, dlRemoved = 0\<rparr>),
     beSecret = (\<lambda>_. NoSecret), beTouched = (\<lambda>_. Inr [''a.go'']), beBundle = (\<lambda>_. None)\<rparr>"

definition sample_build_ticket :: full_ticket where
  "sample_build_ticket = \<lparr>tkID = ''W-1'', tkTitle = ''fix it'', tkBody = ''b'', tkSize = ''S'', tkSizedBy = [], tkFrontEnd = False,
     tkPlanFiles = [], tkDecisions = [], tkNote = []\<rparr>"

definition sample_build_config :: build_config where
  "sample_build_config = \<lparr>bcAttemptID = ''w-1-1'', bcTempDir = ''/tmp'', bcPointer = ''projections/current'', bcModel = ''p/a'', bcPlanModels = [''p/b''],
     bcReviewModels = [''p/b''], bcAgentTimeout = 0, bcSecrets = [''key''], bcAccount = ''o'', bcOwner = ''o'', bcGitHubToken = False,
     bcTicket = sample_build_ticket, bcGuided = False\<rparr>"

section \<open>The run of the sample\<close>

text \<open>What the sample's texts read as.\<close>

lemma sample_streams:
  "\<not> didStop PhaseBuild (sample_stream PhaseBuild)" "\<not> didStop PhaseReview (sample_stream PhaseReview)"
  "\<not> stalled (foldl observe_step no_progress (scanEvents (sample_stream PhaseBuild))) PhaseBuild"
  "\<not> stalled (foldl observe_step no_progress (scanEvents (sample_stream PhaseReview))) PhaseReview"
  "FinalText (sample_stream PhaseBuild) = ''done''" "FinalText (sample_stream PhaseReview) = sample_reply PhaseReview"
  "SessionID (sample_stream PhaseBuild) = ''s1''" "SessionID (sample_stream PhaseReview) = ''s1''"
  by code_simp+

lemma sample_findings: "ParseReviewFindings (sample_reply PhaseReview) = Inr []" "reviewPending [] = []"
  by code_simp+

lemma sample_models:
  "CheckModel sample_build_config = None" "ValidModel ''p/a''"
  "ValidateReviewModels (bePrint sample_build_env) [''p/b''] ''p/a'' = None" "buildOrder sample_build_config = [''p/a'']"
  by code_simp+

lemma sample_gates: "gate_models sample_build_env sample_router [''p/a'', ''p/b''] s = (Inr (), s)"
  by code_simp

lemma sample_prompt:
  "trim_space (replicate 40 (CHR ''a'')) = replicate 40 (CHR ''a'')" "sha_ok (replicate 40 (CHR ''a''))"
  "RenderPromptParts (''rules'' @ para @ ticketSentinel) sample_build_ticket = Inr (''rules'' @ para, Ticket_Text sample_build_ticket)"
  by code_simp+

lemma sample_ticket_valid: "Validate (bePrint sample_build_env) sample_build_ticket = None"
proof -
  have "MatchString ticketIDPattern ''W-1''" "printable (\<lambda>_. True) ''fix it''" "printable (\<lambda>_. True) []"
    "blank ''fix it'' = False" "blank ''b'' = False" "utf8_valid ''b''" "utf8_valid []" by code_simp+
  moreover have "length (Encode sample_build_ticket) \<le> 98304"
  proof -
    have "runes ''W-1'' = [(Some 87, ''W''), (Some 45, ''-''), (Some 49, ''1'')]"
      "runes ''fix it'' = [(Some 102, ''f''), (Some 105, ''i''), (Some 120, ''x''), (Some 32, '' ''), (Some 105, ''i''), (Some 116, ''t'')]"
      "runes ''S'' = [(Some 83, ''S'')]"
      "runes ''b'' = [(Some 98, ''b'')]"
      "runes ''id'' = [(Some 105, ''i''), (Some 100, ''d'')]"
      "runes ''title'' = [(Some 116, ''t''), (Some 105, ''i''), (Some 116, ''t''), (Some 108, ''l''), (Some 101, ''e'')]"
      "runes ''size'' = [(Some 115, ''s''), (Some 105, ''i''), (Some 122, ''z''), (Some 101, ''e'')]"
      "runes ''body'' = [(Some 98, ''b''), (Some 111, ''o''), (Some 100, ''d''), (Some 121, ''y'')]"
      by code_simp+
    then show ?thesis by (simp add: Encode_def json_string_def json_rune_def json_field_def sample_build_ticket_def)
  qed
  ultimately show ?thesis
    by (simp add: Validate_def sample_build_ticket_def sample_build_env_def ticketSizes_def ValidNote_def
      maxTicketIDBytes_def maxTicketTitleBytes_def maxSizedByBytes_def maxTicketBodyBytes_def maxEncodedTicketBytes_def MaxNoteBytes_def)
qed

lemma sample_build_answers [simp]:
  "beNow sample_build_env l = 1000000000" "beAddTree sample_build_env l = None" "beProbe sample_build_env = None"
  "beFiles sample_build_env l = None" "beAgent sample_build_env = sample_agent" "beUpload sample_build_env l = None"
  "beDirty sample_build_env l = Inr True" "bePending sample_build_env = sample_pending_files" "beChecks sample_build_env l = Inr ([], [])"
  "beFormat sample_build_env = None" "beDiff sample_build_env l = Inr ''+x''" "beTests sample_build_env = None"
  "beVerify sample_build_env l = TreeKept" "beCommit sample_build_env l = Inr [''a.go'']"
  "beLines sample_build_env l = Inr \<lparr>dlAdded = 1, dlRemoved = 0\<rparr>" "beSecret sample_build_env l = NoSecret"
  "beTouched sample_build_env l = Inr [''a.go'']" "beBundle sample_build_env l = None" "beRouter sample_build_env = sample_router"
  "beObject sample_build_env (l @ [ReadObject name]) = Found (if length name < 30 then replicate 40 (CHR ''a'') else ''rules'' @ para @ ticketSentinel)"
  "beObject sample_build_env (l @ [c, ReadObject name]) = Found (if length name < 30 then replicate 40 (CHR ''a'') else ''rules'' @ para @ ticketSentinel)"
  by (simp_all add: sample_build_env_def)

lemma sample_settings [simp]:
  "bcPointer sample_build_config = ''projections/current''" "bcModel sample_build_config = ''p/a''" "bcReviewModels sample_build_config = [''p/b'']"
  "bcAgentTimeout sample_build_config = 0" "bcSecrets sample_build_config = [''key'']" "bcTicket sample_build_config = sample_build_ticket"
  "tkSize sample_build_ticket = ''S''"
  by (simp_all add: sample_build_config_def sample_build_ticket_def)

text \<open>The clock stands still, so every budget is whole.\<close>

definition on_time :: "build_state \<Rightarrow> bool" where
  "on_time s \<longleftrightarrow> smStartedAt (bdSum s) = 1000000000"

lemma on_time_simps [simp]:
  "on_time (s\<lparr>bdLog := l\<rparr>) = on_time s" "on_time (s\<lparr>bdMsg := m\<rparr>) = on_time s"
  "on_time (s\<lparr>bdLog := l, bdSum := (bdSum s)\<lparr>smRuleStackSHA := x\<rparr>\<rparr>) = on_time s"
  "on_time (s\<lparr>bdLog := l, bdSum := (bdSum s)\<lparr>smBranch := x\<rparr>\<rparr>) = on_time s"
  "on_time (enter e phase s) = on_time s" "on_time (leave e phase t s) = on_time s"
  by (simp_all add: on_time_def enter_def leave_def)

lemma metered_call_started [simp]: "smStartedAt (metered_call e c call agent ls t1 t2 sm) = smStartedAt sm"
  by (auto simp: metered_call_def Let_def readProgress_def addUsageWarning_def recordPhaseCache_def split: sum.splits option.splits list.splits)

lemma sample_runAgent:
  assumes "on_time s" and "acPhase call \<in> {PhaseBuild, PhaseReview}"
    and "\<And>s'. on_time s' \<Longrightarrow> Q (FinalText (sample_stream (acPhase call)), ''s1'') s'"
  shows "wp (runAgent sample_build_env c call agent prompt) Q E s"
proof -
  have verdict: "wp (agent_verdict sample_build_env call agent t \<lparr>arStream = sample_stream (acPhase call), arError = None,
      arTimedOut = False, arDelivered = False, arStderr = None\<rparr>) Q E s'" if "on_time s'" for t s'
    using assms(2,3) that sample_streams by (auto simp: agent_verdict_def Let_def)
  have "on_time (s\<lparr>bdLog := l, bdSum := metered_call e c call agent ls t1 t2 (bdSum s)\<rparr>)" for l e ls t1 t2
    using assms(1) by (simp add: on_time_def)
  then show ?thesis
    using verdict by (simp add: runAgent_def upload_def sample_agent_def Let_def)
qed

lemma sample_order:
  assumes "on_time s" and "acPhase call \<in> {PhaseBuild, PhaseReview}"
    and "\<And>s'. on_time s' \<Longrightarrow> Q (FinalText (sample_stream (acPhase call)), ''s1'', acRound call) s'"
  shows "wp (runAgentInOrder sample_build_env c call [m] agent prompt started budget) Q E s"
  unfolding runAgentInOrder_def models_in_order.simps
  by simp (rule sample_runAgent [OF assms(1)], use assms(2,3) in auto)

lemma sample_budget: "on_time s \<Longrightarrow> wp (build_budget sample_build_env sample_build_config) Q E s = Q (Some defaultAgentTimeout) (s\<lparr>bdLog := bdLog s @ [ClockRead]\<rparr>)"
  by (simp add: build_budget_def on_time_def roundTimeout_def effectiveAgentTimeout_def
      Let_def nfr1BuildBudget_def defaultAgentTimeout_def minute_def)

lemma sample_round:
  assumes "on_time s" and "acPhase call = PhaseBuild" and "\<And>s'. on_time s' \<Longrightarrow> Q (''s1'', acRound call) s'"
  shows "wp (build_round sample_build_env sample_build_config call prompt started budget) Q E s"
  unfolding build_round_def wp_andThen sample_models(4)
  by (rule sample_order [OF assms(1)]) (use assms(2,3) in auto)

lemma sample_checks:
  assumes "on_time s" and "\<And>s'. on_time s' \<Longrightarrow> Q ([], []) s'"
  shows "wp (checksFormatted sample_build_env) Q E s"
proof -
  have checked: "wp (timedChecks sample_build_env) Q E s"
    using assms by (simp add: timedChecks_def pending_files_def sample_pending_files_def add_duration_def on_time_def)
  have "checks_formatted sample_build_env [] s = timedChecks sample_build_env s"
    by (simp add: checks_formatted.simps split: prod.splits sum.splits)
  with checked show ?thesis by (simp add: checksFormatted_def wp_def)
qed

lemma sample_loop:
  assumes "on_time s" and "\<And>s'. on_time s' \<Longrightarrow> Q (True, [], ''s1'', 1) s'"
  shows "wp (runCheckLoop sample_build_env sample_build_config rules prompt) Q E s"
proof -
  have "wp (check_rounds sample_build_env sample_build_config rules ''s1'' 1 n) Q E s'" if "on_time s'" for n s'
    by (simp add: check_rounds.simps) (rule sample_checks [OF that], simp add: assms(2))
  then show ?thesis
    using assms(1) by (auto simp: runCheckLoop_def sample_budget intro!: sample_round)
qed

lemma sample_review:
  assumes "on_time s" and "\<And>s'. on_time s' \<Longrightarrow> Q (True, []) s'"
  shows "wp (review_phase sample_build_env sample_build_config rules session rnd) Q E s"
proof -
  have pass: "wp (reviewPass sample_build_env sample_build_config 1 rules t started budget) Q' E' s'"
    if "on_time s'" "\<And>s'. on_time s' \<Longrightarrow> Q' [] s'" for t started budget Q' E' s'
    unfolding reviewPass_def wp_andThen
    using that by (auto simp: sample_streams sample_findings intro!: sample_order)
  have scan: "scanGuards sample_build_env t budget = ret []" for t budget
    by (simp add: scanGuards_def)
  show ?thesis
    unfolding review_phase_def wp_timed Let_def wp_handle runReview_def
    using assms by (auto simp: scan sample_findings intro!: pass)
qed

lemma sample_commit:
  "wp (commit_phase sample_build_env sample_build_config []) (\<lambda>b s'. b \<noteq> None \<and> smOutcome (bdSum s') = OutcomeBuilt \<and> smReady (bdSum s') = smReady (bdSum s)) E s"
proof -
  have flow: "workflowFiles [''a.go''] = []" by code_simp
  show ?thesis
    by (auto simp: commit_phase_def wp_timed Let_def commitWork_def verified_def final_message_def commit_faults_def wp_if measure_commit_def
        bundle_branch_def flow enter_def leave_def committed_def sample_pending_files_def)
qed

lemma sample_phases:
  "wp (build_phases sample_build_env sample_build_config)
     (\<lambda>_ s. smOutcome (bdSum s) = OutcomeBuilt \<and> smReady (bdSum s)) (\<lambda>_ _. False) (build_start sample_build_env)"
proof -
  let ?Q = "\<lambda>_ s. smOutcome (bdSum s) = OutcomeBuilt \<and> smReady (bdSum s)"
  have finish: "wp (finish_build sample_build_env sample_build_config rules [] (True, [], session, rnd)) ?Q (\<lambda>_ _. False) s"
    if "on_time s" for rules session rnd s
    unfolding finish_build_def
    by (auto simp: that intro!: sample_review wp_mono [OF sample_commit])
  have start: "on_time (build_start sample_build_env)" by (simp add: on_time_def build_start_def new_summary_def)
  have gates: "wp (gate_models sample_build_env sample_router [''p/a'', ''p/b'']) Q E s = Q () s" for Q E s
    by (simp only: wp_def sample_gates prod.case sum.case)
  have projected: "wp (timed sample_build_env PhaseProjection (projection_phase sample_build_env sample_build_config)) Q E s"
    if "on_time s" "\<And>s'. on_time s' \<Longrightarrow> Q (''rules'' @ para, Ticket_Text sample_build_ticket) s'" for Q E s
    using that sample_prompt sample_models gates
    by (auto simp: wp_timed Let_def projection_phase_def gated_projection_def FetchProjection_def fetchProjection_def readRequired_def buildProjectionFile_def simp del: gate_models.simps)
  show ?thesis
    unfolding build_phases_def
    by (auto simp: start start_phase_def plan_phase_def worktree_phase_def wp_timed [where phase = PhaseWorktree] wp_timed [where phase = PhaseBuild] Let_def
        intro!: projected sample_loop finish)
qed

text \<open>The sample is built, and ready.\<close>

lemma sample_built:
  "\<exists>r s. Build sample_build_env sample_build_config = (Inr r, s) \<and> smOutcome (bdSum s) = OutcomeBuilt \<and> smReady (bdSum s)"
proof -
  have "build_body sample_build_env sample_build_config = build_phases sample_build_env sample_build_config"
    by (rule ext) (simp add: build_body_def sample_models sample_ticket_valid require_def andThen_def ret_def)
  then show ?thesis
    using sample_phases by (auto simp: Build_def wp_def report_stop_def split: prod.splits sum.splits)
qed

text \<open>Until a build agent has run, the sample's worktree has nothing to commit.\<close>

lemma sample_pending_none:
  "\<not> list_ex (\<lambda>c. case c of AgentRun call _ \<Rightarrow> acPhase call = PhaseBuild | _ \<Rightarrow> False) calls \<Longrightarrow>
     bePending sample_build_env calls = Inr files \<Longrightarrow> files = []"
  by (auto simp: sample_pending_files_def)

end
