(* ===== verification/Run_Accepted.thy ===== *)
theory Run_Accepted
  imports Run_Endings Run_Sample
begin

text \<open>
  Every build reports an ending the record job accepts: what a stopped build keeps of its work, how a built one
  ends, and the phases put together.
\<close>

section \<open>A stopped build\<close>

text \<open>The build reports the stop it ends with, and the report is accepted.\<close>

abbreviation stop_reported :: "stop_error \<Rightarrow> build_state \<Rightarrow> bool" where
  "stop_reported err s \<equiv> accepted_ending (report_stop (Inl err :: stop_error + unit) (bdSum s))"

text \<open>How the check loop stops: as a build agent or the checks do, or out of budget before any agent ran.\<close>

definition loop_stop :: "string \<Rightarrow> stop_error \<Rightarrow> build_state \<Rightarrow> bool" where
  "loop_stop b err s \<longleftrightarrow> work_stop ([], [], PhaseBuild, b) {} PhaseBuild build_stops err s
     \<or> holds ([], [], PhaseBuild, b) {} s \<and> stopOutcome err = OutcomeStopped \<and> stopReason err = StopRunBudget \<and> unbuilt (bdLog s)"

lemma loop_stop_accepts:
  assumes "loop_stop b err s" and "b \<noteq> []"
  shows "accepts (stopOutcome err, stopReason err, PhaseBuild, b) (smSteps (bdSum s))"
proof -
  consider "work_stop ([], [], PhaseBuild, b) {} PhaseBuild build_stops err s"
    | "stopOutcome err = OutcomeStopped" "stopReason err = StopRunBudget"
    using assms(1) by (auto simp: loop_stop_def)
  then show ?thesis
  proof cases
    case 1
    then have "stop_reported err s" using assms(2) by (rule build_work_stop)
    with 1 show ?thesis unfolding accepted_accepts report_stop_view by (simp add: work_stop_def holds_def view_def)
  next
    case 2
    then show ?thesis using assms(2) by (simp add: accepts_def buildEndings_def outcome_defs phase_defs)
  qed
qed

lemma loop_stop_holds: "loop_stop b err s \<Longrightarrow> holds ([], [], PhaseBuild, b) {} s"
  by (auto simp: loop_stop_def work_stop_def)

lemma loop_stop_accepted: "loop_stop b err s \<Longrightarrow> b \<noteq> [] \<Longrightarrow> stop_reported err s"
  by (rule accepted_stop [OF loop_stop_holds loop_stop_accepts])

text \<open>What is kept was edited by a build agent: nothing else may have edited the worktree.\<close>

lemma kept_work_stepped:
  assumes "fresh_tree e" and "loop_stop b err s" and "keepsWork (stopReason err)"
    and "bePending e (bdLog s @ [ReadPending]) = Inr (f # fs)"
  shows "holds ([], [], PhaseBuild, b) {PhaseBuild} s"
proof -
  have "\<not> unbuilt (bdLog s)"
    using assms(1,4) unbuilt_snoc [of "bdLog s" ReadPending] by (auto simp: fresh_tree_def agent_calls_def)
  then show ?thesis using assms(2,3) kept_has_step [of "([], [], PhaseBuild, b)" err s] by (auto simp: loop_stop_def)
qed

lemma timed_commit_wp:
  assumes "holds ([], [], p, b) H s"
    and "\<And>a s'. holds ([], [], PhaseCommit, b) H s' \<Longrightarrow> Q a s'"
    and "\<And>err s'. holds ([], [], PhaseCommit, b) H s' \<Longrightarrow> stops_in commit_stops err \<Longrightarrow> E err s'"
  shows "wp (timed e PhaseCommit (commitWork e c planFiles)) Q E s"
  unfolding wp_timed Let_def
  by (rule keeps_wp [OF commit_keeps holds_enter [OF assms(1), of PhaseCommit]]) (simp_all add: assms(2,3))

lemma kept_ends:
  assumes "holds ([], [], PhaseCommit, b) {PhaseBuild} s'" and "loop_stop b err s" and "b \<noteq> []"
  shows "accepted_ending (report_stop (Inl err :: stop_error + unit) (in_build_phase (bdSum s')))"
    "accepted_ending (with_ending OutcomeStopped StopWorkflowChange t (bdSum s'))"
    "accepted_ending ((with_ending (stopOutcome err) (stopReason err) t (in_build_phase (bdSum s')))\<lparr>smLoopDetail := d\<rparr>)"
proof -
  have "hasStep (smSteps (bdSum s')) PhaseBuild" and v: "view (bdSum s') = ([], [], PhaseCommit, b)"
    using assms(1) by (simp_all add: holds_def stepped_def)
  then have "accepts (stopOutcome err, stopReason err, PhaseBuild, b) (smSteps (bdSum s'))"
    and "accepts (OutcomeStopped, StopWorkflowChange, PhaseCommit, b) (smSteps (bdSum s'))"
    using loop_stop_accepts [OF assms(2,3)] assms(3) by (auto simp: accepts_def buildEndings_def)
  then show "accepted_ending (report_stop (Inl err :: stop_error + unit) (in_build_phase (bdSum s')))"
    "accepted_ending (with_ending OutcomeStopped StopWorkflowChange t (bdSum s'))"
    "accepted_ending ((with_ending (stopOutcome err) (stopReason err) t (in_build_phase (bdSum s')))\<lparr>smLoopDetail := d\<rparr>)"
    using v by (simp_all add: accepted_accepts with_ending_def in_build_phase_def view_def report_stop_def)
qed

lemma keep_work_wp:
  assumes "fresh_tree e" and stop: "loop_stop b err s" and b: "b \<noteq> []"
  shows "wp (keep_work e c planFiles err) (\<lambda>_ s. accepted_ending (bdSum s)) stop_reported s"
proof -
  let ?s = "s\<lparr>bdLog := bdLog s @ [ReadPending]\<rparr>"
  note stopped = loop_stop_accepted [OF stop b]
  have kept: "wp (timed e PhaseCommit (commitWork e c planFiles)) Q stop_reported ?s"
    if "keepsWork (stopReason err)" "bePending e (bdLog s @ [ReadPending]) = Inr (f # fs)"
      "\<And>a s'. holds ([], [], PhaseCommit, b) {PhaseBuild} s' \<Longrightarrow> Q a s'" for f fs Q
    using kept_work_stepped [OF assms(1) stop that(1,2)] that(3)
    by (intro timed_commit_wp [of PhaseBuild b "{PhaseBuild}"]) (auto intro: commit_accepts [OF _ _ b])
  show ?thesis
    using stopped
    by (auto simp: keep_work_def split: sum.splits list.splits option.splits intro!: kept intro: kept_ends [OF _ stop b])
qed

section \<open>A build that ends\<close>

lemma review_phase_wp:
  assumes "holds ([], [], p, b) {PhaseBuild} s" and "b \<noteq> []" and "bcReviewModels c \<noteq> []"
  shows "wp (review_phase e c rules session rnd) (\<lambda>_ s. \<exists>p. holds ([], [], p, b) {PhaseBuild} s)
     stop_reported s"
proof -
  let ?k = "([], [], PhaseReview, b)"
  have stop: "accepted_ending (report_stop (Inl err) (bdSum (leave e PhaseReview t s')))"
    if "holds ?k {PhaseBuild} s'" "review_stop err" "stopReason err = StopFormatterOutsideDiff" for err s' t
  proof (rule accepted_stop)
    show "holds ?k {PhaseBuild} (leave e PhaseReview t s')" using that by simp
    have "stopOutcome err = OutcomeStopped" using that by (simp add: review_stop_def)
    then show "accepts (stopOutcome err, stopReason err, PhaseReview, b) (smSteps (bdSum (leave e PhaseReview t s')))"
      using that assms(2) by (simp add: accepts_def buildEndings_def outcome_defs phase_defs)
  qed
  show ?thesis
    unfolding review_phase_def wp_timed Let_def wp_handle
    by (rule keeps_wp [OF review_keeps [OF assms(3)] holds_enter [OF assms(1), of PhaseReview]])
      (auto simp: wp_if intro: stop)
qed

lemma commit_ends:
  assumes "holds ([], [], PhaseCommit, b) {PhaseBuild} s" and "b \<noteq> []"
  shows "accepted_ending ((bdSum s)\<lparr>smOutcome := OutcomeNoChanges\<rparr>)" "accepted_ending ((bdSum s)\<lparr>smOutcome := OutcomeBuilt\<rparr>)"
    "accepted_ending ((with_ending OutcomeStopped StopWorkflowChange t (bdSum s))\<lparr>smReady := False\<rparr>)"
  using assms by (auto simp: accepted_accepts accepts_def view_def with_ending_def holds_def stepped_def buildEndings_def)

lemma leave_accepted [simp]:
  "accepted_ending (bdSum (leave e phase t s)) = accepted_ending (bdSum s)"
  "accepted_ending (report_stop (Inl err) (bdSum (leave e phase t s))) = stop_reported err s"
  by (simp_all add: accepted_accepts view_def leave_def report_stop_def with_ending_def)

lemma commit_phase_wp:
  assumes "holds ([], [], p, b) {PhaseBuild} s" and "b \<noteq> []"
  shows "wp (commit_phase e c planFiles) (\<lambda>_ s. accepted_ending (bdSum s)) stop_reported s"
  unfolding commit_phase_def wp_timed Let_def wp_andThen
  by (rule keeps_wp [OF commit_keeps holds_enter [OF assms(1), of PhaseCommit]])
    (auto split: option.splits intro: commit_ends [OF _ assms(2)] commit_accepts [OF _ _ assms(2)])

lemma finish_build_wp:
  assumes "holds ([], [], p, b) {PhaseBuild} s" and "b \<noteq> []" and "bcReviewModels c \<noteq> []"
  shows "wp (finish_build e c rules planFiles loop) (\<lambda>_ s. accepted_ending (bdSum s)) stop_reported s"
proof -
  have commit: "wp (commit_phase e c planFiles) (\<lambda>_ s. accepted_ending (bdSum s)) stop_reported
      (s'\<lparr>bdSum := (bdSum s')\<lparr>smReady := ready, smLoopDetail := detail\<rparr>\<rparr>)" if "holds ([], [], p', b) {PhaseBuild} s'" for p' s' ready detail
    using that by (intro commit_phase_wp [OF _ assms(2)]) (simp add: holds_def view_def stepped_def)
  obtain ok detail session rnd where loop: "loop = (ok, detail, session, rnd)" by (cases loop)
  show ?thesis
    using assms(1)
    by (auto simp: finish_build_def loop intro!: wp_mono [OF review_phase_wp [OF assms]] wp_mono [OF commit])
qed

section \<open>The build\<close>

lemma build_phase_wp:
  assumes "fresh_tree e" and "going b s" and "b \<noteq> []" and "bcReviewModels c \<noteq> []"
  shows "wp (handle (timed e PhaseBuild (runCheckLoop e c rules prompt)) (keep_work e c planFiles) (finish_build e c rules planFiles))
    (\<lambda>_ s. accepted_ending (bdSum s)) stop_reported s"
proof -
  have h: "holds ([], [], PhaseBuild, b) {} (enter e PhaseBuild s)" and u: "unbuilt (bdLog (enter e PhaseBuild s))"
    using assms(2) by (auto simp: going_def intro: holds_enter before_build.entered)
  have stop: "loop_stop b err (leave e PhaseBuild t s')"
    if "work_stop ([], [], PhaseBuild, b) {} PhaseBuild build_stops err s'
      \<or> unstarted ([], [], PhaseBuild, b) {} (bdLog (enter e PhaseBuild s)) err s'" for err t s'
    using that u by (auto simp: loop_stop_def work_stop_def unstarted_def leave_def holds_def stepped_def view_def unbuilt_snoc agent_calls_def)
  show ?thesis
    unfolding wp_handle wp_timed Let_def
    by (rule runCheckLoop_wp [OF h]) (auto intro!: finish_build_wp [where b = b] keep_work_wp [OF assms(1) stop] simp: assms(3,4))
qed

lemma build_body_wp:
  assumes "fresh_tree e"
  shows "wp (build_body e c) (\<lambda>_ s. accepted_ending (bdSum s)) stop_reported (build_start e)"
proof -
  have go: "going [] (build_start e)" and start: "holds ([], [], [], []) {} (build_start e)"
    by (auto simp: going_def build_start_def new_summary_def holds_def view_def stepped_def unbuilt_def)
  have early: "accepted_ending (report_stop (Inl (stopWith OutcomeStopped reason t)) (bdSum (build_start e)))"
    if "reason \<in> {StopIdentityMismatch, StopTicketMissing}" for reason t
    using that by (intro accepted_stop [OF start]) (auto simp: accepts_def buildEndings_def outcome_defs phase_defs)
  note projected = going_timed [OF go projection_unbuilt projection_phase_wp, where e = e]
  have treed: "wp (timed e PhaseWorktree (worktree_phase e c)) (\<lambda>a s. True \<and> going (push_branch c) s)
     stop_reported s" if "going [] s" for s
    by (rule going_timed [OF that _ worktree_phase_wp])
      (auto simp: worktree_phase_def intro!: before_build.basics)
  show ?thesis
    unfolding build_body_def build_phases_def wp_andThen
    using early
    by (auto split: option.splits intro!: wp_mono [OF projected] wp_mono [OF treed] wp_mono [OF start_phase_wp] 
       wp_mono [OF plan_phase_wp [OF _ push_branch_name]] build_phase_wp [OF assms _ push_branch_name] simp: models_named_def)
qed

text \<open>
  C35: Whatever the agents, the checks, the stores and git answer, as long as nothing edits the worktree before a
  build agent runs, a build reports an ending the record job accepts: an outcome, reason and phase a build may
  end with, its branch named once it has one, and the step of the agent the ending blames.
\<close>

theorem build_ends_accepted:
  assumes "fresh_tree e"
  shows "accepted_ending (bdSum (snd (Build e c)))"
  using build_body_wp [OF assms, of c] by (auto simp: Build_def wp_def accepted_accepts split: prod.splits sum.splits)

theorem build_ends_accepted_witness:
  "fresh_tree sample_build_env \<and> accepted_ending (bdSum (snd (Build sample_build_env sample_build_config)))"
proof -
  have "fresh_tree sample_build_env"
    unfolding fresh_tree_def
  proof (intro allI impI)
    fix calls files assume "unbuilt calls" and "bePending sample_build_env calls = Inr files"
    then show "files = []"
      by (intro sample_pending_none) (auto simp: unbuilt_def list_ex_iff list_all_iff split: run_call.splits)
  qed
  then show ?thesis using build_ends_accepted by blast
qed

end
