(* ===== verification/Run_Ready.thy ===== *)
theory Run_Ready
  imports Run_Endings Run_Sample
begin

text \<open>
  What a ready pull request rests on: the last checks passed, the last review of the diff reported nothing, and
  no build agent and no formatter has run since.
\<close>

section \<open>What the last checks and the last review said\<close>

text \<open>The calls that may follow the checks a ready build rests on: a review, the guard scan and the commit.\<close>

fun after_checks :: "run_call \<Rightarrow> bool" where
  "after_checks (AgentRun call _) = (acPhase call \<noteq> PhaseBuild)"
| "after_checks (RunChecks _) = False"
| "after_checks (RunFormat _) = False"
| "after_checks _ = True"

definition checks_passed :: "build_env \<Rightarrow> log_of_calls \<Rightarrow> bool" where
  "checks_passed e l \<longleftrightarrow> (\<exists>l0 files out mid. l = l0 @ RunChecks files # mid \<and> beChecks e (l0 @ [RunChecks files]) = Inr ([], out)
     \<and> list_all after_checks mid)"

text \<open>The last agent to run was a reviewer, and its reply reports nothing.\<close>

fun no_agent :: "run_call \<Rightarrow> bool" where
  "no_agent (AgentRun _ _) = False"
| "no_agent _ = True"

definition review_clean :: "build_env \<Rightarrow> log_of_calls \<Rightarrow> bool" where
  "review_clean e l \<longleftrightarrow> (\<exists>l0 call prompt found mid. l = l0 @ AgentRun call prompt # mid \<and> acPhase call = PhaseReview
     \<and> ParseReviewFindings (FinalText (arStream (beAgent e (l0 @ [AgentRun call prompt])))) = Inr found \<and> reviewPending found = []
     \<and> list_all no_agent mid)"

lemma checks_passed_snoc:
  assumes "checks_passed e l" and "after_checks c"
  shows "checks_passed e (l @ [c])"
proof -
  from assms obtain l0 files out mid where "l = l0 @ RunChecks files # mid" "beChecks e (l0 @ [RunChecks files]) = Inr ([], out)"
    "list_all after_checks (mid @ [c])" by (auto simp: checks_passed_def)
  then show ?thesis unfolding checks_passed_def by (intro exI [of _ l0] exI [of _ files] exI [of _ out] exI [of _ "mid @ [c]"]) simp
qed

lemma review_clean_snoc:
  assumes "review_clean e l" and "no_agent c"
  shows "review_clean e (l @ [c])"
proof -
  from assms obtain l0 call prompt found mid where "l = l0 @ AgentRun call prompt # mid" "acPhase call = PhaseReview"
    "ParseReviewFindings (FinalText (arStream (beAgent e (l0 @ [AgentRun call prompt])))) = Inr found" "reviewPending found = []"
    "list_all no_agent (mid @ [c])" by (auto simp: review_clean_def)
  then show ?thesis
    unfolding review_clean_def
    by (intro exI [of _ l0] exI [of _ call] exI [of _ prompt] exI [of _ found] exI [of _ "mid @ [c]"]) simp
qed

interpretation checked: call_invariant "\<lambda>s. checks_passed e (bdLog s)" after_checks for e
proof
  show "plain c \<Longrightarrow> after_checks c" for c by (cases c) simp_all
qed (simp_all add: checks_passed_snoc)

interpretation clean: call_invariant "\<lambda>s. review_clean e (bdLog s)" no_agent for e
proof
  show "plain c \<Longrightarrow> no_agent c" for c by (cases c) simp_all
qed (simp_all add: review_clean_snoc)

section \<open>The checks\<close>

text \<open>A run of the checks that names no gate has passed.\<close>

lemma timedChecks_passed: "wp (timedChecks e) (\<lambda>(gate, _) s'. gate = [] \<longrightarrow> checks_passed e (bdLog s')) (\<lambda>_ _. True) s"
proof -
  have "checks_passed e (l @ [RunChecks files, ClockRead])" if "beChecks e (l @ [RunChecks files]) = Inr ([], out)" for l files out
    using that unfolding checks_passed_def by (intro exI [of _ l] exI [of _ files] exI [of _ out] exI [of _ "[ClockRead]"]) simp
  from this [of "bdLog s @ [ReadPending, ClockRead]"] show ?thesis
    by (auto simp: timedChecks_def pending_files_def split: sum.splits)
qed

lemma checks_formatted_last:
  assumes "\<And>s. wp (timedChecks e) Q (\<lambda>_ _. True) s"
  shows "wp (checks_formatted e formatted) Q (\<lambda>_ _. True) s"
  using assms
proof (induction e formatted s rule: checks_formatted.induct)
  case (1 e formatted s)
  obtain r s1 where r: "timedChecks e s = (r, s1)" by (cases "timedChecks e s")
  show ?case
  proof (cases r)
    case (Inl err)
    then show ?thesis using r by (simp add: wp_def checks_formatted.simps [of e formatted s])
  next
    case (Inr go)
    obtain gate out where go: "go = (gate, out)" by (cases go)
    have "Q (gate, out) s1" using 1(2) [of s] r Inr go by (simp add: wp_def)
    moreover have "wp (checks_formatted e (gate # formatted)) Q (\<lambda>_ _. True) s2"
      if "beFormat e = Some run" "isFormatGate gate" "gate \<notin> set formatted" "formatInPlace e run gate s1 = (Inr u, s2)" for run u s2
      using 1(1) [OF r [symmetric] Inr go [symmetric] that(1) _ that(4) [symmetric] refl] that 1(2) by simp
    ultimately show ?thesis
      unfolding wp_def checks_formatted.simps [of e formatted s] r Inr go
      by (cases "beFormat e"; cases "formatInPlace e (the (beFormat e)) gate s1") (auto simp: wp_def split: sum.splits)
  qed
qed

lemma checksFormatted_passed: "wp (checksFormatted e) (\<lambda>(gate, _) s'. gate = [] \<longrightarrow> checks_passed e (bdLog s')) (\<lambda>_ _. True) s"
  unfolding checksFormatted_def by (rule checks_formatted_last) (rule timedChecks_passed)

lemma check_rounds_passed:
  "wp (check_rounds e c rules session rnd left) (\<lambda>(ok, _) s'. ok \<longrightarrow> checks_passed e (bdLog s')) (\<lambda>_ _. True) s"
proof (induction left arbitrary: session rnd s)
  case 0
  show ?case
    by (simp add: check_rounds.simps)
      (rule wp_mono [OF checksFormatted_passed], auto simp: build_budget_def wp_if split: prod.splits option.splits)
next
  case (Suc n)
  have again: "wp (build_round e c call prompt started budget)
      (\<lambda>a. wp (case a of (session', rnd') \<Rightarrow> check_rounds e c rules session' rnd' n) (\<lambda>(ok, _) s'. ok \<longrightarrow> checks_passed e (bdLog s')) (\<lambda>_ _. True))
      (\<lambda>_ _. True) s'" for call prompt started budget s'
    by (rule wp_mono [OF wp_TrueI]) (auto intro: Suc.IH split: prod.splits)
  show ?case
    by (simp add: check_rounds.simps)
      (rule wp_mono [OF checksFormatted_passed], auto simp: build_budget_def wp_if intro!: again split: prod.splits option.splits)
qed

lemma runCheckLoop_passed:
  "wp (runCheckLoop e c rules prompt) (\<lambda>(ok, _) s'. ok \<longrightarrow> checks_passed e (bdLog s')) (\<lambda>_ _. True) s"
proof -
  have "wp (build_round e c call prompt started budget) (\<lambda>a. wp (case a of (session, rnd) \<Rightarrow> andThen (ask ReadDirty (beDirty e)) (\<lambda>r.
         andThen (demand OutcomeInfraFailure StopChecksRun r) (\<lambda>dirty.
         if \<not> dirty then ret (False, [], session, rnd) else check_rounds e c rules session rnd (checkLoopMaxRounds - 1))))
      (\<lambda>(ok, _) s'. ok \<longrightarrow> checks_passed e (bdLog s')) (\<lambda>_ _. True)) (\<lambda>_ _. True) s'" for call prompt started budget s'
    by (rule wp_mono [OF wp_TrueI]) (auto simp: wp_if intro: check_rounds_passed split: prod.splits sum.splits)
  then show ?thesis by (simp add: runCheckLoop_def build_budget_def split: option.splits)
qed

section \<open>The review\<close>

text \<open>An agent's reply is the final text of the last agent to run.\<close>

definition replied_last :: "build_env \<Rightarrow> string \<Rightarrow> string \<Rightarrow> log_of_calls \<Rightarrow> bool" where
  "replied_last e phase reply_text l \<longleftrightarrow> (\<exists>l0 call prompt mid. l = l0 @ AgentRun call prompt # mid \<and> acPhase call = phase
     \<and> reply_text = FinalText (arStream (beAgent e (l0 @ [AgentRun call prompt]))) \<and> list_all no_agent mid)"

lemma runAgent_replied:
  "wp (runAgent e c call agent prompt) (\<lambda>(reply_text, _) s'. replied_last e (acPhase call) reply_text (bdLog s')) (\<lambda>_ _. True) s"
proof -
  let ?l = "bdLog s @ [ClockRead, CreateFiles (acPhase call) (acRound call)]"
  have "replied_last e (acPhase call) (FinalText (arStream (beAgent e (?l @ [AgentRun call prompt])))) (?l @ AgentRun call prompt # mid)"
    if "list_all no_agent mid" for mid
    using that unfolding replied_last_def by (intro exI [of _ ?l] exI [of _ call] exI [of _ prompt] exI [of _ mid]) simp
  then show ?thesis
    by (auto simp: runAgent_def upload_def agent_verdict_def Let_def wp_if split: option.splits prod.splits)
qed

lemma models_in_order_replied:
  "wp (models_in_order e c call agent prompt left first stop rnd models)
     (\<lambda>(reply_text, _) s'. replied_last e (acPhase call) reply_text (bdLog s')) (\<lambda>_ _. True) s"
proof (induction models arbitrary: stop rnd s)
  case Nil
  then show ?case by (auto simp: exhausted_def wp_if split: option.splits)
next
  case (Cons m ms)
  let ?Q = "\<lambda>(reply_text :: string, _ :: string \<times> int) s'. replied_last e (acPhase call) reply_text (bdLog s')"
  have halted: "wp (\<lambda>s. (Inl err, s)) ?Q (\<lambda>_ _. True) s" for err s
    by (simp add: wp_def)
  have "wp (runAgent e c (call\<lparr>acModel := m, acRound := rnd, acTimeout := t\<rparr>) agent prompt)
      (\<lambda>a. wp (case a of (reply_text, session) \<Rightarrow> ret (reply_text, session, rnd)) ?Q (\<lambda>_ _. True))
      (\<lambda>err. wp (if movesToNextModel (stopReason err)
            then models_in_order e c call agent prompt left first (Some err) (rnd + (if ms = [] then 0 else 1)) ms
            else (\<lambda>s. (Inl err, s))) ?Q (\<lambda>_ _. True)) s" for t s
    by (rule wp_mono [OF runAgent_replied]) (auto simp: Cons.IH halted split: prod.splits)
  then have tried: "wp (case timeout of None \<Rightarrow> exhausted first stop
     | Some t \<Rightarrow> handle (runAgent e c (call\<lparr>acModel := m, acRound := rnd, acTimeout := t\<rparr>) agent prompt)
         (\<lambda>err. if movesToNextModel (stopReason err)
            then models_in_order e c call agent prompt left first (Some err) (rnd + (if ms = [] then 0 else 1)) ms
            else (\<lambda>s. (Inl err, s)))
         (\<lambda>(reply_text, session). ret (reply_text, session, rnd))) ?Q (\<lambda>_ _. True) s" for timeout s
    by (cases timeout) (auto simp: exhausted_def wp_if split: option.splits)
  show ?case
    unfolding models_in_order.simps wp_andThen by (rule wp_mono [OF wp_TrueI]) (use tried in auto)
qed

text \<open>A review pass that reports nothing leaves the diff reviewed clean.\<close>

lemma reviewPass_clean:
  "wp (reviewPass e c rnd rules timeout started budget) (\<lambda>found s'. reviewPending found = [] \<longrightarrow> review_clean e (bdLog s')) (\<lambda>_ _. True) s"
proof -
  have clean: "review_clean e l" if "replied_last e PhaseReview t l" "ParseReviewFindings t = Inr found" "reviewPending found = []" for t l found
    using that unfolding replied_last_def review_clean_def by blast
  have pass: "wp (runAgentInOrder e c call models agent prompt started budget) (\<lambda>a. wp (case a of (ans, _, _) \<Rightarrow> demand OutcomeStopped StopReviewInvalid (ParseReviewFindings ans))
      (\<lambda>found s'. reviewPending found = [] \<longrightarrow> review_clean e (bdLog s')) (\<lambda>_ _. True)) (\<lambda>_ _. True) s'"
    if "acPhase call = PhaseReview" for call models agent prompt started budget s'
    unfolding runAgentInOrder_def
    by (rule wp_mono [OF models_in_order_replied]) (auto simp: that intro: clean split: sum.splits)
  show ?thesis unfolding reviewPass_def by (auto split: sum.splits intro!: pass)
qed

text \<open>A fix loop that ends ready has passed its checks and been reviewed clean since.\<close>

definition sound :: "build_env \<Rightarrow> log_of_calls \<Rightarrow> bool" where
  "sound e l \<longleftrightarrow> checks_passed e l \<and> review_clean e l"

lemma recheck_sound:
  assumes "checks' = [] \<Longrightarrow> checks_passed e (bdLog s)"
  shows "wp (reviewPass e c rnd rules timeout started budget)
    (\<lambda>found s'. checks' = [] \<and> reviewPending found = [] \<longrightarrow> sound e (bdLog s')) (\<lambda>_ _. True) s"
proof (cases "checks' = []")
  case True
  have "keeps (\<lambda>s. checks_passed e (bdLog s)) any_stop (reviewPass e c rnd rules timeout started budget)"
    by (rule checked.passed) (simp add: PhaseReview_def PhaseBuild_def)
  from keepsD [OF this assms [OF True]] reviewPass_clean show ?thesis
    by (rule wp_both) (auto simp: sound_def)
qed (auto intro: wp_mono [OF wp_TrueI])

lemma scan_passed:
  assumes "checks' = [] \<Longrightarrow> checks_passed e (bdLog s)"
    and "\<And>a s'. (checks' = [] \<Longrightarrow> checks_passed e (bdLog s')) \<Longrightarrow> Q a s'"
  shows "wp (scanGuards e started budget) Q (\<lambda>_ _. True) s"
proof (cases "checks' = []")
  case True
  have probes: "runs_probe d \<Longrightarrow> after_checks d" for d by (cases d) simp_all
  show ?thesis
    by (rule keeps_wp [OF checked.scanned_guards [OF probes] assms(1) [OF True]]) (auto intro: assms(2))
qed (auto intro!: wp_mono [OF wp_TrueI] assms(2))

lemma recheck_rounds_sound:
  assumes "checks = [] \<Longrightarrow> checks_passed e (bdLog s)"
    and "\<And>rounds' still s. wp (again rounds' still) (\<lambda>(ok, _) s'. ok \<longrightarrow> sound e (bdLog s')) (\<lambda>_ _. True) s"
  shows "wp (recheck e c rules started rounds findings checks rnd again) (\<lambda>(ok, _) s'. ok \<longrightarrow> sound e (bdLog s')) (\<lambda>_ _. True) s"
proof -
  have onward: "wp (if still = [] then andThen (on_sum g) (\<lambda>_. ret (checks = [], checks)) else again rounds' still)
      (\<lambda>(ok, _) s'. ok \<longrightarrow> sound e (bdLog s')) (\<lambda>_ _. True) s'"
    if "checks = [] \<and> reviewPending found = [] \<longrightarrow> sound e (bdLog s')" "still = surviving @ reviewPending found" for found still surviving g rounds' s'
    using that assms(2) by (cases "still = []") auto
  show ?thesis
    unfolding recheck_def wp_andThen Let_def
    by (rule scan_passed [where checks' = checks, OF assms(1)])
      (auto simp: checks_passed_snoc simp del: append_is_Nil_conv split: option.splits
        intro!: wp_mono [OF recheck_sound [where checks' = checks]] onward)
qed

lemma fix_rounds_sound:
  "wp (fix_rounds e c rules started pending rounds findings checks session rnd n) (\<lambda>(ok, _) s'. ok \<longrightarrow> sound e (bdLog s')) (\<lambda>_ _. True) s"
proof (induction n arbitrary: rounds findings checks session rnd s)
  case 0
  show ?case by (simp add: review_left_open_def wp_if)
next
  case (Suc n)
  let ?Q = "\<lambda>(ok :: bool, _ :: string) s'. ok \<longrightarrow> sound e (bdLog s')"
  have left: "wp (review_left_open pending rounds findings checks) ?Q (\<lambda>_ _. True) s'" for s'
    by (simp add: review_left_open_def wp_if)
  have detail: "fix_checks_detail (gate, out) = [] \<Longrightarrow> gate = []" for gate out
    by (auto simp: fix_checks_detail_def split: if_splits)
  have checked: "wp (checksFormatted e) (\<lambda>r. wp (recheck e c rules started rounds findings (fix_checks_detail r) rnd' (\<lambda>rounds' still.
         fix_rounds e c rules started pending rounds' still (fix_checks_detail r) session' rnd' n)) ?Q (\<lambda>_ _. True)) (\<lambda>_ _. True) s'" for rnd' session' s'
    by (rule wp_mono [OF checksFormatted_passed]) (auto intro!: recheck_rounds_sound Suc.IH dest: detail)
  have fixed: "wp (build_round e c call prompt started budget) (\<lambda>a. wp (case a of (session', rnd') \<Rightarrow>
       andThen (on_sum (\<lambda>sm. if Suc n < maxFixRounds then sm\<lparr>smSecondRound := Some (lastFixRoundCost sm)\<rparr> else sm)) (\<lambda>_.
       andThen (checksFormatted e) (\<lambda>r. recheck e c rules started rounds findings (fix_checks_detail r) rnd' (\<lambda>rounds' still.
         fix_rounds e c rules started pending rounds' still (fix_checks_detail r) session' rnd' n)))) ?Q (\<lambda>_ _. True)) (\<lambda>_ _. True) s'" for call prompt budget s'
    by (rule wp_mono [OF wp_TrueI]) (auto intro: checked split: prod.splits)
  show ?case
    unfolding fix_rounds.simps using left fixed by (auto split: option.splits)
qed

lemma runReview_sound:
  assumes "checks_passed e (bdLog s)"
  shows "wp (runReview e c rules session rnd) (\<lambda>(ok, _) s'. ok \<longrightarrow> sound e (bdLog s')) (\<lambda>_ _. True) s"
proof -
  have "wp (reviewPass e c 1 rules timeout started nfr1ReviewBudget) (\<lambda>found. wp (
     let pending = guards @ reviewPending found in
     if pending = [] then ret (True, [])
     else fix_rounds e c rules started pending [] pending [] session rnd maxFixRounds) (\<lambda>(ok, _) s'. ok \<longrightarrow> sound e (bdLog s')) (\<lambda>_ _. True)) (\<lambda>_ _. True) s'"
    if "checks_passed e (bdLog s')" for timeout started guards s'
    by (rule wp_mono [OF recheck_sound [where checks' = "[]", OF that]]) (auto simp: Let_def wp_if intro: fix_rounds_sound)
  then show ?thesis
    unfolding runReview_def wp_andThen wp_simps
    by (intro scan_passed [where checks' = "[]"]) (auto simp: assms checks_passed_snoc)
qed

section \<open>The build\<close>

definition ready_sound :: "build_env \<Rightarrow> build_state \<Rightarrow> bool" where
  "ready_sound e s \<longleftrightarrow> (smReady (bdSum s) \<longrightarrow> sound e (bdLog s))"

lemma sound_snoc: "sound e l \<Longrightarrow> after_checks c \<Longrightarrow> no_agent c \<Longrightarrow> sound e (l @ [c])"
  by (simp add: sound_def checks_passed_snoc review_clean_snoc)

lemma ready_ask: "after_checks c \<Longrightarrow> no_agent c \<Longrightarrow> keeps (ready_sound e) F (ask c f)"
  by (rule keeps_ask) (simp add: ready_sound_def sound_snoc)

lemma ready_sum: "(\<And>sm. smReady (g sm) \<Longrightarrow> smReady sm) \<Longrightarrow> keeps (ready_sound e) F (on_sum g)"
  by (rule keeps_on_sum) (auto simp: ready_sound_def)

lemma ready_secrets: "keeps (ready_sound e) any_stop (check_secrets e secrets)"
proof (induction secrets)
  case (Cons secret secrets)
  have "keeps (ready_sound e) any_stop (case r of SecretFound err \<Rightarrow> halt OutcomeStopped StopSecretInBranch err
     | SearchFailed err \<Rightarrow> halt OutcomeInfraFailure StopCommit err | NoSecret \<Rightarrow> check_secrets e secrets)" for r
    using Cons by (cases r) (simp_all add: keeps_halt [OF any_stop])
  then show ?case unfolding check_secrets.simps by (intro keeps_intros ready_ask) simp_all
qed (simp add: keeps_intros)

lemma ready_commit: "keeps (ready_sound e) any_stop (commitWork e c planFiles)"
proof -
  have "keeps (ready_sound e) any_stop (verified v)" for v
    unfolding verified_def by (cases v) (simp_all add: keeps_intros any_stop)
  moreover have "keeps (ready_sound e) any_stop (final_message e c)"
    unfolding final_message_def commit_faults_def by (intro keeps_intros ready_ask any_stop) simp_all
  ultimately show ?thesis
    unfolding commitWork_def measure_commit_def bundle_branch_def commit_faults_def
    by (intro keeps_intros ready_ask ready_sum ready_secrets any_stop) (simp_all add: committed_def split: if_splits)
qed

lemma ready_timed: "keeps (ready_sound e) any_stop m \<Longrightarrow> keeps (ready_sound e) any_stop (timed e phase m)"
  by (rule keeps_timed) (auto simp: ready_sound_def enter_def leave_def sound_snoc)

lemma ready_commit_phase: "keeps (ready_sound e) any_stop (commit_phase e c planFiles)"
  unfolding commit_phase_def
  by (intro ready_timed keeps_intros ready_commit ready_sum any_stop) (simp_all add: with_ending_def split: if_splits)

lemma ready_finish:
  assumes "fst loop \<Longrightarrow> checks_passed e (bdLog s)"
  shows "wp (finish_build e c rules planFiles loop) (\<lambda>_ s'. ready_sound e s') (\<lambda>_ _. True) s"
proof -
  obtain ok detail session rnd where loop: "loop = (ok, detail, session, rnd)" by (cases loop)
  have commit: "wp (commit_phase e c planFiles) (\<lambda>_ s'. ready_sound e s') (\<lambda>_ _. True) s'" if "ready_sound e s'" for s'
    by (rule keeps_wp [OF ready_commit_phase that]) simp_all
  have reviewed: "wp (review_phase e c rules session rnd) (\<lambda>(ok, _) s'. ok \<longrightarrow> sound e (bdLog s')) (\<lambda>_ _. True) s" if ok
  proof -
    have "checks_passed e (bdLog (enter e PhaseReview s))" using assms that loop by (simp add: enter_def checks_passed_snoc)
    then show ?thesis
      unfolding review_phase_def wp_timed Let_def wp_handle
      by (rule wp_mono [OF runReview_sound]) (auto simp: wp_if leave_def sound_snoc split: prod.splits)
  qed
  show ?thesis
    unfolding finish_build_def loop
    by (auto simp: wp_if ready_sound_def intro!: wp_mono [OF reviewed] wp_mono [OF commit])
qed

lemma wp_onward: "(\<And>a s'. wp (f a) Q (\<lambda>_ _. True) s') \<Longrightarrow> wp (andThen m f) Q (\<lambda>_ _. True) s"
  unfolding wp_andThen by (rule wp_mono [OF wp_TrueI]) simp_all

lemma wp_pair: "(\<And>a b. wp (f a b) Q E s) \<Longrightarrow> wp (case x of (a, b) \<Rightarrow> f a b) Q E s"
  by (cases x) simp

lemma keep_work_not_built:
  assumes "stopOutcome err \<noteq> OutcomeBuilt"
  shows "wp (keep_work e c planFiles err) (\<lambda>_ s'. smOutcome (bdSum s') \<noteq> OutcomeBuilt) (\<lambda>_ _. True) s"
proof -
  have "OutcomeStopped \<noteq> OutcomeBuilt" by (simp add: outcome_defs)
  then show ?thesis
    using assms
    by (auto simp: keep_work_def with_ending_def split: sum.splits list.splits option.splits
        intro!: wp_mono [OF wp_TrueI [where m = "timed e PhaseCommit m" for m]])
qed

text \<open>
  C36: Whatever the agents, the checks and git answer, a build that ends built and ready rests on checks that passed
  and a last review that reported nothing: no build agent, check or formatter ran after those checks, and no
  agent after that review.
\<close>

theorem ready_build_sound:
  assumes "Build e c = (Inr r, s)" and "smOutcome (bdSum s) = OutcomeBuilt" and "smReady (bdSum s)"
  shows "checks_passed e (bdLog s) \<and> review_clean e (bdLog s)"
proof -
  let ?Q = "\<lambda>_ s'. smOutcome (bdSum s') = OutcomeBuilt \<longrightarrow> ready_sound e s'"
  let ?k = "([], [], PhaseBuild, [])"
  have built: "wp (timed e PhaseBuild (runCheckLoop e c rules prompt)) (\<lambda>loop. wp (finish_build e c rules planFiles loop) ?Q (\<lambda>_ _. True))
      (\<lambda>err. wp (keep_work e c planFiles err) ?Q (\<lambda>_ _. True)) s'" for rules prompt planFiles s'
  proof -
    have "wp (runCheckLoop e c rules prompt) (\<lambda>_ _. True) (\<lambda>err _. stopOutcome err \<noteq> OutcomeBuilt) s'" for s'
      by (rule runCheckLoop_wp [where k = "view (bdSum s')" and H = "{}"])
        (auto simp: holds_def stepped_def work_stop_def unstarted_def stops_in_def build_stops_def check_stops_def agent_stops_def agentFailures_def outcome_defs)
    from wp_conj [THEN iffD2, OF conjI, OF runCheckLoop_passed this]
    have "wp (runCheckLoop e c rules prompt) (\<lambda>loop s'. fst loop \<longrightarrow> checks_passed e (bdLog s')) (\<lambda>err _. stopOutcome err \<noteq> OutcomeBuilt) s'" for s'
      by (rule wp_mono) auto
    then show ?thesis
      unfolding wp_timed Let_def
      by (rule wp_mono)
        (auto simp: leave_def checks_passed_snoc intro!: wp_mono [OF ready_finish] wp_mono [OF keep_work_not_built])
  qed
  have "wp (build_phases e c) ?Q (\<lambda>_ _. True) (build_start e)"
    unfolding build_phases_def by (intro wp_onward wp_pair) (simp add: built)
  then have "wp (build_body e c) ?Q (\<lambda>_ _. True) (build_start e)"
    by (simp add: build_body_def split: option.splits)
  then have "ready_sound e s" using assms(1,2) by (auto simp: Build_def wp_def split: prod.splits sum.splits)
  then show ?thesis using assms(3) by (simp add: ready_sound_def sound_def)
qed

theorem ready_build_sound_witness:
  "\<exists>r s. Build sample_build_env sample_build_config = (Inr r, s) \<and> checks_passed sample_build_env (bdLog s) \<and> review_clean sample_build_env (bdLog s)"
  using sample_built ready_build_sound [of sample_build_env sample_build_config] by blast

section \<open>A guard left broken\<close>

text \<open>
  A probe whose second write fails leaves the guard broken in the worktree and stops the review; a review that
  stops leaves a draft, and the build goes on to its commit.
\<close>

lemma unrestored_guard_stops:
  assumes "beRead e (bdLog s @ [ReadSource (gdFile g)]) = Inr body"
    and "beWrite e (bdLog s @ [ReadSource (gdFile g), WriteSource (gdFile g) (breakGuard body g)]) = None"
    and "beWrite e (bdLog s @ [ReadSource (gdFile g), WriteSource (gdFile g) (breakGuard body g),
      TestPackage (gdPkg g) (min guardProbeTimeout left), WriteSource (gdFile g) body]) = Some err"
  shows "wp (probeGuard e run g left) (\<lambda>_ _. False) (\<lambda>err _. stopReason err = StopChecksRun) s"
  using assms by (simp add: probeGuard_def)

lemma stopped_review_goes_on:
  assumes "wp (runReview e c rules session rnd) (\<lambda>_ _. False) (\<lambda>err _. stopReason err = StopChecksRun) (enter e PhaseReview s)"
  shows "wp (review_phase e c rules session rnd) (\<lambda>(ready, _) _. \<not> ready) (\<lambda>_ _. False) s"
proof -
  have "StopChecksRun \<noteq> StopFormatterOutsideDiff" by (simp add: StopChecksRun_def StopFormatterOutsideDiff_def)
  then show ?thesis
    unfolding review_phase_def wp_timed Let_def wp_handle by (intro wp_mono [OF assms]) simp_all
qed

end
