(* ===== verification/Run_Bundle.thy ===== *)
theory Run_Bundle
  imports Run_Calls Run_Sample
begin

text \<open>
  What leaves a build: a bundle is written only of a worktree found untampered, committed, and searched for
  every secret, with no agent, check, formatter or probe in between.
\<close>

section \<open>A cleared branch\<close>

text \<open>The calls that edit nothing: no agent, no check, no formatter and no probe.\<close>

fun unchanging :: "run_call \<Rightarrow> bool" where
  "unchanging VerifyTree = True"
| "unchanging (SearchSecret _) = True"
| "unchanging c = plain c"

definition clean_commit :: "build_env \<Rightarrow> log_of_calls \<Rightarrow> bool" where
  "clean_commit e l \<longleftrightarrow> (\<exists>l0 a msg. l = l0 @ VerifyTree # a @ [CommitTree msg] \<and> beVerify e (l0 @ [VerifyTree]) = TreeKept \<and> list_all unchanging a)"

definition searched_for :: "build_env \<Rightarrow> log_of_calls \<Rightarrow> log_of_calls \<Rightarrow> string \<Rightarrow> bool" where
  "searched_for e l mid secret \<longleftrightarrow> (\<exists>m1 m2. mid = m1 @ SearchSecret secret # m2 \<and> beSecret e (l @ m1 @ [SearchSecret secret]) = NoSecret)"

text \<open>The calls so far leave a commit of a verified worktree in which each of the secrets was searched for and not found.\<close>

definition cleared :: "build_env \<Rightarrow> string set \<Rightarrow> log_of_calls \<Rightarrow> bool" where
  "cleared e S l \<longleftrightarrow> (\<exists>p mid. l = p @ mid \<and> clean_commit e p \<and> list_all unchanging mid \<and> (\<forall>secret \<in> S. searched_for e p mid secret))"

text \<open>Every bundle was written of a cleared branch.\<close>

definition guarded :: "build_env \<Rightarrow> string set \<Rightarrow> log_of_calls \<Rightarrow> bool" where
  "guarded e S l \<longleftrightarrow> (\<forall>before b later. l = before @ BundleTree b # later \<longrightarrow> cleared e S before)"

lemma searched_snoc: "searched_for e l mid secret \<Longrightarrow> searched_for e l (mid @ [c]) secret"
  unfolding searched_for_def by fastforce

lemma cleared_snoc: "cleared e S l \<Longrightarrow> unchanging c \<Longrightarrow> cleared e S (l @ [c])"
proof -
  assume "cleared e S l" and "unchanging c"
  then obtain p mid where "l = p @ mid" "clean_commit e p" "list_all unchanging (mid @ [c])" "\<forall>secret \<in> S. searched_for e p (mid @ [c]) secret"
    by (auto simp: cleared_def intro: searched_snoc)
  then show "cleared e S (l @ [c])" unfolding cleared_def by (intro exI [of _ p] exI [of _ "mid @ [c]"]) simp
qed

lemma cleared_reads: "cleared e S l \<Longrightarrow> cleared e S (l @ [CountLines])" "cleared e S l \<Longrightarrow> cleared e S (l @ [ReadTouched])"
  by (simp_all add: cleared_snoc)

lemma cleared_secret:
  assumes "cleared e S l" and "beSecret e (l @ [SearchSecret secret]) = NoSecret"
  shows "cleared e (insert secret S) (l @ [SearchSecret secret])"
proof -
  from assms(1) obtain p mid where l: "l = p @ mid" "clean_commit e p" "list_all unchanging mid" "\<forall>secret \<in> S. searched_for e p mid secret"
    by (auto simp: cleared_def)
  have "searched_for e p (mid @ [SearchSecret secret]) secret" using assms(2) l(1) by (auto simp: searched_for_def)
  then show ?thesis
    unfolding cleared_def using l by (intro exI [of _ p] exI [of _ "mid @ [SearchSecret secret]"]) (auto intro: searched_snoc)
qed

lemma cleared_commit: "clean_commit e l \<Longrightarrow> cleared e {} l"
  unfolding cleared_def by (intro exI [of _ l] exI [of _ "[]"]) simp

lemma guarded_snoc: "guarded e S (l @ [c]) \<longleftrightarrow> guarded e S l \<and> ((\<exists>b. c = BundleTree b) \<longrightarrow> cleared e S l)"
proof
  assume g: "guarded e S (l @ [c])"
  have "cleared e S before" if "l = before @ BundleTree b # later" for before b later
    using g [unfolded guarded_def, rule_format, of before b "later @ [c]"] that by simp
  moreover have "cleared e S l" if "c = BundleTree b" for b
    using g [unfolded guarded_def, rule_format, of l b "[]"] that by simp
  ultimately show "guarded e S l \<and> ((\<exists>b. c = BundleTree b) \<longrightarrow> cleared e S l)" by (auto simp: guarded_def)
next
  assume g: "guarded e S l \<and> ((\<exists>b. c = BundleTree b) \<longrightarrow> cleared e S l)"
  show "guarded e S (l @ [c])"
    unfolding guarded_def
  proof (intro allI impI)
    fix before b later assume "l @ [c] = before @ BundleTree b # later"
    then show "cleared e S before" using g by (cases later rule: rev_cases) (auto simp: guarded_def)
  qed
qed

lemma guarded_pair: "guarded e S (l @ [c, d]) \<longleftrightarrow> guarded e S (l @ [c]) \<and> ((\<exists>b. d = BundleTree b) \<longrightarrow> cleared e S (l @ [c]))"
  using guarded_snoc [of e S "l @ [c]" d] by simp

fun bundles :: "run_call \<Rightarrow> bool" where
  "bundles (BundleTree _) = True"
| "bundles _ = False"

lemma bundles_iff: "bundles c \<longleftrightarrow> (\<exists>b. c = BundleTree b)"
  by (cases c) simp_all

lemma not_bundles: "runs_checks d \<Longrightarrow> \<not> bundles d" "runs_probe d \<Longrightarrow> \<not> bundles d"
  by (cases d; simp)+

interpretation unbundled: call_invariant "\<lambda>s. guarded e S (bdLog s)" "\<lambda>c. \<not> bundles c" for e S
proof
  show "plain c \<Longrightarrow> \<not> bundles c" for c by (cases c) simp_all
qed (simp_all add: guarded_snoc bundles_iff)

section \<open>The commit\<close>

lemma check_secrets_clear:
  assumes "guarded e G (bdLog s)" and "cleared e S (bdLog s)"
  shows "wp (check_secrets e secrets) (\<lambda>_ s'. guarded e G (bdLog s') \<and> cleared e (S \<union> set secrets) (bdLog s')) (\<lambda>_ s'. guarded e G (bdLog s')) s"
  using assms
proof (induction secrets arbitrary: s S)
  case (Cons secret secrets)
  have "cleared e (insert secret S) (bdLog s @ [SearchSecret secret])" if "beSecret e (bdLog s @ [SearchSecret secret]) = NoSecret"
    using Cons.prems(2) that by (rule cleared_secret)
  then show ?case
    using Cons.prems Cons.IH [of "s\<lparr>bdLog := bdLog s @ [SearchSecret secret]\<rparr>" "insert secret S"]
    by (auto simp: guarded_snoc split: secret_search.splits)
qed simp

lemma bundle_branch_guarded:
  assumes "guarded e (set (bcSecrets c)) (bdLog s)" and "cleared e {} (bdLog s)"
  shows "wp (bundle_branch e c) (\<lambda>_ s'. guarded e (set (bcSecrets c)) (bdLog s')) (\<lambda>_ s'. guarded e (set (bcSecrets c)) (bdLog s')) s"
  unfolding bundle_branch_def wp_andThen
  by (rule wp_mono [OF check_secrets_clear [OF assms]])
    (auto simp: guarded_snoc guarded_pair commit_faults_def Let_def cleared_reads split: sum.splits option.splits)

lemma measure_commit_guarded:
  assumes "guarded e (set (bcSecrets c)) (bdLog s)" and "cleared e {} (bdLog s)"
  shows "wp (measure_commit e c planFiles files) (\<lambda>_ s'. guarded e (set (bcSecrets c)) (bdLog s')) (\<lambda>_ s'. guarded e (set (bcSecrets c)) (bdLog s')) s"
  using assms
  by (auto simp: measure_commit_def wp_if commit_faults_def guarded_snoc cleared_reads split: sum.splits intro!: bundle_branch_guarded)

lemma final_message_log:
  "wp (final_message e c) (\<lambda>_ s'. bdLog s' \<in> {bdLog s, bdLog s @ [ReadPending]}) (\<lambda>_ s'. bdLog s' = bdLog s @ [ReadPending]) s"
  by (auto simp: final_message_def commit_faults_def wp_if split: sum.splits)

lemma clean_commitI:
  assumes "beVerify e (l @ [VerifyTree]) = TreeKept" and "l' \<in> {l @ [VerifyTree], (l @ [VerifyTree]) @ [ReadPending]}"
  shows "clean_commit e (l' @ [CommitTree msg])"
proof -
  from assms(2) obtain a where "l' = l @ VerifyTree # a" "list_all unchanging a" by auto
  then show ?thesis using assms(1) unfolding clean_commit_def by (intro exI [of _ l] exI [of _ a] exI [of _ msg]) simp
qed

lemma commitWork_guarded:
  assumes "guarded e (set (bcSecrets c)) (bdLog s)"
  shows "wp (commitWork e c planFiles) (\<lambda>_ s'. guarded e (set (bcSecrets c)) (bdLog s')) (\<lambda>_ s'. guarded e (set (bcSecrets c)) (bdLog s')) s"
proof -
  let ?S = "set (bcSecrets c)" and ?l = "bdLog s @ [VerifyTree]"
  have g: "guarded e ?S ?l" "guarded e ?S (bdLog s @ [VerifyTree, ReadPending])"
    using assms by (simp_all add: guarded_snoc guarded_pair)
  show ?thesis
  proof (cases "beVerify e ?l")
    case TreeKept
    have ready: "guarded e ?S (bdLog s' @ [CommitTree msg])" "cleared e {} (bdLog s' @ [CommitTree msg])"
      if "bdLog s' \<in> {?l, ?l @ [ReadPending]}" for s' msg
      using that g cleared_commit [OF clean_commitI [OF TreeKept that]] by (auto simp: guarded_snoc)
    have "wp (ask (CommitTree m) (beCommit e)) (\<lambda>r. wp (andThen (commit_faults r) (\<lambda>files. andThen (on_sum (g files)) (\<lambda>_. measure_commit e c planFiles files)))
        (\<lambda>_ s'. guarded e ?S (bdLog s')) (\<lambda>_ s'. guarded e ?S (bdLog s'))) (\<lambda>_ s'. guarded e ?S (bdLog s')) s'"
      if "bdLog s' \<in> {?l, ?l @ [ReadPending]}" for m g s'
      using ready [OF that] by (auto simp: commit_faults_def split: sum.splits intro!: measure_commit_guarded)
    then show ?thesis
      using g TreeKept unfolding commitWork_def
      by (simp add: verified_def del: wp_demand) (rule wp_mono [OF final_message_log], auto simp del: wp_demand)
  qed (use g in \<open>simp_all add: commitWork_def verified_def\<close>)
qed

lemma commit_kept: "keeps (\<lambda>s. guarded e (set (bcSecrets c)) (bdLog s)) any_stop (commitWork e c planFiles)"
  by (rule keepsI) (simp add: any_stop commitWork_guarded)

section \<open>The build\<close>

lemma keep_work_kept: "keeps (\<lambda>s. guarded e (set (bcSecrets c)) (bdLog s)) any_stop (keep_work e c planFiles err)"
  unfolding keep_work_def
  by (intro unbundled.basics unbundled.phases commit_kept) (auto split: sum.splits list.splits option.splits
      intro!: unbundled.basics unbundled.phases commit_kept)

lemma finish_build_kept: "keeps (\<lambda>s. guarded e (set (bcSecrets c)) (bdLog s)) any_stop (finish_build e c rules planFiles loop)"
proof -
  have "keeps (\<lambda>s. guarded e (set (bcSecrets c)) (bdLog s)) any_stop (runReview e c rules session rnd)" for session rnd
    by (rule unbundled.reviewed) (simp_all add: not_bundles)
  then show ?thesis
    unfolding finish_build_def review_phase_def commit_phase_def
    by (intro unbundled.basics unbundled.phases keeps_handle [where G = any_stop] commit_kept)
qed

lemma build_body_kept: "keeps (\<lambda>s. guarded e (set (bcSecrets c)) (bdLog s)) any_stop (build_body e c)"
proof -
  let ?P = "\<lambda>s. guarded e (set (bcSecrets c)) (bdLog s)"
  have gates: "keeps ?P any_stop (gate_models e r ms)" for r ms
    by (induction ms) (auto simp: keeps_ret split: sum.splits refused.splits intro!: keeps_halt any_stop)
  have loop: "keeps ?P any_stop (runCheckLoop e c rules prompt)" for rules prompt
    by (rule unbundled.looped) (simp_all add: not_bundles)
  have plan: "keeps ?P any_stop (runPlanPhase e c)"
    by (rule unbundled.planned) simp
  show ?thesis
    unfolding build_body_def build_phases_def projection_phase_def gated_projection_def worktree_phase_def start_phase_def plan_phase_def
    by (intro unbundled.basics unbundled.phases unbundled.projections gates plan loop keeps_handle [where G = any_stop] keep_work_kept finish_build_kept) simp_all
qed

text \<open>
  C37: Whatever the agents and git answer, a build bundles only a commit of a worktree that verified as untampered, in
  which every one of its secrets was searched for and not found after the commit, no agent, check, formatter
  or guard probe having run since the verification.
\<close>

theorem bundle_cleared: "guarded e (set (bcSecrets c)) (bdLog (snd (Build e c)))"
proof -
  have "guarded e (set (bcSecrets c)) (bdLog (build_start e))" by (simp add: guarded_def build_start_def Cons_eq_append_conv)
  from keepsD [OF build_body_kept this] show ?thesis by (auto simp: Build_def wp_def split: prod.splits sum.splits)
qed

end
