(* ===== verification/Run_Bounds.thy ===== *)
theory Run_Bounds
  imports Run_Calls Run_Sample
begin

text \<open>
  What a build may cost: a weight on its calls, added up along the build, bounds how many agents it runs in
  each phase and how many times it runs the checks, whatever the agents, the checks and git answer.
\<close>

section \<open>Weights\<close>

text \<open>A weight for an agent of each phase and for a run of the checks; every other call is free.\<close>

record weights =
  wtPlan :: nat
  wtBuild :: nat
  wtReview :: nat
  wtChecks :: nat

fun weight :: "weights \<Rightarrow> run_call \<Rightarrow> nat" where
  "weight w (AgentRun call _) = (if acPhase call = PhasePlan then wtPlan w else if acPhase call = PhaseBuild then wtBuild w
     else if acPhase call = PhaseReview then wtReview w else 0)"
| "weight w (RunChecks _) = wtChecks w"
| "weight w _ = 0"

definition weighs :: "weights \<Rightarrow> build_state \<Rightarrow> nat" where
  "weighs w s = sum_list (map (weight w) (bdLog s))"

lemma weighs_simps [simp]:
  "weighs w (s\<lparr>bdLog := l @ [c]\<rparr>) = weighs w (s\<lparr>bdLog := l\<rparr>) + weight w c"
  "weighs w (s\<lparr>bdSum := sm\<rparr>) = weighs w s" "weighs w (s\<lparr>bdMsg := msg\<rparr>) = weighs w s"
  "weighs w (s\<lparr>bdLog := bdLog s\<rparr>) = weighs w s"
  "weighs w (s\<lparr>bdLog := bdLog s @ [c], bdSum := sm\<rparr>) = weighs w s + weight w c"
  by (simp_all add: weighs_def)

lemma weight_plain: "plain c \<Longrightarrow> weight w c = 0"
  by (cases c) simp_all

text \<open>Calls of no weight keep every bound.\<close>

interpretation free: call_invariant "\<lambda>s. weighs w s \<le> n" "\<lambda>c. weight w c = 0" for w n
  by unfold_locales (simp_all add: weight_plain)

text \<open>A program that adds at most \<open>n\<close>, however it ends.\<close>

definition adds :: "weights \<Rightarrow> nat \<Rightarrow> 'a program \<Rightarrow> bool" where
  "adds w n m \<longleftrightarrow> (\<forall>s k. weighs w s \<le> k \<longrightarrow> wp m (\<lambda>_ s'. weighs w s' \<le> k + n) (\<lambda>_ s'. weighs w s' \<le> k + n) s)"

lemma addsI: "(\<And>s k. weighs w s \<le> k \<Longrightarrow> wp m (\<lambda>_ s'. weighs w s' \<le> k + n) (\<lambda>_ s'. weighs w s' \<le> k + n) s) \<Longrightarrow> adds w n m"
  by (simp add: adds_def)

lemma addsD: "adds w n m \<Longrightarrow> weighs w s \<le> k \<Longrightarrow> wp m (\<lambda>_ s'. weighs w s' \<le> k + n) (\<lambda>_ s'. weighs w s' \<le> k + n) s"
  by (simp add: adds_def)

lemma adds_free: "(\<And>k. keeps (\<lambda>s. weighs w s \<le> k) any_stop m) \<Longrightarrow> adds w 0 m"
  by (rule addsI) (auto intro: keeps_wp)

lemma adds_more: "adds w n m \<Longrightarrow> n \<le> k \<Longrightarrow> adds w k m"
  by (rule addsI, drule (1) addsD, erule wp_mono) simp_all

lemma adds_andThen: "adds w n m \<Longrightarrow> (\<And>a. adds w k (f a)) \<Longrightarrow> adds w (n + k) (andThen m f)"
  by (rule addsI, unfold wp_andThen, drule (1) addsD, erule wp_mono) (auto simp: add.assoc [symmetric] dest: addsD)

lemma adds_handle:
  "adds w n m \<Longrightarrow> (\<And>err. adds w k (g err)) \<Longrightarrow> (\<And>a. adds w k (f a)) \<Longrightarrow> adds w (n + k) (handle m g f)"
  by (rule addsI, unfold wp_handle, drule (1) addsD, erule wp_mono) (auto simp: add.assoc [symmetric] dest: addsD)

lemma adds_ask: "weight w c \<le> n \<Longrightarrow> adds w n (ask c f)"
  by (simp add: adds_def weighs_def)

lemma weighs_phase [simp]: "weighs w (leave e phase t s) = weighs w s" "weighs w (enter e phase s) = weighs w s"
  by (simp_all add: leave_def enter_def weighs_def)

lemma adds_timed: "adds w n m \<Longrightarrow> adds w n (timed e phase m)"
  by (rule addsI) (simp add: wp_timed Let_def addsD)

lemma adds_if: "(b \<Longrightarrow> adds w n m) \<Longrightarrow> (\<not> b \<Longrightarrow> adds w n k) \<Longrightarrow> adds w n (if b then m else k)"
  by simp

lemma adds_option: "adds w n m \<Longrightarrow> (\<And>a. adds w n (f a)) \<Longrightarrow> adds w n (case x of None \<Rightarrow> m | Some a \<Rightarrow> f a)"
  by (cases x) simp_all

lemma adds_prod: "(\<And>a b. adds w n (f a b)) \<Longrightarrow> adds w n (case x of (a, b) \<Rightarrow> f a b)"
  by (cases x) simp

section \<open>Agents and checks\<close>

definition phase_weight :: "weights \<Rightarrow> string \<Rightarrow> nat" where
  "phase_weight w phase = (if phase = PhasePlan then wtPlan w else if phase = PhaseBuild then wtBuild w
     else if phase = PhaseReview then wtReview w else 0)"

lemma weight_agent: "weight w (AgentRun call prompt) = phase_weight w (acPhase call)"
  by (simp add: phase_weight_def)

lemma runAgent_adds: "adds w (phase_weight w (acPhase call)) (runAgent e c call agent prompt)"
proof -
  have rest: "adds w 0 (andThen (upload e a) (\<lambda>_. andThen (upload e b) (\<lambda>_. andThen (ask ClockRead (beNow e)) (\<lambda>finished.
      andThen (on_sum (g finished)) (\<lambda>_. agent_verdict e call agent timeout r)))))" for a b g timeout r
    by (rule adds_free, unfold upload_def agent_verdict_def, intro free.basics) (simp_all add: case_prod_beta split: option.splits)
  have start: "adds w 0 (ask ClockRead (beNow e))" "adds w 0 (ask (CreateFiles p n) (beFiles e))" "adds w 0 (require o1 r1 x)" for p n o1 r1 x
    by (simp_all add: adds_ask adds_def split: option.splits)
  have "adds w (0 + (0 + (0 + (phase_weight w (acPhase call) + 0)))) (runAgent e c call agent prompt)"
    unfolding runAgent_def Let_def
    by (intro adds_andThen start rest adds_ask) (simp add: weight_agent del: weight.simps)
  then show ?thesis by simp
qed

lemma models_in_order_adds:
  assumes "adds w 0 left"
  shows "adds w (length models * phase_weight w (acPhase call)) (models_in_order e c call agent prompt left first stop rnd models)"
proof (induction models arbitrary: stop rnd)
  case Nil
  then show ?case by (simp add: adds_free free.stops)
next
  case (Cons m ms)
  let ?n = "phase_weight w (acPhase call)"
  have out: "adds w k (exhausted first stop)" for k
    by (rule adds_more [OF adds_free [OF free.stops]]) simp
  have again: "adds w k (\<lambda>s. (Inl err, s))" "adds w k (ret x)" for k err x
    by (simp_all add: adds_def wp_def ret_def)
  have first: "adds w 0 (if stop = None then ret (Some (acTimeout call)) else left)"
    using assms by (simp add: adds_def)
  have "adds w (0 + (?n + length ms * ?n)) (models_in_order e c call agent prompt left first stop rnd (m # ms))"
    unfolding models_in_order.simps
    using runAgent_adds [of w "call\<lparr>acModel := m, acRound := rnd, acTimeout := t\<rparr>" e c agent prompt for t]
    by (intro adds_andThen first adds_option out adds_handle adds_if Cons.IH again adds_prod) simp_all
  then show ?case by simp
qed

lemma in_order_adds:
  "adds w (length models * phase_weight w (acPhase call)) (runAgentInOrder e c call models agent prompt started budget)"
  unfolding runAgentInOrder_def by (rule models_in_order_adds, rule adds_free, intro free.basics) simp

text \<open>A failing format gate is fixed once each, so the checks run at most three times.\<close>

lemma timedChecks_adds: "adds w (wtChecks w) (timedChecks e)"
proof -
  have before: "adds w 0 (pending_files e)" "adds w 0 (ask ClockRead (beNow e))"
    by (rule adds_free, unfold pending_files_def, intro free.basics, simp) (simp add: adds_ask)
  have after: "adds w 0 (andThen (ask ClockRead (beNow e)) (\<lambda>finished. andThen (on_sum (g finished)) (\<lambda>_. demand o1 r1 x)))" for g o1 r1 and x :: "string + 'z"
    by (rule adds_free, intro free.basics) simp_all
  have "adds w (0 + (0 + (wtChecks w + 0))) (timedChecks e)"
    unfolding timedChecks_def by (intro adds_andThen before after adds_ask) simp
  then show ?thesis by simp
qed

lemma formatInPlace_adds: "adds w 0 (formatInPlace e run gate)"
  by (rule adds_free, unfold formatInPlace_def pending_files_def, intro free.basics free.calls) simp_all

lemma checks_formatted_adds: "adds w ((1 + unformatted formatted) * wtChecks w) (checks_formatted e formatted)"
proof -
  let ?B = "\<lambda>s formatted _ s'. weighs w s' \<le> weighs w s + (1 + unformatted formatted) * wtChecks w"
  have "wp (checks_formatted e formatted) (?B s formatted) (?B s formatted) s" for s
  proof (induction e formatted s rule: checks_formatted.induct)
    case (1 e formatted s)
    obtain r s1 where r: "timedChecks e s = (r, s1)" by (cases "timedChecks e s")
    have w1: "weighs w s1 \<le> weighs w s + wtChecks w"
      using addsD [OF timedChecks_adds [of w e] order_refl, of s] r by (auto simp: wp_def split: sum.splits)
    show ?case
    proof (cases "\<exists>gate out run. r = Inr (gate, out) \<and> beFormat e = Some run \<and> isFormatGate gate \<and> gate \<notin> set formatted")
      case False
      then show ?thesis using r w1
        by (auto simp: wp_def checks_formatted.simps [of e formatted s] split: sum.splits option.splits)
    next
      case True
      then obtain gate out run where go: "r = Inr (gate, out)" "beFormat e = Some run" "isFormatGate gate" "gate \<notin> set formatted" by blast
      obtain r2 s2 where r2: "formatInPlace e run gate s1 = (r2, s2)" by (cases "formatInPlace e run gate s1")
      have w2: "weighs w s2 \<le> weighs w s + wtChecks w"
        using addsD [OF formatInPlace_adds w1, of e run gate] r2 by (auto simp: wp_def split: sum.splits)
      show ?thesis
      proof (cases r2)
        case (Inl err)
        then show ?thesis using r go r2 w2 by (simp add: wp_def checks_formatted.simps [of e formatted s])
      next
        case (Inr u)
        have less: "1 + unformatted (gate # formatted) \<le> unformatted formatted" using go by (simp add: Suc_leI unformatted_less)
        have "wp (checks_formatted e (gate # formatted)) (?B s2 (gate # formatted)) (?B s2 (gate # formatted)) s2"
          using 1 [OF r [symmetric] go(1) refl go(2) _ r2 [symmetric] Inr] go by simp
        moreover have "weighs w s2 + (1 + unformatted (gate # formatted)) * wtChecks w \<le> weighs w s + (1 + unformatted formatted) * wtChecks w"
          using w2 mult_le_mono1 [OF less, of "wtChecks w"] by simp
        ultimately have "wp (checks_formatted e (gate # formatted)) (?B s formatted) (?B s formatted) s2"
          by (auto elim: wp_mono)
        then show ?thesis using r go r2 Inr by (simp add: wp_def checks_formatted.simps [of e formatted s])
      qed
    qed
  qed
  then show ?thesis by (intro addsI) (rule wp_mono, assumption, simp_all)
qed

lemma checksFormatted_adds: "adds w (3 * wtChecks w) (checksFormatted e)"
proof -
  have "1 + unformatted [] = 3" by (simp add: unformatted_def)
  then show ?thesis using checks_formatted_adds [of w "[]" e] by (simp only: checksFormatted_def)
qed

section \<open>The loops\<close>

lemma build_round_adds:
  "acPhase call = PhaseBuild \<Longrightarrow> adds w (length (buildOrder c) * wtBuild w) (build_round e c call prompt started budget)"
proof -
  assume call: "acPhase call = PhaseBuild"
  have rest: "adds w 0 (case a of (ans, session, rnd) \<Rightarrow> andThen (on_msg (adopt (bePrint e) ans (tkID (bcTicket c)))) (\<lambda>_. ret (session, rnd)))" for a
    by (rule adds_free, intro free.basics)
  have "phase_weight w PhaseBuild = wtBuild w" by (simp add: phase_weight_def PhaseBuild_def PhasePlan_def)
  then have "adds w (length (buildOrder c) * wtBuild w + 0) (build_round e c call prompt started budget)"
    unfolding build_round_def using in_order_adds [of w "buildOrder c" call] call by (intro adds_andThen rest) simp
  then show ?thesis by simp
qed

text \<open>A free program in front of one that may cost.\<close>

lemma adds_first: "adds w 0 m \<Longrightarrow> (\<And>a. adds w k (f a)) \<Longrightarrow> adds w k (andThen m f)"
  using adds_andThen [of w 0 m k f] by simp

lemma adds_last: "adds w k m \<Longrightarrow> (\<And>a. adds w 0 (f a)) \<Longrightarrow> adds w k (andThen m f)"
  using adds_andThen [of w k m 0 f] by simp

lemma adds_ret: "adds w k (ret a)" "adds w k (halt o1 r1 t)" "adds w k (stop_again err)"
  by (simp_all add: adds_def)

lemma adds_read: "adds w 0 (read_sum g)" "adds w 0 (on_sum h)" "adds w 0 (require o1 r1 x)" "adds w 0 (demand o1 r1 y)"
  by (simp_all add: adds_def split: option.splits sum.splits)

lemma adds_plain: "plain c \<Longrightarrow> adds w 0 (ask c f)"
  by (simp add: adds_ask weight_plain)

lemma adds_budget: "adds w 0 (build_budget e c)" "adds w 0 (budget_or_stop e c)"
  by (rule adds_free, rule free.budgets)+

lemmas adds_steps = adds_ret adds_read adds_budget adds_prod adds_if adds_option

text \<open>A round of the check loop: its checks, and the rebuild they may lead to.\<close>

definition round_cost :: "weights \<Rightarrow> build_config \<Rightarrow> nat" where
  "round_cost w c = 3 * wtChecks w + length (buildOrder c) * wtBuild w"

lemma check_rounds_adds: "adds w (3 * wtChecks w + left * round_cost w c) (check_rounds e c rules session rnd left)"
proof (induction left arbitrary: session rnd)
  case 0
  have "adds w (3 * wtChecks w + 0) (check_rounds e c rules session rnd 0)"
    by (subst check_rounds.simps, simp only: prod.case nat.case)
      (intro adds_andThen checksFormatted_adds adds_prod adds_if adds_ret adds_first [OF adds_budget(1)])
  then show ?case by simp
next
  case (Suc n)
  let ?b = "length (buildOrder c) * wtBuild w"
  have again: "adds w (?b + (3 * wtChecks w + n * round_cost w c)) (andThen (read_sum smStartedAt) (\<lambda>started.
      andThen (build_round e c \<lparr>acPhase = PhaseBuild, acRound = rnd + 1, acModel = bcModel c, acSession = session, acRules = rules,
          acDetail = gate, acTimeout = t\<rparr> (prompt gate out) started nfr1BuildBudget) (\<lambda>(session', rnd'). check_rounds e c rules session' rnd' n)))"
    for gate t out prompt
    by (intro adds_first [OF adds_read(1)] adds_andThen build_round_adds adds_prod Suc.IH) simp
  have "adds w (3 * wtChecks w + (?b + (3 * wtChecks w + n * round_cost w c))) (check_rounds e c rules session rnd (Suc n))"
    by (subst check_rounds.simps, simp only: prod.case nat.case)
      (intro adds_andThen checksFormatted_adds adds_prod adds_if adds_ret adds_first [OF adds_budget(1)] adds_option again)
  then show ?case by (rule adds_more) (simp add: round_cost_def)
qed

lemma runCheckLoop_adds: "adds w (checkLoopMaxRounds * round_cost w c) (runCheckLoop e c rules prompt)"
proof -
  let ?b = "length (buildOrder c) * wtBuild w" and ?r = "3 * wtChecks w + (checkLoopMaxRounds - 1) * round_cost w c"
  have "adds w (?b + ?r) (runCheckLoop e c rules prompt)"
    unfolding runCheckLoop_def
    by (intro adds_first [OF adds_budget(1)] adds_option adds_ret adds_first [OF adds_read(1)] adds_andThen build_round_adds adds_prod
        adds_first [OF adds_plain] adds_first [OF adds_read(4)] adds_if check_rounds_adds) simp_all
  then show ?thesis by (rule adds_more) (simp add: round_cost_def checkLoopMaxRounds_def algebra_simps)
qed

lemma scanGuards_adds: "adds w 0 (scanGuards e started budget)"
  by (rule adds_free, rule free.scanned_guards) (case_tac d, simp_all)

lemma reviewPass_adds: "adds w (length (bcReviewModels c) * wtReview w) (reviewPass e c rnd rules timeout started budget)"
proof -
  have "phase_weight w PhaseReview = wtReview w" by (simp add: phase_weight_def PhaseBuild_def PhasePlan_def PhaseReview_def)
  then have order: "acPhase call = PhaseReview \<Longrightarrow> adds w (length (bcReviewModels c) * wtReview w)
      (runAgentInOrder e c call (bcReviewModels c) agent prompt started budget)" for call agent prompt
    using in_order_adds [of w "bcReviewModels c" call e c agent prompt started budget] by simp
  show ?thesis
    unfolding reviewPass_def
    by (intro adds_first [OF adds_plain] adds_first [OF adds_read(4)] adds_last [OF order] adds_prod adds_read) simp_all
qed

definition fix_cost :: "weights \<Rightarrow> build_config \<Rightarrow> nat" where
  "fix_cost w c = round_cost w c + length (bcReviewModels c) * wtReview w"

lemma left_open_adds: "adds w 0 (review_left_open pending rounds findings checks)"
  by (rule adds_free, rule free.left_open)

lemma recheck_adds:
  assumes "\<And>rounds' still. adds w n (again rounds' still)"
  shows "adds w (length (bcReviewModels c) * wtReview w + n) (recheck e c rules started rounds findings checks rnd again)"
  unfolding recheck_def Let_def
  by (intro adds_first [OF scanGuards_adds] adds_first [OF adds_plain] adds_option adds_first [OF adds_read(2)] adds_ret adds_andThen
      reviewPass_adds adds_if assms) simp_all

lemma fix_rounds_adds: "adds w (n * fix_cost w c) (fix_rounds e c rules started pending rounds findings checks session rnd n)"
proof (induction n arbitrary: rounds findings checks session rnd)
  case 0
  then show ?case by (simp add: left_open_adds)
next
  case (Suc n)
  let ?b = "length (buildOrder c) * wtBuild w" and ?v = "length (bcReviewModels c) * wtReview w"
  have "adds w (?b + (3 * wtChecks w + (?v + n * fix_cost w c)))
      (fix_rounds e c rules started pending rounds findings checks session rnd (Suc n))"
    unfolding fix_rounds.simps
    by (intro adds_first [OF adds_plain] adds_option adds_more [OF left_open_adds] adds_andThen build_round_adds adds_prod
        adds_first [OF adds_read(2)] checksFormatted_adds recheck_adds Suc.IH) simp_all
  then show ?case by (rule adds_more) (simp add: round_cost_def fix_cost_def)
qed

lemma runReview_adds: "adds w (length (bcReviewModels c) * wtReview w + maxFixRounds * fix_cost w c) (runReview e c rules session rnd)"
  unfolding runReview_def Let_def
  by (intro adds_first [OF adds_read(1)] adds_first [OF scanGuards_adds] adds_first [OF adds_plain] adds_andThen reviewPass_adds
      adds_if adds_ret fix_rounds_adds) simp

section \<open>The build\<close>

lemma plan_order_adds:
  "adds w (length models * wtPlan w) (plan_order e c (plan_call rnd model session rules t) models prompt)"
proof -
  have "phase_weight w PhasePlan = wtPlan w" by (simp add: phase_weight_def)
  then show ?thesis
    unfolding plan_order_def
    using in_order_adds [of w models "plan_call rnd model session rules t"]
    by (intro adds_first [OF adds_read(1)]) (simp add: plan_call_def)
qed

lemma runPlanPhase_adds: "adds w (2 * length (bcPlanModels c) * wtPlan w) (runPlanPhase e c)"
proof -
  let ?n = "length (bcPlanModels c) * wtPlan w"
  have judged: "adds w ?n (judged_plan e c rules replied)" for rules replied
  proof -
    have again: "adds w ?n (plan_order e c (plan_call rnd model session rules t) (drop k (bcPlanModels c)) prompt)" for rnd model session t k prompt
      by (rule adds_more [OF plan_order_adds]) simp
    show ?thesis
      unfolding judged_plan_def Let_def
      by (cases replied) (auto split: sum.splits intro!: adds_ret adds_first [OF adds_budget(2)] adds_last [OF again] simp: case_prod_beta)
  qed
  have verdict: "adds w 0 (plan_verdict r)" for r
    unfolding plan_verdict_def by (auto split: sum.splits plan_artifact.splits intro: adds_ret)
  have fetched: "adds w 0 (FetchProjection e c name)" for name
    by (rule adds_free, rule free.projections)
  have "adds w (?n + ?n) (runPlanPhase e c)"
    unfolding runPlanPhase_def
    by (intro adds_first [OF fetched] adds_first [OF adds_read(4)] adds_prod adds_first [OF adds_budget(2)] adds_andThen plan_order_adds
        adds_last [OF judged verdict])
  then show ?thesis by (rule adds_more) simp
qed

text \<open>What a build may run at most: every plan model twice, and each round of the check and the fix loop.\<close>

definition build_cost :: "weights \<Rightarrow> build_config \<Rightarrow> nat" where
  "build_cost w c = 2 * length (bcPlanModels c) * wtPlan w
     + (checkLoopMaxRounds + maxFixRounds) * (3 * wtChecks w + length (buildOrder c) * wtBuild w)
     + (1 + maxFixRounds) * length (bcReviewModels c) * wtReview w"

lemma commit_adds: "adds w 0 (commitWork e c planFiles)"
  by (rule adds_free, rule free.commits) simp_all

lemma keep_work_adds: "adds w 0 (keep_work e c planFiles err)"
  unfolding keep_work_def
  by (auto split: sum.splits list.splits option.splits intro!: adds_ret adds_first [OF adds_plain] adds_first [OF adds_timed [OF commit_adds]]
      adds_first [OF adds_read(2)])

lemma finish_build_adds:
  "adds w (length (bcReviewModels c) * wtReview w + maxFixRounds * fix_cost w c) (finish_build e c rules planFiles loop)"
proof -
  let ?n = "length (bcReviewModels c) * wtReview w + maxFixRounds * fix_cost w c"
  have review: "adds w ?n (review_phase e c rules session rnd)" for session rnd
  proof -
    have "adds w (?n + 0) (handle (runReview e c rules session rnd)
       (\<lambda>err. if stopReason err = StopFormatterOutsideDiff then stop_again err else ret (False, reviewFailureDetail (stopText err))) ret)"
      by (intro adds_handle runReview_adds adds_if adds_ret)
    then show ?thesis unfolding review_phase_def by (intro adds_timed) simp
  qed
  have commit: "adds w 0 (commit_phase e c planFiles)"
    unfolding commit_phase_def
    by (intro adds_timed adds_first [OF commit_adds]) (auto split: option.splits intro!: adds_ret adds_first [OF adds_read(2)])
  show ?thesis
    unfolding finish_build_def
    by (cases loop) (auto intro!: adds_last [OF review] adds_last [OF adds_ret(1)] adds_first [OF adds_read(2)] adds_first [OF commit] adds_ret)
qed

lemma build_body_adds: "adds w (build_cost w c) (build_body e c)"
proof -
  have phases: "adds w 0 (timed e PhaseProjection (projection_phase e c))" "adds w 0 (timed e PhaseWorktree (worktree_phase e c))" "adds w 0 (start_phase e)"
  proof -
    have "keeps (\<lambda>s. weighs w s \<le> k) any_stop (gate_models e r ms)" for k r ms
      by (induction ms) (auto simp: keeps_ret split: sum.splits refused.splits intro!: keeps_halt any_stop)
    then show "adds w 0 (timed e PhaseProjection (projection_phase e c))"
      by (intro adds_timed adds_free) (unfold projection_phase_def gated_projection_def, intro free.basics free.projections)
    show "adds w 0 (timed e PhaseWorktree (worktree_phase e c))"
      by (intro adds_timed adds_free) (unfold worktree_phase_def, intro free.basics, simp)
    show "adds w 0 (start_phase e)"
      unfolding start_phase_def by (intro adds_option adds_ret adds_timed adds_first [OF adds_plain] adds_read) simp
  qed
  have plan: "adds w (2 * length (bcPlanModels c) * wtPlan w) (plan_phase e c)"
    unfolding plan_phase_def by (intro adds_if adds_ret adds_timed adds_last [OF runPlanPhase_adds])
  have checks: "adds w (0 :: nat) (require o1 r1 x)" for o1 r1 x by (rule adds_read)
  let ?r = "checkLoopMaxRounds * round_cost w c" and ?f = "length (bcReviewModels c) * wtReview w + maxFixRounds * fix_cost w c"
  have "adds w (2 * length (bcPlanModels c) * wtPlan w + (?r + ?f)) (build_body e c)"
    unfolding build_body_def build_phases_def
    by (intro adds_first [OF checks] adds_first [OF phases(1)] adds_first [OF phases(2)] adds_first [OF phases(3)] adds_prod adds_andThen plan
        adds_handle adds_timed runCheckLoop_adds finish_build_adds adds_more [OF keep_work_adds]) simp
  then show ?thesis
    by (rule adds_more) (simp add: build_cost_def fix_cost_def round_cost_def maxFixRounds_def checkLoopMaxRounds_def algebra_simps)
qed

lemma build_weighs: "sum_list (map (weight w) (bdLog (snd (Build e c)))) \<le> build_cost w c"
proof -
  have "weighs w (build_start e) \<le> 0" by (simp add: weighs_def build_start_def)
  from addsD [OF build_body_adds this, of e c] show ?thesis
    by (auto simp: Build_def wp_def weighs_def split: prod.splits sum.splits)
qed

section \<open>Counts\<close>

definition agents_of :: "string \<Rightarrow> log_of_calls \<Rightarrow> nat" where
  "agents_of phase calls = length (filter (\<lambda>c. case c of AgentRun call _ \<Rightarrow> acPhase call = phase | _ \<Rightarrow> False) calls)"

definition checks_of :: "log_of_calls \<Rightarrow> nat" where
  "checks_of calls = length (filter (\<lambda>c. case c of RunChecks _ \<Rightarrow> True | _ \<Rightarrow> False) calls)"

lemma weight_counts:
  "sum_list (map (weight w) l) = wtPlan w * agents_of PhasePlan l + wtBuild w * agents_of PhaseBuild l
     + wtReview w * agents_of PhaseReview l + wtChecks w * checks_of l"
proof (induction l)
  case (Cons c l)
  then show ?case
    by (cases c) (auto simp: agents_of_def checks_of_def PhasePlan_def PhaseBuild_def PhaseReview_def)
qed (simp add: agents_of_def checks_of_def)

text \<open>
  C38: Whatever the agents, the checks and git answer, a build ends having run each plan model at most twice, each
  model of the build order at most once in each of the three check rounds and the two fix rounds, each review model
  at most once in each of three review passes, and the checks at most three times in each of the five rounds.
\<close>

theorem build_calls_bounded:
  "agents_of PhasePlan (bdLog (snd (Build e c))) \<le> 2 * length (bcPlanModels c)
   \<and> agents_of PhaseBuild (bdLog (snd (Build e c))) \<le> 5 * length (buildOrder c)
   \<and> agents_of PhaseReview (bdLog (snd (Build e c))) \<le> 3 * length (bcReviewModels c)
   \<and> checks_of (bdLog (snd (Build e c))) \<le> 15"
proof -
  note bound = build_weighs [unfolded weight_counts build_cost_def, where e = e and c = c]
  show ?thesis
    using bound [of "\<lparr>wtPlan = 1, wtBuild = 0, wtReview = 0, wtChecks = 0\<rparr>"] bound [of "\<lparr>wtPlan = 0, wtBuild = 1, wtReview = 0, wtChecks = 0\<rparr>"]
      bound [of "\<lparr>wtPlan = 0, wtBuild = 0, wtReview = 1, wtChecks = 0\<rparr>"] bound [of "\<lparr>wtPlan = 0, wtBuild = 0, wtReview = 0, wtChecks = 1\<rparr>"]
    by (simp add: checkLoopMaxRounds_def maxFixRounds_def)
qed

end
