(* ===== verification/Run_Summary.thy ===== *)
theory Run_Summary
  imports Run_Endings Run_Sample
begin

text \<open>
  The summary between the build and the record job (\<open>Encode\<close>, \<open>ParseSummary\<close> and \<open>validate\<close> of
  \<open>internal/runner/summary.go\<close>): how a build renders it within one environment string, and what the record
  job accepts of it, since the build shares a machine with the model. \<open>encoding/json\<close> is a parameter:
  \<open>marshal\<close> gives the text of a summary, \<open>decode\<close> the summary a text begins with and whether more follows
  it. A Go map is the list of its entries in the order its iteration meets them.
\<close>

section \<open>What a summary may hold\<close>

definition maxSummaryBytes :: nat where "maxSummaryBytes = 65536"
definition maxPhaseDuration :: duration where "maxPhaseDuration = 24 * hour"
definition maxCount :: int where "maxCount = 2 ^ 40"
definition maxCost :: rat where "maxCost = 1000000"
definition maxSummaryAge :: duration where "maxSummaryAge = 7 * 24 * hour"
definition maxClockSkew :: duration where "maxClockSkew = 5 * minute"

text \<open>A check that returns its error, and the first error of a row of checks.\<close>

definition must :: "bool \<Rightarrow> string \<Rightarrow> string option" where
  "must ok err = (if ok then None else Some err)"

fun first_fault :: "string option list \<Rightarrow> string option" where
  "first_fault [] = None"
| "first_fault (None # faults) = first_fault faults"
| "first_fault (Some err # faults) = Some err"

lemma first_fault_None [simp]: "first_fault faults = None \<longleftrightarrow> (\<forall>x \<in> set faults. x = None)"
  by (induction faults rule: first_fault.induct) auto

lemma must_None [simp]: "must ok err = None \<longleftrightarrow> ok"
  by (simp add: must_def)

definition in_count :: "int \<Rightarrow> bool" where
  "in_count n \<longleftrightarrow> 0 \<le> n \<and> n \<le> maxCount"

definition usage_fault :: "usage \<Rightarrow> string option" where
  "usage_fault u = first_fault (map (\<lambda>n. must (in_count n) (''token count '' @ itoa n @ '' is out of range''))
       [usInput u, usOutput u, usReasoning u, usCacheRead u, usCacheWrite u, usSteps u]
     @ [must (0 \<le> usCost u \<and> usCost u \<le> maxCost) ''cost is out of range''])"

definition knownHarness :: "harness list \<Rightarrow> string \<Rightarrow> bool" where
  "knownHarness hs name \<longleftrightarrow> list_ex (\<lambda>h. hsName h = name) hs"

definition step_fault :: "(nat \<Rightarrow> bool) \<Rightarrow> harness list \<Rightarrow> string \<Rightarrow> build_step \<Rightarrow> string option" where
  "step_fault table hs attemptID st = first_fault [
     must (ValidModel (bsModel st)) ''model is not provider/model'',
     must (bsHarness st = [] \<or> knownHarness hs (bsHarness st))
       (''harness '' @ Quote table (truncate_text (bsHarness st) logErrorLimit) @ '' is not one this run can route to''),
     usage_fault (bsTokens st),
     must (in_count (bsPeak st)) (''step peak context tokens '' @ itoa (bsPeak st) @ '' is out of range''),
     must (bsObject st = completionsObject attemptID (bsPhase st) (bsRound st)) ''completions object is not this run's'']"

text \<open>That the ending is a build's, and names the branch and the agent's step it cannot lack.\<close>

definition ending_fault :: "(nat \<Rightarrow> bool) \<Rightarrow> summary \<Rightarrow> string option" where
  "ending_fault table s = (
     let short = (\<lambda>x. Quote table (truncate_text x logErrorLimit));
         agentStep = (if smPhase s = PhaseCommit then PhaseBuild else smPhase s) in
     first_fault [
       must ((smOutcome s, smStopReason s, smPhase s) \<in> set buildEndings)
         (''outcome '' @ short (smOutcome s) @ '', stop reason '' @ short (smStopReason s) @ '' at phase '' @ short (smPhase s)
           @ '' is not a build ending''),
       must (\<not> (smPhase s \<in> {PhasePlan, PhaseBuild, PhaseReview, PhaseCommit} \<and> smBranch s = []))
         ''an ending past the worktree names no branch'',
       must (smPhase s = PhaseCommit \<or> smOutcome s = OutcomeAgentFailed \<or> smOutcome s = OutcomeBudgetStop \<longrightarrow> hasStep (smSteps s) agentStep)
         ''an ending past the worktree names no build step''])"

definition time_fault :: "(nat \<Rightarrow> bool) \<Rightarrow> harness list \<Rightarrow> string \<Rightarrow> time \<Rightarrow> summary \<Rightarrow> string option" where
  "time_fault table hs attemptID now s = first_fault (
     must (\<not> is_zero (smStartedAt s) \<and> smStartedAt s \<le> now + maxClockSkew \<and> now - maxSummaryAge \<le> smStartedAt s)
       ''start time is out of range''
     # map (\<lambda>st. first_fault [step_fault table hs attemptID st,
         must (\<not> is_zero (bsAt st) \<and> bsAt st \<le> now + maxClockSkew \<and> smStartedAt s - maxClockSkew \<le> bsAt st)
           ''a step's start time is outside the run'']) (smSteps s))"

definition files_fault :: "(nat \<Rightarrow> bool) \<Rightarrow> string \<Rightarrow> string list \<Rightarrow> string option" where
  "files_fault table kind files = first_fault (
     must (length files \<le> maxEditedFiles) (itoa (int (length files)) @ '' '' @ kind @ '' files, over '' @ itoa (int maxEditedFiles))
     # map (\<lambda>f. must (repoRelative f)
         (kind @ '' file '' @ Quote table (truncate_text f logErrorLimit) @ '' is not a path inside the repository'')) files)"

definition review_fault :: "(nat \<Rightarrow> bool) \<Rightarrow> summary \<Rightarrow> string option" where
  "review_fault table s = first_fault (
     must (length (smFindings s) \<le> maxReviewFindings)
       (itoa (int (length (smFindings s))) @ '' review findings, over '' @ itoa (int maxReviewFindings))
     # map (\<lambda>f. must (printable table (rfFinding f) \<and> printable table (rfResolution f))
         ''a review finding or its resolution is not one printable line'') (smFindings s)
     @ (case smSecondRound s of None \<Rightarrow> []
        | Some r \<Rightarrow> [must (0 < fcRound r \<and> fcRound r \<le> maxCount) (''second fix round '' @ itoa (fcRound r) @ '' is out of range''),
            usage_fault (fcTokens r),
            must (0 \<le> fcDurationMS r \<and> fcDurationMS r \<le> milliseconds maxPhaseDuration)
              (''second fix round duration '' @ itoa (fcDurationMS r) @ '' ms is out of range'')]))"

definition duration_fault :: "(nat \<Rightarrow> bool) \<Rightarrow> string \<times> int \<Rightarrow> string option" where
  "duration_fault table entry = (case entry of (p, ms) \<Rightarrow> first_fault [
     must (p \<in> set buildPhases \<or> p = checksDuration)
       (''duration for '' @ Quote table (truncate_text p logErrorLimit) @ '', which is not a build phase or the checks''),
     must (0 \<le> ms \<and> ms \<le> milliseconds maxPhaseDuration) (''duration '' @ itoa ms @ '' ms for '' @ p @ '' is out of range'')])"

definition cache_fault :: "(nat \<Rightarrow> bool) \<Rightarrow> string \<times> phase_cache \<Rightarrow> string option" where
  "cache_fault table entry = (case entry of (p, c) \<Rightarrow> first_fault [
     must (p \<in> set buildPhases) (''cache figures for '' @ Quote table (truncate_text p logErrorLimit) @ '', which is not a build phase''),
     must (in_count (pcFirstFresh c) \<and> in_count (pcFirstCached c)) ''a phase's first-request token count is out of range'',
     must (0 \<le> pcShare c \<and> pcShare c \<le> 1) ''a phase's cached share is outside 0-1''])"

definition figures_fault :: "(nat \<Rightarrow> bool) \<Rightarrow> summary \<Rightarrow> string option" where
  "figures_fault table s = first_fault (
     must (in_count (smPeakContext s)) (''peak context tokens '' @ itoa (smPeakContext s) @ '' is out of range'')
     # map (\<lambda>n. must (in_count n) (''diff line count '' @ itoa n @ '' is out of range'')) [dlAdded (smDiffLines s), dlRemoved (smDiffLines s)]
     @ map (duration_fault table) (smDurations s) @ map (cache_fault table) (smCache s))"

definition names_fault :: "(nat \<Rightarrow> bool) \<Rightarrow> string \<Rightarrow> full_ticket \<Rightarrow> summary \<Rightarrow> string option" where
  "names_fault table attemptID t s = first_fault [
     must (printable table (smCommitSubject s) \<and> printable table (smPRSummary s)) ''commit subject or PR summary is not one printable line'',
     must (smRuleStackSHA s = [] \<or> sha_ok (smRuleStackSHA s)) ''rule-stack sha is not a commit sha'',
     must (smBranch s = [] \<or> smBranch s = BranchName (BranchSegment t) attemptID) ''branch is not this run's'']"

text \<open>\<open>validate\<close>: the first thing wrong with a summary of attempt \<open>attemptID\<close> of ticket \<open>t\<close>, read at \<open>now\<close>.\<close>

definition summary_fault :: "(nat \<Rightarrow> bool) \<Rightarrow> harness list \<Rightarrow> string \<Rightarrow> full_ticket \<Rightarrow> time \<Rightarrow> summary \<Rightarrow> string option" where
  "summary_fault table hs attemptID t now s = first_fault [
     ending_fault table s, time_fault table hs attemptID now s,
     files_fault table ''edited'' (smEditedFiles s), files_fault table ''read'' (smReadFiles s),
     review_fault table s, figures_fault table s, names_fault table attemptID t s]"

section \<open>Reading it\<close>

definition capSummary :: "summary \<Rightarrow> summary" where
  "capSummary s = s\<lparr>smStopDetail := truncate_text (smStopDetail s) stopDetailLimit,
     smUsageWarning := truncate_text (smUsageWarning s) stopDetailLimit, smLoopDetail := truncate_text (smLoopDetail s) stopDetailLimit,
     smCommitSubject := truncate_text (smCommitSubject s) stopDetailLimit, smCommitBody := truncate_text (smCommitBody s) maxTicketBodyBytes,
     smPRSummary := truncate_text (smPRSummary s) stopDetailLimit, smEditedFiles := capFiles (smEditedFiles s),
     smReadFiles := capFiles (smReadFiles s), smFindings := capFindings (smFindings s)\<rparr>"

datatype parse_fault = SummaryMissing | SummaryInvalid string

definition ParseSummary ::
  "(string \<Rightarrow> string + summary \<times> bool) \<Rightarrow> (nat \<Rightarrow> bool) \<Rightarrow> harness list \<Rightarrow> string \<Rightarrow> string \<Rightarrow> full_ticket \<Rightarrow> time \<Rightarrow> parse_fault + summary" where
  "ParseSummary decode table hs raw attemptID t now =
     (if raw = [] then Inl SummaryMissing
      else if length raw > maxSummaryBytes
      then Inl (SummaryInvalid (''summary is '' @ itoa (int (length raw)) @ '' bytes, over '' @ itoa (int maxSummaryBytes)))
      else case decode raw of
        Inl err \<Rightarrow> Inl (SummaryInvalid (''decoding summary: '' @ err))
      | Inr (s, more_data) \<Rightarrow>
          if more_data then Inl (SummaryInvalid ''trailing data after summary'')
          else case summary_fault table hs attemptID t now s of
            Some err \<Rightarrow> Inl (SummaryInvalid err)
          | None \<Rightarrow> Inr (capSummary s))"

section \<open>Writing it\<close>

text \<open>
  The loop of \<open>Encode\<close>: while the text is too long, the files read are halved, then those edited, then the
  oldest step dropped, then the findings halved. Each round shortens a list.
\<close>

function encode_fit :: "(summary \<Rightarrow> string + string) \<Rightarrow> summary \<Rightarrow> string + string" where
  "encode_fit marshal s = (case marshal s of
     Inl err \<Rightarrow> Inl err
   | Inr b \<Rightarrow>
       if length b \<le> maxSummaryBytes then Inr b
       else if smReadFiles s \<noteq> [] then encode_fit marshal (s\<lparr>smReadFiles := take (length (smReadFiles s) div 2) (smReadFiles s)\<rparr>)
       else if smEditedFiles s \<noteq> [] then encode_fit marshal (s\<lparr>smEditedFiles := take (length (smEditedFiles s) div 2) (smEditedFiles s)\<rparr>)
       else if smSteps s \<noteq> [] then encode_fit marshal (s\<lparr>smSteps := tl (smSteps s)\<rparr>)
       else if smFindings s \<noteq> [] then encode_fit marshal (s\<lparr>smFindings := take (length (smFindings s) div 2) (smFindings s)\<rparr>)
       else Inl (''summary is '' @ itoa (int (length b)) @ '' bytes, over '' @ itoa (int maxSummaryBytes)))"
  by pat_completeness auto
termination
  by (relation "measure (\<lambda>(_, s). length (smReadFiles s) + length (smEditedFiles s) + length (smSteps s) + length (smFindings s))") auto

declare encode_fit.simps [simp del]

definition capped_files :: "summary \<Rightarrow> summary" where
  "capped_files s = s\<lparr>smEditedFiles := capFiles (smEditedFiles s), smReadFiles := capFiles (smReadFiles s)\<rparr>"

definition EncodeSummary :: "(summary \<Rightarrow> string + string) \<Rightarrow> summary \<Rightarrow> string + string" where
  "EncodeSummary marshal s = encode_fit marshal (capped_files s)"

section \<open>What the encoding leaves out\<close>

text \<open>Files read are cut before files edited, these before steps, the oldest first, and steps before findings.\<close>

definition bare :: "summary \<Rightarrow> summary" where
  "bare s = s\<lparr>smReadFiles := [], smEditedFiles := [], smSteps := [], smFindings := []\<rparr>"

definition cut_down :: "summary \<Rightarrow> summary \<Rightarrow> bool" where
  "cut_down s x \<longleftrightarrow> bare x = bare s
     \<and> prefix (smReadFiles x) (smReadFiles s) \<and> prefix (smEditedFiles x) (smEditedFiles s)
     \<and> suffix (smSteps x) (smSteps s) \<and> prefix (smFindings x) (smFindings s)
     \<and> (smEditedFiles x \<noteq> smEditedFiles s \<longrightarrow> smReadFiles x = [])
     \<and> (smSteps x \<noteq> smSteps s \<longrightarrow> smReadFiles x = [] \<and> smEditedFiles x = [])
     \<and> (smFindings x \<noteq> smFindings s \<longrightarrow> smReadFiles x = [] \<and> smEditedFiles x = [] \<and> smSteps x = [])"

lemma bare_lists [simp]:
  "bare (s\<lparr>smReadFiles := a\<rparr>) = bare s" "bare (s\<lparr>smEditedFiles := a\<rparr>) = bare s"
  "bare (s\<lparr>smSteps := st\<rparr>) = bare s" "bare (s\<lparr>smFindings := fi\<rparr>) = bare s"
  by (simp_all add: bare_def)

lemma bare_self: "smReadFiles s = [] \<Longrightarrow> smEditedFiles s = [] \<Longrightarrow> smSteps s = [] \<Longrightarrow> smFindings s = [] \<Longrightarrow> bare s = s"
  by (cases s) (simp add: bare_def)

lemma cut_down_refl [simp, intro]: "cut_down s s"
  by (simp add: cut_down_def)

lemma cut_down_reads: "cut_down (s\<lparr>smReadFiles := take n (smReadFiles s)\<rparr>) x \<Longrightarrow> cut_down s x"
  by (auto simp: cut_down_def intro: prefix_order.trans [OF _ take_is_prefix])

lemma cut_down_edits: "smReadFiles s = [] \<Longrightarrow> cut_down (s\<lparr>smEditedFiles := take n (smEditedFiles s)\<rparr>) x \<Longrightarrow> cut_down s x"
  by (auto simp: cut_down_def intro: prefix_order.trans [OF _ take_is_prefix])

lemma cut_down_steps:
  "smReadFiles s = [] \<Longrightarrow> smEditedFiles s = [] \<Longrightarrow> cut_down (s\<lparr>smSteps := tl (smSteps s)\<rparr>) x \<Longrightarrow> cut_down s x"
  by (auto simp: cut_down_def intro: suffix_order.trans [OF _ suffix_tl])

lemma cut_down_findings:
  "smReadFiles s = [] \<Longrightarrow> smEditedFiles s = [] \<Longrightarrow> smSteps s = [] \<Longrightarrow>
    cut_down (s\<lparr>smFindings := take n (smFindings s)\<rparr>) x \<Longrightarrow> cut_down s x"
  by (auto simp: cut_down_def intro: prefix_order.trans [OF _ take_is_prefix])

text \<open>What the loop comes to: a text that fits of a cut-down summary, or the reason there is none.\<close>

definition fitted :: "(summary \<Rightarrow> string + string) \<Rightarrow> summary \<Rightarrow> string + string \<Rightarrow> bool" where
  "fitted marshal s r \<longleftrightarrow> (case r of
     Inr b \<Rightarrow> length b \<le> maxSummaryBytes \<and> (\<exists>x. cut_down s x \<and> marshal x = Inr b)
   | Inl err \<Rightarrow> (\<exists>x. cut_down s x \<and> marshal x = Inl err) \<or> (\<exists>b. marshal (bare s) = Inr b \<and> maxSummaryBytes < length b))"

lemma fitted_cut:
  assumes "fitted marshal s' r" and "\<And>x. cut_down s' x \<Longrightarrow> cut_down s x" and "bare s' = bare s"
  shows "fitted marshal s r"
  using assms unfolding fitted_def by (auto split: sum.splits)

lemma encode_fit_fitted: "fitted marshal s (encode_fit marshal s)"
proof (induction marshal s rule: encode_fit.induct)
  case (1 marshal s)
  show ?case
  proof (cases "marshal s")
    case (Inl err)
    then show ?thesis by (subst encode_fit.simps) (auto simp: fitted_def)
  next
    case (Inr b)
    note long = 1 [OF Inr]
    consider "length b \<le> maxSummaryBytes"
      | "maxSummaryBytes < length b" "smReadFiles s \<noteq> []"
      | "maxSummaryBytes < length b" "smReadFiles s = []" "smEditedFiles s \<noteq> []"
      | "maxSummaryBytes < length b" "smReadFiles s = []" "smEditedFiles s = []" "smSteps s \<noteq> []"
      | "maxSummaryBytes < length b" "smReadFiles s = []" "smEditedFiles s = []" "smSteps s = []" "smFindings s \<noteq> []"
      | "maxSummaryBytes < length b" "smReadFiles s = []" "smEditedFiles s = []" "smSteps s = []" "smFindings s = []"
      by linarith
    then show ?thesis
    proof cases
      case 1
      with Inr show ?thesis by (subst encode_fit.simps) (auto simp: fitted_def)
    next
      case 6
      with Inr have "marshal (bare s) = Inr b" by (simp add: bare_self)
      with Inr 6 show ?thesis by (subst encode_fit.simps) (auto simp: fitted_def)
    next
      case 2
      with Inr show ?thesis by (subst encode_fit.simps, simp) (rule fitted_cut [OF long(1)], auto dest: cut_down_reads)
    next
      case 3
      with Inr show ?thesis by (subst encode_fit.simps, simp) (rule fitted_cut [OF long(2)], auto dest: cut_down_edits)
    next
      case 4
      with Inr show ?thesis by (subst encode_fit.simps, simp) (rule fitted_cut [OF long(3)], auto dest: cut_down_steps)
    next
      case 5
      with Inr show ?thesis by (subst encode_fit.simps, simp) (rule fitted_cut [OF long(4)], auto dest: cut_down_findings)
    qed
  qed
qed

text \<open>
  What \<open>Encode\<close> gives fits in the one argument the record job takes it from, and is the text of the summary
  itself with its file lists capped, or of one cut down from it.
\<close>

lemma summary_encoding_fits:
  "case EncodeSummary marshal s of
     Inr b \<Rightarrow> length b \<le> maxSummaryBytes \<and> (\<exists>x. cut_down (capped_files s) x \<and> marshal x = Inr b)
   | Inl err \<Rightarrow> (\<exists>x. cut_down (capped_files s) x \<and> marshal x = Inl err)
       \<or> (\<exists>b. marshal (bare s) = Inr b \<and> maxSummaryBytes < length b)"
proof -
  have "bare (capped_files s) = bare s" by (simp add: capped_files_def)
  then show ?thesis using encode_fit_fitted [of marshal "capped_files s"] by (simp add: fitted_def EncodeSummary_def split: sum.splits)
qed

section \<open>What is written is read back\<close>

definition files_cut :: "summary \<Rightarrow> summary \<Rightarrow> bool" where
  "files_cut s x \<longleftrightarrow> (\<exists>reads edits. x = s\<lparr>smReadFiles := reads, smEditedFiles := edits\<rparr>
     \<and> prefix reads (smReadFiles s) \<and> prefix edits (smEditedFiles s))"

lemma files_cut_refl: "files_cut s s"
  unfolding files_cut_def by (rule exI [of _ "smReadFiles s"], rule exI [of _ "smEditedFiles s"]) simp

lemma files_cut_reads: "files_cut (s\<lparr>smReadFiles := take n (smReadFiles s)\<rparr>) x \<Longrightarrow> files_cut s x"
  by (auto simp: files_cut_def intro: prefix_order.trans [OF _ take_is_prefix])

lemma files_cut_edits: "files_cut (s\<lparr>smEditedFiles := take n (smEditedFiles s)\<rparr>) x \<Longrightarrow> files_cut s x"
  by (auto simp: files_cut_def intro: prefix_order.trans [OF _ take_is_prefix])

text \<open>A summary that fits without its files is cut down to some of its files and no further.\<close>

lemma encode_fit_files:
  assumes "\<And>x. files_cut s x \<Longrightarrow> \<exists>b. marshal x = Inr b"
    and "marshal (s\<lparr>smReadFiles := [], smEditedFiles := []\<rparr>) = Inr b0" and "length b0 \<le> maxSummaryBytes"
  shows "\<exists>x raw. encode_fit marshal s = Inr raw \<and> files_cut s x \<and> marshal x = Inr raw \<and> length raw \<le> maxSummaryBytes"
  using assms
proof (induction marshal s rule: encode_fit.induct)
  case (1 marshal s)
  obtain b where b: "marshal s = Inr b" using "1.prems"(1) [OF files_cut_refl] by blast
  show ?case
  proof (cases "length b \<le> maxSummaryBytes")
    case True
    with b show ?thesis by (subst encode_fit.simps) (auto intro: files_cut_refl)
  next
    case long: False
    show ?thesis
    proof (cases "smReadFiles s = []")
      case False
      let ?s = "s\<lparr>smReadFiles := take (length (smReadFiles s) div 2) (smReadFiles s)\<rparr>"
      have "\<exists>x raw. encode_fit marshal ?s = Inr raw \<and> files_cut ?s x \<and> marshal x = Inr raw \<and> length raw \<le> maxSummaryBytes"
        using "1.prems" by (intro "1.IH"(1) [OF b long False]) (auto dest: files_cut_reads)
      with b long False show ?thesis by (subst encode_fit.simps) (auto dest: files_cut_reads)
    next
      case reads: True
      show ?thesis
      proof (cases "smEditedFiles s = []")
        case True
        with reads have "s\<lparr>smReadFiles := [], smEditedFiles := []\<rparr> = s" by (cases s) simp
        with "1.prems"(2,3) b long show ?thesis by simp
      next
        case False
        let ?s = "s\<lparr>smEditedFiles := take (length (smEditedFiles s) div 2) (smEditedFiles s)\<rparr>"
        have "\<exists>x raw. encode_fit marshal ?s = Inr raw \<and> files_cut ?s x \<and> marshal x = Inr raw \<and> length raw \<le> maxSummaryBytes"
          using "1.prems" reads by (intro "1.IH"(2) [OF b long _ False]) (auto dest: files_cut_edits)
        with b long False reads show ?thesis by (subst encode_fit.simps) (auto dest: files_cut_edits)
      qed
    qed
  qed
qed

text \<open>Dropping files makes nothing wrong that was right.\<close>

lemma files_fault_prefix: "files_fault table kind fs = None \<Longrightarrow> prefix gs fs \<Longrightarrow> files_fault table kind gs = None"
  using prefix_length_le [of gs fs] set_mono_prefix [of gs fs] by (auto simp: files_fault_def)

lemma faults_of_files [simp]:
  "ending_fault table (s\<lparr>smReadFiles := rs, smEditedFiles := es\<rparr>) = ending_fault table s"
  "time_fault table hs attemptID now (s\<lparr>smReadFiles := rs, smEditedFiles := es\<rparr>) = time_fault table hs attemptID now s"
  "review_fault table (s\<lparr>smReadFiles := rs, smEditedFiles := es\<rparr>) = review_fault table s"
  "figures_fault table (s\<lparr>smReadFiles := rs, smEditedFiles := es\<rparr>) = figures_fault table s"
  "names_fault table attemptID t (s\<lparr>smReadFiles := rs, smEditedFiles := es\<rparr>) = names_fault table attemptID t s"
  by (simp_all add: ending_fault_def time_fault_def review_fault_def figures_fault_def names_fault_def)

lemma summary_fault_cut:
  assumes "summary_fault table hs attemptID t now s = None" and "files_cut s x"
  shows "summary_fault table hs attemptID t now x = None"
  using assms by (auto simp: files_cut_def summary_fault_def intro: files_fault_prefix)

text \<open>
  A build's summary reaches the record job. When it fits once its files are left out, \<open>Encode\<close> gives a text,
  and \<open>ParseSummary\<close> on that text gives back the summary, without some of its files at most and with its texts
  cut to their limits, provided it is one \<open>validate\<close> accepts. Of \<open>encoding/json\<close> it is assumed that what
  \<open>marshal\<close> gives for the summary, whole or without some files, is a text \<open>decode\<close> reads back.
\<close>

lemma summary_read_back:
  assumes json: "\<And>x. files_cut (capped_files s) x \<Longrightarrow> \<exists>b. marshal x = Inr b \<and> b \<noteq> [] \<and> decode b = Inr (x, False)"
    and fits: "marshal (s\<lparr>smReadFiles := [], smEditedFiles := []\<rparr>) = Inr b0" "length b0 \<le> maxSummaryBytes"
    and ok: "summary_fault table hs attemptID t now (capped_files s) = None"
  shows "\<exists>raw x. EncodeSummary marshal s = Inr raw \<and> files_cut (capped_files s) x
    \<and> ParseSummary decode table hs raw attemptID t now = Inr (capSummary x)"
proof -
  have "capped_files s\<lparr>smReadFiles := [], smEditedFiles := []\<rparr> = s\<lparr>smReadFiles := [], smEditedFiles := []\<rparr>"
    by (simp add: capped_files_def)
  with fits encode_fit_files [of "capped_files s" marshal b0] json obtain x raw where
    raw: "encode_fit marshal (capped_files s) = Inr raw" "length raw \<le> maxSummaryBytes" and x: "files_cut (capped_files s) x" "marshal x = Inr raw"
    by metis
  from json [OF x(1)] x(2) have "raw \<noteq> []" "decode raw = Inr (x, False)" by auto
  with raw summary_fault_cut [OF ok x(1)] have "ParseSummary decode table hs raw attemptID t now = Inr (capSummary x)"
    by (simp add: ParseSummary_def)
  with raw x show ?thesis by (auto simp: EncodeSummary_def)
qed

text \<open>A committed build whose file list does not fit is read back without it.\<close>

definition sample_build_step :: build_step where
  "sample_build_step = \<lparr>bsPhase = PhaseBuild, bsRound = 0, bsModel = ''p/a'', bsHarness = [], bsDetail = [], bsTokens = no_usage,
     bsDurationMS = 0, bsObject = completionsObject ''1-1'' PhaseBuild 0, bsPeak = 0, bsAt = day\<rparr>"

definition sample_summary :: summary where
  "sample_summary = (new_summary day)\<lparr>smOutcome := OutcomeBuilt, smPhase := PhaseCommit, smSteps := [sample_build_step],
     smEditedFiles := [''a.go''], smBranch := BranchName (BranchSegment sample_build_ticket) ''1-1'', smReady := True\<rparr>"

lemma sample_summary_ok: "summary_fault (\<lambda>_. True) [] ''1-1'' sample_build_ticket (day + minute) (capped_files sample_summary) = None"
  by code_simp

definition sample_marshal :: "summary \<Rightarrow> string + string" where
  "sample_marshal x = Inr (if smEditedFiles x = [] then ''a'' else replicate 65537 (CHR ''b''))"

definition sample_decode :: "string \<Rightarrow> string + summary \<times> bool" where
  "sample_decode b = Inr (if b = ''a'' then sample_summary\<lparr>smEditedFiles := []\<rparr> else sample_summary, False)"

lemma sample_capped: "capped_files sample_summary = sample_summary"
  by code_simp

lemma sample_json:
  assumes "files_cut (capped_files sample_summary) x"
  shows "\<exists>b. sample_marshal x = Inr b \<and> b \<noteq> [] \<and> sample_decode b = Inr (x, False)"
proof -
  have lists: "smReadFiles sample_summary = []" "smEditedFiles sample_summary = [''a.go'']" by (simp_all add: sample_summary_def new_summary_def)
  with assms have "x = sample_summary \<or> x = sample_summary\<lparr>smEditedFiles := []\<rparr>"
    unfolding sample_capped files_cut_def by (cases sample_summary) (auto simp: prefix_Cons)
  moreover have "replicate 65537 (CHR ''b'') \<noteq> ''a''"
  proof
    assume "replicate 65537 (CHR ''b'') = ''a''"
    from arg_cong [OF this, of length] show False by simp
  qed
  moreover have "replicate 65537 (CHR ''b'') \<noteq> []" by simp
  ultimately show ?thesis using lists by (auto simp: sample_marshal_def sample_decode_def)
qed

lemma sample_read_back:
  "\<exists>raw x. EncodeSummary sample_marshal sample_summary = Inr raw \<and> files_cut (capped_files sample_summary) x
    \<and> ParseSummary sample_decode (\<lambda>_. True) [] raw ''1-1'' sample_build_ticket (day + minute) = Inr (capSummary x)"
  by (rule summary_read_back [OF sample_json, where ?b0.0 = "''a''"])
    (simp_all add: sample_marshal_def maxSummaryBytes_def sample_summary_ok)

section \<open>What the record job takes\<close>

lemma truncate_text_length: "length (truncate_text v n) \<le> n + length ellipsis"
proof -
  have "min (length x) (rune_boundary x n) \<le> n" for x using rune_boundary_le [of x n] by linarith
  then show ?thesis by (simp add: truncate_text_def Let_def)
qed

lemma ending_fault_accepted: "ending_fault table s = None \<longleftrightarrow> accepted_ending s"
  by (auto simp: ending_fault_def Let_def accepted_ending_def known_ending_def names_branch_def names_step_def)

text \<open>Tokens and a cost the budget can count with.\<close>

definition countable_usage :: "usage \<Rightarrow> bool" where
  "countable_usage u \<longleftrightarrow> (\<forall>n \<in> {usInput u, usOutput u, usReasoning u, usCacheRead u, usCacheWrite u, usSteps u}. 0 \<le> n \<and> n \<le> 2 ^ 40)
     \<and> 0 \<le> usCost u \<and> usCost u \<le> 1000000"

lemma usage_fault_countable: "usage_fault u = None \<longleftrightarrow> countable_usage u"
  by (simp add: usage_fault_def countable_usage_def in_count_def maxCount_def maxCost_def)

text \<open>A step of this attempt, started while the run ran.\<close>

definition step_of_run :: "string \<Rightarrow> time \<Rightarrow> time \<Rightarrow> build_step \<Rightarrow> bool" where
  "step_of_run attemptID started now st \<longleftrightarrow> ValidModel (bsModel st) \<and> countable_usage (bsTokens st)
     \<and> bsObject st = completionsObject attemptID (bsPhase st) (bsRound st)
     \<and> started - maxClockSkew \<le> bsAt st \<and> bsAt st \<le> now + maxClockSkew"

lemma time_fault_steps:
  assumes "time_fault table hs attemptID now s = None"
  shows "list_all (step_of_run attemptID (smStartedAt s) now) (smSteps s)"
proof -
  have "step_of_run attemptID (smStartedAt s) now st" if "st \<in> set (smSteps s)" for st
  proof -
    from assms that have "step_fault table hs attemptID st = None" "bsAt st \<le> now + maxClockSkew" "smStartedAt s - maxClockSkew \<le> bsAt st"
      by (simp_all add: time_fault_def)
    then show ?thesis by (simp add: step_fault_def step_of_run_def usage_fault_countable)
  qed
  then show ?thesis by (simp add: list_all_iff)
qed

lemma figures_fault_durations:
  assumes "figures_fault table s = None" and "(p, ms) \<in> set (smDurations s)"
  shows "p \<in> set buildPhases \<union> {checksDuration} \<and> 0 \<le> ms \<and> ms \<le> 86400000"
proof -
  have "milliseconds maxPhaseDuration = 86400000" by (simp add: milliseconds_def maxPhaseDuration_def hour_def minute_def)
  moreover have "duration_fault table (p, ms) = None" using assms by (auto simp: figures_fault_def)
  ultimately show ?thesis by (auto simp: duration_fault_def)
qed

lemma capSummary_simps [simp]:
  "smSteps (capSummary s) = smSteps s" "smStartedAt (capSummary s) = smStartedAt s" "smDurations (capSummary s) = smDurations s"
  "smBranch (capSummary s) = smBranch s" "accepted_ending (capSummary s) = accepted_ending s"
  by (simp_all add: capSummary_def accepted_ending_def known_ending_def names_branch_def names_step_def)

lemma capFiles_bounds: "length (capFiles fs) \<le> maxEditedFiles \<and> list_all (\<lambda>f. length f \<le> maxPathBytes + length ellipsis) (capFiles fs)"
  using truncate_text_length by (auto simp: capFiles_def list_all_iff)

text \<open>
  Whatever text the record job is handed, a summary it takes ends as a build can end, started within the last
  week, and holds only steps of this very attempt, each with a valid model, counts and a cost in range and a time
  inside the run; no phase lasted over a day, its branch is this run's, and its file lists and stop detail are
  within their limits.
\<close>

lemma parsed_summary_bounded:
  assumes "ParseSummary decode table hs raw attemptID t now = Inr s"
  shows "accepted_ending s \<and> now - maxSummaryAge \<le> smStartedAt s \<and> smStartedAt s \<le> now + maxClockSkew
    \<and> list_all (step_of_run attemptID (smStartedAt s) now) (smSteps s)
    \<and> (\<forall>(p, ms) \<in> set (smDurations s). p \<in> set buildPhases \<union> {checksDuration} \<and> 0 \<le> ms \<and> ms \<le> 86400000)
    \<and> smBranch s \<in> {[], BranchName (BranchSegment t) attemptID}
    \<and> (\<forall>files \<in> {smEditedFiles s, smReadFiles s}. length files \<le> 200 \<and> list_all (\<lambda>f. length f \<le> 515) files)
    \<and> length (smStopDetail s) \<le> 2051"
proof -
  from assms obtain s0 where s0: "summary_fault table hs attemptID t now s0 = None" and s: "s = capSummary s0"
    by (auto simp: ParseSummary_def split: if_splits sum.splits option.splits)
  then have "ending_fault table s0 = None" and times: "time_fault table hs attemptID now s0 = None"
    and figures: "figures_fault table s0 = None" and names: "names_fault table attemptID t s0 = None"
    by (simp_all add: summary_fault_def)
  moreover from times have "now - maxSummaryAge \<le> smStartedAt s0 \<and> smStartedAt s0 \<le> now + maxClockSkew" by (simp add: time_fault_def)
  moreover from names have "smBranch s0 \<in> {[], BranchName (BranchSegment t) attemptID}" by (auto simp: names_fault_def)
  moreover have "length (smStopDetail s) \<le> 2051"
    using truncate_text_length [of "smStopDetail s0" stopDetailLimit] by (simp add: s capSummary_def stopDetailLimit_def ellipsis_def)
  moreover have "\<forall>files \<in> {smEditedFiles s, smReadFiles s}. length files \<le> 200 \<and> list_all (\<lambda>f. length f \<le> 515) files"
    using capFiles_bounds [of "smEditedFiles s0"] capFiles_bounds [of "smReadFiles s0"]
    by (simp add: s capSummary_def maxEditedFiles_def maxPathBytes_def ellipsis_def)
  ultimately show ?thesis using figures_fault_durations [OF figures] by (auto simp: s ending_fault_accepted time_fault_steps)
qed

text \<open>
  A committed build whose text fits only without its build's step is one \<open>ParseSummary\<close> refuses, though the
  build reported what it did: the oldest steps are the first to go, and \<open>validate\<close> asks for the build's.
\<close>

lemma dropped_build_refused:
  assumes "smPhase x = PhaseCommit" and "\<not> hasStep (smSteps x) PhaseBuild" and "decode raw = Inr (x, False)" and "raw \<noteq> []" "length raw \<le> maxSummaryBytes"
  shows "\<exists>err. ParseSummary decode table hs raw attemptID t now = Inl (SummaryInvalid err)"
proof -
  have "ending_fault table x \<noteq> None" using assms(1,2) by (simp add: ending_fault_accepted accepted_ending_def names_step_def)
  then have "summary_fault table hs attemptID t now x \<noteq> None" by (auto simp: summary_fault_def)
  with assms show ?thesis by (auto simp: ParseSummary_def split: option.splits)
qed

end
