(* ===== verification/Spec2Isabelle.thy ===== *)
theory Spec2Isabelle
  imports Poll_Sample Notice_Polls Run_Accepted Run_Ready Run_Bundle Run_Bounds Run_Summary
begin

text \<open>
  The core of Forge Wingman (\<open>internal/dispatcher\<close>, \<open>internal/store\<close>, \<open>internal/runner\<close>): a
  dispatcher polls Linear for tickets delegated to it, queues a run for each, and claims and starts
  the runs its budget and limits allow; the runner builds what a ticket asks for with coding agents,
  checks and reviews it, and bundles the branch; a run settles its cost, parks on an owner's decision,
  stops or is retried. Runs meet in one store, whose transactions over run rows and one ledger
  document are the heart of the first half of this development; the second half is the runner's build.

  How the dispatcher's state is modelled. A Firestore document is a map from fields to dynamically typed
  values (\<open>Documents\<close>), read through the same helpers the code reads it with; a run row is one. The
  ledger document is a record with a Go map of reservations (\<open>Ledger\<close>). The store \<open>db\<close> holds the
  rows, the ledger, refusals, archived attempts, notices and the breaker (\<open>Run_Store\<close>). An operation
  is a function from the store to its result and the store after it; a transaction that cannot be
  carried out is an argument (\<open>fault\<close>), returns its error and changes nothing. What a query returns
  is an argument too; where a theorem relies on the answer, a named predicate says what the query is
  documented to return (\<open>answers_queries\<close>, \<open>lists_claimed\<close>, \<open>lists_pending\<close>, \<open>lists_stale\<close>).
  Integers of 64 bits wrap (\<open>int64\<close>), \<open>float64\<close> rounds to 53 bits, times count nanoseconds.

  How the runner's is. A build acts only through calls (\<open>run_call\<close>: an agent process, the checks, the
  formatter, git, an object of the bucket, the clock). A \<open>build_env\<close> answers each call from the list of
  calls made so far, so the theorems hold whatever agents, checks and git answer, and answer
  differently the second time. A \<open>program\<close> takes the calls and the summary written so far
  (\<open>build_state\<close>) to a result or a stop (\<open>stop_error\<close>: the outcome, the reason and the text of the
  error the Go function returns) and the state after it; \<open>andThen\<close>, \<open>handle\<close>, \<open>ask\<close> and \<open>on_sum\<close>
  compose programs as the Go statements do, early returns included.

  The theories, by the part of the code they model:

  \<^item> \<open>Go_Prelude\<close>, \<open>Go_Time\<close>, \<open>Go_Text\<close>, \<open>Go_Runes\<close>, \<open>Go_Float\<close>, \<open>Go_Regexp\<close>: what the code uses of
    Go and its library (maps with the contract \<open>go_map\<close>, errors, decimal printing, the calendar,
    UTF-8, white space, floating point, the regular expressions the code compiles).
  \<^item> \<open>Budget\<close> (\<open>budget.go\<close>, \<open>money.go\<close>), \<open>Settlement\<close> (\<open>settled.go\<close> and the scans of \<open>queue.go\<close>),
    \<open>Concurrency\<close> (\<open>concurrency.go\<close>), \<open>Admission\<close> (\<open>admit.go\<close>), \<open>Peak_Hours\<close>: what a claim is
    judged by; \<open>Tickets\<close> and \<open>Sizer\<close> (ticket and sizing of it), \<open>Projects\<close> (delegation),
    \<open>Rewrites\<close> and \<open>Rewrite_Store\<close> (how much of a merge an owner rewrote; the bar for merging unread).
  \<^item> \<open>Ledger\<close>, \<open>Run_Store\<close>, \<open>Consistency\<close>, \<open>Row_Ops\<close>: the documents, transactions, the invariant
    \<open>ledger_inv\<close> that ties reservations to runs, with the contracts \<open>keeps_ledger\<close> and \<open>row_change\<close>.
  \<^item> \<open>Claims\<close> (\<open>TryClaim\<close>, \<open>Release\<close>, \<open>Stop\<close>, \<open>Settle\<close>, \<open>SettlePlan\<close>, \<open>AdoptRunsAtOnce\<close>), \<open>Requeue\<close>
    (the five requeues, contract \<open>requeue_decision\<close>), \<open>Decisions\<close> (\<open>decision.go\<close> of the store and
    the dispatcher), \<open>Health\<close> (breaker, notices, provider halts), \<open>Sweep\<close> (abandoned claims),
    \<open>Run_Rows\<close> (the listings) and \<open>Queue_Admin\<close> (the writes to one row).
  \<^item> \<open>Run_Steps\<close> and \<open>Queue_System\<close>: the contracts \<open>run_op\<close> and \<open>steady_op\<close> every operation meets,
    the step relation of the whole store and what holds of every reachable state; \<open>Run_Life\<close>: what
    several operations do to one run together; \<open>Notice_Polls\<close>: overlapping polls and the notices
    they post; \<open>Sample\<close>: a small deployment the theorems are read at.
  \<^item> \<open>Poll_State\<close>, \<open>Poll_Admit\<close>, \<open>Poll_Claim\<close>, \<open>Poll_Checks\<close>, \<open>Poll_Measure\<close>, \<open>Poll_Notices\<close>,
    \<open>Poll_Projects\<close>, \<open>Poll_Run\<close>: one poll, phase by phase, over an environment that answers for
    Linear, GitHub and the clock; \<open>Poll_Quiet\<close>, \<open>Poll_Settle\<close>, \<open>Poll_Starts\<close>, \<open>Poll_Safety\<close>: what a
    poll starts, settles and leaves alone; \<open>Poll_Sample\<close>: a concrete poll.
  \<^item> \<open>Run_Ending\<close> (endings and the summary, \<open>summary.go\<close>, \<open>record.go\<close>), \<open>Run_Texts\<close> (commit messages
    and plan artifacts), \<open>Run_Findings\<close> (review findings), \<open>Run_Usage\<close> (usage, windows and idle time
    read off an agent's stream), \<open>Run_Agent\<close> (one agent call in model order), \<open>Run_Loop\<close> (the check
    loop and the review, \<open>loop.go\<close>, \<open>guards.go\<close>), \<open>Run_Build\<close> (the plan stage and the build, \<open>build.go\<close>).
  \<^item> \<open>Run_Wp\<close> (weakest preconditions of programs), \<open>Run_Calls\<close> (the contract \<open>call_invariant\<close>: what
    every call a phase makes keeps), \<open>Run_Endings\<close>, \<open>Run_Accepted\<close>, \<open>Run_Bundle\<close>, \<open>Run_Bounds\<close>,
    \<open>Run_Ready\<close>: how a build ends, what its bundle and its ready mark rest on, and how many
    calls it makes; \<open>Run_Summary\<close>: the summary's encoding and what the record job accepts of it;
    \<open>Run_Sample\<close>: a concrete build.

  What the lemma groups show: each component theory proves its operations' behaviour on every branch
  and interprets the contract it meets; the properties below, and those that stand in the component
  theories, are read off those facts.

  Bounds. \<open>amounts_ok\<close> bounds costs by \<open>2^60\<close> micro-dollars, minutes by \<open>2^31\<close> and the rate by \<open>2^29\<close>,
  below which no sum of the budget check wraps; the other theorems hold of the wrapping sums. No
  definition needs fuel: every loop is structural or terminates by a measure. The build's loops are
  counted by the limits the code sets them (three check rounds, two fix rounds); the retry of the
  checks after formatting terminates by the gates it has not formatted for.

  Not modelled: panics and nil dereferences (\<open>recover\<close> included), the report's I/O and the progress
  reporter, containers and egress, the CLI adapters that start an agent, JSON decoding (parameters
  of the stream's model), Go's own parser (the guard scan takes the guards it finds as a parameter), git,
  docker and HTTP themselves; seeks in open files are taken to succeed. The run record made
  of a summary (\<open>Finalize\<close>), the pull request's text, the web surface and the webhook,
  the Linear and GitHub clients, the parsing of provider configuration and the command line entry
  points are left out: they are I/O, rendering or decoding around the decisions modelled here.
\<close>

section \<open>Claims stay inside the limits\<close>

text \<open>
  The ceilings over what the ledger holds, with no candidate left to add: \<open>metered\<close> says whether
  runner minutes are counted against the cash ceiling.
\<close>

definition ceilings_hold :: "budget_config \<Rightarrow> string \<Rightarrow> bool \<Rightarrow> totals \<Rightarrow> settled \<Rightarrow> bool" where
  "ceilings_hold cfg model metered t s \<longleftrightarrow>
     (\<forall>i < length (providerWindows cfg).
        totalProviderCost t + window_spent (settledWindows s) i \<le> windowLimit (providerWindows cfg ! i))
     \<and> (case map_of (modelCaps cfg) model of None \<Rightarrow> True
        | Some w \<Rightarrow> totalProviderCost t + settledModelCap s \<le> windowLimit w)
     \<and> (let over = if metered
                    then max 0 (totalRunnerMinutes t + settledCashMinutes s - freeMinutes (runnerMinutesCeiling cfg)) else 0;
            provider = if providerWindows cfg = [] \<and> \<not> providerFree cfg
                       then totalProviderCost t + settledCashCost s else 0
        in (over > 0 \<longrightarrow> ratePerMinute (runnerMinutesCeiling cfg) > 0)
           \<and> provider + over * ratePerMinute (runnerMinutesCeiling cfg) \<le> windowLimit (cash cfg))"

lemma fits_then_hold:
  assumes "fits_ceilings cfg model t s res"
    and "totalProviderCost t' = totalProviderCost t + resProviderCost res"
    and "totalRunnerMinutes t' = totalRunnerMinutes t + resRunnerMinutes res"
  shows "ceilings_hold cfg model (resRunnerMinutes res > 0) t' s"
  using assms
  by (auto simp: fits_ceilings_def ceilings_hold_def windows_hold_def cap_holds_def cash_holds_def minutes_over_def
      Let_def algebra_simps split: option.splits if_splits)

lemma claimed_then_hold:
  assumes inv: "ledger_inv d"
    and claim: "TryClaim fault query runID now cfg facts res d = (Inr (True, why), d')"
    and s: "settledFor query cfg (factModel facts) now (factHistory facts) = Inr s"
    and ok: "amounts_ok cfg (reservedTotals (readLedger d)) s res"
  shows "ceilings_hold cfg (factModel facts) (resRunnerMinutes res > 0) (reservedTotals (readLedger d')) s"
proof -
  from TryClaim_claimed [OF claim] obtain row s' where row: "claimable d runID row"
    and s': "settledFor query cfg (factModel facts) now (factHistory facts) = Inr s'"
    and adm: "Admit ((claim_input (readLedger d) row cfg facts res)\<lparr>inSettled := s'\<rparr>) = (True, [])"
    and d': "d' = claimed_db runID row facts res now d" by blast
  have "fits_ceilings cfg (factModel facts) (reservedTotals (readLedger d)) s res"
    using claim_admitted(2) [OF adm] s s' Decide_exact [OF ok] by simp
  then show ?thesis
    unfolding d' using ok claimed_totals [OF inv row] by (intro fits_then_hold) (simp_all add: amounts_ok_def)
qed

text \<open>
  C1: A run is claimed only inside the budget: after a successful \<open>TryClaim\<close> everything the ledger
  reserves, the new claim included, together with what was settled in each period, is within every
  provider window, the model's cap and the cash ceiling, and no runner minute past the free quota
  is taken unless it has a price. (Amounts below the bounds of \<open>amounts_ok\<close>, where no sum wraps.)
\<close>

theorem claim_within_budget:
  assumes "ledger_inv d"
    and "TryClaim fault query runID now cfg facts res d = (Inr (True, why), d')"
    and "settledFor query cfg (factModel facts) now (factHistory facts) = Inr s"
    and "amounts_ok cfg (reservedTotals (readLedger d)) s res"
  shows "ceilings_hold cfg (factModel facts) (resRunnerMinutes res > 0) (reservedTotals (readLedger d')) s"
  using assms by (rule claimed_then_hold)

lemma sample_amounts:
  "amounts_ok sample_budget (reservedTotals (readLedger sample_db)) sample_settled sample_reservation"
  by code_simp

theorem claim_within_budget_witness:
  "ceilings_hold sample_budget (factModel sample_facts) (resRunnerMinutes sample_reservation > 0)
     (reservedTotals (readLedger sample_claimed)) sample_settled"
  by (rule claim_within_budget [OF sample_inv sample_try sample_settledFor sample_amounts])

text \<open>
  The limits a claim leaves the runs in flight within, the claimed run \<open>mine\<close> among them.
\<close>

definition within_caps :: "limits \<Rightarrow> int \<Rightarrow> in_flight list \<Rightarrow> in_flight \<Rightarrow> bool" where
  "within_caps l n flight mine \<longleftrightarrow>
     int (length flight) \<le> PlatformCap l \<and> int (length flight) \<le> n
     \<and> (flightSize mine = largeSize \<longrightarrow> int (length (filter (\<lambda>r. flightSize r = largeSize) flight)) \<le> LargeCap l)
     \<and> int (length (filter (\<lambda>r. equal_fold (flightRepo r) (flightRepo mine)) flight)) \<le> RepoCap l"

text \<open>
  C2: A successful claim adds one run in flight, the claimed one, and leaves every limit respected:
  the platform cap, the number of runs at once, the cap on large runs and the cap of its repository.
  Nothing held the poll (breaker, pause, provider halt, peak hours), the run shares no file it will
  write with a run in flight in its repository, neither blocks nor is blocked by one, and the review
  limit has room.
\<close>

theorem claim_within_limits:
  assumes "ledger_inv d"
    and "TryClaim fault query runID now cfg facts res d = (Inr (True, why), d')"
  shows "\<exists>row mine. runs d runID = Some row \<and> inFlight (readLedger d') = inFlight (readLedger d) @ [mine]
    \<and> flightTicket mine = str row ticketIDField \<and> flightRepo mine = str row repoField \<and> flightSize mine = str row sizeField
    \<and> within_caps (factLimits facts) (max (ledgerN (readLedger d)) 1) (inFlight (readLedger d')) mine
    \<and> no_hold facts \<and> no_conflict (inFlight (readLedger d)) (claim_candidate row facts res)
    \<and> review_room facts (inFlight (readLedger d))"
proof -
  from TryClaim_claimed [OF assms(2)] obtain row s where row: "claimable d runID row"
    and adm: "Admit ((claim_input (readLedger d) row cfg facts res)\<lparr>inSettled := s\<rparr>) = (True, [])"
    and d': "d' = claimed_db runID row facts res now d" by blast
  show ?thesis
    using row claim_admitted(1) [OF adm] claimed_ledger(3) [OF assms(1) row]
    by (intro exI [of _ row] exI [of _ "claim_flight row facts res"])
      (auto simp: d' HeldBeforeBudget_none caps_leave_room_def within_caps_def claim_flight_def claimable_def)
qed

theorem claim_within_limits_witness:
  "\<exists>row mine. runs sample_start sample_run = Some row
    \<and> inFlight (readLedger sample_reached) = inFlight (readLedger sample_start) @ [mine]
    \<and> flightTicket mine = str row ticketIDField \<and> flightRepo mine = str row repoField \<and> flightSize mine = str row sizeField
    \<and> within_caps (factLimits sample_facts) (max (ledgerN (readLedger sample_start)) 1) (inFlight (readLedger sample_reached)) mine
    \<and> no_hold sample_facts \<and> no_conflict (inFlight (readLedger sample_start)) (claim_candidate row sample_facts sample_reservation)
    \<and> review_room sample_facts (inFlight (readLedger sample_start))"
  by (rule claim_within_limits [OF sample_start_inv sample_reached_claim])

text \<open>
  A claim attempt that does not claim leaves the ledger and every other run as they were; one that
  fails changes nothing; and one withheld by a condition leaves the run in its state with that
  condition named on its row.
\<close>

theorem refused_claim_frame:
  assumes "TryClaim fault query runID now cfg facts res d = (r, d')" and "\<And>why. r \<noteq> Inr (True, why)"
  shows "readLedger d' = readLedger d \<and> (\<forall>q. q \<noteq> runID \<longrightarrow> runs d' q = runs d q)
    \<and> (\<forall>e. r = Inl e \<longrightarrow> d' = d)
    \<and> (\<forall>why. r = Inr (False, why) \<and> why \<noteq> [] \<longrightarrow> (\<exists>row row'. runs d runID = Some row \<and> runs d' runID = Some row'
         \<and> str row' waitingOnField = why \<and> rowState row' = rowState row \<and> rowAttempt row' = rowAttempt row))"
proof (cases r)
  case (Inl e)
  then show ?thesis
    using assms(1) run_transaction_error [of fault "TryClaim_body query runID now cfg facts res" d] by (simp add: TryClaim_def)
next
  case (Inr p)
  then obtain why where r: "r = Inr (False, why)" using assms(2) [of "snd p"] by (cases p) simp
  have "TryClaim_body query runID now cfg facts res d = Inr ((False, why), d')"
    using TryClaim_ok assms(1) r by metis
  then show ?thesis
  proof (cases rule: TryClaim_body_cases)
    case (ended row)
    then show ?thesis using r by (simp add: ended_db_def)
  next
    case (withheld row)
    then show ?thesis
      using r by (auto simp: withheld_db_def claimable_def rowState_def rowAttempt_def row_simps)
  qed (use r in simp_all)
qed

text \<open>The run the sample poll claims is refused while the breaker is tripped.\<close>

definition sample_tripped :: "store_err facts" where
  "sample_tripped = sample_facts\<lparr>factBreakerTripped := True\<rparr>"

lemma sample_tripped_claim:
  "fst (TryClaim None no_query sample_run sample_now sample_budget sample_tripped sample_reservation sample_db)
    = Inr (False, ConditionCircuitBreaker)"
  by code_simp

theorem refused_claim_frame_witness:
  "\<exists>row row'. runs sample_db sample_run = Some row
     \<and> runs (snd (TryClaim None no_query sample_run sample_now sample_budget sample_tripped sample_reservation sample_db)) sample_run = Some row'
     \<and> str row' waitingOnField = ConditionCircuitBreaker \<and> rowState row' = rowState row \<and> rowAttempt row' = rowAttempt row"
  using refused_claim_frame [OF split_result [OF sample_tripped_claim]] by simp

section \<open>What holds of every state the queue reaches\<close>

text \<open>
  C3: In every state the operations reach, a reservation is its run's only one, is booked for the
  run's current attempt, and its run is claimed, or was stopped while it was.
\<close>

theorem reservation_of_claimed_run:
  assumes "reachable cap d" and "held d key = Some e"
  shows "\<exists>row. runs d (reservationRunID key) = Some row \<and> rowState row \<in> {stateClaimed, stateStopped}
    \<and> entryAttempt e = rowAttempt row \<and> key = reservationKey (reservationRunID key) (rowAttempt row) (entryStage e)
    \<and> (\<forall>j. held d j \<noteq> None \<and> reservationRunID j = reservationRunID key \<longrightarrow> j = key)"
proof -
  have inv: "ledger_inv d" using reachable_inv [OF assms(1)] ..
  show ?thesis
    using ledger_invD(3) [OF inv assms(2)] ledger_invD(4) [OF inv _ assms(2)]
    by (auto simp: booked_def)
qed

theorem reservation_of_claimed_run_witness:
  "\<exists>row. runs sample_reached (reservationRunID sample_key) = Some row \<and> rowState row \<in> {stateClaimed, stateStopped}
    \<and> entryAttempt sample_entry = rowAttempt row
    \<and> sample_key = reservationKey (reservationRunID sample_key) (rowAttempt row) (entryStage sample_entry)"
  using reservation_of_claimed_run [OF sample_reachable(2) sample_held] by blast

text \<open>
  C4: However the operations interleave and fail, no more runs are in flight than the largest
  platform cap any poll claims under.
\<close>

theorem in_flight_within_cap:
  assumes "reachable cap d"
  shows "int (length (inFlight (readLedger d))) \<le> max 0 cap"
  using reachable_inv [OF assms] by simp

theorem in_flight_within_cap_witness:
  "int (length (inFlight (readLedger sample_reached))) \<le> max 0 20"
  by (rule in_flight_within_cap [OF sample_reachable(2)])

text \<open>
  C5: In every state the operations reach, a run that is queued, planned, waiting on its owner or
  abandoned holds no reservation: nothing it booked is counted against the budget or the caps.
\<close>

theorem idle_run_holds_nothing:
  assumes "reachable cap d" and "runs d r = Some row"
    and "rowState row \<in> {stateQueued, statePlanned, stateWaiting, stateAbandoned}"
  shows "\<forall>key. held d key \<noteq> None \<longrightarrow> reservationRunID key \<noteq> r"
proof -
  have "holds_none d r"
    using idle_holds_none [of d r row] reachable_inv [OF assms(1)] assms(2,3) by auto
  then show ?thesis by (simp add: holds_none_def)
qed

theorem idle_run_holds_nothing_witness: "held sample_start sample_key = None"
proof -
  have "reservationRunID sample_key = sample_run" by code_simp
  then show ?thesis
    using idle_run_holds_nothing [OF sample_reachable(1) sample_start_row] by (auto simp: enqueue_row(1))
qed

text \<open>
  C6: A run is never lost and its attempts are counted one by one: after any step it is still there,
  on the same attempt, or on the next one, which only a run that had ended starts.
\<close>

theorem attempts_count_up:
  assumes "reachable cap d" and "step cap d d'" and "runs d r = Some row"
  shows "\<exists>row'. runs d' r = Some row'
    \<and> (rowAttempt row' = rowAttempt row \<or> rowAttempt row' = rowAttempt row + 1 \<and> ended_for_good row)"
  using step_next [OF assms(2)] reachable_inv [OF assms(1)] assms(3) by (auto simp: next_attempts_def)

theorem attempts_count_up_witness:
  "\<exists>row'. runs (snd (Requeue None sample_run sample_now sample_start)) sample_run = Some row'
    \<and> (rowAttempt row' = rowAttempt sample_start_doc
       \<or> rowAttempt row' = rowAttempt sample_start_doc + 1 \<and> ended_for_good sample_start_doc)"
  by (rule attempts_count_up [OF sample_reachable(1) step.requeue sample_start_row])

section \<open>The life of a run\<close>

text \<open>
  C7: A claim whose dispatch fails is undone by its release: the reservations are those before the
  claim, every other run is untouched, and the run can be claimed again at the same attempt.
\<close>

theorem release_undoes_claim:
  assumes "ledger_inv d"
    and "TryClaim fault query runID now cfg facts res d = (Inr (True, why), d')"
  shows "\<exists>row' d''. Release None runID later d' = (Inr (), d'') \<and> claimable d'' runID row'
    \<and> map_option rowAttempt (runs d runID) = Some (rowAttempt row')
    \<and> Reservations (readLedger d'') = Reservations (readLedger d)
    \<and> (\<forall>q. q \<noteq> runID \<longrightarrow> runs d'' q = runs d q)"
proof -
  from TryClaim_claimed [OF assms(2)] obtain row where row: "claimable d runID row"
    and d': "d' = claimed_db runID row facts res now d" by metis
  then show ?thesis
    using claim_then_release [OF assms(1) row, of later facts res now] by (auto simp: claimable_def)
qed

theorem release_undoes_claim_witness:
  "\<exists>row' d''. Release None sample_run (sample_now + minute) sample_reached = (Inr (), d'') \<and> claimable d'' sample_run row'
    \<and> map_option rowAttempt (runs sample_start sample_run) = Some (rowAttempt row')
    \<and> Reservations (readLedger d'') = Reservations (readLedger sample_start)"
  using release_undoes_claim [OF sample_start_inv sample_reached_claim] by blast

text \<open>
  C8: Settling a run's attempt frees the one reservation it was booked under and nothing else: every
  other reservation, the number of runs at once and every other run stay, and settling it again
  changes nothing.
\<close>

theorem settle_frees_one_reservation:
  assumes "Settle fault recent runID attempt d = (Inr (), d')"
  shows "held d' = (held d)(settle_key runID attempt StageBuild := None)
    \<and> ledgerN (readLedger d') = ledgerN (readLedger d) \<and> (\<forall>q. q \<noteq> runID \<longrightarrow> runs d' q = runs d q)
    \<and> Settle None recent' runID attempt d' = (Inr (), d')"
proof -
  have body: "settle_body recent runID attempt StageBuild d = Inr ((), d')"
    using assms by (simp add: Settle_def run_transaction_ok)
  show ?thesis
    using settle_effect [OF body] settle_second [OF body] by (simp add: fun_eq_iff Settle_def run_transaction_def)
qed

definition no_recent :: recent_query where
  "no_recent = (\<lambda>_ _ _. Inr [])"

lemma sample_settles: "fst (Settle None no_recent sample_run (Some 0) sample_claimed) = Inr ()"
  by code_simp

theorem settle_frees_one_reservation_witness:
  "held (snd (Settle None no_recent sample_run (Some 0) sample_claimed)) sample_key = None
    \<and> Settle None no_recent sample_run (Some 0) (snd (Settle None no_recent sample_run (Some 0) sample_claimed))
      = (Inr (), snd (Settle None no_recent sample_run (Some 0) sample_claimed))"
proof -
  have "settle_key sample_run (Some 0) StageBuild = sample_key" by code_simp
  then show ?thesis using settle_frees_one_reservation [OF split_result [OF sample_settles]] by (metis fun_upd_same)
qed

text \<open>
  Settling a plan stage moves what it had reserved, cost and minutes, from the ledger onto the
  run's plan spend, where the budget windows read it, and leaves the run planned, its build still to
  be claimed.
\<close>

theorem settled_plan_moves_spend:
  assumes "SettlePlan fault recent runID attempt d = (Inr (), d')"
    and "held d (settle_key runID attempt StagePlan) = Some e" and "entryStage e = StagePlan" and "runs d runID = Some row"
  shows "held d' = (held d)(settle_key runID attempt StagePlan := None) \<and> (\<exists>row'. runs d' runID = Some row' \<and> rowState row' = statePlanned
    \<and> int_of row' planSpendMicrosField = int64 (int_of row planSpendMicrosField + ProviderCostMicros e)
    \<and> int_of row' planSpendMinutesField = int64 (int_of row planSpendMinutesField + entryRunnerMinutes e))"
proof -
  have body: "settle_body recent runID attempt StagePlan d = Inr ((), d')"
    using assms(1) by (simp add: SettlePlan_def run_transaction_ok)
  show ?thesis
    using settle_plan_moves [OF body assms(2-4)] settle_effect(1) [OF body] by (simp add: fun_eq_iff)
qed

definition sample_planning :: db where
  "sample_planning = claimed_db sample_run sample_row sample_facts (sample_reservation\<lparr>resStage := StagePlan\<rparr>) sample_now sample_db"

lemma sample_planning_reads:
  "fst (SettlePlan None no_recent sample_run (Some 0) sample_planning) = Inr ()"
  "held sample_planning (settle_key sample_run (Some 0) StagePlan)
     = Some (claim_entry sample_row sample_facts (sample_reservation\<lparr>resStage := StagePlan\<rparr>) sample_now)"
  by code_simp+

lemma sample_planning_row:
  "runs sample_planning sample_run =
     Some (apply_updates (claim_updates (readLedger sample_db) sample_row sample_facts (sample_reservation\<lparr>resStage := StagePlan\<rparr>) sample_now) sample_row)"
  by (simp add: sample_planning_def claimed_db_def)

theorem settled_plan_moves_spend_witness:
  "\<exists>row'. runs (snd (SettlePlan None no_recent sample_run (Some 0) sample_planning)) sample_run = Some row'
     \<and> rowState row' = statePlanned \<and> int_of row' planSpendMicrosField = 2 * Dollar \<and> int_of row' planSpendMinutesField = 30"
proof -
  have "int_of (apply_updates (claim_updates (readLedger sample_db) sample_row sample_facts (sample_reservation\<lparr>resStage := StagePlan\<rparr>) sample_now) sample_row) f = 0"
    if "f \<in> {planSpendMicrosField, planSpendMinutesField}" for f
    using that by (auto simp: claim_updates_def sample_row_def row_simps)
  then show ?thesis
    using settled_plan_moves_spend [OF split_result [OF sample_planning_reads(1)] sample_planning_reads(2) _ sample_planning_row]
    by (simp add: sample_reservation_def Dollar_def int64_def)
qed

text \<open>
  C9: A run that has not ended is never requeued: asked of a run still queued, claimed or waiting on
  its owner, none of the five requeues changes anything, and those of the operator and the poll report
  an error.
\<close>

theorem live_run_not_requeued:
  assumes "runs d r = Some row" and "\<not> ended_for_good row"
  shows "snd (Requeue fault r now d) = d \<and> snd (RequeueAfterConflict fault r now m d) = d
    \<and> snd (RequeueTransient fault r now cls limit d) = d \<and> snd (RetryWithNote fault r req now d) = d
    \<and> snd (Supersede fault r index replied ans now d) = d
    \<and> (\<exists>e. fst (Requeue fault r now d) = Inl e) \<and> (\<exists>e. fst (RequeueAfterConflict fault r now m d) = Inl e)
    \<and> (\<exists>e. fst (RequeueTransient fault r now cls limit d) = Inl e)"
proof -
  note refuse = plain.requeue_refuses_live [OF assms, of fault _ now]
    conflict.requeue_refuses_live [OF assms, of fault _ m now] transient.requeue_refuses_live [OF assms, of fault _ cls limit now now]
    retry.requeue_refuses_live [OF assms, of fault _ req now] supersede.requeue_refuses_live [OF assms, of fault _ index replied ans now]
  have "snd (RetryWithNote fault r req now d) = d"
    using RetryWithNote_db [of fault r req now d] refuse(4) [of "\<lparr>keepNote = True, archive = True\<rparr>"] by auto
  moreover have "snd (Supersede fault r index replied ans now d) = d"
    using Supersede_db [of fault r index replied ans now d] refuse(5) [of "\<lparr>keepNote = False, archive = False\<rparr>"] by auto
  ultimately show ?thesis
    using refuse(1) [of "\<lparr>keepNote = False, archive = False\<rparr>"] refuse(2) [of "\<lparr>keepNote = True, archive = False\<rparr>"]
      refuse(3) [of "\<lparr>keepNote = True, archive = False\<rparr>"]
    by (auto simp: Requeue_def RequeueAfterConflict_def RequeueTransient_def)
qed

lemma sample_row_live: "\<not> ended_for_good sample_row"
  using sample_row_reads(2,4) by (simp add: ended_for_good_def)

theorem live_run_not_requeued_witness:
  "snd (Requeue None sample_run sample_now sample_db) = sample_db \<and> (\<exists>e. fst (Requeue None sample_run sample_now sample_db) = Inl e)"
  using live_run_not_requeued [OF sample_row_reads(1) sample_row_live, of None sample_now] by blast

text \<open>
  C10: A requeue that succeeds returns the run as its next attempt, queued or planned as the requeue
  says, with no outcome, claim or cancel left on its row and no reservation held: it can be claimed at
  once.
\<close>

theorem requeued_run_claimable:
  assumes "requeue_decider dec" and "ledger_inv d" and "requeue fault opts dec r now d = (Inr res, d')"
    and "runs d r = Some row"
  shows "\<exists>row'. claimable d' r row' \<and> rowAttempt row' = rowAttempt row + 1 \<and> holds_none d' r
    \<and> rowState row' = resState res \<and> resAttempt res = rowAttempt row + 1
    \<and> time_of row' queuedAtField = now \<and> row' claimedAtField = None \<and> \<not> cancelledRow row'"
  by (rule requeue_decision.requeue_then_claimable [OF requeue_decider_contract [OF assms(1)] assms(2-4)])

definition sample_stopped_row :: doc where
  "sample_stopped_row = apply_updates
     [(stateField, Put (VStr stateStopped)), (outcomeField, Put (VStr OutcomeStopped)), (stopReasonField, Put (VStr ''timeout'')),
      (settledProviderCostField, Put (VInt 7)), (settledRunnerMinutesField, Put (VInt 3)), (attemptField, Put (VInt 4))] (\<lambda>_. None)"

definition sample_stopped :: db where
  "sample_stopped = put_row sample_run sample_stopped_row empty_db"

lemma sample_stopped_inv: "ledger_inv sample_stopped"
  unfolding sample_stopped_def
  by (intro put_row_unreserved ledger_inv_empty absent_holds_none)
    (simp_all add: empty_db_def run_id_ok_def sample_run_def)

lemma sample_stopped_reads:
  "runs sample_stopped sample_run = Some sample_stopped_row" "rowAttempt sample_stopped_row = 4"
  by (simp_all add: sample_stopped_def sample_stopped_row_def rowAttempt_def row_simps)

lemma sample_requeues:
  "fst (requeue None \<lparr>keepNote = False, archive = False\<rparr> Requeue_decide sample_run sample_now sample_stopped)
     = Inr \<lparr>resState = stateQueued, resAttempt = 5, resTicketState = []\<rparr>"
  by code_simp

theorem requeued_run_claimable_witness:
  "\<exists>row'. claimable (snd (requeue None \<lparr>keepNote = False, archive = False\<rparr> Requeue_decide sample_run sample_now sample_stopped)) sample_run row'
     \<and> rowAttempt row' = 5 \<and> rowState row' = stateQueued"
  using requeued_run_claimable [OF _ sample_stopped_inv split_result [OF sample_requeues] sample_stopped_reads(1)]
    sample_stopped_reads(2)
  by (auto simp: requeue_decider_def)

text \<open>
  C11: An owner's retry takes effect once: asked again with the same note by the same owner, it
  reports the attempt it already made and changes nothing; and the attempt it replaced is archived as
  its row stood.
\<close>

theorem retry_applies_once:
  assumes "RetryWithNote fault r req now d = (Inr \<lparr>retryAttempt = a, Already = False\<rparr>, d')" and "runs d r = Some row"
  shows "RetryWithNote None r req later d' = (Inr \<lparr>retryAttempt = a, Already = True\<rparr>, d')
    \<and> (\<exists>old. attempts d' (r, rowAttempt row) = Some old
        \<and> (\<forall>f. f \<notin> {supersededByAttemptField, archivedAtField} \<longrightarrow> old f = row f))"
  using retry_twice [OF assms(1)] retry_archives [OF assms] by blast

definition sample_retry :: retry_request where
  "sample_retry = \<lparr>Note = ''again'', Actor = ''owner'', ExpectedAttempt = 4, SupersedePR = 0\<rparr>"

lemma sample_retries:
  "fst (RetryWithNote None sample_run sample_retry sample_now sample_stopped) = Inr \<lparr>retryAttempt = 5, Already = False\<rparr>"
  by code_simp

theorem retry_applies_once_witness:
  "RetryWithNote None sample_run sample_retry (sample_now + hour)
     (snd (RetryWithNote None sample_run sample_retry sample_now sample_stopped))
   = (Inr \<lparr>retryAttempt = 5, Already = True\<rparr>, snd (RetryWithNote None sample_run sample_retry sample_now sample_stopped))"
  using retry_applies_once [OF split_result [OF sample_retries] sample_stopped_reads(1)] by blast

text \<open>
  What an attempt settled for is not lost when a conflict or the owner's retry starts the next
  one: it is carried into the fields the next attempt's settlement adds to its own.
\<close>

theorem retry_carries_spend:
  assumes "runs d r = Some row"
    and "RequeueAfterConflict fault r now m d = (Inr res, d')
      \<or> RetryWithNote fault r req now d = (Inr \<lparr>retryAttempt = a, Already = False\<rparr>, d')"
  shows "\<exists>row'. runs d' r = Some row'
    \<and> int_of row' priorSettledCostField = int_of row settledProviderCostField
    \<and> int_of row' priorSettledMinutesField = int_of row settledRunnerMinutesField"
  using assms(2)
proof
  assume "RequeueAfterConflict fault r now m d = (Inr res, d')"
  then have "requeue_body \<lparr>keepNote = True, archive = False\<rparr> (RequeueAfterConflict_decide m) r now d = Inr (res, d')"
    by (simp add: RequeueAfterConflict_def requeue_def run_transaction_ok)
  then show ?thesis
    using assms(1) decider_carries(1) [of m row] by (rule_tac conflict.requeue_ok) (auto simp: carries_spend_def)
next
  assume "RetryWithNote fault r req now d = (Inr \<lparr>retryAttempt = a, Already = False\<rparr>, d')"
  then obtain res' where "requeue fault \<lparr>keepNote = True, archive = True\<rparr> (RetryWithNote_decide req) r now d = (Inr res', d')"
    by (rule RetryWithNote_first)
  then have "requeue_body \<lparr>keepNote = True, archive = True\<rparr> (RetryWithNote_decide req) r now d = Inr (res', d')"
    by (simp add: requeue_def run_transaction_ok)
  then show ?thesis
    using assms(1) decider_carries(2) [of req row] by (rule_tac retry.requeue_ok) (auto simp: carries_spend_def)
qed

theorem retry_carries_spend_witness:
  "\<exists>row'. runs (snd (RetryWithNote None sample_run sample_retry sample_now sample_stopped)) sample_run = Some row'
     \<and> int_of row' priorSettledCostField = 7 \<and> int_of row' priorSettledMinutesField = 3"
proof -
  have "int_of sample_stopped_row settledProviderCostField = 7" "int_of sample_stopped_row settledRunnerMinutesField = 3"
    by (simp_all add: sample_stopped_row_def row_simps)
  then show ?thesis
    using retry_carries_spend [OF sample_stopped_reads(1) disjI2 [OF split_result [OF sample_retries]]] by simp
qed

text \<open>
  C12: The operator's requeue and the requeue after a transient fault carry nothing: the fields of
  earlier spend stay as they were, so what the attempt just ended settled for is gone from them once
  the next attempt's settlement replaces the settled totals.
\<close>

theorem requeue_leaves_prior_spend:
  assumes "runs d r = Some row"
    and "Requeue fault r now d = (Inr res, d') \<or> RequeueTransient fault r now cls limit d = (Inr res, d')"
  shows "\<exists>row'. runs d' r = Some row' \<and> row' priorSettledCostField = row priorSettledCostField
    \<and> row' priorSettledMinutesField = row priorSettledMinutesField"
  using assms(2)
proof
  assume "Requeue fault r now d = (Inr res, d')"
  then have "requeue_body \<lparr>keepNote = False, archive = False\<rparr> Requeue_decide r now d = Inr (res, d')"
    by (simp add: Requeue_def requeue_def run_transaction_ok)
  then show ?thesis
    using assms(1) decider_drops [OF disjI1 [OF refl], of row] by (rule_tac plain.requeue_ok) auto
next
  assume "RequeueTransient fault r now cls limit d = (Inr res, d')"
  then have "requeue_body \<lparr>keepNote = True, archive = False\<rparr> (RequeueTransient_decide cls limit now) r now d = Inr (res, d')"
    by (simp add: RequeueTransient_def requeue_def run_transaction_ok)
  then show ?thesis
    using assms(1) decider_drops [OF disjI2 [OF refl], of cls limit now row]
    by (rule_tac transient.requeue_ok) auto
qed

lemma sample_requeues_plain:
  "fst (Requeue None sample_run sample_now sample_stopped)
     = Inr \<lparr>resState = stateQueued, resAttempt = 5, resTicketState = []\<rparr>"
  using sample_requeues by (simp add: Requeue_def)

theorem requeue_leaves_prior_spend_witness:
  "\<exists>row'. runs (snd (Requeue None sample_run sample_now sample_stopped)) sample_run = Some row'
     \<and> row' priorSettledCostField = None \<and> row' priorSettledMinutesField = None"
proof -
  have "sample_stopped_row priorSettledCostField = None" "sample_stopped_row priorSettledMinutesField = None"
    by (simp_all add: sample_stopped_row_def row_simps)
  then show ?thesis
    using requeue_leaves_prior_spend [OF sample_stopped_reads(1) disjI1 [OF split_result [OF sample_requeues_plain]]] by simp
qed

text \<open>
  C13: A question and its answer round trip: a run parked on an owner's decision holds no reservation,
  and once it is answered it can be claimed again, with the question and the answer last among its
  decisions.
\<close>

theorem answered_run_claimable:
  assumes "ledger_inv d" and "Suspend fault r dec url now d = (Inr (), d')"
    and "runs d r = Some row" and "\<not> hasEnded row"
  shows "\<exists>row' d''. Answer None r ans later d' = (Inr (), d'') \<and> claimable d'' r row' \<and> holds_none d'' r
    \<and> entries_of row' decisionsField = entries_of row decisionsField @ [(new_entry dec now)\<lparr>answer := ans\<rparr>]"
  by (rule suspend_then_answer [OF assms])

definition sample_decision :: decision where
  "sample_decision = \<lparr>question = ''Which store?'', contextLines = [],
     options = [\<lparr>optLabel = ''SQL'', optValue = ''sql'', optCost = ''low''\<rparr>]\<rparr>"

lemma sample_suspends: "fst (Suspend None sample_run sample_decision [] sample_now sample_db) = Inr ()"
  by code_simp

theorem answered_run_claimable_witness:
  "\<exists>row' d''. Answer None sample_run ''SQL'' (sample_now + hour) (snd (Suspend None sample_run sample_decision [] sample_now sample_db))
       = (Inr (), d'')
     \<and> claimable d'' sample_run row' \<and> holds_none d'' sample_run
     \<and> entries_of row' decisionsField = entries_of sample_row decisionsField @ [(new_entry sample_decision sample_now)\<lparr>answer := ''SQL''\<rparr>]"
  by (rule answered_run_claimable [OF sample_inv split_result [OF sample_suspends] sample_row_reads(1,4)])

section \<open>The sweep\<close>

text \<open>
  C14: A sweep abandons exactly the claims that are past their stage's window and have reported
  nothing (those whose own transaction did not fail), leaves every other run as it was, reports just
  the runs it abandoned, and drops their reservations and those of runs long settled, no others.
\<close>

theorem sweep_abandons_overdue_only:
  assumes "ledger_inv d" and "lists_claimed listing d"
    and "SweepAbandoned faults listing now w d = ((out, errs), d')"
  shows "runs d' r = map_option (\<lambda>row. if swept faults now w d r then abandoned_row now row else row) (runs d r)
    \<and> abRunID ` set out = {r. swept faults now w d r}
    \<and> held d' key =
        (if swept faults now w d (reservationRunID key)
            \<or> faultListing faults = None \<and> faultKey faults key = None \<and> releasable now w d key then None else held d key)"
  using sweep_exact [OF assms] by blast

text \<open>A listing of the sample's one claimed run, and a sweep no transaction of which fails.\<close>

definition sample_listing :: "db \<Rightarrow> store_err + (string \<times> doc) list" where
  "sample_listing d = Inr (case runs d sample_run of None \<Rightarrow> []
     | Some row \<Rightarrow> if rowState row = stateClaimed then [(sample_run, row)] else [])"

definition no_faults :: sweep_faults where
  "no_faults = \<lparr>faultListing = None, faultRun = (\<lambda>_. None), faultKey = (\<lambda>_. None)\<rparr>"

definition sample_claimed_row :: doc where
  "sample_claimed_row = apply_updates (claim_updates (readLedger sample_db) sample_row sample_facts sample_reservation sample_now) sample_row"

lemma sample_claimed_runs:
  "runs sample_claimed r = (if r = sample_run then Some sample_claimed_row else None)"
  by (simp add: sample_claimed_def claimed_db_def sample_claimed_row_def sample_db_def empty_db_def)

lemma sample_claimed_inv: "ledger_inv sample_claimed"
  using TryClaim_keeps [OF sample_inv] sample_try by (metis snd_conv)

lemma sample_lists: "lists_claimed sample_listing sample_claimed"
  by (auto simp: lists_claimed_def sample_listing_def sample_claimed_runs split: if_splits)

definition sample_later :: time where
  "sample_later = sample_now + 4 * hour"

lemma sample_swept: "swept no_faults sample_later abandonWindows sample_claimed sample_run"
proof -
  have "claim_stage (readLedger sample_claimed) sample_run sample_claimed_row = StageBuild" "\<not> hasEnded sample_claimed_row"
    "rowState sample_claimed_row = stateClaimed" "time_of sample_claimed_row claimedAtField = sample_now"
    by code_simp+
  then have "overdue sample_later abandonWindows sample_claimed sample_run sample_claimed_row"
    by (simp add: overdue_def sample_claimed_runs window_for_def abandonWindows_def sample_later_def sample_now_def
        day_def hour_def minute_def buildAbandonWindow_def)
  then show ?thesis by (auto simp: swept_def no_faults_def)
qed

abbreviation sample_sweep :: "(abandoned list \<times> store_err list) \<times> db" where
  "sample_sweep \<equiv> SweepAbandoned no_faults sample_listing sample_later abandonWindows sample_claimed"

lemma sample_sweep_split: "sample_sweep = ((fst (fst sample_sweep), snd (fst sample_sweep)), snd sample_sweep)"
  by simp

theorem sweep_abandons_overdue_only_witness:
  "runs (snd sample_sweep) sample_run = Some (abandoned_row sample_later sample_claimed_row)
    \<and> sample_run \<in> abRunID ` set (fst (fst sample_sweep)) \<and> held (snd sample_sweep) sample_key = None"
proof -
  have "reservationRunID sample_key = sample_run" by code_simp
  then show ?thesis
    using sweep_abandons_overdue_only [OF sample_claimed_inv sample_lists sample_sweep_split, of sample_run sample_key] sample_swept
    by (simp add: sample_claimed_runs)
qed

text \<open>
  C15: A sweep run again at the same moment finds nothing more to abandon: it reports no run and
  changes none, and every run the first one abandoned can be requeued.
\<close>

theorem sweep_settles:
  assumes "ledger_inv d" and "lists_claimed listing d" and "faultRun faults = (\<lambda>_. None)"
    and "SweepAbandoned faults listing now w d = ((out, errs), d')"
    and "SweepAbandoned faults' listing now w d' = ((out', errs'), d'')" and "lists_claimed listing d'"
  shows "out' = [] \<and> runs d'' = runs d'
    \<and> (\<forall>r \<in> abRunID ` set out. \<exists>res e. Requeue None r later d' = (Inr res, e))"
proof -
  have "\<exists>row. runs d' r = Some row \<and> ended_for_good row" if "r \<in> abRunID ` set out" for r
    using that sweep_exact(1,2) [OF assms(1,2,4)] by (auto simp: swept_def overdue_def ended_for_good_def)
  then have "\<exists>res e. Requeue None r later d' = (Inr res, e)" if "r \<in> abRunID ` set out" for r
    using that ended_requeues by blast
  then show ?thesis using sweep_twice [OF assms] by blast
qed

lemma sample_lists_after: "lists_claimed sample_listing (snd sample_sweep)"
proof -
  have "runs (snd sample_sweep) r = (if r = sample_run then Some (abandoned_row sample_later sample_claimed_row) else None)" for r
    using sweep_exact(1) [OF sample_claimed_inv sample_lists sample_sweep_split, of r] sample_swept
    by (simp add: sample_claimed_runs)
  then show ?thesis by (auto simp: lists_claimed_def sample_listing_def split: if_splits)
qed

theorem sweep_settles_witness:
  "fst (fst (SweepAbandoned no_faults sample_listing sample_later abandonWindows (snd sample_sweep))) = []
    \<and> (\<exists>res e. Requeue None sample_run sample_later (snd sample_sweep) = (Inr res, e))"
proof -
  have "sample_run \<in> abRunID ` set (fst (fst sample_sweep))"
    using sweep_exact(2) [OF sample_claimed_inv sample_lists sample_sweep_split] sample_swept by simp
  then show ?thesis
    using sweep_settles [OF sample_claimed_inv sample_lists _ sample_sweep_split _ sample_lists_after,
        where out' = "fst (fst (SweepAbandoned no_faults sample_listing sample_later abandonWindows (snd sample_sweep)))"
          and errs' = "snd (fst (SweepAbandoned no_faults sample_listing sample_later abandonWindows (snd sample_sweep)))"
          and d'' = "snd (SweepAbandoned no_faults sample_listing sample_later abandonWindows (snd sample_sweep))"
          and faults' = no_faults and later = sample_later]
    by (auto simp: no_faults_def)
qed

section \<open>Tickets, records and the inbox\<close>

text \<open>
  C16: A ticket is queued once: enqueuing it writes a run at its first attempt that can be claimed and
  that names the ticket's blockers, and enqueuing any ticket under the same id again is refused and
  changes nothing.
\<close>

theorem enqueued_once:
  assumes "Enqueue fault run d = (Inr (), d')" and "qRunID again = qRunID run"
  shows "Enqueue None again d' = (Inl ErrAlreadyQueued, d')
    \<and> (\<exists>row. claimable d' (qRunID run) row \<and> rowAttempt row = 0 \<and> stringList row blockedByField = qBlockedBy run
        \<and> stringList row blocksField = qBlocks run \<and> modelLabelsOf row = qModels run)
    \<and> rejected d' (qRunID run) = None"
proof -
  from assms(1) have d': "d' = (put_row (qRunID run) (apply_updates (enqueue_data run) no_doc) d)
          \<lparr>rejected := (\<lambda>t. if t = qRunID run then None else rejected d t)\<rparr>"
    by (simp add: Enqueue_ok)
  then show ?thesis
    using assms(2) enqueue_row [of run]
    by (simp add: Enqueue_def run_transaction_def claimable_def rowState_def)
qed

lemma sample_enqueues: "Enqueue None sample_queued empty_db = (Inr (), sample_start)"
  by (simp add: sample_start_def Enqueue_def run_transaction_def empty_db_def)

theorem enqueued_once_witness:
  "Enqueue None sample_queued sample_start = (Inl ErrAlreadyQueued, sample_start)"
  using enqueued_once [OF sample_enqueues refl] by blast







text \<open>
  The record job's write replaces the record's own fields and keeps every field the store alone
  writes: the state, the attempt, the claim, the plan's files and spend, the decisions, the requeues,
  the owner's note, the holds and the checks.
\<close>

theorem record_write_keeps_store_fields:
  assumes "runs d runID = Some row"
    and "f \<in> {stateField, attemptField, queuedAtField, claimedAtField, repoField, priorityField, decisionsField,
      planFilesField, planSettledAtField, planSpendMicrosField, planSpendMinutesField, transientRequeuesField,
      operatorNoteField, retriedByField, heldOnField, checksResultField}"
  shows "\<exists>row'. runs (snd (PutRecord None runID rec d)) runID = Some row' \<and> row' f = row f"
  by (rule PutRecord_store_fields [OF assms])

theorem record_write_keeps_store_fields_witness:
  "\<exists>row'. runs (snd (PutRecord None sample_run (NewRecord sample_run sample_ticket sample_now) sample_db)) sample_run = Some row'
     \<and> row' stateField = sample_row stateField"
  by (rule record_write_keeps_store_fields [OF sample_row_reads(1)]) simp

text \<open>
  Every run the inbox shows the owner as stopped can be requeued.
\<close>

theorem inbox_stopped_requeues:
  assumes "runs d r = Some row" and "inboxRun r row = (shown, True)" and "inboxStopped shown"
  shows "\<exists>res d'. Requeue None r now d = (Inr res, d')"
proof -
  have "stoppedRun row" using assms(2,3) by (auto simp: inboxRun_def Let_def split: if_splits)
  then show ?thesis using ended_requeues [OF assms(1) stoppedRun_ended] by blast
qed

lemma sample_inbox: "snd (inboxRun sample_run sample_stopped_row)" "inboxStopped (fst (inboxRun sample_run sample_stopped_row))"
  by code_simp+

theorem inbox_stopped_requeues_witness:
  "\<exists>res d'. Requeue None sample_run sample_now sample_stopped = (Inr res, d')"
  by (rule inbox_stopped_requeues [OF sample_stopped_reads(1), where shown = "fst (inboxRun sample_run sample_stopped_row)"])
    (use sample_inbox in \<open>simp_all add: prod_eq_iff\<close>)

section \<open>Keys, budget and rules\<close>

text \<open>
  C18: A reservation key gives back its run, and two keys are equal only for the same run, attempt and
  stage; no key of an attempt is one an older release wrote.
\<close>

theorem reservation_key_unique:
  assumes "run_id_ok r" and "run_id_ok q"
  shows "reservationRunID (reservationKey r a s) = r
    \<and> (reservationKey r a s = reservationKey q b t \<longleftrightarrow> r = q \<and> a = b \<and> (s = StagePlan \<longleftrightarrow> t = StagePlan))
    \<and> reservationKey r a s \<noteq> legacyReservationKey q t"
proof (intro conjI)
  show "reservationKey r a s = reservationKey q b t \<longleftrightarrow> r = q \<and> a = b \<and> (s = StagePlan \<longleftrightarrow> t = StagePlan)"
    using reservationKey_inj [OF assms, of a s b t] by (cases "s = StagePlan"; cases "t = StagePlan")
      (auto simp: reservationKey_def [of q b] stageKey_def simp flip: reservationKey_def)
qed (rule reservationRunID_key [OF assms(1)] reservationKey_not_legacy [OF assms])+

theorem reservation_key_unique_witness:
  "reservationRunID (reservationKey ''FORGE-1'' 2 StagePlan) = ''FORGE-1''
    \<and> reservationKey ''FORGE-1'' 2 StagePlan \<noteq> reservationKey ''FORGE-1'' 2 StageBuild"
  using reservation_key_unique [of "''FORGE-1''" "''FORGE-1''" 2 StagePlan 2 StageBuild] by (simp add: run_id_ok_def)

text \<open>
  C19: A claim judged on the poll's snapshot of the settled history is judged on the same spend as one
  that reads the history in its own transaction, for every budget the poll admits against, since the
  snapshot reaches back over every window of each.
\<close>

theorem snapshot_is_scan:
  assumes "answers_queries rows query" and "SettledHistory query (historySince budget plans now) = Inr h"
    and "b \<in> set (config_budgets budget plans)" and "\<forall>w \<in> set (budget_windows b). 0 < Since w now"
  shows "settledFor query b model now (Some (Inr h)) = settledFor query b model now None"
  using snapshot_Sums [OF assms(1,2), of b] historySince_covers [OF assms(3)] assms(4) by (simp add: settledFor_def)

definition sample_settled_row :: doc where
  "sample_settled_row = apply_updates [(settledAtField, Put (VTime sample_now)), (settledProviderCostField, Put (VInt 5)),
     (planField, Put (VStr ''glm''))] (\<lambda>_. None)"

definition sample_rows :: "string \<Rightarrow> doc option" where
  "sample_rows r = (if r = sample_run then Some sample_settled_row else None)"

definition sample_query :: run_query where
  "sample_query f since = Inr (case sample_settled_row f of
     Some (VTime t) \<Rightarrow> if since \<le> t then [(sample_run, sample_settled_row)] else [] | _ \<Rightarrow> [])"

lemma sample_answers: "answers_queries sample_rows sample_query"
  by (auto simp: answers_queries_def sample_query_def rows_ge_def sample_rows_def split: option.splits goval.splits if_splits)

definition sample_history :: "settlement list" where
  "sample_history = [settlement_of sample_settled_row]"

definition sample_rolling :: budget_config where
  "sample_rolling = sample_budget\<lparr>cash := \<lparr>windowName = ''cash'', windowPeriod = 30 * day, windowCalendar = False, windowLimit = 5 * Dollar\<rparr>\<rparr>"

lemma sample_loads: "SettledHistory sample_query (historySince sample_rolling [] sample_now) = Inr sample_history"
  by code_simp

lemma sample_windows: "\<forall>w \<in> set (budget_windows sample_rolling). 0 < Since w sample_now"
  by code_simp

theorem snapshot_is_scan_witness:
  "settledFor sample_query sample_rolling ''glm/flash'' sample_now (Some (Inr sample_history))
     = settledFor sample_query sample_rolling ''glm/flash'' sample_now None"
  by (rule snapshot_is_scan [OF sample_answers sample_loads _ sample_windows]) (simp add: config_budgets_def)

text \<open>
  C20: The number of runs at once rises by one after a whole row of stable runs and not before: with
  fewer it stays and the row is counted; a single run that is not stable restarts the count or halves
  the number.
\<close>

theorem rule_rises_on_stable_row:
  assumes "list_all (stable_obs t) obss" and "int (length obss) \<le> StableRuns t" and "in_int64 (StableRuns t)" and "0 < StableRuns t"
    and "1 \<le> n" and "n \<le> RunsAtOnceMax cap"
  shows "apply_rule t cap \<lparr>concN = n, concStable = 0\<rparr> obss =
    (if int (length obss) = StableRuns t then \<lparr>concN = min (n + 1) (RunsAtOnceMax cap), concStable = 0\<rparr>
     else \<lparr>concN = n, concStable = int (length obss)\<rparr>)"
proof (cases "int (length obss) = StableRuns t")
  case True
  then obtain obss' obs where obss: "obss = obss' @ [obs]" using assms(4) by (cases obss rule: rev_cases) auto
  then have "apply_rule t cap \<lparr>concN = n, concStable = 0\<rparr> obss' = \<lparr>concN = n, concStable = int (length obss')\<rparr>"
    using assms True by (intro apply_rule_counts) auto
  then show ?thesis
    using assms True NextConcurrency_cases [of "\<lparr>concN = n, concStable = int (length obss')\<rparr>" cap obs t]
    by (simp add: obss apply_rule_snoc in_int64_def stable_obs_def)
next
  case False
  then show ?thesis using assms by (simp add: apply_rule_counts)
qed

definition sample_stable :: observation where
  "sample_stable = \<lparr>Solo = 100, Loaded = 110, RateLimited = False\<rparr>"

lemma sample_stable_obs: "stable_obs DefaultTuning sample_stable"
  by code_simp

theorem rule_rises_on_stable_row_witness:
  "apply_rule DefaultTuning 20 \<lparr>concN = 2, concStable = 0\<rparr> (replicate 5 sample_stable) = \<lparr>concN = 3, concStable = 0\<rparr>
    \<and> apply_rule DefaultTuning 20 \<lparr>concN = 2, concStable = 0\<rparr> (replicate 4 sample_stable) = \<lparr>concN = 2, concStable = 4\<rparr>"
proof -
  have "list_all (stable_obs DefaultTuning) (replicate k sample_stable)" for k
    using sample_stable_obs by (simp add: list_all_iff)
  then show ?thesis
    using rule_rises_on_stable_row [of DefaultTuning "replicate 5 sample_stable" 2 20]
      rule_rises_on_stable_row [of DefaultTuning "replicate 4 sample_stable" 2 20]
    by (simp add: DefaultTuning_def in_int64_def RunsAtOnceMax_def MaxRunsAtOnce_def)
qed

text \<open>
  Whatever the run's observation, the next number of runs at once is at least one and at most the
  ceiling of fifteen and the platform cap, and it is never more than one above the number it was.
\<close>

theorem rule_within_bounds:
  assumes "1 \<le> platformCap" and "1 \<le> concN cur"
  shows "1 \<le> concN (NextConcurrency cur obs t platformCap)
    \<and> concN (NextConcurrency cur obs t platformCap) \<le> min MaxRunsAtOnce platformCap
    \<and> concN (NextConcurrency cur obs t platformCap) \<le> concN cur + 1"
proof -
  have "quot2 k \<le> k" if "1 \<le> k" for k using that by (simp add: quot2_def)
  then have "concN (NextConcurrency cur obs t platformCap) \<le> concN cur + 1"
    using assms by (auto simp: NextConcurrency_def Let_def RunsAtOnceMax_def MaxRunsAtOnce_def quot2_def min_def max_def)
  then show ?thesis using NextConcurrency_bounds [OF assms(1)] by (simp add: RunsAtOnceMax_def)
qed

theorem rule_within_bounds_witness:
  "concN (NextConcurrency \<lparr>concN = 15, concStable = 4\<rparr> sample_stable DefaultTuning 20) \<le> min MaxRunsAtOnce 20"
  using rule_within_bounds [of 20 "\<lparr>concN = 15, concStable = 4\<rparr>"] by simp

text \<open>
  C21: On amounts no sum wraps on, the budget check admits a candidate exactly when every provider
  window, its model's cap and the cash ceiling hold the reserved, the settled and its own estimate
  together; and a refusal names the ceiling that binds, one the budget carries.
\<close>

theorem budget_check_exact:
  assumes "amounts_ok cfg reserved s estimate"
  shows "(fst (Decide cfg model reserved s estimate) \<longleftrightarrow> fits_ceilings cfg model reserved s estimate)
    \<and> (\<not> fst (Decide cfg model reserved s estimate) \<longrightarrow>
        snd (Decide cfg model reserved s estimate) \<in> {CeilingCash, CeilingRunnerMinutes}
        \<or> isProviderCeiling cfg (snd (Decide cfg model reserved s estimate)))"
  using Decide_exact [OF assms, of model] Decide_names_ceiling [of cfg model reserved s estimate]
  by (cases "Decide cfg model reserved s estimate") auto

theorem budget_check_exact_witness:
  "fst (Decide sample_budget ''glm/flash'' \<lparr>totalProviderCost = 0, totalRunnerMinutes = 0\<rparr> sample_settled sample_reservation)
    \<longleftrightarrow> fits_ceilings sample_budget ''glm/flash'' \<lparr>totalProviderCost = 0, totalRunnerMinutes = 0\<rparr> sample_settled sample_reservation"
proof -
  have "amounts_ok sample_budget \<lparr>totalProviderCost = 0, totalRunnerMinutes = 0\<rparr> sample_settled sample_reservation"
    by code_simp
  then show ?thesis using budget_check_exact by blast
qed

text \<open>
  C22: A candidate passes the conditions before the budget exactly when nothing holds the poll, every
  cap leaves room for one more run, it neither blocks nor is blocked by nor overlaps a run in flight,
  and the review limit has room: the order the code checks them in does not matter to the verdict.
\<close>

theorem held_before_budget_exact:
  "HeldBeforeBudget inp = [] \<longleftrightarrow>
     no_hold (inFacts inp)
     \<and> caps_leave_room (factLimits (inFacts inp)) (inN inp) (inInFlight inp) (inCandidate inp)
     \<and> no_conflict (inInFlight inp) (inCandidate inp) \<and> review_room (inFacts inp) (inInFlight inp)"
  by (rule HeldBeforeBudget_none)

section \<open>Halts and notices\<close>

text \<open>
  C23: A provider is halted exactly when it has stopped three times since it was last cleared, by a
  success or by the operator; the halt dates from the third stop, and the stops are counted one by one.
\<close>

theorem provider_halt_after_three_stops:
  assumes "\<forall>q t. InfraStop q t \<in> set es \<longrightarrow> \<not> is_zero t"
  shows "(Halted (after_events es) p \<longleftrightarrow> 3 \<le> length (stops_since p [] es))
    \<and> ConsecutiveStops (readProviderHealth (after_events es) p) = int (length (stops_since p [] es))
    \<and> (3 \<le> length (stops_since p [] es) \<longrightarrow>
        HaltedAt (readProviderHealth (after_events es) p) = stops_since p [] es ! 2)"
proof -
  have "set (stops_since p ts es) \<subseteq> set ts \<union> {t. InfraStop p t \<in> set es}" for ts
    by (induction p ts es rule: stops_since.induct) (auto split: if_splits)
  then have "stops_since p [] es ! 2 \<noteq> 0" if "3 \<le> length (stops_since p [] es)"
    using that assms nth_mem [of 2 "stops_since p [] es"] by fastforce
  then show ?thesis using health_after_events [of es p] assms by (simp add: Halted_def)
qed

theorem provider_halt_after_three_stops_witness:
  "Halted (after_events [InfraStop ''glm'' 5, Cleared ''glm'', InfraStop ''glm'' 6, InfraStop ''kimi'' 7, InfraStop ''glm'' 8, InfraStop ''glm'' 9]) ''glm''
    \<and> \<not> Halted (after_events [InfraStop ''glm'' 5, Cleared ''glm'', InfraStop ''glm'' 6, InfraStop ''kimi'' 7, InfraStop ''glm'' 8]) ''glm''"
  using provider_halt_after_three_stops [of "[InfraStop ''glm'' 5, Cleared ''glm'', InfraStop ''glm'' 6, InfraStop ''kimi'' 7, InfraStop ''glm'' 8, InfraStop ''glm'' 9]" "''glm''"]
    provider_halt_after_three_stops [of "[InfraStop ''glm'' 5, Cleared ''glm'', InfraStop ''glm'' 6, InfraStop ''kimi'' 7, InfraStop ''glm'' 8]" "''glm''"]
  by simp

text \<open>The queries over one notice's id.\<close>

definition sample_notice :: notice where
  "sample_notice = \<lparr>noticeID = ''n1'', noticeClass = ''stuck:FORGE-1'', noticeDetail = [], noticeLink = []\<rparr>"

definition sample_pending :: "db \<Rightarrow> string list" where
  "sample_pending d = (case notices d ''n1'' of None \<Rightarrow> []
     | Some n \<Rightarrow> if str n noticeStateField = noticePending then [''n1''] else [])"

definition sample_stale :: "time \<Rightarrow> db \<Rightarrow> string list" where
  "sample_stale t d = (case notices d ''n1'' of None \<Rightarrow> []
     | Some n \<Rightarrow> (case n claimedAtField of Some (VTime s) \<Rightarrow> if s < t then [''n1''] else [] | _ \<Rightarrow> []))"

lemma sample_queries: "lists_pending sample_pending" "lists_stale sample_stale"
  by (auto simp: lists_pending_def lists_stale_def sample_pending_def sample_stale_def split: option.splits goval.splits if_splits
      dest!: sym [where s = "Some _"])

definition sample_noticed :: db where
  "sample_noticed = create_notice sample_notice sample_now empty_db"

lemma sample_claims_notice:
  "fst (Claim None sample_pending sample_stale sample_now (sample_now - noticeLease) sample_noticed) = Inr [sample_notice]"
  by code_simp

text \<open>
  C24: No notice is posted again once a post of it was recorded: however the claims and posts of overlapping
  polls interleave, whichever posts are refused and their notices put back, and whichever writes fail, provided
  every poll settles what it claimed before its lease runs out, as the job's timeout makes it, and the two queries
  of a claim list only notices that match them, each once. And no two polls within their leases hold a notice in
  common.
\<close>

theorem no_notice_posted_twice:
  assumes "lists_pending pending" and "lists_stale stale" and "lists_once pending" and "\<And>t. lists_once (stale t)"
    and "posting_run pending stale (posting_start empty_db now) s"
  shows "(\<forall>later i earlier. pstPosts s = later @ (i, True) # earlier \<longrightarrow> i \<notin> fst ` set later)
    \<and> (\<forall>p q i. p \<noteq> q \<longrightarrow> within_lease s p (pstNow s) \<longrightarrow> within_lease s q (pstNow s) \<longrightarrow> i \<in> set (pstHeld s p) \<longrightarrow> i \<notin> set (pstHeld s q))"
proof -
  from posting_run_apart [OF assms starts_apart] have s: "held_apart s" "posted_once (pstPosts s)" by simp_all
  have "i \<notin> fst ` set later" if "pstPosts s = later @ (i, True) # earlier" for later i earlier
    using s(2) posted_once_split unfolding that by blast
  moreover have "i \<notin> set (pstHeld s q)" if "p \<noteq> q" "within_lease s p (pstNow s)" "within_lease s q (pstNow s)" "i \<in> set (pstHeld s p)" for p q i
    using held_kept(2) [OF s(1) order_refl that(4,2), of q] that(1,3) by auto
  ultimately show ?thesis by blast
qed

text \<open>The first poll is refused and puts the notice back; the second, a minute later, posts it.\<close>

lemma sample_reposts:
  "\<exists>s. posting_run sample_pending sample_stale (posting_start empty_db sample_now) s \<and> pstPosts s = [(''n1'', True)]"
proof -
  let ?q = "sample_pending" and ?st = "sample_stale" and ?later = "sample_now + minute"
  define d1 where "d1 = snd (Claim None ?q ?st sample_now (sample_now - noticeLease) sample_noticed)"
  define d2 where "d2 = snd (Unclaim None ''n1'' d1)"
  define d3 where "d3 = snd (Claim None ?q ?st ?later (?later - noticeLease) d2)"
  define d4 where "d4 = snd (NoticePosted None ''n1'' ?later d3)"
  have raised: "snd (Raise None sample_notice sample_now empty_db) = sample_noticed" by (simp add: Raise_def sample_noticed_def)
  have first: "Claim None ?q ?st sample_now (sample_now - noticeLease) sample_noticed = (Inr [sample_notice], d1)"
    unfolding d1_def by (rule split_result [OF sample_claims_notice])
  have "fst (Claim None ?q ?st ?later (?later - noticeLease) d2) = Inr [sample_notice]" unfolding d2_def d1_def by code_simp
  then have second: "Claim None ?q ?st ?later (?later - noticeLease) d2 = (Inr [sample_notice], d3)"
    unfolding d3_def by (rule split_result)
  have "fst (NoticePosted None ''n1'' ?later d3) = Inr ()" unfolding d3_def d2_def d1_def by code_simp
  then have last: "NoticePosted None ''n1'' ?later d3 = (Inr (), d4)" unfolding d4_def by (rule split_result)
  have id: "noticeID sample_notice = ''n1''" by (simp add: sample_notice_def)
  have "posting_run ?q ?st (posting_start empty_db sample_now)
      \<lparr>pstDB = d4, pstSince = (\<lambda>_. 0)(0 := sample_now, 1 := ?later), pstHeld = (\<lambda>_. []), pstPosts = [(''n1'', True)], pstNow = ?later\<rparr>"
    (is "posting_run _ _ ?s0 ?s5")
  proof -
    let ?s1 = "?s0\<lparr>pstDB := sample_noticed\<rparr>"
    let ?s2 = "?s1\<lparr>pstDB := d1, pstSince := (\<lambda>_. 0)(0 := sample_now), pstHeld := (\<lambda>_. [])(0 := [''n1''])\<rparr>"
    let ?s3 = "?s2\<lparr>pstDB := d2, pstHeld := (\<lambda>_. [])\<rparr>"
    let ?s4 = "?s3\<lparr>pstDB := d3, pstSince := (\<lambda>_. 0)(0 := sample_now, 1 := ?later), pstHeld := (\<lambda>_. [])(1 := [''n1'']), pstNow := ?later\<rparr>"
    have wait: "0 < minute" "0 < noticeLease" by (simp_all add: minute_def noticeLease_def)
    have s1: "posting_step ?q ?st ?s0 ?s1"
      using posting_step.raised [of ?s0 sample_now ?q ?st None sample_notice sample_now] raised by (simp add: posting_start_def)
    have s2: "posting_step ?q ?st ?s1 ?s2"
      using posting_step.claimed [of ?s1 sample_now 0 None ?q ?st] first id by (simp add: posting_start_def)
    have s3: "posting_step ?q ?st ?s2 ?s3"
      using posting_step.refused [of ?s2 sample_now "''n1''" 0 ?q ?st None] wait
      by (simp add: posting_start_def settled_one_def within_lease_def d2_def fun_upd_idem)
    have s4: "posting_step ?q ?st ?s3 ?s4"
      using posting_step.claimed [of ?s3 ?later 1 None ?q ?st] second id wait by (simp add: posting_start_def)
    have s5: "posting_step ?q ?st ?s4 ?s5"
      using posting_step.posted [of ?s4 ?later "''n1''" 1 None "Inr ()" d4 ?q ?st] last wait
      by (simp add: posting_start_def settled_one_def within_lease_def fun_upd_idem)
    show ?thesis
      by (rule posting_run.goes_on [OF _ s5], rule posting_run.goes_on [OF _ s4], rule posting_run.goes_on [OF _ s3],
          rule posting_run.goes_on [OF _ s2], rule posting_run.goes_on [OF posting_run.begins s1])
  qed
  then show ?thesis by (intro exI [of _ ?s5] conjI) simp_all
qed

theorem no_notice_posted_twice_witness:
  "\<exists>s. posting_run sample_pending sample_stale (posting_start empty_db sample_now) s \<and> pstPosts s = [(''n1'', True)]
    \<and> (\<forall>later i earlier. pstPosts s = later @ (i, True) # earlier \<longrightarrow> i \<notin> fst ` set later)"
proof -
  have "lists_once sample_pending" "lists_once (sample_stale t)" for t
    by (auto simp: lists_once_def sample_pending_def sample_stale_def split: option.splits goval.splits)
  from no_notice_posted_twice [OF sample_queries this] sample_reposts show ?thesis by blast
qed

text \<open>
  C25: A poll posts each notice it claimed or puts it back: when its own writes succeed, a posted
  notice ends posted and a refused one pending again for the next poll; one whose write fails stays
  claimed until its lease runs out; and no other notice is touched.
\<close>

theorem claimed_notices_settled:
  assumes "distinct (map noticeID ns)" and "all_claimed d ns"
  shows "fst (post_each posts faults clock ns d) = filter posts ns
    \<and> (\<forall>n \<in> set ns. \<exists>doc. notices (snd (post_each posts faults clock ns d)) (noticeID n) = Some doc
         \<and> str doc noticeStateField = notice_outcome posts faults n)
    \<and> (\<forall>i. i \<notin> noticeID ` set ns \<longrightarrow> notices (snd (post_each posts faults clock ns d)) i = notices d i)"
  using post_each_outcome [OF assms] by blast

theorem claimed_notices_settled_witness:
  "\<exists>doc. notices (snd (post_each (\<lambda>_. False) (\<lambda>_. None) (\<lambda>_. sample_now) [sample_notice]
       (snd (Claim None sample_pending sample_stale sample_now (sample_now - noticeLease) sample_noticed)))) ''n1'' = Some doc
     \<and> str doc noticeStateField = noticePending"
proof -
  have "all_claimed (snd (Claim None sample_pending sample_stale sample_now (sample_now - noticeLease) sample_noticed)) [sample_notice]"
    using Claim_effect(2) [OF split_result [OF sample_claims_notice], of sample_notice] by (auto simp: all_claimed_def)
  then show ?thesis
    using claimed_notices_settled [of "[sample_notice]" _ "\<lambda>_. False" "\<lambda>_. None" "\<lambda>_. sample_now"]
    by (simp add: sample_notice_def notice_outcome_def)
qed

section \<open>What a poll does\<close>

text \<open>
  C26: A whole poll is a run of the store's operations: whatever Linear, GitHub and the owner's settings
  answer, the store a poll leaves is reached from the one it found by steps of the store machine. So
  it keeps the invariant tying reservations to runs, and leaves no more runs in flight than it
  found or the platform cap allows.
\<close>

theorem poll_is_store_run:
  assumes "poll_cap c \<le> cap" and "answers_rows (envRunReads e)"
  shows "(step cap)\<^sup>*\<^sup>* d (pollDB (snd (Poll c e d)))
    \<and> (ledger_inv d \<longrightarrow> ledger_inv (pollDB (snd (Poll c e d)))
        \<and> int (length (Reservations (readLedger (pollDB (snd (Poll c e d))))))
            \<le> max (int (length (Reservations (readLedger d)))) cap)"
proof -
  have run: "store_steps cap (poll_start d) (snd (Poll c e d))" by (rule Poll_steps [OF assms])
  then have "(step cap)\<^sup>*\<^sup>* d (pollDB (snd (Poll c e d)))" unfolding store_steps_def poll_start_db .
  moreover note store_steps_inv [OF run, unfolded poll_start_db] store_steps_in_flight [OF run, unfolded poll_start_db]
  ultimately show ?thesis by blast
qed

theorem poll_is_store_run_witness:
  "ledger_inv (pollDB (snd (Poll sample_config (sample_env_with (\<lambda>_. None)) sample_db)))
    \<and> (step 20)\<^sup>*\<^sup>* sample_db (pollDB (snd (Poll sample_config (sample_env_with (\<lambda>_. None)) sample_db)))"
  using poll_is_store_run [OF sample_cap sample_reads] sample_inv by blast

text \<open>
  C27: A poll starts exactly the runs it claims: the starts it asks of GitHub are, in order, one for each
  of a list of distinct claims, and each of those claims is a \<open>TryClaim\<close> that was admitted on a store
  this poll passed through, before the store it leaves.
\<close>

theorem poll_starts_what_it_claims:
  assumes "ledger_inv d" and "poll_cap c \<le> cap" and "answers_rows (envRunReads e)"
  shows "\<exists>claims. filter starts (pollCalls (snd (Poll c e d))) = map DispatchRun claims
    \<and> distinct (map claimRunID claims)
    \<and> (\<forall>cl \<in> set claims. \<exists>d1 d2 fault query now cfg facts res why.
          (step cap)\<^sup>*\<^sup>* d d1 \<and> TryClaim fault query (claimRunID cl) now cfg facts res d1 = (Inr (True, why), d2)
          \<and> (step cap)\<^sup>*\<^sup>* d2 (pollDB (snd (Poll c e d))))"
proof (cases "envMissing e = []")
  case True
  obtain out s where run: "poll c e (poll_start d) = (out, s)" by (metis prod.exhaust)
  obtain claims where started: "started c e cap (poll_start d) claims s" using poll_started [OF run] assms by auto
  have "filter starts (pollCalls (snd (Poll c e d))) = map DispatchRun claims"
    using started Poll_calls [OF True run] by (simp add: started_def quiet_def poll_start_def)
  moreover have "distinct (map claimRunID claims)" using started by (auto simp: started_def walk_ok_def)
  moreover have "\<exists>d1 d2 fault query now cfg facts res why.
          (step cap)\<^sup>*\<^sup>* d d1 \<and> TryClaim fault query (claimRunID cl) now cfg facts res d1 = (Inr (True, why), d2)
          \<and> (step cap)\<^sup>*\<^sup>* d2 (pollDB (snd (Poll c e d)))" if cl: "cl \<in> set claims" for cl
  proof -
    obtain t u :: poll_state and w where t: "store_steps cap (poll_start d) t" "claims_run c e w cl (pollDB t) (pollDB u)"
      "store_steps cap u s" using started_claim [OF started cl] .
    from store_steps_trans [OF t(3) Poll_after [OF assms(3) True run]] have "(step cap)\<^sup>*\<^sup>* (pollDB u) (pollDB (snd (Poll c e d)))"
      by (simp only: store_steps_def)
    moreover have "(step cap)\<^sup>*\<^sup>* d (pollDB t)" using t(1) by (simp only: store_steps_def poll_start_db)
    ultimately show ?thesis using claims_run_try [OF t(2)] by blast
  qed
  ultimately show ?thesis by blast
qed (simp add: Poll_def poll_start_def)

theorem poll_starts_what_it_claims_witness:
  "\<exists>claims. filter starts (pollCalls (snd (Poll sample_config (sample_env_with (\<lambda>_. None)) sample_db))) = map DispatchRun claims
    \<and> distinct (map claimRunID claims)"
  using poll_starts_what_it_claims [OF sample_inv sample_cap sample_reads, of "\<lambda>_. None"] by blast

text \<open>
  C28: A poll that finds the breaker tripped, or cannot read it, starts no run and reports none
  dispatched, whatever else it does.
\<close>

theorem tripped_breaker_starts_nothing:
  assumes "ledger_inv d" and "envFault e CBreaker [] \<noteq> None \<or> Tripped d"
  shows "pollDispatched (snd (Poll c e d)) = [] \<and> (\<forall>cl. DispatchRun cl \<notin> set (pollCalls (snd (Poll c e d))))"
proof (cases "envMissing e = []")
  case True
  obtain out s where run: "poll c e (poll_start d) = (out, s)" by (metis prod.exhaust)
  obtain claims where started: "started c e (poll_cap c) (poll_start d) claims s" using poll_started [OF run] assms(1) by auto
  have "claims = []" using started_tripped [OF started] assms by simp
  with started Poll_calls [OF True run] have "pollDispatched (snd (Poll c e d)) = []"
    and none: "filter starts (pollCalls (snd (Poll c e d))) = []" by (simp_all add: started_def quiet_def poll_start_def)
  then show ?thesis unfolding filter_empty_conv by (metis starts.simps(1))
qed (simp add: Poll_def poll_start_def)

definition sample_unread_breaker :: env where
  "sample_unread_breaker = sample_env\<lparr>envFault := (\<lambda>c r. if c = CBreaker then Some NotFound else None)\<rparr>"

theorem tripped_breaker_starts_nothing_witness:
  "pollDispatched (snd (Poll sample_config sample_unread_breaker sample_db)) = []"
  using tripped_breaker_starts_nothing [OF sample_inv, of sample_unread_breaker sample_config]
  by (simp add: sample_unread_breaker_def)

text \<open>
  C29: What becomes of a start: a run GitHub took is reported dispatched and stands claimed, with no
  outcome, when the claims of the poll are through; a run it refused is not reported, and, when its release
  is written, is claimable again on its row and holds no reservation.
\<close>

theorem started_run_stands:
  assumes "ledger_inv d" and run: "poll c e (poll_start d) = (out, s)" and "DispatchRun cl \<in> set (pollCalls s)"
  shows "if envDispatch e cl = None
    then claimRunID cl \<in> set (pollDispatched s) \<and> taken (pollDB s) (claimRunID cl)
    else claimRunID cl \<notin> set (pollDispatched s)
      \<and> (envFault e CRelease (claimRunID cl) = None \<longrightarrow>
           (\<exists>row. claimable (pollDB s) (claimRunID cl) row) \<and> holds_none (pollDB s) (claimRunID cl))"
proof -
  obtain claims where started: "started c e (poll_cap c) (poll_start d) claims s" using poll_started [OF run] assms(1) by auto
  then have calls: "filter starts (pollCalls s) = map DispatchRun claims"
    and sent: "pollDispatched s = map claimRunID (filter (\<lambda>cl. envDispatch e cl = None) claims)"
    by (simp_all add: started_def poll_start_def)
  have "DispatchRun cl \<in> set (filter starts (pollCalls s))" using assms(3) by simp
  then have cl: "cl \<in> set claims" unfolding calls by auto
  have ids: "distinct (map claimRunID claims)" using started by (auto simp: started_def walk_ok_def)
  have stands: "start_outcome e cl (pollDB s)" using started cl by (simp add: started_def)
  have inv: "ledger_inv (pollDB s)"
    using store_steps_inv [OF poll_steps [where c = c and e = e and s = "poll_start d", OF order.refl]] run assms(1) by simp
  have "claimRunID cl \<in> set (pollDispatched s) \<longleftrightarrow> envDispatch e cl = None"
    using cl inj_onD [OF ids [unfolded distinct_map, THEN conjunct2]] unfolding sent by fastforce
  moreover have "holds_none (pollDB s) r" if "claimable (pollDB s) r row" for r row
    using that idle_holds_none [OF inv, of r row] by (auto simp: claimable_def rowState_def)
  ultimately show ?thesis using stands by (auto simp: start_outcome_def)
qed

theorem started_run_stands_witness:
  "\<exists>out s. poll sample_config (sample_env_with (\<lambda>_. Some NetworkError)) (poll_start sample_db) = (out, s)
     \<and> (\<exists>row. claimable (pollDB s) sample_run row) \<and> holds_none (pollDB s) sample_run"
proof -
  obtain out s where run: "poll sample_config (sample_env_with (\<lambda>_. Some NetworkError)) (poll_start sample_db) = (out, s)"
    "DispatchRun sample_claim \<in> set (pollCalls s)" using sample_poll [of "\<lambda>_. Some NetworkError"] by blast
  from started_run_stands [OF sample_inv run] run(1) show ?thesis by (simp add: sample_claim_def)
qed

text \<open>
  C30: A ticket admission accepts yields a well-formed run: an identifier usable as a document and a
  branch name, one of the three sizes, a repository on the allowlist, a priority from 1 to 5, a title
  of at most 256 bytes and a body of at most 32768, neither blank, a sizer's name of at most 64, and an
  encoding that fits the environment it is passed in.
\<close>

theorem built_run_wellformed:
  assumes "build table allow now issue = Inr q"
  shows "MatchString ticketIDPattern (qRunID q) \<and> run_id_ok (qRunID q) \<and> length (qRunID q) \<le> 64
    \<and> tkID (qTicket q) = qRunID q \<and> tkSize (qTicket q) \<in> set ticketSizes
    \<and> qRepo q \<in> set allow \<and> 1 \<le> qPriority q \<and> qPriority q \<le> 5
    \<and> \<not> blank (tkTitle (qTicket q)) \<and> length (tkTitle (qTicket q)) \<le> 256
    \<and> \<not> blank (tkBody (qTicket q)) \<and> length (tkBody (qTicket q)) \<le> 32768 \<and> utf8_valid (tkBody (qTicket q))
    \<and> length (tkSizedBy (qTicket q)) \<le> 64
    \<and> length (Encode (as_full (qTicket q))) \<le> 98304"
proof -
  obtain sized rank where b: "repository (isLabels issue) allow = Inr (qRepo q)" "PriorityRank (isPriority issue) = Inr (qPriority q)"
    "Validate table (as_full (qTicket q)) = None" "qTicket q = new_ticket issue sized" "qRunID q = isID issue"
    by (rule build_ok [OF assms])
  have full: "tkID (as_full t) = tkID t" "tkTitle (as_full t) = tkTitle t" "tkSize (as_full t) = tkSize t" "tkBody (as_full t) = tkBody t"
    "tkSizedBy (as_full t) = tkSizedBy t" for t
    by (simp_all add: as_full_def ticket.defs)
  have "tkID (qTicket q) = qRunID q" using b(4,5) by (simp add: new_ticket_def)
  with Validate_ok [OF b(3)] repository_ok [OF b(1)] PriorityRank_ok [OF b(2)] ticket_id_ok [of "qRunID q"]
  show ?thesis by (simp add: full)
qed

theorem built_run_wellformed_witness:
  "\<exists>q. build (\<lambda>_. False) [''owner/app''] sample_now sample_issue = Inr q \<and> run_id_ok (qRunID q) \<and> qPriority q \<le> 5"
proof -
  obtain q where "build (\<lambda>_. False) [''owner/app''] sample_now sample_issue = Inr q" using sample_issue_builds by blast
  with built_run_wellformed [OF this] show ?thesis by blast
qed

text \<open>
  C31: The auto-merge bar is exact: over the ten latest merges, all measured and with sums that do not
  overflow, it passes precisely when there are ten, no commit went unmeasured, the agent wrote
  something, the owner rewrote at most a tenth of it, and no auto-merged change was reverted. The
  comparison is the code's, in \<open>float64\<close>.
\<close>

theorem auto_merge_bar_exact:
  assumes "counted (take 10 trailing)"
  shows "WithinBar (AutoMergeOn trailing) \<longleftrightarrow>
     length trailing \<ge> 10 \<and> (\<forall>s \<in> set (take 10 trailing). unmeasuredCommits (sampleLines s) \<le> 0)
     \<and> 0 < (\<Sum>s\<leftarrow>take 10 trailing. agentLines (sampleLines s))
     \<and> 10 * (\<Sum>s\<leftarrow>take 10 trailing. ownerLines (sampleLines s)) \<le> (\<Sum>s\<leftarrow>take 10 trailing. agentLines (sampleLines s))
     \<and> \<not> (\<exists>s \<in> set (take 10 trailing). sampleAutoMerged s \<and> sampleReverted s)"
proof -
  have "Window trailing TrailingPRs = take 10 trailing" by (auto simp: Window_def TrailingPRs_def Let_def)
  with assms show ?thesis by (intro AutoMergeOn_iff) simp
qed

definition sample_merge :: "int \<Rightarrow> int \<Rightarrow> sample" where
  "sample_merge agent owner = \<lparr>sampleRun = ''r'', sampleSize = ''S'', sampleRepo = ''owner/app'', samplePRURL = [], sampleMergedAt = sample_now,
     samplePR = 1, sampleTitle = [], samplePlanModel = [], sampleBuildModel = [], sampleReviewModel = [],
     sampleLines = \<lparr>agentLines = agent, ownerLines = owner, reviewFoundLines = 0, ownerChangeLines = 0, unlabelledLines = 0,
       unmeasuredCommits = 0\<rparr>, sampleAutoMerged = True, sampleReverted = False\<rparr>"

theorem auto_merge_bar_exact_witness:
  "WithinBar (AutoMergeOn (replicate 10 (sample_merge 10 1))) \<and> \<not> WithinBar (AutoMergeOn (sample_merge 10 2 # replicate 9 (sample_merge 10 1)))"
  using auto_merge_bar_exact [of "replicate 10 (sample_merge 10 1)"]
    auto_merge_bar_exact [of "sample_merge 10 2 # replicate 9 (sample_merge 10 1)"]
  by (simp add: counted_def sample_merge_def sum_list_replicate list_all_iff)

text \<open>
  C32: What is recorded of a merged pull request reads back: the sample of the row written has the lines,
  the merge time, the number and the cut title that were measured, is not marked reverted, and keeps
  the row's repository and size.
\<close>

theorem measured_sample_reads_back:
  assumes "runs d runID = Some row"
  shows "\<exists>row'. RecordRewrite None runID m d = (Inr (), put_row runID row' d)
    \<and> rewriteOf row' = (msLines m, True) \<and> sampleLines (sample_of runID row') = msLines m
    \<and> sampleMergedAt (sample_of runID row') = msMergedAt m \<and> samplePR (sample_of runID row') = msPR m
    \<and> sampleTitle (sample_of runID row') = titleText (msTitle m) \<and> \<not> sampleReverted (sample_of runID row')
    \<and> sampleRepo (sample_of runID row') = str row repoField \<and> sampleSize (sample_of runID row') = str row sizeField"
  by (rule recorded_sample [OF assms, of m]) blast

theorem measured_sample_reads_back_witness:
  "\<exists>row'. sampleLines (sample_of sample_run row') = sampleLines (sample_merge 10 2) \<and> samplePR (sample_of sample_run row') = 7
     \<and> fst (RecordRewrite None sample_run \<lparr>msLines = sampleLines (sample_merge 10 2), msMergedAt = sample_now, msPR = 7, msTitle = ''t''\<rparr> sample_db) = Inr ()"
  using measured_sample_reads_back [OF sample_row_reads(1), of "\<lparr>msLines = sampleLines (sample_merge 10 2), msMergedAt = sample_now, msPR = 7, msTitle = ''t''\<rparr>"]
  by auto




text \<open>
  C34: A start delegates only what the owner confirmed: a ticket a poll delegates belongs to a project
  whose start is pending, is in the phase the owner confirmed, on a repository this poll could read;
  it is unstarted, not delegated, carries no hold label, and its run, if it has one, can not be
  requeued, is not in the queue and is not in flight.
\<close>

theorem delegated_ticket_justified:
  assumes "DelegateIssue u \<in> set (pollCalls (pollProjects e reaches s))" and "DelegateIssue u \<notin> set (pollCalls s)"
  shows "\<exists>i projects p issues d.
      isUUID i = u \<and> envListed e = Inr projects \<and> p \<in> set projects \<and> \<not> is_zero (phStartRequestedAt p)
      \<and> envProjectIssues e (linearProjects projects) = Inr issues \<and> i \<in> set issues
      \<and> EqualFold (isProject i) (phLinearProject p) \<and> msName (isMilestone i) = phStartPhase p
      \<and> reach_of reaches (phRepository p) = Some True
      \<and> isStateType i \<in> set unstartedStates \<and> isDelegatedTo i = []
      \<and> \<not> (\<exists>l \<in> set (isLabels i). EqualFold l holdLabel)
      \<and> d = pollDB (recordClosed e issues (envClock e CProjects []) s)
      \<and> (\<forall>row. runs d (isID i) = Some row \<longrightarrow>
           (\<exists>err. requeueState row = Inl err) \<and> str row stateField \<notin> set candidateStates
           \<and> isID i \<notin> set (map flightTicket (inFlight (readLedger d))))"
proof -
  obtain i where i: "isUUID i = u" "start_justified e reaches s i" using pollProjects_delegates [OF assms] by blast
  obtain projects p issues ids where j: "envListed e = Inr projects" "p \<in> set projects" "\<not> is_zero (phStartRequestedAt p)"
      "envProjectIssues e (linearProjects projects) = Inr issues" "i \<in> set issues"
      "EqualFold (isProject i) (phLinearProject p)" "msName (isMilestone i) = phStartPhase p"
      "reach_of reaches (phRepository p) = Some True"
    and "isID i \<in> set ids"
    and eligible: "phaseEligible i (phRepository p)
      (case map_of (TicketRuns ids (pollDB (recordClosed e issues (envClock e CProjects []) s))) (isID i) of
         None \<Rightarrow> no_run | Some r \<Rightarrow> r)"
    using i(2) unfolding start_justified_def by blast
  note parts = phaseEligible_iff_parts [OF eligible] and row = eligible_row [OF \<open>isID i \<in> set ids\<close> _ eligible]
  show ?thesis
    using i(1) j parts(1,2,6) row
    by (intro exI [of _ i] exI [of _ projects] exI [of _ p] exI [of _ issues] exI conjI refl) blast+
qed

theorem delegated_ticket_justified_witness:
  "\<exists>(i :: issue) p issues. isUUID i = ''u-2'' \<and> envProjectIssues sample_project_env (linearProjects [p]) = Inr issues
     \<and> i \<in> set issues \<and> isStateType i \<in> set unstartedStates \<and> isDelegatedTo i = []"
proof -
  have "DelegateIssue ''u-2'' \<notin> set (pollCalls (poll_start empty_db))" by code_simp
  from delegated_ticket_justified [OF sample_project_calls this] obtain i :: issue and projects issues
    where "isUUID i = ''u-2''" "envListed sample_project_env = Inr projects"
      "envProjectIssues sample_project_env (linearProjects projects) = Inr issues" "i \<in> set issues"
      "isStateType i \<in> set unstartedStates" "isDelegatedTo i = []" by blast
  moreover have "envListed sample_project_env = Inr [sample_project]" by (simp add: sample_project_env_def)
  ultimately show ?thesis by auto
qed

end
